(* ===== verification/Prelude.thy ===== *)
theory Prelude
  imports Main "HOL-Library.AList" "HOL-Library.Sublist" "HOL-Library.Multiset"
    "HOL-Library.List_Lexorder" "HOL-Library.Char_ord"
begin

text \<open>
  Shared vocabulary of the development: the result type of fallible Rust functions, unsigned
  integers with the wrap-around of a release build, hash maps as association lists with
  distinct keys, and the list and option facts the component theories use.

  \<^item> \<open>Result<T, E>\<close> is the sum \<open>'e + 'a\<close>: \<open>Inl\<close> is \<open>Err\<close>, \<open>Inr\<close> is \<open>Ok\<close>; the \<open>?\<close> operator is
    \<open>and_then\<close>.
  \<^item> \<open>u64\<close> and \<open>u32\<close> are natural numbers; \<open>+ 1\<close> is written with its reduction modulo the width
    (the workspace sets no \<open>overflow-checks\<close>, so release arithmetic wraps), \<open>saturating_add\<close> with its
    clamp.
  \<^item> \<open>HashMap<K, V>\<close> is an association list; the order of the list stands for the unspecified
    iteration order. \<open>get\<close> is \<open>map_of\<close>, \<open>insert\<close> is \<open>AList.update\<close>, \<open>remove\<close> is
    \<open>AList.delete\<close>.
\<close>

named_theorems result_simps \<open>inversion of the result monad\<close>
named_theorems hashmap_simps \<open>lookups after hash map updates\<close>
named_theorems bounds_simps \<open>unsigned arithmetic below the wrap-around\<close>

subsection \<open>Results\<close>

definition and_then :: "'e + 'a \<Rightarrow> ('a \<Rightarrow> 'e + 'b) \<Rightarrow> 'e + 'b" where
  "and_then r f = (case r of Inl e \<Rightarrow> Inl e | Inr x \<Rightarrow> f x)"

definition ok_or :: "'a option \<Rightarrow> 'e \<Rightarrow> 'e + 'a" where
  "ok_or v e = (case v of None \<Rightarrow> Inl e | Some x \<Rightarrow> Inr x)"

definition is_ok :: "'e + 'a \<Rightarrow> bool" where
  "is_ok r = (case r of Inl _ \<Rightarrow> False | Inr _ \<Rightarrow> True)"

lemma and_then_simps [simp]: "and_then (Inl e) f = Inl e" "and_then (Inr x) f = f x"
  by (simp_all add: and_then_def)

lemma is_ok_simps [simp]: "\<not> is_ok (Inl e)" "is_ok (Inr x)"
  by (simp_all add: is_ok_def)

lemma is_ok_iff: "is_ok r \<longleftrightarrow> (\<exists>x. r = Inr x)"
  by (cases r) simp_all

lemma ok_or_simps [simp]: "ok_or None e = Inl e" "ok_or (Some x) e = Inr x"
  by (simp_all add: ok_or_def)

lemma and_then_Inr_iff [result_simps]: "and_then r f = Inr y \<longleftrightarrow> (\<exists>x. r = Inr x \<and> f x = Inr y)"
  by (cases r) simp_all

lemma and_then_Inl_iff [result_simps]:
  "and_then r f = Inl e \<longleftrightarrow> r = Inl e \<or> (\<exists>x. r = Inr x \<and> f x = Inl e)"
  by (cases r) auto

lemma ok_or_Inr_iff [result_simps]: "ok_or v e = Inr x \<longleftrightarrow> v = Some x"
  by (cases v) simp_all

lemma ok_or_Inl_iff [result_simps]: "ok_or v e = Inl d \<longleftrightarrow> v = None \<and> d = e"
  by (cases v) auto

text \<open>A loop that stops at the first error, as \<open>for x in xs { f(x)?; }\<close> does.\<close>

fun try_fold :: "('s \<Rightarrow> 'a \<Rightarrow> 'e + 's) \<Rightarrow> 's \<Rightarrow> 'a list \<Rightarrow> 'e + 's" where
  "try_fold f s [] = Inr s"
| "try_fold f s (x # xs) = and_then (f s x) (\<lambda>t. try_fold f t xs)"

lemma try_fold_append:
  "try_fold f s (xs @ ys) = and_then (try_fold f s xs) (\<lambda>t. try_fold f t ys)"
proof (induction xs arbitrary: s)
  case (Cons x xs)
  then show ?case by (cases "f s x") simp_all
qed simp

lemma try_fold_invariant:
  assumes "try_fold f s xs = Inr t" and "I s"
    and "\<And>s x t. I s \<Longrightarrow> x \<in> set xs \<Longrightarrow> f s x = Inr t \<Longrightarrow> I t"
  shows "I t"
  using assms
proof (induction xs arbitrary: s)
  case (Cons x xs)
  from Cons.prems(1) obtain u where u: "f s x = Inr u" "try_fold f u xs = Inr t"
    by (auto simp: result_simps)
  from Cons.prems(2,3) u(1) have "I u" by (meson list.set_intros(1))
  then show ?case
    by (rule Cons.IH [OF u(2)]) (meson Cons.prems(3) list.set_intros(2))
qed simp

subsection \<open>Unsigned integers\<close>

abbreviation u64_max :: nat where "u64_max \<equiv> 2 ^ 64 - 1"
abbreviation u32_max :: nat where "u32_max \<equiv> 2 ^ 32 - 1"
abbreviation i64_max :: nat where "i64_max \<equiv> 2 ^ 63 - 1"

definition u64_add :: "nat \<Rightarrow> nat \<Rightarrow> nat" where
  "u64_add a b = (a + b) mod 2 ^ 64"

definition u32_add :: "nat \<Rightarrow> nat \<Rightarrow> nat" where
  "u32_add a b = (a + b) mod 2 ^ 32"

definition u64_saturating_add :: "nat \<Rightarrow> nat \<Rightarrow> nat" where
  "u64_saturating_add a b = min (a + b) u64_max"

definition u64_saturating_mul :: "nat \<Rightarrow> nat \<Rightarrow> nat" where
  "u64_saturating_mul a b = min (a * b) u64_max"

definition u32_saturating_add :: "nat \<Rightarrow> nat \<Rightarrow> nat" where
  "u32_saturating_add a b = min (a + b) u32_max"

definition u32_saturating_mul :: "nat \<Rightarrow> nat \<Rightarrow> nat" where
  "u32_saturating_mul a b = min (a * b) u32_max"

lemma u64_add_small [bounds_simps]: "a + b \<le> u64_max \<Longrightarrow> u64_add a b = a + b"
  by (simp add: u64_add_def)

lemma u32_add_small [bounds_simps]: "a + b \<le> u32_max \<Longrightarrow> u32_add a b = a + b"
  by (simp add: u32_add_def)

lemma u64_add_le [simp]: "u64_add a b \<le> u64_max"
  by (simp add: u64_add_def flip: less_Suc_eq_le)

lemma u64_add_wraps: "u64_add u64_max 1 = 0"
  by (simp add: u64_add_def)

lemma u64_saturating_add_le [simp]: "u64_saturating_add a b \<le> u64_max"
  by (simp add: u64_saturating_add_def)

lemma u64_saturating_mul_le [simp]: "u64_saturating_mul a b \<le> u64_max"
  by (simp add: u64_saturating_mul_def)

lemma u64_saturating_small [bounds_simps]:
  "a + b \<le> u64_max \<Longrightarrow> u64_saturating_add a b = a + b"
  "a * b \<le> u64_max \<Longrightarrow> u64_saturating_mul a b = a * b"
  by (simp_all add: u64_saturating_add_def u64_saturating_mul_def)

subsection \<open>Hash maps\<close>

type_synonym ('k, 'v) hash_map = "('k \<times> 'v) list"

abbreviation hm_keys :: "('k, 'v) hash_map \<Rightarrow> 'k set" where
  "hm_keys m \<equiv> fst ` set m"

definition hm_wf :: "('k, 'v) hash_map \<Rightarrow> bool" where
  "hm_wf m = distinct (map fst m)"

definition hm_contains :: "('k, 'v) hash_map \<Rightarrow> 'k \<Rightarrow> bool" where
  "hm_contains m k = (map_of m k \<noteq> None)"

definition hm_modify :: "'k \<Rightarrow> ('v \<Rightarrow> 'v) \<Rightarrow> ('k, 'v) hash_map \<Rightarrow> ('k, 'v) hash_map" where
  "hm_modify k f m = (case map_of m k of None \<Rightarrow> m | Some v \<Rightarrow> AList.update k (f v) m)"

lemmas hm_update_lookup [hashmap_simps] = update_conv'
lemmas hm_delete_lookup [hashmap_simps] = delete_conv'

lemma hm_contains_iff [hashmap_simps]: "hm_contains m k \<longleftrightarrow> k \<in> hm_keys m"
  by (simp add: hm_contains_def map_of_eq_None_iff)

lemma hm_modify_lookup [hashmap_simps]:
  "map_of (hm_modify k f m) = (map_of m)(k := map_option f (map_of m k))"
  by (auto simp: hm_modify_def update_conv' split: option.split)

lemma hm_keys_modify [simp]: "hm_keys (hm_modify k f m) = hm_keys m"
proof (cases "map_of m k")
  case (Some v)
  then have "k \<in> hm_keys m" by (force dest: map_of_SomeD)
  with Some show ?thesis by (auto simp: hm_modify_def dom_update)
qed (simp add: hm_modify_def)

lemma hm_wf_Nil [simp]: "hm_wf []"
  by (simp add: hm_wf_def)

lemma hm_wf_update [simp]: "hm_wf m \<Longrightarrow> hm_wf (AList.update k v m)"
  by (simp add: hm_wf_def distinct_update)

lemma hm_wf_delete [simp]: "hm_wf m \<Longrightarrow> hm_wf (AList.delete k m)"
  by (simp add: hm_wf_def distinct_delete)

lemma hm_wf_modify [simp]: "hm_wf m \<Longrightarrow> hm_wf (hm_modify k f m)"
  by (auto simp: hm_modify_def split: option.split)

lemma hm_wf_map_of_iff: "hm_wf m \<Longrightarrow> map_of m k = Some v \<longleftrightarrow> (k, v) \<in> set m"
  by (simp add: hm_wf_def)

text \<open>\<open>collect::<HashMap<_, _>>()\<close>: later pairs overwrite earlier ones.\<close>

definition hm_collect :: "('k \<times> 'v) list \<Rightarrow> ('k, 'v) hash_map" where
  "hm_collect ps = fold (\<lambda>(k, v) m. AList.update k v m) ps []"

lemma hm_fold_lookup:
  "map_of (fold (\<lambda>(k, v) m. AList.update k v m) ps m) = map_of m ++ map_of (rev ps)"
proof (induction ps arbitrary: m)
  case (Cons p ps)
  then show ?case
    by (cases p) (auto simp: update_conv' map_add_def fun_eq_iff split: option.splits)
qed simp

lemma hm_collect_lookup [hashmap_simps]: "map_of (hm_collect ps) = map_of (rev ps)"
  by (simp add: hm_collect_def hm_fold_lookup)

lemma hm_fold_wf: "hm_wf m \<Longrightarrow> hm_wf (fold (\<lambda>(k, v) m. AList.update k v m) ps m)"
  by (induction ps arbitrary: m) auto

lemma hm_collect_wf [simp]: "hm_wf (hm_collect ps)"
  by (simp add: hm_collect_def hm_fold_wf)

lemma hm_collect_keys [hashmap_simps]: "hm_keys (hm_collect ps) = fst ` set ps"
  using arg_cong [OF hm_collect_lookup [of ps], of dom] by (simp add: dom_map_of_conv_image_fst)

subsection \<open>Lists\<close>

text \<open>\<open>iter().max().unwrap_or(0)\<close>.\<close>

definition max_or_0 :: "nat list \<Rightarrow> nat" where
  "max_or_0 xs = foldr max xs 0"

lemma max_or_0_Nil [simp]: "max_or_0 [] = 0"
  by (simp add: max_or_0_def)

lemma max_or_0_Cons [simp]: "max_or_0 (x # xs) = max x (max_or_0 xs)"
  by (simp add: max_or_0_def)

lemma max_or_0_append [simp]: "max_or_0 (xs @ ys) = max (max_or_0 xs) (max_or_0 ys)"
  by (induction xs) auto

lemma max_or_0_upper: "x \<in> set xs \<Longrightarrow> x \<le> max_or_0 xs"
  by (induction xs) auto

lemma max_or_0_le_iff: "max_or_0 xs \<le> b \<longleftrightarrow> (\<forall>x \<in> set xs. x \<le> b)"
  by (induction xs) auto

lemma max_or_0_set: "set xs = set ys \<Longrightarrow> max_or_0 xs = max_or_0 ys"
  by (rule antisym) (simp_all add: max_or_0_le_iff max_or_0_upper)

lemma find_key_map_of:
  "find (\<lambda>e. key e = k) xs = map_of (map (\<lambda>e. (key e, e)) xs) k"
  by (induction xs) auto

text \<open>\<open>seen.insert(key)\<close> in a loop: the entries whose key was not seen before, and the keys of the
  others.\<close>

fun dedup_keys :: "('a \<Rightarrow> 'k) \<Rightarrow> 'k set \<Rightarrow> 'a list \<Rightarrow> 'a list \<times> 'k list" where
  "dedup_keys key seen [] = ([], [])"
| "dedup_keys key seen (x # xs) =
     (if key x \<in> seen
      then (let (us, ds) = dedup_keys key seen xs in (us, key x # ds))
      else (let (us, ds) = dedup_keys key (insert (key x) seen) xs in (x # us, ds)))"

lemma dedup_keys_unique:
  assumes "dedup_keys key seen xs = (us, ds)"
  shows "distinct (map key us)" "key ` set us = key ` set xs - seen" "set us \<subseteq> set xs"
    "length us + length ds = length xs"
proof -
  have "distinct (map key us) \<and> key ` set us = key ` set xs - seen \<and> set us \<subseteq> set xs
      \<and> length us + length ds = length xs"
    using assms
  proof (induction xs arbitrary: seen us ds)
    case (Cons x xs)
    show ?case
    proof (cases "key x \<in> seen")
      case True
      with Cons.prems obtain ds' where "dedup_keys key seen xs = (us, ds')" "ds = key x # ds'"
        by (auto split: prod.splits)
      with Cons.IH [of seen us ds'] True show ?thesis by auto
    next
      case False
      with Cons.prems obtain us' where
        "dedup_keys key (insert (key x) seen) xs = (us', ds)" "us = x # us'"
        by (auto split: prod.splits)
      with Cons.IH [of "insert (key x) seen" us' ds] False show ?thesis by auto
    qed
  qed simp
  then show "distinct (map key us)" "key ` set us = key ` set xs - seen" "set us \<subseteq> set xs"
    "length us + length ds = length xs" by auto
qed

lemma dedup_keys_id:
  "distinct (map key xs) \<Longrightarrow> key ` set xs \<inter> seen = {} \<Longrightarrow> dedup_keys key seen xs = (xs, [])"
  by (induction xs arbitrary: seen) auto

lemma dedup_keys_none:
  "snd (dedup_keys key seen xs) = [] \<longleftrightarrow> distinct (map key xs) \<and> key ` set xs \<inter> seen = {}"
proof (induction xs arbitrary: seen)
  case (Cons x xs)
  then show ?case by (cases "key x \<in> seen") (auto simp: case_prod_beta)
qed simp

lemma dedup_keys_sorted:
  "sorted (map key xs) \<Longrightarrow> sorted (map key (fst (dedup_keys key seen xs)))"
proof (induction xs arbitrary: seen)
  case (Cons x xs)
  have "set (fst (dedup_keys key t xs)) \<subseteq> set xs" for t
    using dedup_keys_unique(3) [of key t xs] by (cases "dedup_keys key t xs") auto
  with Cons show ?case by (auto simp: case_prod_beta subset_iff)
qed simp

lemma sorted_key_filter:
  "sorted (map f xs) \<Longrightarrow> sorted (map f (filter P xs))"
  by (induction xs) auto

lemma distinct_key_filter:
  "distinct (map f xs) \<Longrightarrow> distinct (map f (filter P xs))"
  by (induction xs) auto

lemma distinct_key_inj:
  "distinct (map f xs) \<Longrightarrow> x \<in> set xs \<Longrightarrow> y \<in> set xs \<Longrightarrow> f x = f y \<Longrightarrow> x = y"
  by (simp add: distinct_map inj_on_def)

text \<open>The measure of every walk that marks what it visits.\<close>

lemma card_visit_less:
  "finite A \<Longrightarrow> x \<in> A \<Longrightarrow> x \<notin> V \<Longrightarrow> card (A - insert x V) < card (A - V)"
  by (intro psubset_card_mono) auto

lemma map_of_key: "map_of m k = Some v \<Longrightarrow> k \<in> fst ` set m"
  by (force dest: map_of_SomeD)

lemma distinct_remdups_adj_sorted: "sorted xs \<Longrightarrow> distinct (remdups_adj xs)"
  by (induction xs rule: remdups_adj.induct) (auto simp: antisym_conv1)

text \<open>\<open>&xs[a..b]\<close>.\<close>

definition slice :: "nat \<Rightarrow> nat \<Rightarrow> 'a list \<Rightarrow> 'a list" where
  "slice a b xs = drop a (take b xs)"

subsection \<open>Histories of operations\<close>

text \<open>
  A component whose operations change its state one at a time: what relates a history of operations to the state after
  it, once kept by every operation, holds of every history.
\<close>

locale operation_history =
  fixes step :: "'op \<Rightarrow> 's \<Rightarrow> 's" and init :: 's and related :: "'op list \<Rightarrow> 's \<Rightarrow> bool"
  assumes related_init: "related [] init"
    and related_step: "related h s \<Longrightarrow> related (h @ [x]) (step x s)"
begin

lemma related_history: "related h (fold step h init)"
  by (induction h rule: rev_induct) (simp_all add: related_init related_step)

end

end
