(* ===== verification/Rust_Text.thy ===== *)
theory Rust_Text
  imports Prelude
begin

text \<open>
  Rust strings as their UTF-8 bytes (\<open>string\<close> is a list of bytes): \<open>len\<close> is \<open>length\<close>, \<open>==\<close> and
  \<open>cmp\<close> are equality and the lexicographic order of the bytes, which is what \<open>str\<close> implements.
  \<open>trim\<close> strips the code points with the Unicode property White_Space, given here by their UTF-8
  encodings; \<open>to_ascii_lowercase\<close> and the decimal rendering and parsing of \<open>u64\<close> work on bytes as
  in the standard library.
\<close>

subsection \<open>White space\<close>

definition utf8 :: "nat list \<Rightarrow> string" where
  "utf8 bs = map char_of bs"

text \<open>U+0009 to U+000D, U+0020, U+0085, U+00A0, U+1680, U+2000 to U+200A, U+2028, U+2029, U+202F,
  U+205F, U+3000.\<close>

definition white_space :: "string list" where
  "white_space =
     map (\<lambda>b. utf8 [b]) [32, 9, 10, 11, 12, 13]
     @ [utf8 [194, 133], utf8 [194, 160], utf8 [225, 154, 128]]
     @ map (\<lambda>b. utf8 [226, 128, b]) [128, 129, 130, 131, 132, 133, 134, 135, 136, 137, 138, 168, 169, 175]
     @ [utf8 [226, 129, 159], utf8 [227, 128, 128]]"

lemma white_space_nonempty: "w \<in> set white_space \<Longrightarrow> w \<noteq> []"
  by (auto simp: white_space_def utf8_def)

fun strip_codes :: "string list \<Rightarrow> string \<Rightarrow> string" where
  "strip_codes ws s =
     (case find (\<lambda>w. w \<noteq> [] \<and> prefix w s) ws of
        None \<Rightarrow> s
      | Some w \<Rightarrow> if w = [] \<or> s = [] then s else strip_codes ws (drop (length w) s))"

declare strip_codes.simps [simp del]

definition trim_start :: "string \<Rightarrow> string" where
  "trim_start s = strip_codes white_space s"

definition trim_end :: "string \<Rightarrow> string" where
  "trim_end s = rev (strip_codes (map rev white_space) (rev s))"

definition trim :: "string \<Rightarrow> string" where
  "trim s = trim_end (trim_start s)"

definition no_code_prefix :: "string list \<Rightarrow> string \<Rightarrow> bool" where
  "no_code_prefix ws s = (\<forall>w \<in> set ws. \<not> (w \<noteq> [] \<and> prefix w s))"

lemma strip_codes_id: "no_code_prefix ws s \<Longrightarrow> strip_codes ws s = s"
  by (subst strip_codes.simps) (auto simp: no_code_prefix_def find_None_iff split: option.split
    dest!: find_Some_iff [THEN iffD1] dest: nth_mem)

lemma strip_codes_result: "no_code_prefix ws (strip_codes ws s) \<and> suffix (strip_codes ws s) s"
proof (induction ws s rule: strip_codes.induct)
  case (1 ws s)
  show ?case
  proof (cases "find (\<lambda>w. w \<noteq> [] \<and> prefix w s) ws")
    case None
    then have "no_code_prefix ws s" by (auto simp: find_None_iff no_code_prefix_def)
    then show ?thesis by (simp add: strip_codes_id)
  next
    case (Some w)
    then have w: "w \<noteq> []" "prefix w s" by (auto simp: find_Some_iff)
    then have s: "s \<noteq> []" by auto
    have eq: "strip_codes ws s = strip_codes ws (drop (length w) s)"
      using w s by (subst strip_codes.simps) (simp add: Some)
    from 1 [OF Some] w s have "no_code_prefix ws (strip_codes ws (drop (length w) s))"
      "suffix (strip_codes ws (drop (length w) s)) (drop (length w) s)" by auto
    then show ?thesis unfolding eq using suffix_drop suffix_order.trans by blast
  qed
qed

lemma no_code_prefix_mono: "no_code_prefix ws t \<Longrightarrow> prefix s t \<Longrightarrow> no_code_prefix ws s"
  by (auto simp: no_code_prefix_def)

lemma trim_start_clean: "no_code_prefix white_space (trim_start s)"
  using strip_codes_result by (simp add: trim_start_def)

lemma trim_end_clean: "no_code_prefix (map rev white_space) (rev (trim_end s))"
  using strip_codes_result by (simp add: trim_end_def)

lemma trim_end_prefix: "prefix (trim_end s) s"
  using strip_codes_result [of "map rev white_space" "rev s"]
  by (simp add: trim_end_def suffix_to_prefix)

lemma trim_clean:
  "no_code_prefix white_space (trim s) \<and> no_code_prefix (map rev white_space) (rev (trim s))"
  using no_code_prefix_mono [OF trim_start_clean trim_end_prefix] trim_end_clean
  by (simp add: trim_def)

lemma trim_idem [simp]: "trim (trim s) = trim s"
  using trim_clean [of s] by (metis rev_rev_ident strip_codes_id trim_def trim_end_def trim_start_def)

lemma strip_codes_Nil [simp]: "strip_codes ws [] = []"
  using strip_codes_result [of ws "[]"] by simp

lemma trim_Nil [simp]: "trim [] = []"
  by (simp add: trim_def trim_start_def trim_end_def)

text \<open>Evaluation: a string whose first and last bytes start and end no white-space code is its own
  \<open>trim\<close>.\<close>

definition ws_lead :: "char set" where
  "ws_lead = hd ` set white_space"

definition ws_last :: "char set" where
  "ws_last = last ` set white_space"

lemma trim_id_ends:
  assumes "s = [] \<or> (hd s \<notin> ws_lead \<and> last s \<notin> ws_last)"
  shows "trim s = s"
proof -
  have lead: "hd w \<in> ws_lead" if "w \<in> set white_space" for w
    using that by (simp add: ws_lead_def)
  have tail: "last w \<in> ws_last" if "w \<in> set white_space" for w
    using that by (simp add: ws_last_def)
  have "no_code_prefix white_space s" "no_code_prefix (map rev white_space) (rev s)"
    using assms lead tail
    by (auto simp: no_code_prefix_def prefix_def last_rev hd_append hd_rev
        rev_swap [symmetric] append_eq_Cons_conv) (metis last_appendR rev_append rev_rev_ident)+
  then show ?thesis by (simp add: trim_def trim_start_def trim_end_def strip_codes_id)
qed

lemma ws_ends_bytes:
  "c \<in> ws_lead \<Longrightarrow> (of_char c :: nat) \<notin> {33..126}" "c \<in> ws_last \<Longrightarrow> (of_char c :: nat) \<notin> {33..126}"
  by (auto simp: ws_lead_def ws_last_def white_space_def utf8_def of_char_of take_bit_nat_eq_self)

lemma trim_visible:
  assumes "s \<noteq> []" "(of_char (hd s) :: nat) \<in> {33..126}" "(of_char (last s) :: nat) \<in> {33..126}"
  shows "trim s = s"
  using assms ws_ends_bytes by (intro trim_id_ends) blast

text \<open>A visible label before a trimmed text leaves nothing to trim.\<close>

lemma white_space_bytes: "w \<in> set white_space \<Longrightarrow> c \<in> set w \<Longrightarrow> (of_char c :: nat) \<notin> {33..126}"
  by (auto simp: white_space_def utf8_def of_char_of take_bit_nat_eq_self)

lemma trim_label:
  assumes "p \<noteq> []" "(of_char (hd p) :: nat) \<in> {33..126}" "(of_char (last p) :: nat) \<in> {33..126}" "trim s = s"
  shows "trim (p @ s) = p @ s"
proof -
  have start: "no_code_prefix white_space (p @ s)"
    using assms(1,2) white_space_bytes by (auto simp: no_code_prefix_def neq_Nil_conv prefix_Cons)
  have "\<not> prefix w (rev s @ rev p)" if w: "w \<in> set (map rev white_space)" for w
  proof
    assume "prefix w (rev s @ rev p)"
    moreover have "\<not> prefix w (rev s)"
      using trim_clean [of s] w assms(4) white_space_nonempty by (auto simp: no_code_prefix_def)
    ultimately obtain c where c: "w = rev s @ c" "prefix c (rev p)" "c \<noteq> []" by (auto simp: prefix_append)
    then have "hd c = hd (rev p)" by (auto simp: prefix_def)
    with c hd_in_set [of c] have "last p \<in> set w" by (simp add: hd_rev)
    then show False using w white_space_bytes assms(3) by auto
  qed
  then have "no_code_prefix (map rev white_space) (rev (p @ s))" by (auto simp: no_code_prefix_def)
  with start show ?thesis by (simp add: trim_def trim_start_def trim_end_def strip_codes_id)
qed

lemma strip_codes_keeps: "c \<in> set s \<Longrightarrow> (\<And>w. w \<in> set ws \<Longrightarrow> c \<notin> set w) \<Longrightarrow> c \<in> set (strip_codes ws s)"
proof (induction ws s rule: strip_codes.induct)
  case (1 ws s)
  show ?case
  proof (cases "find (\<lambda>w. w \<noteq> [] \<and> prefix w s) ws")
    case None
    with 1 show ?thesis by (subst strip_codes.simps) simp
  next
    case (Some w)
    then have w: "w \<in> set ws" "w \<noteq> []" "prefix w s" by (auto simp: find_Some_iff)
    then have "c \<in> set (drop (length w) s)" using 1(2,3) by (auto simp: prefix_def)
    with 1(1) [OF Some] w 1(2,3) show ?thesis by (subst strip_codes.simps) (auto simp: Some)
  qed
qed

lemma trim_keeps_visible:
  assumes "c \<in> set s" "(of_char c :: nat) \<in> {33..126}"
  shows "c \<in> set (trim s)"
proof -
  have "c \<notin> set w" if "w \<in> set white_space" for w using white_space_bytes that assms(2) by blast
  then show ?thesis
    using assms(1) by (auto simp: trim_def trim_end_def trim_start_def intro!: strip_codes_keeps)
qed

lemma trim_start_space: "trim_start (CHR '' '' # s) = trim_start s"
proof -
  have "of_char CHR '' '' = (32 :: nat)" by simp
  then have "char_of (32 :: nat) = CHR '' ''" using char_of_char by metis
  then have "utf8 [32] = '' ''" by (simp add: utf8_def)
  then have "find (\<lambda>w. w \<noteq> [] \<and> prefix w (CHR '' '' # s)) white_space = Some '' ''"
    by (simp add: white_space_def)
  then show ?thesis unfolding trim_start_def by (subst strip_codes.simps) simp
qed

subsection \<open>Joining, case, decimal numbers\<close>

text \<open>\<open>[..].join(sep)\<close>.\<close>

fun join :: "string \<Rightarrow> string list \<Rightarrow> string" where
  "join sep [] = []"
| "join sep [x] = x"
| "join sep (x # y # xs) = x @ sep @ join sep (y # xs)"

definition ascii_lower :: "char \<Rightarrow> char" where
  "ascii_lower c = (if of_char c \<in> {65..90 :: nat} then char_of (of_char c + 32 :: nat) else c)"

definition to_ascii_lowercase :: "string \<Rightarrow> string" where
  "to_ascii_lowercase s = map ascii_lower s"

lemma ascii_lower_idem [simp]: "ascii_lower (ascii_lower c) = ascii_lower c"
proof (cases "of_char c \<in> {65..90 :: nat}")
  case True
  then have "of_char (ascii_lower c) = (of_char c + 32 :: nat)"
    by (auto simp: ascii_lower_def of_char_of take_bit_nat_eq_self)
  with True show ?thesis by (auto simp: ascii_lower_def [of "ascii_lower c"])
qed (auto simp: ascii_lower_def)

lemma to_ascii_lowercase_idem [simp]:
  "to_ascii_lowercase (to_ascii_lowercase s) = to_ascii_lowercase s"
  by (simp add: to_ascii_lowercase_def)

lemma length_to_ascii_lowercase [simp]: "length (to_ascii_lowercase s) = length s"
  by (simp add: to_ascii_lowercase_def)

definition decimal_digits :: string where
  "decimal_digits = ''0123456789''"

text \<open>\<open>to_string\<close> of an unsigned integer.\<close>

fun show_nat :: "nat \<Rightarrow> string" where
  "show_nat n = (if n < 10 then [decimal_digits ! n]
                 else show_nat (n div 10) @ [decimal_digits ! (n mod 10)])"

declare show_nat.simps [simp del]

definition digit_value :: "char \<Rightarrow> nat option" where
  "digit_value c = (let n = of_char c :: nat in if 48 \<le> n \<and> n \<le> 57 then Some (n - 48) else None)"

fun parse_digits :: "nat \<Rightarrow> string \<Rightarrow> nat option" where
  "parse_digits acc [] = Some acc"
| "parse_digits acc (c # cs) =
     (case digit_value c of
        None \<Rightarrow> None
      | Some d \<Rightarrow> if 10 * acc + d \<le> u64_max then parse_digits (10 * acc + d) cs else None)"

text \<open>\<open>str::parse::<u64>()\<close>: an optional \<open>+\<close>, at least one digit, no overflow.\<close>

definition parse_u64 :: "string \<Rightarrow> nat option" where
  "parse_u64 s =
     (let ds = (case s of CHR ''+'' # r \<Rightarrow> r | _ \<Rightarrow> s) in
      if ds = [] then None else parse_digits 0 ds)"

lemma digit_cases: "(d::nat) < 10 \<Longrightarrow> d \<in> {0, 1, 2, 3, 4, 5, 6, 7, 8, 9}"
  by auto

lemma digit_value_digit [simp]: "d < 10 \<Longrightarrow> digit_value (decimal_digits ! d) = Some d"
  by (drule digit_cases) (auto simp: digit_value_def decimal_digits_def)

lemma digit_not_special [simp]:
  "d < 10 \<Longrightarrow> decimal_digits ! d \<notin> {CHR ''+'', CHR ''-'', CHR '':''}"
  by (drule digit_cases) (auto simp: decimal_digits_def)

lemma show_nat_not_Nil [simp]: "show_nat n \<noteq> []"
  by (subst show_nat.simps) simp

lemma show_nat_chars: "c \<in> set (show_nat n) \<Longrightarrow> c \<notin> {CHR ''+'', CHR ''-'', CHR '':''}"
proof (induction n rule: show_nat.induct)
  case (1 n)
  show ?case
  proof (cases "n < 10")
    case True
    with "1.prems" digit_not_special [of n] show ?thesis by (simp add: show_nat.simps [of n])
  next
    case False
    with "1.prems" "1.IH" digit_not_special [of "n mod 10"] show ?thesis
      by (auto simp: show_nat.simps [of n])
  qed
qed

lemma show_nat_bytes: "c \<in> set (show_nat n) \<Longrightarrow> (of_char c :: nat) \<in> {48..57}"
proof (induction n rule: show_nat.induct)
  case (1 n)
  have "(of_char (decimal_digits ! d) :: nat) \<in> {48..57}" if "d < 10" for d
    using digit_value_digit [OF that] by (auto simp: digit_value_def Let_def split: if_splits)
  with 1 show ?case
    by (cases "n < 10") (auto simp: show_nat.simps [of n])
qed

lemma parse_digits_append:
  "parse_digits a (xs @ ys) = (case parse_digits a xs of None \<Rightarrow> None | Some b \<Rightarrow> parse_digits b ys)"
  by (induction xs arbitrary: a) (auto split: option.splits)

lemma parse_digits_show: "n \<le> u64_max \<Longrightarrow> parse_digits 0 (show_nat n) = Some n"
proof (induction n rule: show_nat.induct)
  case (1 n)
  show ?case
  proof (cases "n < 10")
    case True
    then show ?thesis by (simp add: show_nat.simps [of n])
  next
    case False
    from 1 False have "parse_digits 0 (show_nat (n div 10)) = Some (n div 10)" by simp
    with False "1.prems" show ?thesis by (simp add: show_nat.simps [of n] parse_digits_append)
  qed
qed

lemma parse_show_u64: "n \<le> u64_max \<Longrightarrow> parse_u64 (show_nat n) = Some n"
proof -
  assume n: "n \<le> u64_max"
  obtain c cs where s: "show_nat n = c # cs" by (cases "show_nat n") auto
  then have "c \<noteq> CHR ''+''" using show_nat_chars [of c n] by auto
  then have "(case show_nat n of CHR ''+'' # r \<Rightarrow> r | _ \<Rightarrow> show_nat n) = show_nat n"
    unfolding s by (auto split: list.splits char.splits bool.splits)
  then show ?thesis by (simp add: parse_u64_def parse_digits_show [OF n])
qed

lemma show_nat_inject: "show_nat m = show_nat n \<longleftrightarrow> m = n"
proof -
  have digits: "d = e" if "decimal_digits ! d = decimal_digits ! e" "d < 10" "e < 10" for d e
    using that by (metis digit_value_digit option.inject)
  have "show_nat m = show_nat n \<Longrightarrow> m = n"
  proof (induction m arbitrary: n rule: show_nat.induct)
    case (1 m)
    have len: "length (show_nat k) \<ge> 2" if "\<not> k < 10" for k
      using that by (simp add: show_nat.simps [of k] Suc_leI)
    show ?case
    proof (cases "m < 10"; cases "n < 10")
      assume "m < 10" "n < 10"
      with 1(2) digits show ?thesis by (simp add: show_nat.simps)
    next
      assume "m < 10" "\<not> n < 10"
      with arg_cong [OF 1(2), of length] len [of n] show ?thesis
        by (simp add: show_nat.simps [of m])
    next
      assume "\<not> m < 10" "n < 10"
      with arg_cong [OF 1(2), of length] len [of m] show ?thesis
        by (simp add: show_nat.simps [of n])
    next
      assume m: "\<not> m < 10" and n: "\<not> n < 10"
      with 1(2) have "show_nat (m div 10) = show_nat (n div 10)"
        "decimal_digits ! (m mod 10) = decimal_digits ! (n mod 10)"
        by (simp_all add: show_nat.simps [of m] show_nat.simps [of n])
      with 1(1) [OF m] digits have "m div 10 = n div 10" "m mod 10 = n mod 10" by simp_all
      then show ?thesis by (metis div_mult_mod_eq)
    qed
  qed
  then show ?thesis by auto
qed

subsection \<open>Characters of a UTF-8 string\<close>

text \<open>A byte starts a character unless it is a continuation byte (0x80 to 0xBF).\<close>

definition leading_byte :: "char \<Rightarrow> bool" where
  "leading_byte c = (let n = of_char c :: nat in n < 128 \<or> 192 \<le> n)"

text \<open>\<open>chars().count()\<close>.\<close>

definition char_count :: "string \<Rightarrow> nat" where
  "char_count s = length (filter leading_byte s)"

text \<open>\<open>chars().take(n).collect()\<close>.\<close>

fun take_chars :: "nat \<Rightarrow> string \<Rightarrow> string" where
  "take_chars n [] = []"
| "take_chars n (c # cs) =
     (if leading_byte c then (case n of 0 \<Rightarrow> [] | Suc k \<Rightarrow> c # take_chars k cs)
      else c # take_chars n cs)"

lemma char_count_take_chars: "char_count (take_chars n s) = min n (char_count s)"
  by (induction n s rule: take_chars.induct) (auto simp: char_count_def split: nat.splits)

lemma take_chars_prefix: "prefix (take_chars n s) s"
  by (induction n s rule: take_chars.induct) (auto split: nat.splits)

text \<open>\<open>replace(c, " ")\<close> for one byte \<open>c\<close>.\<close>

definition replace_char :: "char \<Rightarrow> string \<Rightarrow> string \<Rightarrow> string" where
  "replace_char c t s = concat (map (\<lambda>x. if x = c then t else [x]) s)"

subsection \<open>Splitting\<close>

text \<open>\<open>split_whitespace().filter(|t| !t.is_empty()).collect()\<close>; \<open>current\<close> is the token read so far,
  reversed.\<close>

function split_ws :: "string \<Rightarrow> string \<Rightarrow> string list" where
  "split_ws current s =
     (if s = [] then (if current = [] then [] else [rev current])
      else case find (\<lambda>w. w \<noteq> [] \<and> prefix w s) white_space of
        Some w \<Rightarrow> (if current = [] then [] else [rev current]) @ split_ws [] (drop (length w) s)
      | None \<Rightarrow> split_ws (hd s # current) (tl s))"
  by pat_completeness auto
termination
  by (relation "measure (\<lambda>(current, s). length s)") (auto simp: find_Some_iff prefix_def)

declare split_ws.simps [simp del]

definition split_whitespace :: "string \<Rightarrow> string list" where
  "split_whitespace s = split_ws [] s"

lemma split_ws_nonempty: "[] \<notin> set (split_ws current s)"
proof (induction current s rule: split_ws.induct)
  case (1 current s)
  show ?case
  proof (cases "s = []")
    case True
    then show ?thesis by (simp add: split_ws.simps [of current])
  next
    case False
    with 1 show ?thesis by (auto simp: split_ws.simps [of current s] split: option.split)
  qed
qed

definition is_ascii_alphanumeric :: "char \<Rightarrow> bool" where
  "is_ascii_alphanumeric c = (let n = of_char c :: nat in
     48 \<le> n \<and> n \<le> 57 \<or> 65 \<le> n \<and> n \<le> 90 \<or> 97 \<le> n \<and> n \<le> 122)"

definition is_ascii_alphabetic :: "char \<Rightarrow> bool" where
  "is_ascii_alphabetic c = (let n = of_char c :: nat in 65 \<le> n \<and> n \<le> 90 \<or> 97 \<le> n \<and> n \<le> 122)"

text \<open>\<open>split_once(c)\<close> and \<open>split(c)\<close> for a one-byte separator.\<close>

fun split_once :: "char \<Rightarrow> string \<Rightarrow> (string \<times> string) option" where
  "split_once c [] = None"
| "split_once c (x # xs) =
     (if x = c then Some ([], xs) else map_option (\<lambda>(a, b). (x # a, b)) (split_once c xs))"

fun split_on :: "char \<Rightarrow> string \<Rightarrow> string list" where
  "split_on c [] = [[]]"
| "split_on c (x # xs) =
     (if x = c then [] # split_on c xs
      else case split_on c xs of p # ps \<Rightarrow> (x # p) # ps | [] \<Rightarrow> [[x]])"

lemma split_once_None: "split_once c s = None \<longleftrightarrow> c \<notin> set s"
  by (induction s) auto

lemma split_once_append: "c \<notin> set a \<Longrightarrow> split_once c (a @ c # b) = Some (a, b)"
  by (induction a) auto

lemma split_once_Some: "split_once c s = Some (a, b) \<longleftrightarrow> s = a @ c # b \<and> c \<notin> set a"
proof
  show "split_once c s = Some (a, b) \<Longrightarrow> s = a @ c # b \<and> c \<notin> set a"
    by (induction s arbitrary: a) (auto split: if_splits)
qed (auto simp: split_once_append)

lemma split_on_not_Nil [simp]: "split_on c s \<noteq> []"
  by (induction s) (auto split: list.split)

lemma split_on_append: "c \<notin> set a \<Longrightarrow> split_on c (a @ c # b) = a # split_on c b"
  by (induction a) auto

lemma join_split_on: "join [c] (split_on c s) = s"
proof (induction s)
  case (Cons x xs)
  then show ?case by (cases "split_on c xs" rule: remdups_adj.cases) auto
qed simp

lemma split_on_parts: "p \<in> set (split_on c s) \<Longrightarrow> c \<notin> set p \<and> set p \<subseteq> set s"
proof (induction s arbitrary: p)
  case (Cons x xs)
  then show ?case by (cases "split_on c xs") (fastforce split: if_splits)+
qed simp

text \<open>\<open>str::eq_ignore_ascii_case\<close>.\<close>

definition contains :: "string \<Rightarrow> string \<Rightarrow> bool" where
  "contains s sub = sublist sub s"

definition eq_ignore_ascii_case :: "string \<Rightarrow> string \<Rightarrow> bool" where
  "eq_ignore_ascii_case a b \<longleftrightarrow> to_ascii_lowercase a = to_ascii_lowercase b"

lemma eq_ignore_ascii_case_refl [simp]: "eq_ignore_ascii_case a a"
  by (simp add: eq_ignore_ascii_case_def)

lemma eq_ignore_ascii_case_sym: "eq_ignore_ascii_case a b \<longleftrightarrow> eq_ignore_ascii_case b a"
  by (auto simp: eq_ignore_ascii_case_def)

lemma eq_ignore_ascii_case_trans:
  "eq_ignore_ascii_case a b \<Longrightarrow> eq_ignore_ascii_case b c \<Longrightarrow> eq_ignore_ascii_case a c"
  by (simp add: eq_ignore_ascii_case_def)

subsection \<open>Bytes that are text\<close>

text \<open>\<open>trim_end_matches\<close> of a character and \<open>strip_prefix\<close>.\<close>

definition trim_end_matches :: "char \<Rightarrow> string \<Rightarrow> string" where
  "trim_end_matches c s = rev (dropWhile (\<lambda>x. x = c) (rev s))"

definition strip_prefix :: "string \<Rightarrow> string \<Rightarrow> string option" where
  "strip_prefix p s = (if prefix p s then Some (drop (length p) s) else None)"

text \<open>Whether \<open>from_utf8\<close> accepts the bytes.\<close>

definition continuation :: "nat \<Rightarrow> nat \<Rightarrow> string \<Rightarrow> bool" where
  "continuation lo hi s \<longleftrightarrow> s \<noteq> [] \<and> lo \<le> of_char (hd s) \<and> of_char (hd s) \<le> hi"

fun valid_utf8 :: "string \<Rightarrow> bool" where
  "valid_utf8 [] \<longleftrightarrow> True"
| "valid_utf8 (c # cs) \<longleftrightarrow>
     (let b = (of_char c :: nat) in
      if b < 0x80 then valid_utf8 cs
      else if 0xC2 \<le> b \<and> b \<le> 0xDF then continuation 0x80 0xBF cs \<and> valid_utf8 (drop 1 cs)
      else if 0xE0 \<le> b \<and> b \<le> 0xEF then
        continuation (if b = 0xE0 then 0xA0 else 0x80) (if b = 0xED then 0x9F else 0xBF) cs
        \<and> continuation 0x80 0xBF (drop 1 cs) \<and> valid_utf8 (drop 2 cs)
      else if 0xF0 \<le> b \<and> b \<le> 0xF4 then
        continuation (if b = 0xF0 then 0x90 else 0x80) (if b = 0xF4 then 0x8F else 0xBF) cs
        \<and> continuation 0x80 0xBF (drop 1 cs) \<and> continuation 0x80 0xBF (drop 2 cs) \<and> valid_utf8 (drop 3 cs)
      else False)"

lemma continuation_append: "continuation lo hi s \<Longrightarrow> continuation lo hi (s @ t)"
  by (simp add: continuation_def)

lemma continuation_drop: "continuation lo hi (drop n s) \<Longrightarrow> n < length s"
  by (auto simp: continuation_def)

lemma valid_utf8_append: "valid_utf8 a \<Longrightarrow> valid_utf8 (a @ b) \<longleftrightarrow> valid_utf8 b"
proof (induction a rule: valid_utf8.induct)
  case (2 c cs)
  have app: "continuation lo hi (drop n (cs @ b)) \<and> drop n (cs @ b) = drop n cs @ b \<and> drop (Suc n) (cs @ b) = drop (Suc n) cs @ b"
    if "continuation lo hi (drop n cs)" for lo hi n
    using continuation_drop [OF that] continuation_append [OF that, of b] by simp
  note a = app [where n = 0] app [where n = 1] app [where n = 2]
  from 2 show ?case
    by (auto simp: Let_def numeral_2_eq_2 numeral_3_eq_3 split: if_splits dest!: a [simplified])
qed simp

end
