(* ===== verification/Ai_Types.thy ===== *)
theory Ai_Types
  imports Rust_Text
begin

text \<open>
  The message data model of \<open>crates/tau-ai/src/types.rs\<close>: roles, content blocks, messages, their
  constructors and the two projections (\<open>text_content\<close>, \<open>tool_calls\<close>) that every other component
  reads messages through. \<open>serde_json::Value\<close> is the type parameter \<open>'v\<close>: no code modelled here
  looks inside it.
\<close>

datatype MessageRole = System | User | Assistant | Tool

datatype MediaSource = Url string | Base64 string string

record 'v ToolCall =
  tc_id :: string
  tc_name :: string
  tc_arguments :: 'v

datatype 'v ContentBlock =
    TextBlock string
  | ToolCallBlock string string 'v
  | ImageBlock MediaSource
  | AudioBlock MediaSource

record 'v Message =
  msg_role :: MessageRole
  msg_content :: "'v ContentBlock list"
  msg_tool_call_id :: "string option"
  msg_tool_name :: "string option"
  msg_is_error :: bool

definition text_message :: "MessageRole \<Rightarrow> string \<Rightarrow> 'v Message" where
  "text_message role t =
     \<lparr>msg_role = role, msg_content = [TextBlock t], msg_tool_call_id = None, msg_tool_name = None,
      msg_is_error = False\<rparr>"

definition message_system :: "string \<Rightarrow> 'v Message" where
  "message_system t = text_message System t"

definition message_user :: "string \<Rightarrow> 'v Message" where
  "message_user t = text_message User t"

definition assistant_text :: "string \<Rightarrow> 'v Message" where
  "assistant_text t = text_message Assistant t"

definition assistant_blocks :: "'v ContentBlock list \<Rightarrow> 'v Message" where
  "assistant_blocks bs =
     \<lparr>msg_role = Assistant, msg_content = bs, msg_tool_call_id = None, msg_tool_name = None,
      msg_is_error = False\<rparr>"

definition tool_result :: "string \<Rightarrow> string \<Rightarrow> string \<Rightarrow> bool \<Rightarrow> 'v Message" where
  "tool_result call_id name t err =
     \<lparr>msg_role = Tool, msg_content = [TextBlock t], msg_tool_call_id = Some call_id,
      msg_tool_name = Some name, msg_is_error = err\<rparr>"

definition content_tool_call :: "'v ToolCall \<Rightarrow> 'v ContentBlock" where
  "content_tool_call c = ToolCallBlock (tc_id c) (tc_name c) (tc_arguments c)"

fun block_text :: "'v ContentBlock \<Rightarrow> string option" where
  "block_text (TextBlock t) = Some t"
| "block_text (ToolCallBlock _ _ _) = None"
| "block_text (ImageBlock _) = None"
| "block_text (AudioBlock _) = None"

fun block_tool_call :: "'v ContentBlock \<Rightarrow> 'v ToolCall option" where
  "block_tool_call (ToolCallBlock i n a) = Some \<lparr>tc_id = i, tc_name = n, tc_arguments = a\<rparr>"
| "block_tool_call (TextBlock _) = None"
| "block_tool_call (ImageBlock _) = None"
| "block_tool_call (AudioBlock _) = None"

definition text_content :: "'v Message \<Rightarrow> string" where
  "text_content m = join [CHR 0x0A] (List.map_filter block_text (msg_content m))"

definition tool_calls :: "'v Message \<Rightarrow> 'v ToolCall list" where
  "tool_calls m = List.map_filter block_tool_call (msg_content m)"

subsection \<open>Requests and responses\<close>

record 'v ToolDefinition =
  td_name :: string
  td_description :: string
  td_parameters :: 'v

datatype ToolChoice = AutoTool | NoTool | RequiredTool | NamedTool string

record PromptCacheConfig =
  pcc_enabled :: bool
  pcc_cache_key :: "string option"
  pcc_retention :: "string option"
  pcc_google_cached_content :: "string option"

text \<open>\<open>f32\<close> is its 32 bits.\<close>

record 'v ChatRequest =
  rq_model :: string
  rq_messages :: "'v Message list"
  rq_tools :: "'v ToolDefinition list"
  rq_tool_choice :: "ToolChoice option"
  rq_json_mode :: bool
  rq_max_tokens :: "nat option"
  rq_temperature :: "nat option"
  rq_prompt_cache :: PromptCacheConfig

record ChatUsage =
  cu_input_tokens :: nat
  cu_output_tokens :: nat
  cu_total_tokens :: nat
  cu_cached_input_tokens :: nat

record 'v ChatResponse =
  rs_message :: "'v Message"
  rs_finish_reason :: "string option"
  rs_usage :: ChatUsage

text \<open>
  Of a \<open>reqwest\<close> error the code asks, in this order: whether it is a timeout, a connection error, an error of the
  request and an error of the body.
\<close>

datatype TauAiError =
    MissingApiKey
  | HttpError bool bool bool bool
  | HttpStatus nat string
  | SerdeError
  | InvalidResponse string

text \<open>\<open>format!("{:?}", role)\<close>.\<close>

fun role_debug :: "MessageRole \<Rightarrow> string" where
  "role_debug System = ''System''"
| "role_debug User = ''User''"
| "role_debug Assistant = ''Assistant''"
| "role_debug Tool = ''Tool''"

lemma text_content_text_message [simp]: "text_content (text_message role t) = t"
  by (simp add: text_content_def text_message_def map_filter_simps)

lemma text_content_tool_result [simp]: "text_content (tool_result i n t e) = t"
  by (simp add: text_content_def tool_result_def map_filter_simps)

lemma tool_calls_assistant_blocks:
  "tool_calls (assistant_blocks (map content_tool_call cs)) = cs"
  by (induction cs)
    (auto simp: tool_calls_def assistant_blocks_def content_tool_call_def map_filter_simps)

lemma tool_calls_text_message [simp]: "tool_calls (text_message role t) = []"
  by (simp add: tool_calls_def text_message_def map_filter_simps)

end
