(* ===== verification/Session_Graph.thy ===== *)
theory Session_Graph
  imports Ai_Types
begin

text \<open>
  The session graph of \<open>crates/tau-session\<close>: entries with a parent link
  (\<open>lib.rs\<close>), the integrity helpers of \<open>session_integrity.rs\<close> (cycle detection, lineage ids,
  validation report) and the two lineage walks of \<open>session_store_runtime.rs\<close>. The abstract view is
  the relation \<open>parent_rel\<close>; \<open>session_wf\<close> says that ids are unique, parents exist and the relation
  is acyclic. The main results: the validator accepts exactly the well-formed sessions, and on a
  well-formed session every walk returns, with the chain from the root to the requested head.
\<close>

record 'v SessionEntry =
  se_id :: nat
  se_parent_id :: "nat option"
  se_message :: "'v Message"

type_synonym 'v entries = "'v SessionEntry list"

datatype SessionError =
    UnknownId nat
  | UnknownSource nat
  | UnknownTarget nat
  | SameHeads
  | LineageCycle nat
  | CompactCycle nat
  | MissingParent nat
  | ParentDoesNotExist nat
  | MissingSource nat
  | MissingRemap nat
  | MissingRemapParent nat
  | NotAnAncestor nat nat
  | ImportInvalid nat nat nat nat
  | UnsupportedBackend string
  | PostgresRequiresDsn
  | UnsupportedSchemaVersion nat
  | UnparsableLine nat
  | IdExceedsBigint nat
  | ParentIdExceedsBigint nat
  | InvalidDatabaseId int
  | LockTimeout
  | StorageError string

record SessionValidationReport =
  vr_entries :: nat
  vr_duplicates :: nat
  vr_invalid_parent :: nat
  vr_cycles :: nat

definition is_valid :: "SessionValidationReport \<Rightarrow> bool" where
  "is_valid r = (vr_duplicates r = 0 \<and> vr_invalid_parent r = 0 \<and> vr_cycles r = 0)"

subsection \<open>Indexing and cycle detection\<close>

definition entry_index :: "'v entries \<Rightarrow> (nat, 'v SessionEntry) hash_map" where
  "entry_index es = hm_collect (map (\<lambda>e. (se_id e, e)) es)"

function has_cycle_from ::
  "(nat, 'v SessionEntry) hash_map \<Rightarrow> nat set \<Rightarrow> nat option \<Rightarrow> bool" where
  "has_cycle_from m visited None = False"
| "has_cycle_from m visited (Some i) =
     (if i \<in> visited then True
      else has_cycle_from m (insert i visited) (Option.bind (map_of m i) se_parent_id))"
  by pat_completeness auto
termination
proof (relation "measure (\<lambda>(m, visited, current).
    2 * card (hm_keys m - visited) + (if current = None then 0 else 1))", goal_cases)
  case (2 m visited i)
  show ?case
  proof (cases "map_of m i")
    case (Some e)
    with 2 have "card (hm_keys m - insert i visited) < card (hm_keys m - visited)"
      by (simp add: card_visit_less map_of_key del: card_Diff_insert)
    then show ?thesis by simp
  next
    case None
    then have "hm_keys m - insert i visited = hm_keys m - visited"
      by (auto simp: map_of_eq_None_iff)
    with None show ?thesis by simp
  qed
qed simp

definition has_cycle :: "nat \<Rightarrow> (nat, 'v SessionEntry) hash_map \<Rightarrow> bool" where
  "has_cycle start m = has_cycle_from m {} (Some start)"

subsection \<open>Validation report\<close>

definition validation_report_for_entries :: "'v entries \<Rightarrow> SessionValidationReport" where
  "validation_report_for_entries es =
     (let m = entry_index es in
      \<lparr>vr_entries = length es,
       vr_duplicates = length (snd (dedup_keys se_id {} es)),
       vr_invalid_parent =
         length (filter (\<lambda>e. case se_parent_id e of None \<Rightarrow> False
                               | Some p \<Rightarrow> \<not> hm_contains m p) es),
       vr_cycles = card (set (map se_id (filter (\<lambda>e. has_cycle (se_id e) m) es)))\<rparr>)"

subsection \<open>Lineage walks\<close>

function collect_lineage_from ::
  "(nat, 'v SessionEntry) hash_map \<Rightarrow> nat set \<Rightarrow> nat \<Rightarrow> nat set \<Rightarrow> SessionError + nat set" where
  "collect_lineage_from m visited cur acc =
     (if cur \<in> visited then Inl (CompactCycle cur)
      else case map_of m cur of
        None \<Rightarrow> Inl (UnknownId cur)
      | Some e \<Rightarrow>
          (case se_parent_id e of
             None \<Rightarrow> Inr (insert (se_id e) acc)
           | Some p \<Rightarrow>
               if \<not> hm_contains m p then Inl (MissingParent p)
               else collect_lineage_from m (insert cur visited) p (insert (se_id e) acc)))"
  by pat_completeness auto
termination
proof (relation "measure (\<lambda>(m, visited, cur, acc). card (hm_keys m - visited))", goal_cases)
  case (2 m visited cur acc e p)
  then show ?case by (simp add: card_visit_less map_of_key del: card_Diff_insert)
qed simp

definition collect_lineage_ids :: "'v entries \<Rightarrow> nat \<Rightarrow> SessionError + nat set" where
  "collect_lineage_ids es head =
     (let m = entry_index es in
      if \<not> hm_contains m head then Inl (UnknownId head)
      else collect_lineage_from m {} head {})"

function lineage_from ::
  "'v entries \<Rightarrow> nat set \<Rightarrow> nat \<Rightarrow> 'v entries \<Rightarrow> SessionError + 'v entries" where
  "lineage_from es visited cur lineage =
     (if cur \<in> visited then Inl (LineageCycle cur)
      else case find (\<lambda>e. se_id e = cur) es of
        None \<Rightarrow> Inl (UnknownId cur)
      | Some e \<Rightarrow>
          (case se_parent_id e of
             None \<Rightarrow> Inr (rev (lineage @ [e]))
           | Some p \<Rightarrow> lineage_from es (insert cur visited) p (lineage @ [e])))"
  by pat_completeness auto
termination
proof (relation "measure (\<lambda>(es, visited, cur, lineage). card (se_id ` set es - visited))", goal_cases)
  case (2 es visited cur lineage e p)
  then have "cur \<in> se_id ` set es" by (auto simp: find_Some_iff)
  with 2 show ?case by (simp add: card_visit_less del: card_Diff_insert)
qed simp

definition lineage_entries :: "'v entries \<Rightarrow> nat option \<Rightarrow> SessionError + 'v entries" where
  "lineage_entries es head =
     (case head of None \<Rightarrow> Inr [] | Some h \<Rightarrow> lineage_from es {} h [])"

definition lineage_messages :: "'v entries \<Rightarrow> nat option \<Rightarrow> SessionError + 'v Message list" where
  "lineage_messages es head = and_then (lineage_entries es head) (\<lambda>l. Inr (map se_message l))"

function lineage_ids_from ::
  "(nat, 'v SessionEntry) hash_map \<Rightarrow> nat set \<Rightarrow> nat \<Rightarrow> nat list \<Rightarrow> SessionError + nat list" where
  "lineage_ids_from m visited cur lineage =
     (if cur \<in> visited then Inl (LineageCycle cur)
      else case map_of m cur of
        None \<Rightarrow> Inl (UnknownId cur)
      | Some e \<Rightarrow>
          (case se_parent_id e of
             None \<Rightarrow> Inr (rev (lineage @ [cur]))
           | Some p \<Rightarrow> lineage_ids_from m (insert cur visited) p (lineage @ [cur])))"
  by pat_completeness auto
termination
proof (relation "measure (\<lambda>(m, visited, cur, lineage). card (hm_keys m - visited))", goal_cases)
  case (2 m visited cur lineage e p)
  then show ?case by (simp add: card_visit_less map_of_key del: card_Diff_insert)
qed simp

definition lineage_ids_root_to_head ::
  "(nat, 'v SessionEntry) hash_map \<Rightarrow> nat \<Rightarrow> SessionError + nat list" where
  "lineage_ids_root_to_head m head = lineage_ids_from m {} head []"

lemmas walk_simps = has_cycle_from.simps collect_lineage_from.simps lineage_from.simps
  lineage_ids_from.simps

declare collect_lineage_from.simps [simp del] lineage_from.simps [simp del]
  lineage_ids_from.simps [simp del]

subsection \<open>Well-formed sessions\<close>

abbreviation entry_ids :: "'v entries \<Rightarrow> nat set" where
  "entry_ids es \<equiv> se_id ` set es"

definition parent_rel :: "'v entries \<Rightarrow> (nat \<times> nat) set" where
  "parent_rel es = {(p, c). \<exists>e \<in> set es. se_id e = c \<and> se_parent_id e = Some p}"

definition parents_exist :: "'v entries \<Rightarrow> bool" where
  "parents_exist es = (\<forall>e \<in> set es. \<forall>p. se_parent_id e = Some p \<longrightarrow> p \<in> entry_ids es)"

definition session_wf :: "'v entries \<Rightarrow> bool" where
  "session_wf es = (distinct (map se_id es) \<and> parents_exist es \<and> acyclic (parent_rel es))"

definition is_lineage :: "'v entries \<Rightarrow> nat \<Rightarrow> 'v entries \<Rightarrow> bool" where
  "is_lineage es h l =
     (l \<noteq> [] \<and> se_parent_id (hd l) = None \<and> se_id (last l) = h \<and> set l \<subseteq> set es
      \<and> distinct (map se_id l) \<and> successively (\<lambda>a b. se_parent_id b = Some (se_id a)) l)"

lemma session_wfD:
  assumes "session_wf es"
  shows "distinct (map se_id es)" "parents_exist es" "acyclic (parent_rel es)"
  using assms by (auto simp: session_wf_def)

lemma entry_index_keys [simp]: "hm_keys (entry_index es) = entry_ids es"
  by (simp add: entry_index_def hm_collect_keys image_image)

lemma entry_index_contains [simp]: "hm_contains (entry_index es) i \<longleftrightarrow> i \<in> entry_ids es"
  by (simp add: hm_contains_iff)

lemma entry_index_SomeD: "map_of (entry_index es) i = Some e \<Longrightarrow> e \<in> set es \<and> se_id e = i"
  by (auto simp: entry_index_def hm_collect_lookup dest: map_of_SomeD)

lemma entry_index_None: "map_of (entry_index es) i = None \<longleftrightarrow> i \<notin> entry_ids es"
  by (metis entry_index_keys map_of_eq_None_iff)

lemma entry_index_iff:
  assumes "distinct (map se_id es)"
  shows "map_of (entry_index es) i = Some e \<longleftrightarrow> e \<in> set es \<and> se_id e = i"
proof
  assume "e \<in> set es \<and> se_id e = i"
  then show "map_of (entry_index es) i = Some e"
    using assms by (metis distinct_key_inj entry_index_None entry_index_SomeD image_eqI option.exhaust)
qed (rule entry_index_SomeD)

lemma find_entry_iff:
  assumes "distinct (map se_id es)"
  shows "find (\<lambda>e. se_id e = i) es = Some e \<longleftrightarrow> e \<in> set es \<and> se_id e = i"
proof -
  have "distinct (map fst (map (\<lambda>e. (se_id e, e)) es))"
    using assms by (simp add: comp_def)
  then show ?thesis by (auto simp: find_key_map_of)
qed

lemma finite_parent_rel [simp]: "finite (parent_rel es)"
proof -
  have "parent_rel es \<subseteq> (\<lambda>e. (the (se_parent_id e), se_id e)) ` set es"
    by (force simp: parent_rel_def)
  then show ?thesis by (rule finite_subset) simp
qed

lemma parent_rel_Nil [simp]: "parent_rel [] = {}"
  by (simp add: parent_rel_def)

lemma parent_rel_append [simp]: "parent_rel (es @ fs) = parent_rel es \<union> parent_rel fs"
  by (auto simp: parent_rel_def)

lemma parent_rel_mono: "set es \<subseteq> set fs \<Longrightarrow> parent_rel es \<subseteq> parent_rel fs"
  by (auto simp: parent_rel_def)

lemma session_wf_Nil [simp]: "session_wf []"
  by (simp add: session_wf_def parents_exist_def acyclic_def)

lemma session_wf_snoc:
  assumes wf: "session_wf es" and fresh: "se_id e \<notin> entry_ids es"
    and parent: "\<And>p. se_parent_id e = Some p \<Longrightarrow> p \<in> entry_ids es"
  shows "session_wf (es @ [e])"
proof -
  note d = session_wfD [OF wf]
  have src: "p \<in> entry_ids es" if "(p, c) \<in> parent_rel es" for p c
    using that d(2) by (auto simp: parent_rel_def parents_exist_def)
  have "acyclic (parent_rel (es @ [e]))"
  proof (cases "se_parent_id e")
    case None
    with d(3) show ?thesis by (simp add: parent_rel_def)
  next
    case (Some p)
    then have "p \<in> entry_ids es" by (rule parent)
    then have "(se_id e, p) \<notin> (parent_rel es)\<^sup>*"
      using fresh src by (metis converse_rtranclE)
    moreover have "parent_rel (es @ [e]) = insert (p, se_id e) (parent_rel es)"
      using Some by (auto simp: parent_rel_def)
    ultimately show ?thesis using d(3) by (simp add: acyclic_insert)
  qed
  with d fresh parent show ?thesis by (auto simp: session_wf_def parents_exist_def)
qed

subsection \<open>Cycle detection decides acyclicity\<close>

definition next_of :: "(nat, 'v SessionEntry) hash_map \<Rightarrow> nat \<Rightarrow> nat option" where
  "next_of m i = Option.bind (map_of m i) se_parent_id"

text \<open>\<open>ranked m i n\<close>: the walk from \<open>i\<close> reaches a root or an unknown id after \<open>n\<close> links.\<close>

inductive ranked :: "(nat, 'v SessionEntry) hash_map \<Rightarrow> nat \<Rightarrow> nat \<Rightarrow> bool" for m where
  ranked_0: "next_of m i = None \<Longrightarrow> ranked m i 0"
| ranked_Suc: "next_of m i = Some j \<Longrightarrow> ranked m j n \<Longrightarrow> ranked m i (Suc n)"

inductive_cases ranked_SomeE: "ranked m i n"

lemma ranked_unique: "ranked m i n \<Longrightarrow> ranked m i k \<Longrightarrow> n = k"
proof (induction arbitrary: k rule: ranked.induct)
  case (ranked_0 i)
  from ranked_0(2,1) show ?case by (cases rule: ranked.cases) auto
next
  case (ranked_Suc i j n)
  from ranked_Suc(4,1) show ?case
    by (cases rule: ranked.cases) (auto dest: ranked_Suc.IH)
qed

lemma has_cycle_from_ranked:
  assumes "ranked m i n" and "\<And>v k. v \<in> visited \<Longrightarrow> ranked m v k \<Longrightarrow> n < k"
  shows "\<not> has_cycle_from m visited (Some i)"
  using assms
proof (induction arbitrary: visited rule: ranked.induct)
  case (ranked_0 i)
  then have "i \<notin> visited" using ranked.ranked_0 by blast
  with ranked_0(1) show ?case by (simp add: next_of_def)
next
  case (ranked_Suc i j n)
  have i: "ranked m i (Suc n)" using ranked_Suc.hyps by (rule ranked.ranked_Suc)
  then have "i \<notin> visited" using ranked_Suc.prems by blast
  moreover have "\<not> has_cycle_from m (insert i visited) (Some j)"
  proof (rule ranked_Suc.IH)
    show "n < k" if "v \<in> insert i visited" "ranked m v k" for v k
      using that ranked_Suc.prems [of v k] ranked_unique [OF i, of k] by auto
  qed
  ultimately show ?case using ranked_Suc.hyps(1) by (simp add: next_of_def)
qed

lemma has_cycle_from_unranked:
  "\<not> has_cycle_from m visited (Some i) \<Longrightarrow> \<exists>n. ranked m i n"
proof (induction m visited "Some i" arbitrary: i rule: has_cycle_from.induct)
  case (2 m visited i)
  show ?case
  proof (cases "next_of m i")
    case None
    then show ?thesis by (blast intro: ranked_0)
  next
    case (Some j)
    with 2 have "\<exists>n. ranked m j n" by (auto simp: next_of_def split: if_splits)
    with Some show ?thesis by (blast intro: ranked_Suc)
  qed
qed

lemma has_cycle_iff: "has_cycle i m \<longleftrightarrow> (\<nexists>n. ranked m i n)"
  using has_cycle_from_ranked [where visited = "{}"] has_cycle_from_unranked [where visited = "{}"]
  by (fastforce simp: has_cycle_def)

lemma next_of_entry_index:
  assumes "distinct (map se_id es)"
  shows "next_of (entry_index es) c = Some p \<longleftrightarrow> (p, c) \<in> parent_rel es"
  by (auto simp: next_of_def parent_rel_def bind_eq_Some_conv entry_index_iff [OF assms])

lemma ranked_if_acyclic:
  assumes "distinct (map se_id es)" and "acyclic (parent_rel es)"
  shows "\<exists>n. ranked (entry_index es) i n"
proof -
  have "wf (parent_rel es)" using assms(2) by (simp add: finite_acyclic_wf)
  then show ?thesis
  proof (induction i rule: wf_induct_rule)
    case (less i)
    show ?case
    proof (cases "next_of (entry_index es) i")
      case None
      then show ?thesis by (blast intro: ranked_0)
    next
      case (Some p)
      with less have "\<exists>n. ranked (entry_index es) p n"
        by (simp add: next_of_entry_index [OF assms(1)])
      with Some show ?thesis by (blast intro: ranked_Suc)
    qed
  qed
qed

lemma acyclic_if_ranked:
  assumes dist: "distinct (map se_id es)"
    and ranked: "\<And>e. e \<in> set es \<Longrightarrow> \<exists>n. ranked (entry_index es) (se_id e) n"
  shows "acyclic (parent_rel es)"
proof -
  let ?rank = "\<lambda>i. THE n. ranked (entry_index es) i n"
  have the: "?rank i = n" if "ranked (entry_index es) i n" for i n
    using that ranked_unique by blast
  have "parent_rel es \<subseteq> measure ?rank"
  proof (clarsimp)
    fix p c assume pc: "(p, c) \<in> parent_rel es"
    then obtain n where n: "ranked (entry_index es) c n" using ranked by (auto simp: parent_rel_def)
    from pc have nx: "next_of (entry_index es) c = Some p"
      by (simp add: next_of_entry_index [OF dist])
    from n nx obtain k where "n = Suc k" "ranked (entry_index es) p k"
      by (cases rule: ranked.cases) auto
    with n show "?rank p < ?rank c" by (simp add: the)
  qed
  then show ?thesis by (meson acyclic_subset wf_acyclic wf_measure)
qed

text \<open>A finite relation is acyclic when some natural-number rank grows along it.\<close>

lemma acyclic_by_rank:
  fixes g :: "nat \<Rightarrow> nat"
  assumes "\<And>p c. (p, c) \<in> r \<Longrightarrow> g p < g c"
  shows "acyclic r"
proof -
  have "r \<subseteq> measure g" using assms by auto
  then show ?thesis by (meson acyclic_subset wf_acyclic wf_measure)
qed

lemma acyclic_rank_exists:
  assumes "distinct (map se_id es)" and "acyclic (parent_rel es)"
  shows "\<exists>g :: nat \<Rightarrow> nat. \<forall>p c. (p, c) \<in> parent_rel es \<longrightarrow> g p < g c"
proof -
  obtain g where g: "ranked (entry_index es) i (g i)" for i
    using ranked_if_acyclic [OF assms] by metis
  have "g p < g c" if "(p, c) \<in> parent_rel es" for p c
  proof -
    from that have nx: "next_of (entry_index es) c = Some p"
      by (simp add: next_of_entry_index [OF assms(1)])
    from g [of c] nx obtain k where "g c = Suc k" "ranked (entry_index es) p k"
      by (cases rule: ranked.cases) auto
    with g [of p] ranked_unique show ?thesis by fastforce
  qed
  then show ?thesis by blast
qed

lemma has_cycle_iff_acyclic:
  assumes "distinct (map se_id es)"
  shows "(\<forall>e \<in> set es. \<not> has_cycle (se_id e) (entry_index es)) \<longleftrightarrow> acyclic (parent_rel es)"
  using acyclic_if_ranked [OF assms] ranked_if_acyclic [OF assms] by (auto simp: has_cycle_iff)

lemma validation_duplicates_0:
  "vr_duplicates (validation_report_for_entries es) = 0 \<longleftrightarrow> distinct (map se_id es)"
  by (simp add: validation_report_for_entries_def Let_def dedup_keys_none)

lemma validation_invalid_parent_0:
  "vr_invalid_parent (validation_report_for_entries es) = 0 \<longleftrightarrow> parents_exist es"
  by (auto simp: validation_report_for_entries_def Let_def filter_empty_conv parents_exist_def
      split: option.splits)

lemma validation_cycles_0:
  "vr_cycles (validation_report_for_entries es) = 0
     \<longleftrightarrow> (\<forall>e \<in> set es. \<not> has_cycle (se_id e) (entry_index es))"
  by (auto simp: validation_report_for_entries_def Let_def card_eq_0_iff filter_empty_conv)

lemma validation_sound_complete:
  "is_valid (validation_report_for_entries es) \<longleftrightarrow> session_wf es"
  using has_cycle_iff_acyclic
  by (auto simp: is_valid_def session_wf_def validation_duplicates_0 validation_invalid_parent_0
      validation_cycles_0)

subsection \<open>The walks return the lineage\<close>

lemma lineage_from_sound:
  "lineage_from es visited cur acc = Inr l \<Longrightarrow>
     \<exists>pre. l = pre @ rev acc \<and> is_lineage es cur pre \<and> entry_ids pre \<inter> visited = {}"
proof (induction es visited cur acc rule: lineage_from.induct)
  case (1 es visited cur acc)
  from "1.prems" have new: "cur \<notin> visited"
    by (auto simp: lineage_from.simps [of es visited] split: if_splits)
  from "1.prems" new obtain e where f: "find (\<lambda>e. se_id e = cur) es = Some e"
    by (auto simp: lineage_from.simps [of es visited] split: option.splits)
  then have e: "e \<in> set es" "se_id e = cur" by (auto simp: find_Some_iff)
  show ?case
  proof (cases "se_parent_id e")
    case None
    with "1.prems" new f have "l = [e] @ rev acc"
      by (simp add: lineage_from.simps [of es visited])
    moreover have "is_lineage es cur [e]" using None e by (simp add: is_lineage_def)
    ultimately show ?thesis using new e(2) by (intro exI [of _ "[e]"]) simp
  next
    case (Some p)
    with "1.prems" new f
    have "lineage_from es (insert cur visited) p (acc @ [e]) = Inr l"
      by (simp add: lineage_from.simps [of es visited])
    from "1.IH" [OF new f Some this] obtain pre where
      pre: "l = pre @ e # rev acc" "is_lineage es p pre" "entry_ids pre \<inter> insert cur visited = {}"
      by auto
    have "is_lineage es cur (pre @ [e])"
      using pre(2,3) e Some by (auto simp: is_lineage_def successively_append_iff)
    moreover have "entry_ids (pre @ [e]) \<inter> visited = {}"
      using pre(3) new e(2) by auto
    ultimately show ?thesis using pre(1) by (intro exI [of _ "pre @ [e]"]) simp
  qed
qed

lemma is_lineage_snocD:
  assumes "is_lineage es h (l @ [e])"
  shows "e \<in> set es" "se_id e = h" "h \<notin> entry_ids l"
    "l = [] \<Longrightarrow> se_parent_id e = None"
    "l \<noteq> [] \<Longrightarrow> se_parent_id e = Some (se_id (last l)) \<and> is_lineage es (se_id (last l)) l"
  using assms by (auto simp: is_lineage_def successively_append_iff)

text \<open>A walk that marks, looks up and follows computes the lineage, whatever it accumulates. The
  three walks of the code are instances: they differ in the lookup and in the accumulator.\<close>

lemma lineage_from_complete:
  assumes "distinct (map se_id es)"
  shows "is_lineage es cur pre \<Longrightarrow> entry_ids pre \<inter> visited = {} \<Longrightarrow>
    lineage_from es visited cur acc = Inr (pre @ rev acc)"
proof (induction pre arbitrary: cur visited acc rule: rev_induct)
  case (snoc e pre)
  note d = is_lineage_snocD [OF snoc.prems(1)]
  have new: "cur \<notin> visited" using snoc.prems(2) d(2) by auto
  have f: "find (\<lambda>e. se_id e = cur) es = Some e" using d(1,2) by (simp add: find_entry_iff [OF assms])
  show ?case
  proof (cases "pre = []")
    case True
    with d(4) new f show ?thesis by (simp add: lineage_from.simps [of es visited])
  next
    case False
    with d(5) have p: "se_parent_id e = Some (se_id (last pre))" "is_lineage es (se_id (last pre)) pre"
      by auto
    from snoc.IH [OF p(2), of "insert cur visited" "acc @ [e]"] snoc.prems(2) d(3)
    have "lineage_from es (insert cur visited) (se_id (last pre)) (acc @ [e]) = Inr (pre @ rev (acc @ [e]))"
      by auto
    with new f p(1) show ?thesis by (simp add: lineage_from.simps [of es visited])
  qed
qed (simp add: is_lineage_def)

lemma lineage_ids_from_complete:
  assumes "distinct (map se_id es)"
  shows "is_lineage es cur pre \<Longrightarrow> entry_ids pre \<inter> visited = {} \<Longrightarrow>
    lineage_ids_from (entry_index es) visited cur acc = Inr (map se_id pre @ rev acc)"
proof (induction pre arbitrary: cur visited acc rule: rev_induct)
  case (snoc e pre)
  note d = is_lineage_snocD [OF snoc.prems(1)]
  have new: "cur \<notin> visited" using snoc.prems(2) d(2) by auto
  have f: "map_of (entry_index es) cur = Some e" using d(1,2) by (simp add: entry_index_iff [OF assms])
  show ?case
  proof (cases "pre = []")
    case True
    with d(2,4) new f show ?thesis by (simp add: lineage_ids_from.simps [of _ visited])
  next
    case False
    with d(5) have p: "se_parent_id e = Some (se_id (last pre))" "is_lineage es (se_id (last pre)) pre"
      by auto
    from snoc.IH [OF p(2), of "insert cur visited" "acc @ [cur]"] snoc.prems(2) d(3)
    have "lineage_ids_from (entry_index es) (insert cur visited) (se_id (last pre)) (acc @ [cur])
        = Inr (map se_id pre @ rev (acc @ [cur]))" by auto
    with new f p(1) d(2) show ?thesis by (simp add: lineage_ids_from.simps [of _ visited])
  qed
qed (simp add: is_lineage_def)

lemma collect_lineage_from_complete:
  assumes "distinct (map se_id es)"
  shows "is_lineage es cur pre \<Longrightarrow> entry_ids pre \<inter> visited = {} \<Longrightarrow>
    collect_lineage_from (entry_index es) visited cur acc = Inr (entry_ids pre \<union> acc)"
proof (induction pre arbitrary: cur visited acc rule: rev_induct)
  case (snoc e pre)
  note d = is_lineage_snocD [OF snoc.prems(1)]
  have new: "cur \<notin> visited" using snoc.prems(2) d(2) by auto
  have f: "map_of (entry_index es) cur = Some e" using d(1,2) by (simp add: entry_index_iff [OF assms])
  show ?case
  proof (cases "pre = []")
    case True
    with d(2,4) new f show ?thesis by (simp add: collect_lineage_from.simps [of _ visited])
  next
    case False
    with d(5) have p: "se_parent_id e = Some (se_id (last pre))" "is_lineage es (se_id (last pre)) pre"
      by auto
    have "se_id (last pre) \<in> entry_ids es"
      using p(2) by (metis image_eqI is_lineage_def last_in_set subsetD)
    moreover from snoc.IH [OF p(2), of "insert cur visited" "insert (se_id e) acc"] snoc.prems(2) d(3)
    have "collect_lineage_from (entry_index es) (insert cur visited) (se_id (last pre)) (insert (se_id e) acc)
        = Inr (entry_ids pre \<union> insert (se_id e) acc)" by auto
    ultimately show ?thesis using new f p(1)
      by (simp add: collect_lineage_from.simps [of _ visited])
  qed
qed (simp add: is_lineage_def)

lemma lineage_entries_iff:
  assumes "distinct (map se_id es)"
  shows "lineage_entries es (Some h) = Inr l \<longleftrightarrow> is_lineage es h l"
  using lineage_from_sound [of es "{}" h "[]" l] lineage_from_complete [OF assms, of h l "{}" "[]"]
  by (auto simp: lineage_entries_def)

lemma is_lineage_unique:
  "distinct (map se_id es) \<Longrightarrow> is_lineage es h l \<Longrightarrow> is_lineage es h k \<Longrightarrow> l = k"
  by (metis lineage_entries_iff Inr_inject)

lemma is_lineage_ancestors:
  "is_lineage es h l \<Longrightarrow> i \<in> entry_ids l \<Longrightarrow> (i, h) \<in> (parent_rel es)\<^sup>*"
proof (induction l arbitrary: h rule: rev_induct)
  case (snoc e l)
  note d = is_lineage_snocD [OF snoc.prems(1)]
  show ?case
  proof (cases "i = h \<or> l = []")
    case True
    with snoc.prems(2) d(2) show ?thesis by auto
  next
    case False
    with d(5) have p: "se_parent_id e = Some (se_id (last l))" "is_lineage es (se_id (last l)) l"
      by auto
    from False snoc.prems(2) d(2) have "i \<in> entry_ids l" by auto
    with snoc.IH [OF p(2)] have "(i, se_id (last l)) \<in> (parent_rel es)\<^sup>*" by simp
    moreover have "(se_id (last l), h) \<in> parent_rel es"
      using p(1) d(1,2) by (auto simp: parent_rel_def)
    ultimately show ?thesis by simp
  qed
qed simp

lemma is_lineage_snocI:
  assumes "acyclic (parent_rel es)" and "is_lineage es p l" and "e \<in> set es"
    and "se_parent_id e = Some p"
  shows "is_lineage es (se_id e) (l @ [e])"
proof -
  have "(p, se_id e) \<in> parent_rel es" using assms(3,4) by (auto simp: parent_rel_def)
  then have "se_id e \<notin> entry_ids l"
    using assms(1) is_lineage_ancestors [OF assms(2)] by (meson acyclic_def rtrancl_into_trancl1)
  with assms show ?thesis by (auto simp: is_lineage_def successively_append_iff)
qed

lemma lineage_exists:
  assumes wf: "session_wf es" and "h \<in> entry_ids es"
  shows "\<exists>l. is_lineage es h l"
proof -
  note d = session_wfD [OF wf]
  have "wf (parent_rel es)" using d(3) by (simp add: finite_acyclic_wf)
  then show ?thesis using assms(2)
  proof (induction h rule: wf_induct_rule)
    case (less h)
    then obtain e where e: "e \<in> set es" "se_id e = h" by auto
    show ?case
    proof (cases "se_parent_id e")
      case None
      with e show ?thesis by (intro exI [of _ "[e]"]) (simp add: is_lineage_def)
    next
      case (Some p)
      with e d(2) have "(p, h) \<in> parent_rel es" "p \<in> entry_ids es"
        by (auto simp: parent_rel_def parents_exist_def)
      then obtain l where "is_lineage es p l" using less.IH by blast
      with is_lineage_snocI [OF d(3) _ e(1) Some] e(2) show ?thesis by blast
    qed
  qed
qed

lemma walks_agree:
  assumes "distinct (map se_id es)" and "is_lineage es h l"
  shows "lineage_entries es (Some h) = Inr l"
    "lineage_ids_root_to_head (entry_index es) h = Inr (map se_id l)"
    "collect_lineage_ids es h = Inr (entry_ids l)"
proof -
  have "h \<in> entry_ids es" using assms(2) by (metis image_eqI is_lineage_def last_in_set subsetD)
  then show "collect_lineage_ids es h = Inr (entry_ids l)"
    using collect_lineage_from_complete [OF assms, of "{}" "{}"] by (simp add: collect_lineage_ids_def)
  show "lineage_entries es (Some h) = Inr l" using assms by (simp add: lineage_entries_iff)
  show "lineage_ids_root_to_head (entry_index es) h = Inr (map se_id l)"
    using lineage_ids_from_complete [OF assms, of "{}" "[]"] by (simp add: lineage_ids_root_to_head_def)
qed

lemma is_lineage_mono: "is_lineage es h l \<Longrightarrow> set es \<subseteq> set fs \<Longrightarrow> is_lineage fs h l"
  by (auto simp: is_lineage_def)

subsection \<open>Properties\<close>

text \<open>A three-entry session used by the witnesses: a root with two children.\<close>

definition sample_entry :: "nat \<Rightarrow> nat option \<Rightarrow> unit SessionEntry" where
  "sample_entry i p = \<lparr>se_id = i, se_parent_id = p, se_message = text_message User ''hi''\<rparr>"

definition sample_session :: "unit entries" where
  "sample_session = [sample_entry 1 None, sample_entry 2 (Some 1), sample_entry 3 (Some 1)]"

lemma sample_entry_simps [simp]:
  "se_id (sample_entry i p) = i" "se_parent_id (sample_entry i p) = p"
  by (simp_all add: sample_entry_def)

lemma sample_session_wf: "session_wf sample_session"
  by (simp add: validation_sound_complete [symmetric] is_valid_def validation_report_for_entries_def
      sample_session_def entry_index_def hm_collect_def hm_contains_def has_cycle_def)

text \<open>C2. \<open>validation_report_for_entries\<close> reports no duplicate, no invalid parent and no cycle
  exactly for the sessions whose ids are unique, whose parents exist and whose parent relation is
  acyclic: the counters of the validator are sound and complete for the graph property.\<close>

theorem validator_decides_wf:
  "is_valid (validation_report_for_entries es) \<longleftrightarrow> session_wf es"
  by (rule validation_sound_complete)

text \<open>C25. On a well-formed session the three lineage walks of the code
  (\<open>lineage_entries\<close>, \<open>lineage_ids_root_to_head\<close>, \<open>collect_lineage_ids\<close>) return for every contained
  head, and they agree: the chain of entries from a root to the head, in order, without repetition.\<close>

theorem lineage_walks_agree:
  assumes "session_wf es" and "h \<in> entry_ids es"
  shows "\<exists>l. is_lineage es h l
    \<and> lineage_entries es (Some h) = Inr l
    \<and> lineage_ids_root_to_head (entry_index es) h = Inr (map se_id l)
    \<and> collect_lineage_ids es h = Inr (se_id ` set l)"
proof -
  from lineage_exists [OF assms] obtain l where "is_lineage es h l" by blast
  with walks_agree [OF session_wfD(1) [OF assms(1)] this] show ?thesis by blast
qed

theorem lineage_walks_agree_witness:
  "\<exists>l. is_lineage sample_session 3 l
    \<and> lineage_entries sample_session (Some 3) = Inr l
    \<and> lineage_ids_root_to_head (entry_index sample_session) 3 = Inr (map se_id l)
    \<and> collect_lineage_ids sample_session 3 = Inr (se_id ` set l)"
  by (rule lineage_walks_agree [OF sample_session_wf]) (simp add: sample_session_def)

end
