(* ===== verification/Session_Storage.thy ===== *)
theory Session_Storage
  imports Session_Graph
begin

text \<open>
  The persistence layer of \<open>crates/tau-session/src/session_storage.rs\<close>: the choice of the backend,
  the JSONL reader and writer with their temporary file and rename, and the SQL writers. A JSONL
  line is given as \<open>serde_json\<close> classifies it; the database is a parameter (a record of the
  statements the code issues). \<open>entry_storage\<close> is what \<open>SessionStore\<close> relies on: reading after a
  successful write gives the written entries back.
\<close>

datatype SessionStorageBackend = Jsonl | Sqlite | Postgres

fun backend_label :: "SessionStorageBackend \<Rightarrow> string" where
  "backend_label Jsonl = ''jsonl''"
| "backend_label Sqlite = ''sqlite''"
| "backend_label Postgres = ''postgres''"

record ResolvedSessionBackend =
  rb_backend :: SessionStorageBackend
  rb_reason_code :: string

abbreviation SESSION_SCHEMA_VERSION :: nat where "SESSION_SCHEMA_VERSION \<equiv> 1"

subsection \<open>Backend selection\<close>

text \<open>\<open>extension\<close> is \<open>path.extension()\<close> as UTF-8, \<open>path_exists\<close> is \<open>path.exists()\<close>, \<open>sqlite_file\<close> the
  result of \<open>is_sqlite_file(path)\<close>.\<close>

definition infer_session_backend ::
  "string option \<Rightarrow> bool \<Rightarrow> SessionError + bool \<Rightarrow> SessionError + ResolvedSessionBackend" where
  "infer_session_backend extension path_exists sqlite_file =
     (let ext = map_option to_ascii_lowercase extension in
      if ext = Some ''sqlite'' \<or> ext = Some ''db'' then
        Inr \<lparr>rb_backend = Sqlite, rb_reason_code = ''session_backend_path_sqlite''\<rparr>
      else if ext = Some ''jsonl'' then
        Inr \<lparr>rb_backend = Jsonl, rb_reason_code = ''session_backend_path_jsonl''\<rparr>
      else if path_exists then
        and_then sqlite_file (\<lambda>is_sqlite.
          if is_sqlite then
            Inr \<lparr>rb_backend = Sqlite, rb_reason_code = ''session_backend_existing_sqlite''\<rparr>
          else
            Inr \<lparr>rb_backend = Jsonl, rb_reason_code = ''session_backend_existing_legacy_file''\<rparr>)
      else Inr \<lparr>rb_backend = Jsonl, rb_reason_code = ''session_backend_default_jsonl''\<rparr>)"

text \<open>\<open>env_value\<close> is \<open>TAU_SESSION_BACKEND\<close>, \<open>dsn\<close> is \<open>TAU_SESSION_POSTGRES_DSN\<close>.\<close>

definition resolve_session_backend ::
  "string option \<Rightarrow> string option \<Rightarrow> string option \<Rightarrow> bool \<Rightarrow> SessionError + bool
     \<Rightarrow> SessionError + ResolvedSessionBackend" where
  "resolve_session_backend env_value dsn extension path_exists sqlite_file =
     (case Option.bind (map_option trim env_value) (\<lambda>v. if v = [] then None else Some v) of
        None \<Rightarrow> infer_session_backend extension path_exists sqlite_file
      | Some raw \<Rightarrow>
          (let normalized = to_ascii_lowercase raw in
           if normalized = ''auto'' then infer_session_backend extension path_exists sqlite_file
           else if normalized = ''jsonl'' then
             Inr \<lparr>rb_backend = Jsonl, rb_reason_code = ''session_backend_env_jsonl''\<rparr>
           else if normalized = ''sqlite'' then
             Inr \<lparr>rb_backend = Sqlite, rb_reason_code = ''session_backend_env_sqlite''\<rparr>
           else if normalized = ''postgres'' then
             (if trim (case dsn of Some d \<Rightarrow> d | None \<Rightarrow> []) = [] then Inl PostgresRequiresDsn
              else Inr \<lparr>rb_backend = Postgres, rb_reason_code = ''session_backend_env_postgres''\<rparr>)
           else Inl (UnsupportedBackend raw)))"

subsection \<open>JSONL files\<close>

datatype 'v SessionRecord = Meta nat | Entry "'v SessionEntry"

text \<open>A line of the file: blank after \<open>trim\<close>, parsed as \<open>SessionRecord\<close>, parsed as a plain
  \<open>SessionEntry\<close> only (the old format), or neither.\<close>

datatype 'v SessionLine =
    BlankLine
  | RecordLine "'v SessionRecord"
  | LegacyEntryLine "'v SessionEntry"
  | OtherLine

fun read_lines :: "nat \<Rightarrow> 'v entries \<Rightarrow> 'v SessionLine list \<Rightarrow> SessionError + 'v entries" where
  "read_lines index entries [] = Inr entries"
| "read_lines index entries (BlankLine # ls) = read_lines (index + 1) entries ls"
| "read_lines index entries (RecordLine (Meta version) # ls) =
     (if version > SESSION_SCHEMA_VERSION then Inl (UnsupportedSchemaVersion version)
      else read_lines (index + 1) entries ls)"
| "read_lines index entries (RecordLine (Entry e) # ls) = read_lines (index + 1) (entries @ [e]) ls"
| "read_lines index entries (LegacyEntryLine e # ls) = read_lines (index + 1) (entries @ [e]) ls"
| "read_lines index entries (OtherLine # ls) = Inl (UnparsableLine (index + 1))"

text \<open>\<open>None\<close>: the file does not exist.\<close>

definition read_session_entries_jsonl ::
  "'v SessionLine list option \<Rightarrow> SessionError + 'v entries" where
  "read_session_entries_jsonl file = (case file of None \<Rightarrow> Inr [] | Some ls \<Rightarrow> read_lines 0 [] ls)"

definition jsonl_lines :: "'v entries \<Rightarrow> 'v SessionLine list" where
  "jsonl_lines es = RecordLine (Meta SESSION_SCHEMA_VERSION) # map (\<lambda>e. RecordLine (Entry e)) es"

text \<open>The writer as the file operations it issues, in order: create or truncate the temporary
  file, one \<open>writeln!\<close> per line, \<open>rename\<close> over the session file.\<close>

type_synonym 'v files = "string \<rightharpoonup> 'v SessionLine list"

datatype 'v FileStep = Truncate string | AppendLine string "'v SessionLine" | Rename string string

fun file_step :: "'v files \<Rightarrow> 'v FileStep \<Rightarrow> 'v files" where
  "file_step fs (Truncate p) = fs(p \<mapsto> [])"
| "file_step fs (AppendLine p l) = fs(p := map_option (\<lambda>ls. ls @ [l]) (fs p))"
| "file_step fs (Rename p q) = (fs(p := None))(q := fs p)"

definition temp_file_name :: "string \<Rightarrow> nat \<Rightarrow> string" where
  "temp_file_name name timestamp = ''.'' @ name @ ''.'' @ show_nat timestamp @ ''.tmp''"

definition write_session_entries_atomic_jsonl :: "string \<Rightarrow> nat \<Rightarrow> 'v entries \<Rightarrow> 'v FileStep list" where
  "write_session_entries_atomic_jsonl name timestamp es =
     (let temp = temp_file_name name timestamp
      in Truncate temp # map (AppendLine temp) (jsonl_lines es) @ [Rename temp name])"

lemma temp_file_name_neq [simp]: "temp_file_name name t \<noteq> name" "name \<noteq> temp_file_name name t"
  by (auto simp: temp_file_name_def dest!: arg_cong [of _ _ length])

lemma read_lines_records: "read_lines i acc (map (\<lambda>e. RecordLine (Entry e)) es) = Inr (acc @ es)"
  by (induction es arbitrary: i acc) auto

lemma jsonl_roundtrip: "read_session_entries_jsonl (Some (jsonl_lines es)) = Inr es"
  by (simp add: read_session_entries_jsonl_def jsonl_lines_def read_lines_records)

lemma append_steps:
  "fs p = Some ls \<Longrightarrow> foldl file_step fs (map (AppendLine p) ms) = fs(p \<mapsto> ls @ ms)"
proof (induction ms arbitrary: fs ls)
  case (Cons m ms)
  have "foldl file_step (fs(p \<mapsto> ls @ [m])) (map (AppendLine p) ms)
      = (fs(p \<mapsto> ls @ [m]))(p \<mapsto> (ls @ [m]) @ ms)" by (rule Cons.IH) simp
  with Cons.prems show ?case by simp
qed (auto simp: fun_eq_iff)

lemma jsonl_write_final:
  "foldl file_step fs (write_session_entries_atomic_jsonl name t es)
     = fs(temp_file_name name t := None, name \<mapsto> jsonl_lines es)"
  by (simp add: write_session_entries_atomic_jsonl_def Let_def append_steps [where ls = "[]"] fun_eq_iff)

lemma foldl_file_step_other:
  assumes "\<And>s. s \<in> set steps \<Longrightarrow> (\<exists>l. s = AppendLine p l) \<or> s = Truncate p" "q \<noteq> p"
  shows "foldl file_step fs steps q = fs q"
  using assms
proof (induction steps arbitrary: fs)
  case (Cons s steps)
  then have "(\<exists>l. s = AppendLine p l) \<or> s = Truncate p" by auto
  then have "file_step fs s q = fs q" using Cons.prems(2) by auto
  with Cons show ?case by simp
qed simp

text \<open>Whatever prefix of the steps runs before a crash, the session file is the old one or the
  complete new one.\<close>

lemma jsonl_write_atomic:
  "foldl file_step fs (take k (write_session_entries_atomic_jsonl name t es)) name
     \<in> {fs name, Some (jsonl_lines es)}"
proof -
  let ?init = "Truncate (temp_file_name name t) # map (AppendLine (temp_file_name name t)) (jsonl_lines es)"
  have steps: "write_session_entries_atomic_jsonl name t es = ?init @ [Rename (temp_file_name name t) name]"
    by (simp add: write_session_entries_atomic_jsonl_def Let_def)
  show ?thesis
  proof (cases "k \<le> length ?init")
    case True
    then have "take k (write_session_entries_atomic_jsonl name t es) = take k ?init"
      unfolding steps take_append by simp
    moreover have "foldl file_step fs (take k ?init) name = fs name"
      by (rule foldl_file_step_other [where p = "temp_file_name name t"])
        (auto dest!: in_set_takeD)
    ultimately show ?thesis by simp
  next
    case False
    then have "take k (write_session_entries_atomic_jsonl name t es)
        = write_session_entries_atomic_jsonl name t es" by (simp add: steps)
    then show ?thesis by (simp add: jsonl_write_final)
  qed
qed

subsection \<open>SQL tables\<close>

text \<open>The statements the code runs on its entry table, each fallible. \<open>et_delete\<close> clears the
  session's rows, \<open>et_insert\<close> inserts one row (id, parent id, message), \<open>et_select\<close> is
  \<open>SELECT ... ORDER BY id ASC\<close> with the columns as the driver returns them, \<open>et_count\<close> is
  \<open>SELECT COUNT(1)\<close>. The ids are \<open>u64\<close> for the SQLite driver and \<open>i64\<close> for Postgres.\<close>

record ('i, 'db, 'v) EntryTable =
  et_delete :: "'db \<Rightarrow> SessionError + 'db"
  et_insert :: "'i \<Rightarrow> 'i option \<Rightarrow> 'v Message \<Rightarrow> 'db \<Rightarrow> SessionError + 'db"
  et_select :: "'db \<Rightarrow> SessionError + ('i \<times> 'i option \<times> 'v Message) list"
  et_count :: "'db \<Rightarrow> SessionError + nat"

text \<open>\<open>i64::try_from(value)\<close> on a \<open>u64\<close>.\<close>

definition u64_to_i64 :: "nat \<Rightarrow> int option" where
  "u64_to_i64 n = (if n \<le> i64_max then Some (int n) else None)"

text \<open>\<open>u64::try_from(value)\<close> on an \<open>i64\<close>.\<close>

definition i64_to_u64 :: "int \<Rightarrow> nat option" where
  "i64_to_u64 i = (if 0 \<le> i then Some (nat i) else None)"

subsubsection \<open>SQLite\<close>

text \<open>The database file is \<open>None\<close> when it does not exist; \<open>open_db\<close> opens or creates it and
  initializes the schema. A transaction that is not committed leaves the file as it was.\<close>

definition read_session_entries_sqlite ::
  "('db option \<Rightarrow> SessionError + 'db) \<Rightarrow> (nat, 'db, 'v) EntryTable \<Rightarrow> 'db option
     \<Rightarrow> SessionError + 'v entries" where
  "read_session_entries_sqlite open_db T file =
     (case file of
        None \<Rightarrow> Inr []
      | Some _ \<Rightarrow>
          and_then (open_db file) (\<lambda>db.
          and_then (et_select T db) (\<lambda>rows.
            Inr (map (\<lambda>(i, p, m). \<lparr>se_id = i, se_parent_id = p, se_message = m\<rparr>) rows))))"

definition write_session_entries_sqlite ::
  "('db option \<Rightarrow> SessionError + 'db) \<Rightarrow> (nat, 'db, 'v) EntryTable \<Rightarrow> 'v entries \<Rightarrow> 'db option
     \<Rightarrow> SessionError + 'db option" where
  "write_session_entries_sqlite open_db T es file =
     and_then (open_db file) (\<lambda>db.
     and_then (et_delete T db) (\<lambda>db'.
     and_then (try_fold (\<lambda>d e. et_insert T (se_id e) (se_parent_id e) (se_message e) d) db' es) (\<lambda>d.
       Inr (Some d))))"

text \<open>\<open>same_path\<close> is \<open>legacy_jsonl_path == path\<close>, \<open>legacy\<close> the legacy file.\<close>

definition maybe_import_legacy_jsonl_into_sqlite ::
  "('db option \<Rightarrow> SessionError + 'db) \<Rightarrow> (nat, 'db, 'v) EntryTable \<Rightarrow> SessionStorageBackend \<Rightarrow> bool
     \<Rightarrow> 'v SessionLine list option \<Rightarrow> 'db option \<Rightarrow> SessionError + (nat \<times> 'db option)" where
  "maybe_import_legacy_jsonl_into_sqlite open_db T backend same_path legacy file =
     (if backend \<noteq> Sqlite \<or> same_path \<or> legacy = None then Inr (0, file)
      else
        and_then (open_db file) (\<lambda>db.
        and_then (et_count T db) (\<lambda>existing_count.
        if existing_count > 0 then Inr (0, Some db)
        else
          and_then (read_session_entries_jsonl legacy) (\<lambda>entries.
          if entries = [] then Inr (0, Some db)
          else
            and_then (write_session_entries_sqlite open_db T entries (Some db)) (\<lambda>file'.
              Inr (length entries, file'))))))"

subsubsection \<open>Postgres\<close>

definition postgres_row :: "'v SessionEntry \<Rightarrow> SessionError + (int \<times> int option)" where
  "postgres_row e =
     and_then (ok_or (u64_to_i64 (se_id e)) (IdExceedsBigint (se_id e))) (\<lambda>i.
     case se_parent_id e of
       None \<Rightarrow> Inr (i, None)
     | Some p \<Rightarrow> and_then (ok_or (u64_to_i64 p) (ParentIdExceedsBigint p)) (\<lambda>q. Inr (i, Some q)))"

text \<open>The transaction is dropped, and the database left as it was, unless every step succeeds.\<close>

definition write_session_entries_postgres ::
  "(int, 'db, 'v) EntryTable \<Rightarrow> 'v entries \<Rightarrow> 'db \<Rightarrow> SessionError + 'db" where
  "write_session_entries_postgres T es db =
     and_then (et_delete T db) (\<lambda>db'.
       try_fold (\<lambda>d e. and_then (postgres_row e) (\<lambda>(i, p). et_insert T i p (se_message e) d)) db' es)"

definition postgres_entry ::
  "int \<times> int option \<times> 'v Message \<Rightarrow> SessionError + 'v SessionEntry" where
  "postgres_entry row =
     (case row of (i, p, m) \<Rightarrow>
        and_then (ok_or (i64_to_u64 i) (InvalidDatabaseId i)) (\<lambda>j.
        and_then (case p of
                    None \<Rightarrow> Inr None
                  | Some q \<Rightarrow> and_then (ok_or (i64_to_u64 q) (InvalidDatabaseId q)) (\<lambda>r. Inr (Some r)))
          (\<lambda>r. Inr \<lparr>se_id = j, se_parent_id = r, se_message = m\<rparr>)))"

definition read_session_entries_postgres ::
  "(int, 'db, 'v) EntryTable \<Rightarrow> 'db \<Rightarrow> SessionError + 'v entries" where
  "read_session_entries_postgres T db =
     and_then (et_select T db) (\<lambda>rows.
       try_fold (\<lambda>acc row. and_then (postgres_entry row) (\<lambda>e. Inr (acc @ [e]))) [] rows)"

subsubsection \<open>Rows and entries\<close>

definition row_of :: "'v SessionEntry \<Rightarrow> int \<times> int option \<times> 'v Message" where
  "row_of e = (int (se_id e), map_option int (se_parent_id e), se_message e)"

definition fits_bigint :: "'v SessionEntry \<Rightarrow> bool" where
  "fits_bigint e = (se_id e \<le> i64_max \<and> (\<forall>p. se_parent_id e = Some p \<longrightarrow> p \<le> i64_max))"

lemma postgres_row_ok: "fits_bigint e \<Longrightarrow> postgres_row e = Inr (int (se_id e), map_option int (se_parent_id e))"
  by (auto simp: postgres_row_def fits_bigint_def u64_to_i64_def split: option.split)

lemma postgres_row_too_big: "\<not> fits_bigint e \<Longrightarrow> \<exists>err. postgres_row e = Inl err"
  by (auto simp: postgres_row_def fits_bigint_def u64_to_i64_def ok_or_def split: option.split)

lemma postgres_entry_row: "postgres_entry (row_of e) = Inr e"
  by (cases e) (auto simp: postgres_entry_def row_of_def i64_to_u64_def split: option.split)

lemma postgres_decode_rows:
  "try_fold (\<lambda>acc row. and_then (postgres_entry row) (\<lambda>e. Inr (acc @ [e]))) acc (map row_of es)
     = Inr (acc @ es)"
  by (induction es arbitrary: acc) (auto simp: postgres_entry_row)

text \<open>An entry whose id or parent id does not fit \<open>BIGINT\<close> makes the write fail.\<close>

lemma postgres_write_rejects:
  assumes "\<exists>e \<in> set es. \<not> fits_bigint e"
  shows "\<not> is_ok (write_session_entries_postgres T es db)"
proof -
  have "\<not> is_ok (try_fold (\<lambda>d e. and_then (postgres_row e) (\<lambda>(i, p). et_insert T i p (se_message e) d)) d es)" for d
    using assms
  proof (induction es arbitrary: d)
    case (Cons e es)
    show ?case
    proof (cases "fits_bigint e")
      case True
      with Cons have rest: "\<exists>e \<in> set es. \<not> fits_bigint e" by auto
      show ?thesis
        by (cases "et_insert T (int (se_id e)) (map_option int (se_parent_id e)) (se_message e) d")
          (use Cons.IH [OF rest] True in \<open>auto simp: postgres_row_ok\<close>)
    next
      case False
      then show ?thesis using postgres_row_too_big by fastforce
    qed
  qed simp
  then show ?thesis
    by (cases "et_delete T db") (auto simp: write_session_entries_postgres_def)
qed

text \<open>What the code relies on of the database: deleting clears the session's rows, a successful
  insert adds its row in id order and refuses an id that is there, the count is the number of rows.\<close>

definition table_laws :: "('i :: linorder, 'db, 'v) EntryTable \<Rightarrow> bool" where
  "table_laws T =
     ((\<forall>db db'. et_delete T db = Inr db' \<longrightarrow> et_select T db' = Inr [])
      \<and> (\<forall>db db' i p m rows. et_select T db = Inr rows \<longrightarrow> et_insert T i p m db = Inr db' \<longrightarrow>
           i \<notin> fst ` set rows \<and> et_select T db' = Inr (insort_key fst (i, p, m) rows))
      \<and> (\<forall>db rows n. et_select T db = Inr rows \<longrightarrow> et_count T db = Inr n \<longrightarrow> n = length rows))"

lemma table_laws_insert:
  assumes "table_laws T" "et_select T db = Inr rows" "et_insert T i p m db = Inr db'"
  shows "i \<notin> fst ` set rows" "et_select T db' = Inr (insort_key fst (i, p, m) rows)"
  using assms by (simp_all add: table_laws_def)

lemma sort_key_rev_distinct:
  fixes k :: "'a \<Rightarrow> 'b :: linorder"
  assumes "distinct (map k xs)"
  shows "sort_key k (rev xs) = sort_key k xs"
proof -
  have "sorted (map k (sort_key k (rev xs)))" "sorted (map k (sort_key k xs))" by simp_all
  moreover have "distinct (map k (sort_key k (rev xs)))" "distinct (map k (sort_key k xs))"
    using assms by (simp_all add: distinct_map)
  ultimately show ?thesis
    using assms by (intro map_sorted_distinct_set_unique [where f = k]) (auto simp: distinct_map)
qed

text \<open>The insert loop of both writers: \<open>row\<close> is the row of an entry, \<open>step\<close> the insertion.\<close>

lemma table_inserts:
  fixes T :: "('i :: linorder, 'db, 'v) EntryTable"
  assumes T: "table_laws T"
    and mono: "\<And>d e. fst (row d) \<le> fst (row e) \<longleftrightarrow> se_id d \<le> se_id e"
    and step: "\<And>d e d'. step d e = Inr d' \<Longrightarrow>
        et_insert T (fst (row e)) (fst (snd (row e))) (snd (snd (row e))) d = Inr d'"
    and "et_select T db = Inr (map row (sort_key se_id fs))" "distinct (map se_id fs)"
    and "try_fold step db es = Inr db'"
  shows "et_select T db' = Inr (map row (sort_key se_id (rev es @ fs))) \<and> distinct (map se_id (rev es @ fs))"
  using assms(4-)
proof (induction es arbitrary: db fs)
  case (Cons e es)
  from Cons.prems(3) obtain d where d: "step db e = Inr d" and rest: "try_fold step d es = Inr db'"
    by (auto simp: result_simps)
  note ins = table_laws_insert [OF T Cons.prems(1) step [OF d]]
  have row: "insort_key fst (row e) (map row l) = map row (insort_key se_id e l)" for l
    by (induction l) (auto simp: mono)
  have "fst (row d) = fst (row e) \<longleftrightarrow> se_id d = se_id e" for d
    using mono [of d e] mono [of e d] by (metis order_antisym order_refl)
  then have "distinct (map se_id (e # fs))" using ins(1) Cons.prems(2) by (force simp: image_iff)
  moreover have "et_select T d = Inr (map row (sort_key se_id (e # fs)))"
    using ins(2) by (simp add: row)
  ultimately show ?case using Cons.IH [OF _ _ rest, of "e # fs"] by simp
qed simp

text \<open>Both database backends return what was written, in id order.\<close>

lemma sqlite_roundtrip:
  assumes T: "table_laws T" and op: "\<And>db. open_db (Some db) = Inr db"
    and w: "write_session_entries_sqlite open_db T es file = Inr file'"
  shows "read_session_entries_sqlite open_db T file' = Inr (sort_key se_id es)" "distinct (map se_id es)"
proof -
  from w obtain db db' d where "et_delete T db = Inr db'" "file' = Some d"
    and fold: "try_fold (\<lambda>d e. et_insert T (se_id e) (se_parent_id e) (se_message e) d) db' es = Inr d"
    by (auto simp: write_session_entries_sqlite_def result_simps)
  moreover from this have "et_select T db' = Inr []" using T by (simp add: table_laws_def)
  ultimately have *: "et_select T d = Inr (map (\<lambda>e. (se_id e, se_parent_id e, se_message e)) (sort_key se_id (rev es)))"
    "distinct (map se_id (rev es))"
    using table_inserts [OF T, of "\<lambda>e. (se_id e, se_parent_id e, se_message e)"
        "\<lambda>d e. et_insert T (se_id e) (se_parent_id e) (se_message e) d" db' "[]" es d]
    by simp_all
  then show "distinct (map se_id es)" by (simp add: rev_map [symmetric])
  with * show "read_session_entries_sqlite open_db T file' = Inr (sort_key se_id es)"
    using \<open>file' = Some d\<close> op
    by (simp add: read_session_entries_sqlite_def sort_key_rev_distinct comp_def map_idI)
qed

lemma postgres_roundtrip:
  assumes T: "table_laws T" and w: "write_session_entries_postgres T es db = Inr db'"
  shows "read_session_entries_postgres T db' = Inr (sort_key se_id es)" "distinct (map se_id es)"
proof -
  let ?step = "\<lambda>d e. and_then (postgres_row e) (\<lambda>(i, p). et_insert T i p (se_message e) d)"
  have step: "et_insert T (fst (row_of e)) (fst (snd (row_of e))) (snd (snd (row_of e))) d = Inr d'"
    if "?step d e = Inr d'" for d e d'
  proof -
    have "fits_bigint e" using that postgres_row_too_big by fastforce
    with that show ?thesis by (simp add: postgres_row_ok row_of_def)
  qed
  from w obtain d where "et_delete T db = Inr d" and fold: "try_fold ?step d es = Inr db'"
    by (auto simp: write_session_entries_postgres_def result_simps)
  moreover from this have "et_select T d = Inr []" using T by (simp add: table_laws_def)
  ultimately have *: "et_select T db' = Inr (map row_of (sort_key se_id (rev es)))" "distinct (map se_id (rev es))"
    using table_inserts [OF T, of row_of ?step d "[]" es db'] step by (simp_all add: row_of_def)
  then show "distinct (map se_id es)" by (simp add: rev_map [symmetric])
  with * show "read_session_entries_postgres T db' = Inr (sort_key se_id es)"
    by (simp add: read_session_entries_postgres_def sort_key_rev_distinct postgres_decode_rows)
qed

subsection \<open>Properties\<close>

text \<open>C34. The JSONL writer is crash safe: after any number of its file operations, reading the session
  file gives the session as it was before or all the new entries, and after all of them the new
  entries.\<close>

theorem jsonl_write_crash_safe:
  "read_session_entries_jsonl
       (foldl file_step fs (take k (write_session_entries_atomic_jsonl name t es)) name)
     \<in> {read_session_entries_jsonl (fs name), Inr es}
   \<and> read_session_entries_jsonl (foldl file_step fs (write_session_entries_atomic_jsonl name t es) name)
     = Inr es"
  using jsonl_write_atomic [of fs k name t es] by (auto simp: jsonl_write_final jsonl_roundtrip)

text \<open>The Postgres writer refuses a session with an id or parent id above \<open>i64::MAX\<close>; whenever it
  succeeds on a table with unique ids and ordered selection, the reader returns exactly the written
  entries in id order.\<close>

theorem postgres_write_then_read:
  assumes "table_laws T"
  shows "((\<exists>e \<in> set es. \<not> fits_bigint e) \<longrightarrow> \<not> is_ok (write_session_entries_postgres T es db))
    \<and> (write_session_entries_postgres T es db = Inr db'
         \<longrightarrow> read_session_entries_postgres T db' = Inr (sort_key se_id es))"
  using postgres_write_rejects [of es T db] postgres_roundtrip(1) [OF assms] by blast

text \<open>A table kept as a list of rows.\<close>

definition list_table :: "('i :: linorder, ('i \<times> 'i option \<times> 'v Message) list, 'v) EntryTable" where
  "list_table = \<lparr>et_delete = (\<lambda>db. Inr []),
     et_insert = (\<lambda>i p m db. if i \<in> fst ` set db then Inl (StorageError ''unique constraint'')
                               else Inr (insort_key fst (i, p, m) db)),
     et_select = Inr, et_count = (\<lambda>db. Inr (length db))\<rparr>"

lemma list_table_laws: "table_laws list_table"
  by (auto simp: table_laws_def list_table_def)

theorem postgres_write_then_read_witness:
  "read_session_entries_postgres list_table
     [(1, None, text_message User ''hi''), (2, Some 1, text_message User ''hi''),
      (3, Some 1, text_message User ''hi'')]
   = Inr (sort_key se_id sample_session)"
  using postgres_write_then_read [OF list_table_laws, of sample_session "[]"]
  by (simp add: sample_session_def sample_entry_def write_session_entries_postgres_def list_table_def
      postgres_row_def u64_to_i64_def)

end
