(* ===== verification/Rust_Float.thy ===== *)
theory Rust_Float
  imports Main "HOL-Library.Word"
begin

text \<open>
  An \<open>f64\<close> is its 64 bits. The operations the sources use without arithmetic (\<open>abs\<close>, \<open>is_nan\<close>,
  \<open>is_finite\<close>, comparison with a constant, \<open>max(0.0)\<close>) are computed on the bits: floats without
  sign are ordered as their bits, with infinity and then the NaNs above every finite value.
\<close>

unbundle bit_operations_syntax

type_synonym f64 = "64 word"

definition f64_EPSILON :: f64 where "f64_EPSILON = push_bit 52 971"

definition f64_one :: f64 where "f64_one = push_bit 52 1023"

definition f64_infinity :: f64 where "f64_infinity = push_bit 52 2047"

definition f64_abs :: "f64 \<Rightarrow> f64" where "f64_abs x = x AND mask 63"

definition f64_is_nan :: "f64 \<Rightarrow> bool" where "f64_is_nan x = (f64_infinity < f64_abs x)"

definition f64_is_finite :: "f64 \<Rightarrow> bool" where "f64_is_finite x = (f64_abs x < f64_infinity)"

text \<open>\<open>x.abs() <= f64::EPSILON\<close>.\<close>

definition f64_negligible :: "f64 \<Rightarrow> bool" where "f64_negligible x = (f64_abs x \<le> f64_EPSILON)"

text \<open>\<open>x.max(0.0)\<close>: zero for a NaN or a set sign bit.\<close>

definition f64_max_zero :: "f64 \<Rightarrow> f64" where
  "f64_max_zero x = (if f64_is_nan x \<or> bit x 63 then 0 else x)"

text \<open>\<open>(0.0..=1.0).contains(&x)\<close>: both zeros, and the positive floats up to one.\<close>

definition f64_in_unit :: "f64 \<Rightarrow> bool" where
  "f64_in_unit x = (f64_abs x = 0 \<or> \<not> bit x 63 \<and> x \<le> f64_one)"

lemma f64_max_zero_sign: "\<not> bit (f64_max_zero x) 63" "\<not> f64_is_nan (f64_max_zero x)"
  by (auto simp: f64_max_zero_def f64_is_nan_def f64_abs_def)

lemma f64_abs_le: "f64_abs x \<le> x"
  by (simp add: f64_abs_def word_and_le2)

lemma f64_in_unit_finite: "f64_in_unit x \<Longrightarrow> f64_is_finite x"
proof -
  have "f64_one < f64_infinity" "(0 :: f64) < f64_infinity" by (simp_all add: f64_one_def f64_infinity_def)
  then show "f64_in_unit x \<Longrightarrow> f64_is_finite x"
    using f64_abs_le [of x] by (auto simp: f64_in_unit_def f64_is_finite_def)
qed

lemma f64_finite_not_nan: "f64_is_finite x \<Longrightarrow> \<not> f64_is_nan x"
  by (auto simp: f64_is_finite_def f64_is_nan_def)

end
