(* ===== verification/Session_Usage.thy ===== *)
theory Session_Usage
  imports Session_Storage Rust_Float
begin

text \<open>
  The usage summary of a session: \<open>SessionUsageSummary\<close> and its persisted records (\<open>lib.rs\<close>,
  \<open>session_storage.rs\<close>) and the accumulation of \<open>SessionStore::record_usage_delta\<close>. The floating
  addition of the costs is an argument.
\<close>

record SessionUsageSummary =
  us_input_tokens :: nat
  us_output_tokens :: nat
  us_total_tokens :: nat
  us_estimated_cost_usd :: f64

definition default_usage :: SessionUsageSummary where
  "default_usage = \<lparr>us_input_tokens = 0, us_output_tokens = 0, us_total_tokens = 0, us_estimated_cost_usd = 0\<rparr>"

abbreviation SESSION_USAGE_SCHEMA_VERSION :: nat where "SESSION_USAGE_SCHEMA_VERSION \<equiv> 1"

subsection \<open>The usage file\<close>

text \<open>The text of the usage file as \<open>serde_json\<close> classifies it after \<open>trim\<close>: empty, a record with a
  schema version, a plain summary (the old format), or neither.\<close>

datatype UsageFile =
    EmptyUsage
  | UsageRecord nat SessionUsageSummary
  | LegacyUsage SessionUsageSummary
  | OtherUsage

definition read_session_usage_summary_json :: "UsageFile option \<Rightarrow> SessionError + SessionUsageSummary" where
  "read_session_usage_summary_json file =
     (case file of
        None \<Rightarrow> Inr default_usage
      | Some EmptyUsage \<Rightarrow> Inr default_usage
      | Some (UsageRecord version u) \<Rightarrow>
          if version > SESSION_USAGE_SCHEMA_VERSION then Inl (UnsupportedSchemaVersion version) else Inr u
      | Some (LegacyUsage u) \<Rightarrow> Inr u
      | Some OtherUsage \<Rightarrow> Inl (StorageError ''failed to parse session usage summary''))"

definition usage_record :: "SessionUsageSummary \<Rightarrow> UsageFile" where
  "usage_record u = UsageRecord SESSION_USAGE_SCHEMA_VERSION u"

text \<open>\<open>fs::write\<close> of the temporary file, then \<open>rename\<close> over \<open>name\<close> (\<open>session_usage_path\<close>).\<close>

type_synonym usage_files = "string \<rightharpoonup> UsageFile"

definition write_session_usage_summary_atomic_json ::
  "string \<Rightarrow> nat \<Rightarrow> SessionUsageSummary \<Rightarrow> usage_files \<Rightarrow> usage_files" where
  "write_session_usage_summary_atomic_json name timestamp u fs =
     (let temp = temp_file_name name timestamp;
          written = fs(temp \<mapsto> usage_record u)
      in (written(temp := None))(name := written temp))"

text \<open>The Postgres row: schema version, the three counters as \<open>BIGINT\<close>, the cost.\<close>

type_synonym usage_row = "int \<times> int \<times> int \<times> int \<times> f64"

definition write_session_usage_summary_postgres :: "SessionUsageSummary \<Rightarrow> SessionError + usage_row" where
  "write_session_usage_summary_postgres u =
     and_then (ok_or (u64_to_i64 (us_input_tokens u)) (IdExceedsBigint (us_input_tokens u))) (\<lambda>input.
     and_then (ok_or (u64_to_i64 (us_output_tokens u)) (IdExceedsBigint (us_output_tokens u))) (\<lambda>output.
     and_then (ok_or (u64_to_i64 (us_total_tokens u)) (IdExceedsBigint (us_total_tokens u))) (\<lambda>total.
       Inr (int SESSION_USAGE_SCHEMA_VERSION, input, output, total, us_estimated_cost_usd u))))"

definition read_session_usage_summary_postgres ::
  "usage_row option \<Rightarrow> SessionError + SessionUsageSummary" where
  "read_session_usage_summary_postgres row =
     (case row of
        None \<Rightarrow> Inr default_usage
      | Some (version, input, output, total_raw, cost) \<Rightarrow>
          if version < 0 \<or> version > int SESSION_USAGE_SCHEMA_VERSION
          then Inl (UnsupportedSchemaVersion (nat version))
          else
            and_then (ok_or (i64_to_u64 input) (InvalidDatabaseId input)) (\<lambda>i.
            and_then (ok_or (i64_to_u64 output) (InvalidDatabaseId output)) (\<lambda>p.
            and_then (ok_or (i64_to_u64 total_raw) (InvalidDatabaseId total_raw)) (\<lambda>t.
              Inr \<lparr>us_input_tokens = i, us_output_tokens = p, us_total_tokens = t,
                   us_estimated_cost_usd = cost\<rparr>))))"

subsection \<open>Accumulation\<close>

definition is_empty_delta :: "SessionUsageSummary \<Rightarrow> bool" where
  "is_empty_delta d = (us_input_tokens d = 0 \<and> us_output_tokens d = 0 \<and> us_total_tokens d = 0
     \<and> f64_negligible (us_estimated_cost_usd d))"

definition add_usage ::
  "(f64 \<Rightarrow> f64 \<Rightarrow> f64) \<Rightarrow> SessionUsageSummary \<Rightarrow> SessionUsageSummary \<Rightarrow> SessionUsageSummary" where
  "add_usage f64_add s d =
     \<lparr>us_input_tokens = u64_saturating_add (us_input_tokens s) (us_input_tokens d),
      us_output_tokens = u64_saturating_add (us_output_tokens s) (us_output_tokens d),
      us_total_tokens = u64_saturating_add (us_total_tokens s) (us_total_tokens d),
      us_estimated_cost_usd =
        f64_add (us_estimated_cost_usd s) (f64_max_zero (us_estimated_cost_usd d))\<rparr>"

subsection \<open>Laws\<close>

lemma usage_json_roundtrip:
  "read_session_usage_summary_json (write_session_usage_summary_atomic_json name t u fs name) = Inr u"
  by (simp add: read_session_usage_summary_json_def write_session_usage_summary_atomic_json_def usage_record_def)

lemma usage_postgres_roundtrip:
  "write_session_usage_summary_postgres u = Inr row \<Longrightarrow> read_session_usage_summary_postgres (Some row) = Inr u"
  by (auto simp: write_session_usage_summary_postgres_def read_session_usage_summary_postgres_def
      result_simps u64_to_i64_def i64_to_u64_def ok_or_def split: if_splits)

lemma u64_saturating_add_assoc:
  "u64_saturating_add (u64_saturating_add a b) c = u64_saturating_add a (b + c)"
  by (simp add: u64_saturating_add_def)

text \<open>Token counters after a series of deltas: the saturated sum, in any order of the deltas.\<close>

lemma usage_tokens_sum:
  "us_total_tokens s \<le> u64_max \<Longrightarrow>
   us_total_tokens (foldl (add_usage f64_add) s ds) = min (us_total_tokens s + sum_list (map us_total_tokens ds)) u64_max"
proof (induction ds rule: rev_induct)
  case (snoc d ds)
  then show ?case by (auto simp: add_usage_def u64_saturating_add_def min_def)
qed simp

end
