(* ===== verification/Session_Ops.thy ===== *)
theory Session_Ops
  imports Session_Graph
begin

text \<open>
  What the operations of \<open>SessionStore\<close> (\<open>session_store_runtime.rs\<close>) and the import remapping of
  \<open>session_integrity.rs\<close> do to the entry list between reading it and writing it back: appending
  messages, importing a snapshot, merging branches, repairing, compacting, branch tips. Each
  comes with its effect on \<open>session_wf\<close> and on lineages.
\<close>

subsection \<open>Appending messages\<close>

definition next_entry_id :: "'v entries \<Rightarrow> nat" where
  "next_entry_id es = u64_add (max_or_0 (map se_id es)) 1"

fun append_loop ::
  "'v entries \<Rightarrow> nat \<Rightarrow> nat option \<Rightarrow> 'v Message list \<Rightarrow> 'v entries \<times> nat \<times> nat option" where
  "append_loop es next_id parent [] = (es, next_id, parent)"
| "append_loop es next_id parent (m # ms) =
     append_loop (es @ [\<lparr>se_id = next_id, se_parent_id = parent, se_message = m\<rparr>])
       (u64_add next_id 1) (Some next_id) ms"

definition append_entries ::
  "'v entries \<Rightarrow> nat option \<Rightarrow> 'v Message list \<Rightarrow> SessionError + ('v entries \<times> nat \<times> nat option)" where
  "append_entries es parent ms =
     (case parent of
        None \<Rightarrow> Inr (append_loop es (next_entry_id es) parent ms)
      | Some p \<Rightarrow>
          if \<not> (\<exists>e \<in> set es. se_id e = p) then Inl (ParentDoesNotExist p)
          else Inr (append_loop es (next_entry_id es) parent ms))"

text \<open>The lineage of an optional head.\<close>

definition head_lineage :: "'v entries \<Rightarrow> nat option \<Rightarrow> 'v entries \<Rightarrow> bool" where
  "head_lineage es h l = (case h of None \<Rightarrow> l = [] | Some i \<Rightarrow> is_lineage es i l)"

lemma head_lineage_entries:
  "distinct (map se_id es) \<Longrightarrow> head_lineage es h l \<Longrightarrow> lineage_entries es h = Inr l"
  by (cases h) (auto simp: head_lineage_def lineage_entries_iff, simp add: lineage_entries_def)

lemma head_lineage_exists:
  "session_wf es \<Longrightarrow> (\<And>i. h = Some i \<Longrightarrow> i \<in> entry_ids es) \<Longrightarrow> \<exists>l. head_lineage es h l"
  by (cases h) (auto simp: head_lineage_def intro: lineage_exists)

lemma max_id_upper: "i \<in> entry_ids es \<Longrightarrow> i \<le> max_or_0 (map se_id es)"
  by (rule max_or_0_upper) simp

lemma next_entry_id_fresh:
  "max_or_0 (map se_id es) < u64_max \<Longrightarrow> i \<in> entry_ids es \<Longrightarrow> i < next_entry_id es"
  by (drule max_id_upper) (simp add: next_entry_id_def u64_add_small)

lemma append_loop_correct:
  assumes "session_wf es" and "\<And>i. i \<in> entry_ids es \<Longrightarrow> i < n" and "n + length ms \<le> 2 ^ 64"
    and "\<And>p. parent = Some p \<Longrightarrow> p \<in> entry_ids es" and "head_lineage es parent l"
    and "append_loop es n parent ms = (es', n', parent')"
  shows "\<exists>new. es' = es @ new \<and> map se_message new = ms \<and> map se_id new = [n..<n + length ms]
    \<and> session_wf es' \<and> head_lineage es' parent' (l @ new)"
  using assms
proof (induction ms arbitrary: es n parent l)
  case (Cons m ms)
  let ?e = "\<lparr>se_id = n, se_parent_id = parent, se_message = m\<rparr>"
  have fresh: "n \<notin> entry_ids es" using Cons.prems(2) by blast
  have wf: "session_wf (es @ [?e])"
    using session_wf_snoc [of es ?e] Cons.prems(1,4) fresh by simp
  have "head_lineage (es @ [?e]) (Some n) (l @ [?e])"
  proof (cases parent)
    case None
    with Cons.prems(5) show ?thesis by (simp add: head_lineage_def is_lineage_def)
  next
    case (Some p)
    with Cons.prems(5) have "is_lineage (es @ [?e]) p l"
      by (auto simp: head_lineage_def intro: is_lineage_mono)
    from is_lineage_snocI [OF session_wfD(3) [OF wf] this, of ?e] Some
    show ?thesis by (simp add: head_lineage_def)
  qed
  moreover have small: "ms = [] \<or> u64_add n 1 = Suc n"
    using Cons.prems(3) by (cases ms) (simp_all add: u64_add_small)
  moreover have "i < Suc n" if "i \<in> entry_ids (es @ [?e])" for i
    using that Cons.prems(2) [of i] by auto
  ultimately show ?case
  proof (cases "ms = []")
    case True
    with Cons.prems(6) wf \<open>head_lineage (es @ [?e]) (Some n) (l @ [?e])\<close> show ?thesis
      by (intro exI [of _ "[?e]"]) auto
  next
    case False
    with small have sm: "u64_add n 1 = Suc n" by simp
    with Cons.prems(6) have loop: "append_loop (es @ [?e]) (Suc n) (Some n) ms = (es', n', parent')"
      by simp
    have "Suc n + length ms \<le> 2 ^ 64" using Cons.prems(3) by simp
    from Cons.IH [OF wf \<open>\<And>i. i \<in> entry_ids (es @ [?e]) \<Longrightarrow> i < Suc n\<close> this _
        \<open>head_lineage (es @ [?e]) (Some n) (l @ [?e])\<close> loop]
    obtain new where "es' = (es @ [?e]) @ new" "map se_message new = ms"
      "map se_id new = [Suc n..<Suc n + length ms]" "session_wf es'"
      "head_lineage es' parent' ((l @ [?e]) @ new)" by auto
    moreover have "[n..<n + length (m # ms)] = n # [Suc n..<Suc n + length ms]"
      by (simp add: upt_conv_Cons del: upt_Suc)
    ultimately show ?thesis by (intro exI [of _ "?e # new"]) (simp del: upt_Suc)
  qed
qed auto

lemma append_entries_correct:
  assumes wf: "session_wf es" and room: "max_or_0 (map se_id es) + length ms < 2 ^ 64"
    and ok: "append_entries es parent ms = Inr (es', n', parent')"
  shows "\<exists>l new. head_lineage es parent l \<and> es' = es @ new \<and> map se_message new = ms
    \<and> session_wf es' \<and> head_lineage es' parent' (l @ new)"
proof -
  have p: "\<And>p. parent = Some p \<Longrightarrow> p \<in> entry_ids es"
    and loop: "append_loop es (next_entry_id es) parent ms = (es', n', parent')"
    using ok by (auto simp: append_entries_def split: option.splits if_splits)
  from head_lineage_exists [OF wf p] obtain l where l: "head_lineage es parent l" by blast
  show ?thesis
  proof (cases ms)
    case Nil
    with loop wf l show ?thesis by (intro exI [of _ l] exI [of _ "[]"]) simp
  next
    case (Cons m ms')
    with room have "max_or_0 (map se_id es) < u64_max"
      and "next_entry_id es = Suc (max_or_0 (map se_id es))"
      by (simp_all add: next_entry_id_def u64_add_small)
    then show ?thesis
      using append_loop_correct [OF wf next_entry_id_fresh _ p l loop] room l by auto
  qed
qed

lemma append_entries_unknown_parent:
  "p \<notin> entry_ids es \<Longrightarrow> append_entries es (Some p) ms = Inl (ParentDoesNotExist p)"
  by (auto simp: append_entries_def)

subsection \<open>Importing a snapshot\<close>

fun remap_loop ::
  "nat set \<Rightarrow> nat \<Rightarrow> (nat \<times> nat) list \<Rightarrow> (nat, nat) hash_map \<Rightarrow> 'v entries
     \<Rightarrow> (nat \<times> nat) list \<times> (nat, nat) hash_map" where
  "remap_loop used next_id remapped id_map [] = (remapped, id_map)"
| "remap_loop used next_id remapped id_map (e # es) =
     (if se_id e \<in> used
      then remap_loop (insert next_id used) (u64_add next_id 1) (remapped @ [(se_id e, next_id)])
             (AList.update (se_id e) next_id id_map) es
      else remap_loop (insert (se_id e) used) next_id remapped
             (AList.update (se_id e) (se_id e) id_map) es)"

definition remap_entry ::
  "(nat, nat) hash_map \<Rightarrow> 'v SessionEntry \<Rightarrow> SessionError + 'v SessionEntry" where
  "remap_entry id_map e =
     and_then (ok_or (map_of id_map (se_id e)) (MissingRemap (se_id e))) (\<lambda>i.
     and_then (case se_parent_id e of
                 None \<Rightarrow> Inr None
               | Some p \<Rightarrow> and_then (ok_or (map_of id_map p) (MissingRemapParent p)) (\<lambda>q. Inr (Some q)))
       (\<lambda>q. Inr \<lparr>se_id = i, se_parent_id = q, se_message = se_message e\<rparr>))"

definition merge_entries_with_remap ::
  "'v entries \<Rightarrow> 'v entries \<Rightarrow> SessionError + ('v entries \<times> (nat \<times> nat) list \<times> nat option)" where
  "merge_entries_with_remap existing imported =
     (if imported = [] then
        Inr (existing, [], if existing = [] then None else Some (se_id (last existing)))
      else
        let used = entry_ids existing;
            (remapped, id_map) =
              remap_loop used (u64_add (max_or_0 (map se_id existing)) 1) [] [] imported
        in and_then (try_fold (\<lambda>merged e. and_then (remap_entry id_map e) (\<lambda>f. Inr (merged @ [f])))
                       existing imported)
             (\<lambda>merged. Inr (merged, remapped, map_of id_map (se_id (last imported)))))"

text \<open>Renaming ids by a function.\<close>

definition rename_entry :: "(nat \<Rightarrow> nat) \<Rightarrow> 'v SessionEntry \<Rightarrow> 'v SessionEntry" where
  "rename_entry f e = e\<lparr>se_id := f (se_id e), se_parent_id := map_option f (se_parent_id e)\<rparr>"

lemma rename_entry_simps [simp]:
  "se_id (rename_entry f e) = f (se_id e)"
  "se_parent_id (rename_entry f e) = map_option f (se_parent_id e)"
  "se_message (rename_entry f e) = se_message e"
  by (simp_all add: rename_entry_def)

lemma parent_rel_rename:
  "parent_rel (map (rename_entry f) es) = (\<lambda>(p, c). (f p, f c)) ` parent_rel es"
  by (force simp: parent_rel_def)

lemma acyclic_rename:
  assumes "distinct (map se_id es)" "parents_exist es" "acyclic (parent_rel es)"
    and inj: "inj_on f (entry_ids es)"
  shows "acyclic (parent_rel (map (rename_entry f) es))"
proof -
  obtain g :: "nat \<Rightarrow> nat" where g: "\<And>p c. (p, c) \<in> parent_rel es \<Longrightarrow> g p < g c"
    using acyclic_rank_exists [OF assms(1,3)] by blast
  show ?thesis
  proof (rule acyclic_by_rank [where g = "g \<circ> the_inv_into (entry_ids es) f"])
    fix p c assume "(p, c) \<in> parent_rel (map (rename_entry f) es)"
    then obtain p0 c0 where pc: "(p0, c0) \<in> parent_rel es" "p = f p0" "c = f c0"
      by (auto simp: parent_rel_rename)
    then have "p0 \<in> entry_ids es" "c0 \<in> entry_ids es"
      using assms(2) by (auto simp: parent_rel_def parents_exist_def)
    then show "(g \<circ> the_inv_into (entry_ids es) f) p < (g \<circ> the_inv_into (entry_ids es) f) c"
      using pc g by (simp add: the_inv_into_f_f [OF inj])
  qed
qed

lemma session_wf_union:
  assumes "session_wf es" "session_wf fs" and disj: "entry_ids es \<inter> entry_ids fs = {}"
  shows "session_wf (es @ fs)"
proof -
  note d = session_wfD [OF assms(1)] and d' = session_wfD [OF assms(2)]
  obtain g g' :: "nat \<Rightarrow> nat" where
    g: "\<And>p c. (p, c) \<in> parent_rel es \<Longrightarrow> g p < g c" and
    g': "\<And>p c. (p, c) \<in> parent_rel fs \<Longrightarrow> g' p < g' c"
    using acyclic_rank_exists [OF d(1,3)] acyclic_rank_exists [OF d'(1,3)] by blast
  have fld: "p \<in> entry_ids xs \<and> c \<in> entry_ids xs"
    if "parents_exist xs" "(p, c) \<in> parent_rel xs" for p c and xs :: "'a entries"
    using that by (auto simp: parent_rel_def parents_exist_def)
  have "acyclic (parent_rel (es @ fs))"
  proof (rule acyclic_by_rank [where g = "\<lambda>i. if i \<in> entry_ids es then g i else g' i"])
    fix p c assume "(p, c) \<in> parent_rel (es @ fs)"
    then consider "(p, c) \<in> parent_rel es" | "(p, c) \<in> parent_rel fs" by auto
    then show "(if p \<in> entry_ids es then g p else g' p) < (if c \<in> entry_ids es then g c else g' c)"
    proof cases
      case 1
      with g fld [OF d(2) 1] show ?thesis by simp
    next
      case 2
      with fld [OF d'(2) 2] disj have "p \<notin> entry_ids es" "c \<notin> entry_ids es" by blast+
      with g' [OF 2] show ?thesis by simp
    qed
  qed
  moreover have "parents_exist (es @ fs)"
    using d(2) d'(2) by (fastforce simp: parents_exist_def image_Un)
  ultimately show ?thesis using d(1) d'(1) disj by (simp add: session_wf_def)
qed

lemma session_wf_rename:
  assumes "session_wf es" and "inj_on f (entry_ids es)"
  shows "session_wf (map (rename_entry f) es)"
proof -
  note d = session_wfD [OF assms(1)]
  have "distinct (map se_id (map (rename_entry f) es))"
    using d(1) assms(2) by (simp add: comp_def distinct_map inj_on_def)
  moreover have "parents_exist (map (rename_entry f) es)"
    using d(2) by (fastforce simp: parents_exist_def image_image)
  ultimately show ?thesis
    using acyclic_rename [OF d assms(2)] by (simp add: session_wf_def)
qed

text \<open>The remapping loop, run over a strictly ascending list: every id it hands out is new.\<close>

lemma remap_loop_keys:
  "hm_keys (snd (remap_loop used n rm im es)) = hm_keys im \<union> entry_ids es"
  by (induction used n rm im es rule: remap_loop.induct) (simp_all add: dom_update)

lemma remap_loop_outside:
  "i \<notin> entry_ids es \<Longrightarrow> map_of (snd (remap_loop used n rm im es)) i = map_of im i"
  by (induction used n rm im es rule: remap_loop.induct) (auto simp: update_conv')

definition remap_fresh :: "nat set \<Rightarrow> (nat \<rightharpoonup> nat) \<Rightarrow> 'v entries \<Rightarrow> bool" where
  "remap_fresh used f es =
     (inj_on f (entry_ids es) \<and> (\<forall>e \<in> set es. \<forall>v. f (se_id e) = Some v \<longrightarrow> v \<notin> used))"

lemma remap_fresh_Cons:
  assumes "remap_fresh (insert v used) f es" and "f (se_id e) = Some v" and "v \<notin> used"
  shows "remap_fresh used f (e # es)"
proof -
  have "f (se_id e) \<notin> f ` (entry_ids es - {se_id e})"
    using assms(1,2) by (force simp: remap_fresh_def)
  with assms show ?thesis by (auto simp: remap_fresh_def inj_on_insert)
qed

lemma remap_fresh_total:
  assumes "remap_fresh used f es" and dom: "dom f = entry_ids es"
  shows "inj_on (the \<circ> f) (entry_ids es)" "(the \<circ> f) ` entry_ids es \<inter> used = {}"
proof -
  have defined: "\<exists>v. f i = Some v" if "i \<in> entry_ids es" for i
    using that dom by blast
  show "inj_on (the \<circ> f) (entry_ids es)"
  proof (rule inj_onI)
    fix i j assume ij: "i \<in> entry_ids es" "j \<in> entry_ids es" "(the \<circ> f) i = (the \<circ> f) j"
    then have "f i = f j" using defined [OF ij(1)] defined [OF ij(2)] by auto
    with ij(1,2) assms(1) show "i = j" unfolding remap_fresh_def by (blast dest: inj_onD)
  qed
  have "the (f (se_id e)) \<notin> used" if "e \<in> set es" for e
    using that assms(1) defined [of "se_id e"] by (auto simp: remap_fresh_def)
  then show "(the \<circ> f) ` entry_ids es \<inter> used = {}" by auto
qed

lemma remap_loop_fresh:
  assumes "sorted_wrt (<) (map se_id es)" and "n + length es \<le> 2 ^ 64"
    and "\<And>v. v \<in> used \<Longrightarrow> v < n \<or> (\<forall>e \<in> set es. v < se_id e)"
  shows "remap_fresh used (map_of (snd (remap_loop used n rm im es))) es"
  using assms
proof (induction used n rm im es rule: remap_loop.induct)
  case (1 used n rm im)
  then show ?case by (simp add: remap_fresh_def)
next
  case (2 used n rm im e es)
  have lt: "se_id e < se_id f" if "f \<in> set es" for f using "2.prems"(1) that by simp
  then have out: "se_id e \<notin> entry_ids es" by (metis imageE less_irrefl)
  show ?case
  proof (cases "se_id e \<in> used")
    case True
    let ?f = "map_of (snd (remap_loop (insert n used) (u64_add n 1) (rm @ [(se_id e, n)])
      (AList.update (se_id e) n im) es))"
    from True have small: "se_id e < n" using "2.prems"(3) by force
    then have "n \<notin> used" using "2.prems"(3) [of n] by auto
    moreover have "?f (se_id e) = Some n" using remap_loop_outside [OF out] by (simp add: update_conv')
    moreover have "remap_fresh (insert n used) ?f es"
    proof (cases "es = []")
      case False
      then have "u64_add n 1 = Suc n" using "2.prems"(2) by (cases es) (simp_all add: u64_add_small)
      moreover have "v < Suc n \<or> (\<forall>f \<in> set es. v < se_id f)" if "v \<in> insert n used" for v
        using that "2.prems"(3) [of v] by auto
      ultimately show ?thesis using "2.IH"(1) [OF True] "2.prems"(1,2) by simp
    qed (simp add: remap_fresh_def)
    ultimately show ?thesis using remap_fresh_Cons True by simp
  next
    case False
    let ?f = "map_of (snd (remap_loop (insert (se_id e) used) n rm
      (AList.update (se_id e) (se_id e) im) es))"
    have "?f (se_id e) = Some (se_id e)"
      using remap_loop_outside [OF out] by (simp add: update_conv')
    moreover have "v < n \<or> (\<forall>f \<in> set es. v < se_id f)" if "v \<in> insert (se_id e) used" for v
      using that "2.prems"(3) [of v] lt by auto
    then have "remap_fresh (insert (se_id e) used) ?f es"
      using "2.IH"(2) [OF False] "2.prems"(1,2) by simp
    ultimately show ?thesis using remap_fresh_Cons False by simp
  qed
qed

text \<open>The second loop relabels every imported entry.\<close>

lemma remap_entry_total:
  assumes "se_id e \<in> dom f" and "\<And>p. se_parent_id e = Some p \<Longrightarrow> p \<in> dom f" and "map_of im = f"
  shows "remap_entry im e = Inr (rename_entry (the \<circ> f) e)"
  using assms by (cases "se_parent_id e") (auto simp: remap_entry_def rename_entry_def)

lemma remap_fold_total:
  assumes "\<And>e. e \<in> set es \<Longrightarrow> remap_entry im e = Inr (g e)"
  shows "try_fold (\<lambda>merged e. and_then (remap_entry im e) (\<lambda>f. Inr (merged @ [f]))) acc es
    = Inr (acc @ map g es)"
  using assms by (induction es arbitrary: acc) auto

lemma merge_with_remap_correct:
  assumes wf: "session_wf existing" "session_wf imported"
    and asc: "sorted_wrt (<) (map se_id imported)"
    and room: "max_or_0 (map se_id existing) + length imported < 2 ^ 64"
  shows "\<exists>f remapped. inj_on f (entry_ids imported)
      \<and> f ` entry_ids imported \<inter> entry_ids existing = {}
      \<and> merge_entries_with_remap existing imported
        = Inr (existing @ map (rename_entry f) imported, remapped,
               if imported = [] then (if existing = [] then None else Some (se_id (last existing)))
               else Some (f (se_id (last imported))))"
proof (cases "imported = []")
  case False
  let ?n = "u64_add (max_or_0 (map se_id existing)) 1"
  let ?r = "remap_loop (entry_ids existing) ?n [] [] imported"
  let ?m = "map_of (snd ?r)"
  let ?f = "the \<circ> ?m"
  from False room have n: "?n = Suc (max_or_0 (map se_id existing))"
    by (cases imported) (simp_all add: u64_add_small)
  have "remap_fresh (entry_ids existing) ?m imported"
    using remap_loop_fresh [OF asc] room n by (simp add: max_id_upper le_imp_less_Suc)
  moreover have dom: "dom ?m = entry_ids imported"
    using remap_loop_keys [of "entry_ids existing" ?n "[]" "[]" imported]
    by (simp add: dom_map_of_conv_image_fst)
  ultimately have inj: "inj_on ?f (entry_ids imported)"
    and disj: "?f ` entry_ids imported \<inter> entry_ids existing = {}"
    by (rule remap_fresh_total)+
  have parents: "p \<in> dom ?m" if "e \<in> set imported" "se_parent_id e = Some p" for e p
    using that session_wfD(2) [OF wf(2)] dom by (auto simp: parents_exist_def)
  have "remap_entry (snd ?r) e = Inr (rename_entry ?f e)" if "e \<in> set imported" for e
    using remap_entry_total [OF _ _ refl] parents that dom by blast
  moreover have "se_id (last imported) \<in> dom ?m" using False unfolding dom by simp
  then have "?m (se_id (last imported)) = Some (?f (se_id (last imported)))" by (auto simp del: One_nat_def)
  ultimately have "merge_entries_with_remap existing imported
      = Inr (existing @ map (rename_entry ?f) imported, fst ?r, Some (?f (se_id (last imported))))"
    using False remap_fold_total [of imported "snd ?r"]
    by (simp add: merge_entries_with_remap_def Let_def case_prod_beta)
  with inj disj False show ?thesis by (intro exI [of _ ?f] exI [of _ "fst ?r"]) simp
qed (simp add: merge_entries_with_remap_def)

lemma merge_with_remap_wf:
  assumes "session_wf existing" "session_wf imported" "sorted_wrt (<) (map se_id imported)"
    "max_or_0 (map se_id existing) + length imported < 2 ^ 64"
  shows "\<exists>merged remapped head. merge_entries_with_remap existing imported = Inr (merged, remapped, head)
    \<and> session_wf merged \<and> length merged = length existing + length imported"
proof -
  from merge_with_remap_correct [OF assms] obtain f remapped head where
    f: "inj_on f (entry_ids imported)" "f ` entry_ids imported \<inter> entry_ids existing = {}"
    "merge_entries_with_remap existing imported
       = Inr (existing @ map (rename_entry f) imported, remapped, head)" by blast
  have "session_wf (existing @ map (rename_entry f) imported)"
    using session_wf_union [OF assms(1) session_wf_rename [OF assms(2) f(1)]] f(2)
    by (auto simp: image_image)
  with f(3) show ?thesis by simp
qed

subsection \<open>Branch tips, compaction\<close>

definition branch_tips :: "'v entries \<Rightarrow> 'v entries" where
  "branch_tips es =
     (let parent_ids = set (List.map_filter se_parent_id es)
      in sort_key se_id (filter (\<lambda>e. se_id e \<notin> parent_ids) es))"

record CompactReport =
  cr_removed_entries :: nat
  cr_retained_entries :: nat
  cr_head_id :: "nat option"

definition last_id :: "'v entries \<Rightarrow> nat option" where
  "last_id es = (if es = [] then None else Some (se_id (last es)))"

definition compact_entries ::
  "'v entries \<Rightarrow> nat option \<Rightarrow> SessionError + (CompactReport \<times> 'v entries)" where
  "compact_entries es preferred =
     (if es = [] then Inr (\<lparr>cr_removed_entries = 0, cr_retained_entries = 0, cr_head_id = None\<rparr>, es)
      else
        case (case preferred of Some h \<Rightarrow> Some h | None \<Rightarrow> last_id es) of
          None \<Rightarrow> Inr (\<lparr>cr_removed_entries = 0, cr_retained_entries = 0, cr_head_id = None\<rparr>, es)
        | Some head \<Rightarrow>
            and_then (collect_lineage_ids es head) (\<lambda>ids.
              let compacted = filter (\<lambda>e. se_id e \<in> ids) es
              in Inr (\<lparr>cr_removed_entries = length es - length compacted,
                      cr_retained_entries = length compacted, cr_head_id = Some head\<rparr>, compacted)))"

lemma set_branch_tips:
  "e \<in> set (branch_tips es) \<longleftrightarrow> e \<in> set es \<and> (\<forall>c \<in> set es. se_parent_id c \<noteq> Some (se_id e))"
  by (force simp: branch_tips_def Let_def List.map_filter_def)

lemma branch_tips_sorted: "sorted (map se_id (branch_tips es))"
  by (simp add: branch_tips_def Let_def)

text \<open>A session graph with entries has a tip: following children upwards stops.\<close>

lemma branch_tips_nonempty:
  assumes "session_wf es" "es \<noteq> []"
  shows "branch_tips es \<noteq> []"
proof -
  have "wf ((parent_rel es)\<inverse>)"
    using session_wfD(3) [OF assms(1)] by (simp add: finite_acyclic_wf_converse)
  moreover have "se_id (hd es) \<in> entry_ids es" using assms(2) by simp
  ultimately obtain i where i: "i \<in> entry_ids es" "\<And>c. (i, c) \<in> parent_rel es \<Longrightarrow> c \<notin> entry_ids es"
    by (metis converse_iff wfE_min)
  then obtain e where e: "e \<in> set es" "se_id e = i" by auto
  have "se_parent_id c \<noteq> Some i" if "c \<in> set es" for c
    using i(2) [of "se_id c"] that by (auto simp: parent_rel_def)
  with e have "e \<in> set (branch_tips es)" by (simp add: set_branch_tips)
  then show ?thesis by auto
qed

lemma filter_lineage_set:
  assumes "distinct (map se_id es)" "is_lineage es h l"
  shows "set (filter (\<lambda>e. se_id e \<in> entry_ids l) es) = set l"
proof
  show "set (filter (\<lambda>e. se_id e \<in> entry_ids l) es) \<subseteq> set l"
    using assms by (auto simp: is_lineage_def dest: distinct_key_inj)
  show "set l \<subseteq> set (filter (\<lambda>e. se_id e \<in> entry_ids l) es)"
    using assms(2) by (auto simp: is_lineage_def)
qed

lemma lineage_closed:
  assumes "is_lineage es h l" "e \<in> set l" "se_parent_id e = Some p"
  shows "p \<in> entry_ids l"
  using assms
proof (induction l arbitrary: h rule: rev_induct)
  case (snoc x l)
  note d = is_lineage_snocD [OF snoc.prems(1)]
  show ?case
  proof (cases "l = []")
    case True
    with snoc.prems d(4) show ?thesis by simp
  next
    case False
    with d(5) have x: "se_parent_id x = Some (se_id (last l))" "is_lineage es (se_id (last l)) l" by auto
    show ?thesis
    proof (cases "e \<in> set l")
      case True
      with snoc.IH [OF x(2) True snoc.prems(3)] show ?thesis by simp
    next
      case False
      with snoc.prems(2,3) x(1) \<open>l \<noteq> []\<close> show ?thesis by auto
    qed
  qed
qed simp

lemma session_wf_filter:
  assumes "session_wf es" and "parents_exist (filter P es)"
  shows "session_wf (filter P es)"
proof -
  have "acyclic (parent_rel (filter P es))"
    using session_wfD(3) [OF assms(1)] by (rule acyclic_subset) (auto intro!: parent_rel_mono)
  with assms(2) distinct_key_filter [OF session_wfD(1) [OF assms(1)]] show ?thesis
    by (simp add: session_wf_def)
qed

lemma compact_entries_correct:
  assumes wf: "session_wf es" and "es \<noteq> []" and "\<And>h. preferred = Some h \<Longrightarrow> h \<in> entry_ids es"
  defines "head \<equiv> (case preferred of Some h \<Rightarrow> h | None \<Rightarrow> se_id (last es))"
  shows "\<exists>l compacted. is_lineage es head l
    \<and> compact_entries es preferred =
        Inr (\<lparr>cr_removed_entries = length es - length compacted,
              cr_retained_entries = length compacted, cr_head_id = Some head\<rparr>, compacted)
    \<and> session_wf compacted \<and> set compacted = set l \<and> lineage_entries compacted (Some head) = Inr l"
proof -
  note d = session_wfD [OF wf]
  have sel: "(case preferred of Some h \<Rightarrow> Some h | None \<Rightarrow> last_id es) = Some head"
    using assms(2) by (auto simp: head_def last_id_def split: option.split)
  have "head \<in> entry_ids es" using assms(2,3) by (auto simp: head_def split: option.split)
  from lineage_exists [OF wf this] obtain l where l: "is_lineage es head l" by blast
  let ?c = "filter (\<lambda>e. se_id e \<in> entry_ids l) es"
  have set: "set ?c = set l" using filter_lineage_set [OF d(1) l] .
  have "parents_exist ?c"
    using lineage_closed [OF l] unfolding parents_exist_def set by blast
  then have cwf: "session_wf ?c" by (rule session_wf_filter [OF wf])
  have "is_lineage ?c head l" using l set by (simp add: is_lineage_def)
  then have "lineage_entries ?c (Some head) = Inr l" using session_wfD(1) [OF cwf]
    by (simp add: lineage_entries_iff)
  moreover have "compact_entries es preferred =
      Inr (\<lparr>cr_removed_entries = length es - length ?c, cr_retained_entries = length ?c,
            cr_head_id = Some head\<rparr>, ?c)"
    using assms(2) sel walks_agree(3) [OF d(1) l] by (simp add: compact_entries_def Let_def)
  ultimately show ?thesis using l cwf set by blast
qed

subsection \<open>Properties\<close>

text \<open>C24. Appending messages under an existing parent (or none) keeps a well-formed session well
  formed, adds exactly the given messages, and makes the branch of the returned head read as the
  parent's lineage followed by the new entries, as long as the new ids stay below the \<open>u64\<close> limit.\<close>

theorem append_extends_lineage:
  assumes "session_wf es" and "max_or_0 (map se_id es) + length ms < 2 ^ 64"
    and "append_entries es parent ms = Inr (es', next_id, head)"
  shows "session_wf es' \<and> (\<exists>l new. lineage_entries es parent = Inr l \<and> es' = es @ new
    \<and> map se_message new = ms \<and> lineage_entries es' head = Inr (l @ new))"
proof -
  from append_entries_correct [OF assms] obtain l new where
    "head_lineage es parent l" "es' = es @ new" "map se_message new = ms" "session_wf es'"
    "head_lineage es' head (l @ new)" by blast
  then show ?thesis
    using head_lineage_entries [OF session_wfD(1)] assms(1) by blast
qed

theorem append_extends_lineage_witness:
  "session_wf (sample_session @ [sample_entry 4 (Some 2)])
    \<and> (\<exists>l new. lineage_entries sample_session (Some 2) = Inr l
         \<and> sample_session @ [sample_entry 4 (Some 2)] = sample_session @ new
         \<and> map se_message new = [text_message User ''hi'']
         \<and> lineage_entries (sample_session @ [sample_entry 4 (Some 2)]) (Some 4) = Inr (l @ new))"
  by (rule append_extends_lineage [OF sample_session_wf, of "[text_message User ''hi'']" "Some 2" _ 5])
    (simp_all add: sample_session_def append_entries_def next_entry_id_def u64_add_def sample_entry_def)

text \<open>A merge import of a well-formed snapshot whose entries are in ascending id order succeeds
  and leaves a well-formed session with every existing and every imported entry: the remapping hands
  out ids that neither side uses.\<close>

theorem import_merge_preserves_wf:
  assumes "session_wf existing" and "session_wf imported" and "sorted_wrt (<) (map se_id imported)"
    and "max_or_0 (map se_id existing) + length imported < 2 ^ 64"
  shows "\<exists>f remapped head. inj_on f (entry_ids imported)
    \<and> f ` entry_ids imported \<inter> entry_ids existing = {}
    \<and> merge_entries_with_remap existing imported
        = Inr (existing @ map (rename_entry f) imported, remapped, head)
    \<and> session_wf (existing @ map (rename_entry f) imported)"
proof -
  from merge_with_remap_correct [OF assms] obtain f remapped head where
    f: "inj_on f (entry_ids imported)" "f ` entry_ids imported \<inter> entry_ids existing = {}"
    "merge_entries_with_remap existing imported
       = Inr (existing @ map (rename_entry f) imported, remapped, head)" by blast
  moreover have "session_wf (existing @ map (rename_entry f) imported)"
    using session_wf_union [OF assms(1) session_wf_rename [OF assms(2) f(1)]] f(2)
    by (auto simp: image_image)
  ultimately show ?thesis by blast
qed

theorem import_merge_preserves_wf_witness:
  "\<exists>f remapped head. inj_on f (entry_ids sample_session)
    \<and> f ` entry_ids sample_session \<inter> entry_ids sample_session = {}
    \<and> merge_entries_with_remap sample_session sample_session
        = Inr (sample_session @ map (rename_entry f) sample_session, remapped, head)
    \<and> session_wf (sample_session @ map (rename_entry f) sample_session)"
  by (rule import_merge_preserves_wf [OF sample_session_wf sample_session_wf])
    (simp_all add: sample_session_def)

text \<open>The ascending order is needed: \<open>next_id\<close> is not advanced past imported ids that are kept,
  so a valid snapshot in another order can be imported into a valid session with the result that two
  entries carry the same id.\<close>

theorem import_merge_can_duplicate_ids:
  "\<exists>existing imported merged remapped head.
     session_wf (existing :: unit entries) \<and> session_wf imported
     \<and> merge_entries_with_remap existing imported = Inr (merged, remapped, head)
     \<and> \<not> session_wf merged"
proof -
  let ?existing = "[sample_entry 1 None, sample_entry 2 (Some 1)]"
  let ?imported = "[sample_entry 3 None, sample_entry 1 (Some 3)]"
  let ?merged = "?existing @ [sample_entry 3 None, sample_entry 3 (Some 3)]"
  have "session_wf ?existing" "session_wf ?imported"
    by (simp_all add: validation_sound_complete [symmetric] is_valid_def
        validation_report_for_entries_def entry_index_def hm_collect_def hm_contains_def has_cycle_def)
  moreover have "merge_entries_with_remap ?existing ?imported = Inr (?merged, [(1, 3)], Some 3)"
    by (simp add: merge_entries_with_remap_def u64_add_def remap_entry_def sample_entry_def)
  moreover have "\<not> session_wf ?merged" by (simp add: session_wf_def)
  ultimately show ?thesis by blast
qed

text \<open>Compacting a non-empty well-formed session keeps exactly the lineage of the chosen head
  (the last entry when none is given), reports the counts, and the branch reads as before.\<close>

theorem compact_keeps_lineage:
  assumes "session_wf es" and "es \<noteq> []" and "\<And>h. preferred = Some h \<Longrightarrow> h \<in> entry_ids es"
  shows "\<exists>head l compacted.
    head = (case preferred of Some h \<Rightarrow> h | None \<Rightarrow> se_id (last es))
    \<and> lineage_entries es (Some head) = Inr l
    \<and> compact_entries es preferred =
        Inr (\<lparr>cr_removed_entries = length es - length compacted,
              cr_retained_entries = length compacted, cr_head_id = Some head\<rparr>, compacted)
    \<and> session_wf compacted \<and> set compacted = set l
    \<and> lineage_entries compacted (Some head) = Inr l"
proof -
  from compact_entries_correct [OF assms] obtain l compacted where
    "is_lineage es (case preferred of Some h \<Rightarrow> h | None \<Rightarrow> se_id (last es)) l"
    "compact_entries es preferred =
        Inr (\<lparr>cr_removed_entries = length es - length compacted, cr_retained_entries = length compacted,
              cr_head_id = Some (case preferred of Some h \<Rightarrow> h | None \<Rightarrow> se_id (last es))\<rparr>, compacted)"
    "session_wf compacted" "set compacted = set l"
    "lineage_entries compacted (Some (case preferred of Some h \<Rightarrow> h | None \<Rightarrow> se_id (last es))) = Inr l"
    by blast
  then show ?thesis
    unfolding lineage_entries_iff [OF session_wfD(1) [OF assms(1)], symmetric]
    by (intro exI conjI) (rule refl)
qed

theorem compact_keeps_lineage_witness:
  "\<exists>head l compacted.
    head = (case Some 2 of Some h \<Rightarrow> h | None \<Rightarrow> se_id (last sample_session))
    \<and> lineage_entries sample_session (Some head) = Inr l
    \<and> compact_entries sample_session (Some 2) =
        Inr (\<lparr>cr_removed_entries = length sample_session - length compacted,
              cr_retained_entries = length compacted, cr_head_id = Some head\<rparr>, compacted)
    \<and> session_wf compacted \<and> set compacted = set l
    \<and> lineage_entries compacted (Some head) = Inr l"
  by (rule compact_keeps_lineage [OF sample_session_wf]) (auto simp: sample_session_def)

end
