(* ===== verification/Session_Merge.thy ===== *)
theory Session_Merge
  imports Session_Ops
begin

text \<open>
  \<open>SessionStore::merge_branches\<close> and \<open>render_squash_merge_summary\<close>
  (\<open>session_store_runtime.rs\<close>): the common ancestor of two heads, the entries of the source branch
  that the target lacks, and the three strategies. The append strategy makes the merged branch read
  as the target's messages followed by the source's own.
\<close>

datatype SessionMergeStrategy = Append | Squash | FastForward

record BranchMergeReport =
  bm_source_head :: nat
  bm_target_head :: nat
  bm_strategy :: SessionMergeStrategy
  bm_common_ancestor :: "nat option"
  bm_appended_entries :: nat
  bm_merged_head :: nat

definition common_ancestor :: "nat list \<Rightarrow> nat list \<Rightarrow> nat option" where
  "common_ancestor source_lineage target_lineage =
     fold (\<lambda>i acc. if i \<in> set source_lineage then Some i else acc) target_lineage None"

text \<open>\<open>iter().position(|x| *x == i)\<close>.\<close>

fun position :: "nat \<Rightarrow> nat list \<Rightarrow> nat option" where
  "position i [] = None"
| "position i (x # xs) = (if x = i then Some 0 else map_option Suc (position i xs))"

definition source_unique_ids :: "nat list \<Rightarrow> nat list \<Rightarrow> nat list" where
  "source_unique_ids source_lineage target_lineage =
     drop (case Option.bind (common_ancestor source_lineage target_lineage)
                  (\<lambda>i. position i source_lineage) of
             None \<Rightarrow> 0 | Some n \<Rightarrow> n + 1)
       source_lineage"

definition squash_preview :: "'v Message \<Rightarrow> string" where
  "squash_preview m =
     (let preview = replace_char (CHR 0x0A) '' '' (text_content m);
          preview = (if trim preview = [] then ''(no text)'' else preview)
      in if char_count preview > 72 then take_chars 72 preview @ ''...'' else preview)"

definition squash_line ::
  "(nat, 'v SessionEntry) hash_map \<Rightarrow> nat \<Rightarrow> SessionError + string" where
  "squash_line m i =
     and_then (ok_or (map_of m i) (MissingSource i)) (\<lambda>e.
       Inr (''- '' @ to_ascii_lowercase (role_debug (msg_role (se_message e))) @ '': ''
            @ squash_preview (se_message e)))"

definition render_squash_merge_summary ::
  "(nat, 'v SessionEntry) hash_map \<Rightarrow> nat \<Rightarrow> nat \<Rightarrow> nat list \<Rightarrow> SessionError + string" where
  "render_squash_merge_summary m source_head target_head unique =
     and_then
       (try_fold (\<lambda>lines i. and_then (squash_line m i) (\<lambda>line. Inr (lines @ [line])))
          [''squash merge: source='' @ show_nat source_head @ '' target='' @ show_nat target_head
             @ '' entries='' @ show_nat (length unique)]
          (take 6 unique))
       (\<lambda>lines.
          let lines = (if length unique > 6
                       then lines @ [''- ... '' @ show_nat (length unique - 6) @ '' additional entries'']
                       else lines)
          in Inr (join [CHR 0x0A] lines))"

fun merge_append_loop ::
  "(nat, 'v SessionEntry) hash_map \<Rightarrow> 'v entries \<Rightarrow> nat option \<Rightarrow> nat \<Rightarrow> nat \<Rightarrow> nat list
     \<Rightarrow> SessionError + ('v entries \<times> nat option \<times> nat)" where
  "merge_append_loop m es parent next_id appended [] = Inr (es, parent, appended)"
| "merge_append_loop m es parent next_id appended (i # is) =
     and_then (ok_or (map_of m i) (MissingSource i)) (\<lambda>src.
       merge_append_loop m
         (es @ [\<lparr>se_id = next_id, se_parent_id = parent, se_message = se_message src\<rparr>])
         (Some next_id) (u64_add next_id 1) (appended + 1) is)"

definition merge_by_strategy ::
  "SessionMergeStrategy \<Rightarrow> (nat, 'v SessionEntry) hash_map \<Rightarrow> 'v entries \<Rightarrow> nat \<Rightarrow> nat \<Rightarrow> nat list \<Rightarrow> nat list
     \<Rightarrow> SessionError + ('v entries \<times> nat \<times> nat)" where
  "merge_by_strategy strategy m es source_head target_head source_lineage unique =
     (case strategy of
        FastForward \<Rightarrow>
          if target_head \<notin> set source_lineage then Inl (NotAnAncestor target_head source_head)
          else Inr (es, 0, source_head)
      | Append \<Rightarrow>
          and_then (merge_append_loop m es (Some target_head) (next_entry_id es) 0 unique)
            (\<lambda>(es', parent, appended). Inr (es', appended, case parent of Some p \<Rightarrow> p | None \<Rightarrow> target_head))
      | Squash \<Rightarrow>
          if unique = [] then Inr (es, 0, target_head)
          else and_then (render_squash_merge_summary m source_head target_head unique) (\<lambda>summary.
                 let i = next_entry_id es
                 in Inr (es @ [\<lparr>se_id = i, se_parent_id = Some target_head,
                               se_message = assistant_text summary\<rparr>], 1, i)))"

definition merge_branch_entries ::
  "'v entries \<Rightarrow> nat \<Rightarrow> nat \<Rightarrow> SessionMergeStrategy \<Rightarrow> SessionError + ('v entries \<times> BranchMergeReport)" where
  "merge_branch_entries es source_head target_head strategy =
     (let m = entry_index es in
      if \<not> hm_contains m source_head then Inl (UnknownSource source_head)
      else if \<not> hm_contains m target_head then Inl (UnknownTarget target_head)
      else if source_head = target_head then Inl SameHeads
      else
        and_then (lineage_ids_root_to_head m source_head) (\<lambda>source_lineage.
        and_then (lineage_ids_root_to_head m target_head) (\<lambda>target_lineage.
        and_then (merge_by_strategy strategy m es source_head target_head source_lineage
                    (source_unique_ids source_lineage target_lineage))
          (\<lambda>(es', appended, merged_head).
             Inr (es', \<lparr>bm_source_head = source_head, bm_target_head = target_head,
                       bm_strategy = strategy,
                       bm_common_ancestor = common_ancestor source_lineage target_lineage,
                       bm_appended_entries = appended, bm_merged_head = merged_head\<rparr>)))))"

subsection \<open>The fork of two lineages\<close>

lemma common_ancestor_simps [simp]:
  "common_ancestor s [] = None"
  "common_ancestor s (t @ [x]) = (if x \<in> set s then Some x else common_ancestor s t)"
  by (simp_all add: common_ancestor_def)

lemma common_ancestor_None:
  "common_ancestor s t = None \<longleftrightarrow> set s \<inter> set t = {}"
  by (induction t rule: rev_induct) auto

lemma common_ancestor_Some:
  "common_ancestor s t = Some i \<Longrightarrow>
     i \<in> set s \<and> (\<exists>t1 t2. t = t1 @ i # t2 \<and> set s \<inter> set t2 = {})"
proof (induction t rule: rev_induct)
  case (snoc x t)
  show ?case
  proof (cases "x \<in> set s")
    case True
    with snoc.prems show ?thesis by (auto intro: exI [of _ t])
  next
    case False
    with snoc obtain t1 t2 where "i \<in> set s" "t = t1 @ i # t2" "set s \<inter> set t2 = {}" by auto
    with False show ?thesis by (intro conjI exI [of _ t1] exI [of _ "t2 @ [x]"]) auto
  qed
qed simp

lemma position_append: "i \<notin> set xs \<Longrightarrow> position i (xs @ i # ys) = Some (length xs)"
  by (induction xs) auto

lemma is_lineage_take:
  assumes "is_lineage es h (k @ e # l)"
  shows "is_lineage es (se_id e) (k @ [e])"
proof -
  have "successively (\<lambda>a b. se_parent_id b = Some (se_id a)) ((k @ [e]) @ l)"
    using assms by (simp add: is_lineage_def)
  then have "successively (\<lambda>a b. se_parent_id b = Some (se_id a)) (k @ [e])"
    by (simp only: successively_append_iff)
  with assms show ?thesis by (cases k) (auto simp: is_lineage_def)
qed

text \<open>Two lineages share a prefix and nothing else, and the code finds what follows it.\<close>

lemma lineage_fork:
  assumes dist: "distinct (map se_id es)" and s: "is_lineage es a s" and t: "is_lineage es b t"
  shows "\<exists>p s' t'. s = p @ s' \<and> t = p @ t' \<and> entry_ids s' \<inter> entry_ids t' = {}
    \<and> source_unique_ids (map se_id s) (map se_id t) = map se_id s'
    \<and> common_ancestor (map se_id s) (map se_id t) = (if p = [] then None else Some (se_id (last p)))"
proof (cases "common_ancestor (map se_id s) (map se_id t)")
  case None
  then show ?thesis
    by (intro exI [of _ "[]"] exI [of _ s] exI [of _ t])
      (simp add: source_unique_ids_def, simp add: common_ancestor_None)
next
  case (Some i)
  from common_ancestor_Some [OF this] obtain t1 t2 where i: "i \<in> entry_ids s"
    and split: "map se_id t = t1 @ i # t2" and disj: "entry_ids s \<inter> set t2 = {}" by auto
  from split obtain k e t' where tt: "t = k @ e # t'" "se_id e = i" "map se_id t' = t2"
    by (auto simp: map_eq_append_conv map_eq_Cons_conv)
  from i obtain k' f s' where ss: "s = k' @ f # s'" "se_id f = i"
    by (metis (no_types, lifting) imageE split_list)
  have "is_lineage es i (k @ [e])" using is_lineage_take [of es b k e t'] t tt by simp
  moreover have "is_lineage es i (k' @ [f])" using is_lineage_take [of es a k' f s'] s ss by simp
  ultimately have same: "k @ [e] = k' @ [f]" using is_lineage_unique [OF dist] by blast
  have "i \<notin> set (map se_id k')" using s ss by (auto simp: is_lineage_def)
  then have "position i (map se_id s) = Some (length k')"
    using position_append [of i "map se_id k'" "map se_id s'"] ss by simp
  with Some have "source_unique_ids (map se_id s) (map se_id t) = map se_id s'"
    using ss by (simp add: source_unique_ids_def)
  moreover have "entry_ids s' \<inter> entry_ids t' = {}"
    using disj ss tt(3) by auto
  ultimately show ?thesis using same ss tt Some
    by (intro exI [of _ "k @ [e]"] exI [of _ s'] exI [of _ t']) auto
qed

subsection \<open>The strategies\<close>

lemma append_loop_Some: "append_loop es n (Some b) ms = (es', n', parent') \<Longrightarrow> \<exists>h. parent' = Some h"
  by (induction ms arbitrary: es n b) auto

lemma merge_append_loop_eq:
  assumes "\<And>i. i \<in> set is \<Longrightarrow> map_of m i = Some (src i)"
  shows "merge_append_loop m es parent n k is =
    (case append_loop es n parent (map (\<lambda>i. se_message (src i)) is) of
       (es', n', parent') \<Rightarrow> Inr (es', parent', k + length is))"
  using assms
proof (induction "is" arbitrary: es parent n k)
  case (Cons i "is")
  then show ?case by (auto split: prod.splits)
qed simp

lemma squash_summary_total:
  assumes "\<And>i. i \<in> set unique \<Longrightarrow> \<exists>e. map_of m i = Some e"
  shows "\<exists>summary. render_squash_merge_summary m a b unique = Inr summary"
proof -
  have line: "\<exists>line. squash_line m i = Inr line" if "i \<in> set (take 6 unique)" for i
    using assms [OF in_set_takeD [OF that]] by (auto simp: squash_line_def)
  have "\<exists>lines. try_fold (\<lambda>lines i. and_then (squash_line m i) (\<lambda>line. Inr (lines @ [line]))) acc is
      = Inr lines" if "\<And>i. i \<in> set is \<Longrightarrow> \<exists>line. squash_line m i = Inr line" for acc "is"
    using that
  proof (induction "is" arbitrary: acc)
    case (Cons i "is")
    then obtain line where "squash_line m i = Inr line" by auto
    with Cons show ?case by auto
  qed simp
  from this [OF line] obtain lines where
    "try_fold (\<lambda>lines i. and_then (squash_line m i) (\<lambda>line. Inr (lines @ [line])))
       [''squash merge: source='' @ show_nat a @ '' target='' @ show_nat b
          @ '' entries='' @ show_nat (length unique)] (take 6 unique) = Inr lines" by blast
  then show ?thesis by (simp add: render_squash_merge_summary_def Let_def)
qed

text \<open>Everything a successful merge relies on, for two heads of a well-formed session.\<close>

lemma merge_setup:
  assumes wf: "session_wf es" and "a \<in> entry_ids es" "b \<in> entry_ids es" "a \<noteq> b"
  obtains p s' t' where
    "is_lineage es a (p @ s')" "is_lineage es b (p @ t')" "entry_ids s' \<inter> entry_ids t' = {}"
    "\<And>strategy. merge_branch_entries es a b strategy =
       and_then (merge_by_strategy strategy (entry_index es) es a b (map se_id (p @ s')) (map se_id s'))
         (\<lambda>(es', appended, merged_head).
           Inr (es', \<lparr>bm_source_head = a, bm_target_head = b, bm_strategy = strategy,
             bm_common_ancestor = (if p = [] then None else Some (se_id (last p))),
             bm_appended_entries = appended, bm_merged_head = merged_head\<rparr>))"
proof -
  note d = session_wfD [OF wf]
  obtain s t where s: "is_lineage es a s" and t: "is_lineage es b t"
    using lineage_exists [OF wf] assms(2,3) by blast
  from lineage_fork [OF d(1) s t] obtain p s' t' where
    fork: "s = p @ s'" "t = p @ t'" "entry_ids s' \<inter> entry_ids t' = {}"
    "source_unique_ids (map se_id s) (map se_id t) = map se_id s'"
    "common_ancestor (map se_id s) (map se_id t) = (if p = [] then None else Some (se_id (last p)))"
    by blast
  show thesis
  proof (rule that)
    show "is_lineage es a (p @ s')" "is_lineage es b (p @ t')" "entry_ids s' \<inter> entry_ids t' = {}"
      using s t fork by simp_all
    show "merge_branch_entries es a b strategy =
       and_then (merge_by_strategy strategy (entry_index es) es a b (map se_id (p @ s')) (map se_id s'))
         (\<lambda>(es', appended, merged_head).
           Inr (es', \<lparr>bm_source_head = a, bm_target_head = b, bm_strategy = strategy,
             bm_common_ancestor = (if p = [] then None else Some (se_id (last p))),
             bm_appended_entries = appended, bm_merged_head = merged_head\<rparr>))" for strategy
      using assms(2-4) walks_agree(2) [OF d(1) s] walks_agree(2) [OF d(1) t] fork
      by (simp add: merge_branch_entries_def Let_def)
  qed
qed

lemma lineage_lookup:
  assumes "distinct (map se_id es)" "is_lineage es a (p @ s)" "e \<in> set s"
  shows "map_of (entry_index es) (se_id e) = Some e"
  using assms by (auto simp: entry_index_iff is_lineage_def)

text \<open>The append strategy: the merged branch is the target's lineage followed by copies of the
  source's own messages.\<close>

lemma merge_append_correct:
  assumes wf: "session_wf es" and heads: "a \<in> entry_ids es" "b \<in> entry_ids es" "a \<noteq> b"
    and room: "max_or_0 (map se_id es) + length es < 2 ^ 64"
  shows "\<exists>p s' t' new es' report.
    is_lineage es a (p @ s') \<and> is_lineage es b (p @ t') \<and> entry_ids s' \<inter> entry_ids t' = {}
    \<and> merge_branch_entries es a b Append = Inr (es', report)
    \<and> es' = es @ new \<and> session_wf es' \<and> map se_message new = map se_message s'
    \<and> bm_appended_entries report = length s'
    \<and> bm_common_ancestor report = (if p = [] then None else Some (se_id (last p)))
    \<and> lineage_entries es' (Some (bm_merged_head report)) = Inr (p @ t' @ new)"
proof -
  note d = session_wfD [OF wf]
  from merge_setup [OF wf heads] obtain p s' t' where
    l: "is_lineage es a (p @ s')" "is_lineage es b (p @ t')" "entry_ids s' \<inter> entry_ids t' = {}"
    and run: "\<And>strategy. merge_branch_entries es a b strategy =
       and_then (merge_by_strategy strategy (entry_index es) es a b (map se_id (p @ s')) (map se_id s'))
         (\<lambda>(es', appended, merged_head).
           Inr (es', \<lparr>bm_source_head = a, bm_target_head = b, bm_strategy = strategy,
             bm_common_ancestor = (if p = [] then None else Some (se_id (last p))),
             bm_appended_entries = appended, bm_merged_head = merged_head\<rparr>))" by metis
  let ?src = "\<lambda>i. the (map_of (entry_index es) i)"
  obtain es' n' parent' where
    loop: "append_loop es (next_entry_id es) (Some b) (map se_message s') = (es', n', parent')"
    by (cases "append_loop es (next_entry_id es) (Some b) (map se_message s')")
  have msgs: "map (\<lambda>i. se_message (?src i)) (map se_id s') = map se_message s'"
    using lineage_lookup [OF d(1) l(1)] by simp
  have found: "map_of (entry_index es) i = Some (?src i)" if "i \<in> set (map se_id s')" for i
    using lineage_lookup [OF d(1) l(1)] that by auto
  have merge: "merge_append_loop (entry_index es) es (Some b) (next_entry_id es) 0 (map se_id s')
      = Inr (es', parent', length s')"
    using merge_append_loop_eq [of "map se_id s'" "entry_index es" ?src es "Some b" "next_entry_id es" 0]
      found unfolding msgs loop by simp
  have "length s' \<le> length es"
  proof -
    have "distinct (map se_id (p @ s'))" "set (p @ s') \<subseteq> set es" using l(1) by (auto simp: is_lineage_def)
    then have "distinct s'" "set s' \<subseteq> set es" by (auto simp: distinct_map)
    then show ?thesis by (metis card_length card_mono distinct_card finite_set le_trans)
  qed
  with room have "max_or_0 (map se_id es) + length (map se_message s') < 2 ^ 64" by simp
  moreover have "append_entries es (Some b) (map se_message s') = Inr (es', n', parent')"
    using heads(2) loop by (auto simp: append_entries_def)
  ultimately obtain l' new where new: "head_lineage es (Some b) l'" "es' = es @ new"
    "map se_message new = map se_message s'" "session_wf es'" "head_lineage es' parent' (l' @ new)"
    using append_entries_correct [OF wf] by blast
  have "l' = p @ t'" using new(1) l(2) is_lineage_unique [OF d(1)] by (simp add: head_lineage_def)
  then have lin: "lineage_entries es' parent' = Inr (p @ t' @ new)"
    using head_lineage_entries [OF session_wfD(1) [OF new(4)] new(5)] by simp
  have some: "\<exists>h. parent' = Some h"
    using loop by (rule append_loop_Some)
  then obtain h where "parent' = Some h" ..
  with run [of Append] merge lin new l show ?thesis
    by (rule_tac x = p in exI, rule_tac x = s' in exI, rule_tac x = t' in exI, rule_tac x = new in exI)
      (simp add: merge_by_strategy_def)
qed

lemma merge_squash_correct:
  assumes wf: "session_wf es" and heads: "a \<in> entry_ids es" "b \<in> entry_ids es" "a \<noteq> b"
    and room: "max_or_0 (map se_id es) < u64_max"
  shows "\<exists>es' report. merge_branch_entries es a b Squash = Inr (es', report) \<and> session_wf es'
    \<and> length es' = length es + bm_appended_entries report \<and> bm_appended_entries report \<le> 1
    \<and> (bm_appended_entries report = 1 \<longrightarrow>
         (\<exists>l e. lineage_entries es (Some b) = Inr l \<and> msg_role (se_message e) = Assistant
            \<and> lineage_entries es' (Some (bm_merged_head report)) = Inr (l @ [e])))"
proof -
  note d = session_wfD [OF wf]
  from merge_setup [OF wf heads] obtain p s' t' where
    l: "is_lineage es a (p @ s')" "is_lineage es b (p @ t')"
    and run: "\<And>strategy. merge_branch_entries es a b strategy =
       and_then (merge_by_strategy strategy (entry_index es) es a b (map se_id (p @ s')) (map se_id s'))
         (\<lambda>(es', appended, merged_head).
           Inr (es', \<lparr>bm_source_head = a, bm_target_head = b, bm_strategy = strategy,
             bm_common_ancestor = (if p = [] then None else Some (se_id (last p))),
             bm_appended_entries = appended, bm_merged_head = merged_head\<rparr>))" by metis
  show ?thesis
  proof (cases "s' = []")
    case True
    with run wf show ?thesis by (simp add: merge_by_strategy_def)
  next
    case False
    have "\<exists>e. map_of (entry_index es) i = Some e" if "i \<in> set (map se_id s')" for i
      using lineage_lookup [OF d(1) l(1)] that by auto
    from squash_summary_total [OF this] obtain summary where
      sum: "render_squash_merge_summary (entry_index es) a b (map se_id s') = Inr summary" by blast
    let ?e = "\<lparr>se_id = next_entry_id es, se_parent_id = Some b, se_message = assistant_text summary\<rparr>"
    have "next_entry_id es \<notin> entry_ids es" using next_entry_id_fresh [OF room] by blast
    then have wf': "session_wf (es @ [?e])" using session_wf_snoc [OF wf, of ?e] heads(2) by simp
    have "is_lineage (es @ [?e]) b (p @ t')" using l(2) by (rule is_lineage_mono) auto
    from is_lineage_snocI [OF session_wfD(3) [OF wf'] this, of ?e]
    have "lineage_entries (es @ [?e]) (Some (next_entry_id es)) = Inr ((p @ t') @ [?e])"
      using session_wfD(1) [OF wf'] by (simp add: lineage_entries_iff)
    moreover have "msg_role (se_message ?e) = Assistant" by (simp add: assistant_text_def text_message_def)
    moreover have "lineage_entries es (Some b) = Inr (p @ t')" using l(2) d(1) by (simp add: lineage_entries_iff)
    ultimately show ?thesis using run [of Squash] sum False wf'
      by (auto simp: merge_by_strategy_def Let_def)
  qed
qed

lemma merge_fast_forward_iff:
  assumes wf: "session_wf es" and heads: "a \<in> entry_ids es" "b \<in> entry_ids es" "a \<noteq> b"
  shows "(\<exists>report. merge_branch_entries es a b FastForward = Inr (es, report) \<and> bm_merged_head report = a)
    \<longleftrightarrow> (b, a) \<in> (parent_rel es)\<^sup>+"
proof -
  note d = session_wfD [OF wf]
  from merge_setup [OF wf heads] obtain p s' t' where
    l: "is_lineage es a (p @ s')"
    and run: "\<And>strategy. merge_branch_entries es a b strategy =
       and_then (merge_by_strategy strategy (entry_index es) es a b (map se_id (p @ s')) (map se_id s'))
         (\<lambda>(es', appended, merged_head).
           Inr (es', \<lparr>bm_source_head = a, bm_target_head = b, bm_strategy = strategy,
             bm_common_ancestor = (if p = [] then None else Some (se_id (last p))),
             bm_appended_entries = appended, bm_merged_head = merged_head\<rparr>))" by metis
  have "(\<exists>report. merge_branch_entries es a b FastForward = Inr (es, report) \<and> bm_merged_head report = a)
      \<longleftrightarrow> b \<in> entry_ids (p @ s')"
    using run [of FastForward] by (auto simp: merge_by_strategy_def)
  also have "\<dots> \<longleftrightarrow> (b, a) \<in> (parent_rel es)\<^sup>*"
  proof
    assume "(b, a) \<in> (parent_rel es)\<^sup>*"
    then show "b \<in> entry_ids (p @ s')"
    proof (induction rule: converse_rtrancl_induct)
      case base
      then show ?case using l by (metis image_eqI is_lineage_def last_in_set)
    next
      case (step x y)
      then obtain e where "e \<in> set (p @ s')" "se_id e = y" by blast
      moreover obtain f where "f \<in> set es" "se_id f = y" "se_parent_id f = Some x"
        using step(1) by (auto simp: parent_rel_def)
      ultimately have "e = f" using distinct_key_inj [OF d(1)] l by (auto simp: is_lineage_def)
      with lineage_closed [OF l] \<open>e \<in> set (p @ s')\<close> \<open>se_parent_id f = Some x\<close> show ?case by blast
    qed
  qed (rule is_lineage_ancestors [OF l])
  also have "\<dots> \<longleftrightarrow> (b, a) \<in> (parent_rel es)\<^sup>+" using heads(3) by (metis rtranclD trancl_into_rtrancl)
  finally show ?thesis .
qed

subsection \<open>Properties\<close>

text \<open>C9. The append strategy: with a fork of the two branches into a common prefix \<open>p\<close> and disjoint
  rests, the merge appends copies of the source's own messages behind the target head, reports the
  last common entry and the number of copies, and the merged head's branch reads as the target's
  lineage followed by the copies. The session stays well formed.\<close>

theorem append_merge_replays_source:
  assumes "session_wf es" and "a \<in> entry_ids es" "b \<in> entry_ids es" "a \<noteq> b"
    and "max_or_0 (map se_id es) + length es < 2 ^ 64"
  shows "\<exists>p s' t' new es' report.
    lineage_entries es (Some a) = Inr (p @ s') \<and> lineage_entries es (Some b) = Inr (p @ t')
    \<and> entry_ids s' \<inter> entry_ids t' = {}
    \<and> merge_branch_entries es a b Append = Inr (es', report)
    \<and> es' = es @ new \<and> session_wf es' \<and> map se_message new = map se_message s'
    \<and> bm_appended_entries report = length s'
    \<and> bm_common_ancestor report = (if p = [] then None else Some (se_id (last p)))
    \<and> lineage_entries es' (Some (bm_merged_head report)) = Inr (p @ t' @ new)"
  unfolding lineage_entries_iff [OF session_wfD(1) [OF assms(1)]]
  by (rule merge_append_correct [OF assms])

theorem append_merge_replays_source_witness:
  "\<exists>p s' t' new es' report.
    lineage_entries sample_session (Some 3) = Inr (p @ s')
    \<and> lineage_entries sample_session (Some 2) = Inr (p @ t')
    \<and> entry_ids s' \<inter> entry_ids t' = {}
    \<and> merge_branch_entries sample_session 3 2 Append = Inr (es', report)
    \<and> es' = sample_session @ new \<and> session_wf es' \<and> map se_message new = map se_message s'
    \<and> bm_appended_entries report = length s'
    \<and> bm_common_ancestor report = (if p = [] then None else Some (se_id (last p)))
    \<and> lineage_entries es' (Some (bm_merged_head report)) = Inr (p @ t' @ new)"
  by (rule append_merge_replays_source [OF sample_session_wf]) (simp_all add: sample_session_def)

text \<open>The squash strategy adds at most one entry, an assistant message behind the target head, and
  keeps the session well formed.\<close>

theorem squash_merge_adds_summary:
  assumes "session_wf es" and "a \<in> entry_ids es" "b \<in> entry_ids es" "a \<noteq> b"
    and "max_or_0 (map se_id es) < u64_max"
  shows "\<exists>es' report. merge_branch_entries es a b Squash = Inr (es', report) \<and> session_wf es'
    \<and> length es' = length es + bm_appended_entries report \<and> bm_appended_entries report \<le> 1
    \<and> (bm_appended_entries report = 1 \<longrightarrow>
         (\<exists>l e. lineage_entries es (Some b) = Inr l \<and> msg_role (se_message e) = Assistant
            \<and> lineage_entries es' (Some (bm_merged_head report)) = Inr (l @ [e])))"
  using assms by (rule merge_squash_correct)

theorem squash_merge_adds_summary_witness:
  "\<exists>es' report. merge_branch_entries sample_session 3 2 Squash = Inr (es', report) \<and> session_wf es'
    \<and> length es' = length sample_session + bm_appended_entries report \<and> bm_appended_entries report \<le> 1
    \<and> (bm_appended_entries report = 1 \<longrightarrow>
         (\<exists>l e. lineage_entries sample_session (Some 2) = Inr l \<and> msg_role (se_message e) = Assistant
            \<and> lineage_entries es' (Some (bm_merged_head report)) = Inr (l @ [e])))"
  by (rule squash_merge_adds_summary [OF sample_session_wf]) (simp_all add: sample_session_def)

text \<open>A fast-forward merge succeeds exactly when the target is a proper ancestor of the source; it
  then changes nothing and moves the head to the source.\<close>

theorem fast_forward_iff_ancestor:
  assumes "session_wf es" and "a \<in> entry_ids es" "b \<in> entry_ids es" "a \<noteq> b"
  shows "(\<exists>report. merge_branch_entries es a b FastForward = Inr (es, report) \<and> bm_merged_head report = a)
    \<longleftrightarrow> (b, a) \<in> (parent_rel es)\<^sup>+"
  using assms by (rule merge_fast_forward_iff)

theorem fast_forward_iff_ancestor_witness:
  "(\<exists>report. merge_branch_entries sample_session 3 1 FastForward = Inr (sample_session, report)
       \<and> bm_merged_head report = 3)
    \<longleftrightarrow> (1, 3) \<in> (parent_rel sample_session)\<^sup>+"
  by (rule fast_forward_iff_ancestor [OF sample_session_wf]) (simp_all add: sample_session_def)

end
