(* ===== verification/Session_Repair.thy ===== *)
theory Session_Repair
  imports Session_Ops
begin

text \<open>
  \<open>SessionStore::repair\<close> (\<open>session_store_runtime.rs\<close>): sort by id, drop later duplicates, drop
  entries whose parent is missing until none is left, drop entries whose walk runs into a cycle,
  and report what was dropped. The result is a well-formed session whatever was on disk, and a
  well-formed session only gets sorted.
\<close>

record RepairReport =
  rr_removed_duplicates :: nat
  rr_duplicate_ids :: "nat list"
  rr_removed_invalid_parent :: nat
  rr_invalid_parent_ids :: "nat list"
  rr_removed_cycles :: nat
  rr_cycle_ids :: "nat list"

text \<open>The loop \<open>for id in ids { if map.remove(&id).is_some() { count += 1; removed.push(id) } }\<close>;
  \<open>count\<close> is the length of \<open>removed\<close>.\<close>

fun remove_ids ::
  "nat list \<Rightarrow> (nat, 'v SessionEntry) hash_map \<Rightarrow> nat list \<Rightarrow> (nat, 'v SessionEntry) hash_map \<times> nat list" where
  "remove_ids [] m removed = (m, removed)"
| "remove_ids (i # is) m removed =
     (if hm_contains m i then remove_ids is (AList.delete i m) (removed @ [i])
      else remove_ids is m removed)"

definition invalid_parent_ids :: "(nat, 'v SessionEntry) hash_map \<Rightarrow> nat list" where
  "invalid_parent_ids m =
     remdups_adj (sort (map (\<lambda>(k, e). se_id e)
       (filter (\<lambda>(k, e). case se_parent_id e of None \<Rightarrow> False | Some p \<Rightarrow> \<not> hm_contains m p) m)))"

lemma remove_ids_length: "length (fst (remove_ids is m removed)) \<le> length m"
proof (induction "is" m removed rule: remove_ids.induct)
  case (2 i "is" m removed)
  then show ?case using length_delete_le [of i m] by (auto intro: order.trans)
qed simp

function prune_invalid_parents ::
  "(nat, 'v SessionEntry) hash_map \<Rightarrow> nat list \<Rightarrow> (nat, 'v SessionEntry) hash_map \<times> nat list" where
  "prune_invalid_parents m removed =
     (let invalid_ids = invalid_parent_ids m in
      if invalid_ids = [] then (m, removed)
      else (let (m', removed') = remove_ids invalid_ids m removed in
            if length m' = length m then (m', removed') else prune_invalid_parents m' removed'))"
  by pat_completeness auto
termination
proof (relation "measure (\<lambda>(m, removed). length m)", goal_cases)
  case (2 m removed invalid_ids x m' removed')
  then show ?case using remove_ids_length [of invalid_ids m removed] by (auto dest: sym)
qed simp

declare prune_invalid_parents.simps [simp del]

definition repair_entries :: "'v entries \<Rightarrow> RepairReport \<times> 'v entries" where
  "repair_entries es =
     (let (unique, duplicate_ids) = dedup_keys se_id {} (sort_key se_id es);
          (m, invalid_ids) = prune_invalid_parents (entry_index unique) [];
          cycle_candidates = remdups_adj (sort (filter (\<lambda>i. has_cycle i m) (map fst m)));
          (m', cycle_ids) = remove_ids cycle_candidates m []
      in (\<lparr>rr_removed_duplicates = length duplicate_ids, rr_duplicate_ids = duplicate_ids,
           rr_removed_invalid_parent = length invalid_ids, rr_invalid_parent_ids = invalid_ids,
           rr_removed_cycles = length cycle_ids, rr_cycle_ids = cycle_ids\<rparr>,
          sort_key se_id (map snd m')))"

subsection \<open>Keyed maps\<close>

text \<open>Maps whose keys are distinct and are the ids of their values.\<close>

definition keyed :: "(nat, 'v SessionEntry) hash_map \<Rightarrow> bool" where
  "keyed m = (hm_wf m \<and> (\<forall>(k, e) \<in> set m. se_id e = k))"

lemma keyed_fst: "keyed m \<Longrightarrow> map fst m = map se_id (map snd m)"
  by (auto simp: keyed_def)

lemma keyed_lookup: "keyed m \<Longrightarrow> map_of m k = Some e \<longleftrightarrow> e \<in> snd ` set m \<and> se_id e = k"
  by (force simp: keyed_def hm_wf_map_of_iff)

lemma keyed_keys: "keyed m \<Longrightarrow> hm_keys m = entry_ids (map snd m)"
  by (force simp: keyed_def image_iff)

lemma keyed_filter: "keyed m \<Longrightarrow> keyed (filter P m)"
  by (auto simp: keyed_def hm_wf_def distinct_key_filter)

lemma keyed_entry_index: "keyed (entry_index es)"
proof -
  have "hm_wf (entry_index es)" by (simp add: entry_index_def)
  moreover from this have "\<forall>(k, e) \<in> set (entry_index es). se_id e = k"
    by (auto simp: hm_wf_map_of_iff [symmetric] dest: entry_index_SomeD)
  ultimately show ?thesis by (simp add: keyed_def)
qed

lemma keyed_same_walk:
  assumes "keyed m"
  shows "map_of (entry_index (map snd m)) = map_of m"
proof
  fix k
  have "distinct (map se_id (map snd m))"
    using assms keyed_fst [OF assms] by (simp add: keyed_def hm_wf_def)
  then have "map_of (entry_index (map snd m)) k = Some e \<longleftrightarrow> map_of m k = Some e" for e
    by (simp add: entry_index_iff keyed_lookup [OF assms])
  then show "map_of (entry_index (map snd m)) k = map_of m k"
    by (cases "map_of m k") (metis option.exhaust)+
qed

lemma remove_ids_spec:
  "distinct is \<Longrightarrow> remove_ids is m removed =
     (filter (\<lambda>(k, e). k \<notin> set is) m, removed @ filter (\<lambda>i. i \<in> hm_keys m) is)"
proof (induction "is" m removed rule: remove_ids.induct)
  case (2 i "is" m removed)
  show ?case
  proof (cases "i \<in> hm_keys m")
    case True
    have "filter (\<lambda>j. j \<in> hm_keys (AList.delete i m)) is = filter (\<lambda>j. j \<in> hm_keys m) is"
      using 2(3) by (intro filter_cong) (force simp: AList.delete_eq image_iff)+
    moreover have "filter (\<lambda>(k, e). k \<notin> set is) (AList.delete i m)
        = filter (\<lambda>(k, e). k \<notin> set (i # is)) m"
      by (auto simp: AList.delete_eq intro!: filter_cong)
    ultimately show ?thesis using 2 True by (simp add: hm_contains_iff)
  next
    case False
    then have "filter (\<lambda>(k, e). k \<notin> set (i # is)) m = filter (\<lambda>(k, e). k \<notin> set is) m"
      by (intro filter_cong) (auto simp: image_iff)
    with 2 False show ?thesis by (simp add: hm_contains_iff)
  qed
qed simp

lemma set_invalid_parent_ids:
  "keyed m \<Longrightarrow> set (invalid_parent_ids m) =
     {k. \<exists>e p. (k, e) \<in> set m \<and> se_parent_id e = Some p \<and> p \<notin> hm_keys m}"
  by (force simp: invalid_parent_ids_def hm_contains_iff keyed_def split: option.splits)

lemma distinct_invalid_parent_ids [simp]: "distinct (invalid_parent_ids m)"
  by (simp add: invalid_parent_ids_def distinct_remdups_adj_sorted)

lemma removed_length:
  assumes "hm_wf m" "distinct is" "set is \<subseteq> hm_keys m"
  shows "length (filter (\<lambda>(k, e). k \<notin> set is) m) + length is = length m"
proof -
  let ?in = "filter (\<lambda>(k, e). k \<in> set is) m"
  have "distinct (map fst ?in)" using assms(1) by (simp add: hm_wf_def distinct_key_filter)
  moreover have "set (map fst ?in) = set is" using assms(3) by (force simp: image_iff)
  ultimately have "length ?in = length is" using assms(2)
    by (metis distinct_card length_map)
  moreover have "filter (\<lambda>(k, e). k \<notin> set is) m = filter (\<lambda>x. \<not> (case x of (k, e) \<Rightarrow> k \<in> set is)) m"
    by (auto intro: filter_cong)
  ultimately show ?thesis
    using sum_length_filter_compl [of "\<lambda>(k, e). k \<in> set is" m] by simp
qed

definition closed_map :: "(nat, 'v SessionEntry) hash_map \<Rightarrow> bool" where
  "closed_map m = (\<forall>(k, e) \<in> set m. \<forall>p. se_parent_id e = Some p \<longrightarrow> p \<in> hm_keys m)"

lemma prune_invalid_parents_spec:
  "keyed m \<Longrightarrow> prune_invalid_parents m removed = (m', removed') \<Longrightarrow>
     keyed m' \<and> closed_map m' \<and> set m' \<subseteq> set m
     \<and> length m' + length removed' = length m + length removed"
proof (induction m removed arbitrary: m' removed' rule: prune_invalid_parents.induct)
  case (1 m removed)
  let ?inv = "invalid_parent_ids m"
  show ?case
  proof (cases "?inv = []")
    case True
    then have "closed_map m" using set_invalid_parent_ids [OF "1.prems"(1)]
      by (auto simp: closed_map_def)
    with 1 True show ?thesis by (simp add: prune_invalid_parents.simps [of m])
  next
    case False
    let ?m = "filter (\<lambda>(k, e). k \<notin> set ?inv) m"
    have sub: "set ?inv \<subseteq> hm_keys m"
      unfolding set_invalid_parent_ids [OF "1.prems"(1)] by force
    have rem: "remove_ids ?inv m removed = (?m, removed @ ?inv)"
      using sub by (simp add: remove_ids_spec filter_id_conv subset_iff)
    have len: "length ?m + length ?inv = length m"
      using removed_length [of m ?inv] "1.prems"(1) sub by (simp add: keyed_def)
    moreover have "0 < length ?inv" using False by simp
    ultimately have neq: "length ?m \<noteq> length m" by linarith
    have "prune_invalid_parents ?m (removed @ ?inv) = (m', removed')"
      using "1.prems"(2) False rem neq by (simp add: prune_invalid_parents.simps [of m] Let_def)
    from "1.IH" [OF refl False rem [symmetric] refl neq keyed_filter [OF "1.prems"(1)] this] len
    show ?thesis by auto
  qed
qed

lemma prune_invalid_parents_closed:
  "keyed m \<Longrightarrow> closed_map m \<Longrightarrow> prune_invalid_parents m removed = (m, removed)"
proof -
  assume k: "keyed m" and c: "closed_map m"
  then have "set (invalid_parent_ids m) = {}"
    unfolding set_invalid_parent_ids [OF k] by (force simp: closed_map_def)
  then show ?thesis by (simp add: prune_invalid_parents.simps [of m])
qed

subsection \<open>The repaired session\<close>

lemma acyclic_survivors:
  assumes "keyed m" "closed_map m"
  defines "m' \<equiv> filter (\<lambda>(k, e). \<not> has_cycle k m) m"
  shows "keyed m'" "closed_map m'" "acyclic (parent_rel (map snd m'))"
proof -
  show "keyed m'" using keyed_filter [OF assms(1)] by (simp add: m'_def)
  have nx: "next_of m k = Some p" if "(k, e) \<in> set m" "se_parent_id e = Some p" for k e p
    using that assms(1) by (simp add: next_of_def keyed_def hm_wf_map_of_iff [THEN iffD2])
  have ok: "\<not> has_cycle p m" if "(k, e) \<in> set m'" "se_parent_id e = Some p" for k e p
  proof -
    from that obtain n where "ranked m k n" by (auto simp: m'_def has_cycle_iff)
    then show ?thesis using nx [of k e p] that
      by (cases rule: ranked.cases) (auto simp: m'_def has_cycle_iff)
  qed
  then show "closed_map m'"
    using assms(2) by (fastforce simp: m'_def closed_map_def image_iff)
  have "\<forall>k. \<exists>n. \<not> has_cycle k m \<longrightarrow> ranked m k n" by (auto simp: has_cycle_iff)
  then obtain g where g: "ranked m k (g k)" if "\<not> has_cycle k m" for k by metis
  show "acyclic (parent_rel (map snd m'))"
  proof (rule acyclic_by_rank [where g = g])
    fix p c assume "(p, c) \<in> parent_rel (map snd m')"
    then obtain k e where e: "(k, e) \<in> set m'" "se_id e = c" "se_parent_id e = Some p"
      by (auto simp: parent_rel_def)
    with \<open>keyed m'\<close> have "k = c" by (auto simp: keyed_def)
    with e have c: "(c, e) \<in> set m" "\<not> has_cycle c m" by (simp_all add: m'_def)
    have nxt: "next_of m c = Some p" using nx [OF c(1) e(3)] .
    have p: "ranked m p (g p)" using g ok [OF e(1,3)] by blast
    from g [OF c(2)] obtain n where "g c = Suc n" "ranked m p n"
      by (cases rule: ranked.cases) (simp_all add: nxt)
    with ranked_unique [OF p] show "g p < g c" by simp
  qed
qed

lemma session_wf_keyed:
  assumes "keyed m" "closed_map m" "acyclic (parent_rel (map snd m))"
  shows "session_wf (sort_key se_id (map snd m))"
proof -
  have "distinct (map se_id (map snd m))"
    using assms(1) keyed_fst [OF assms(1)] by (simp add: keyed_def hm_wf_def)
  then have "distinct (map se_id (sort_key se_id (map snd m)))"
    by (metis distinct_map distinct_sort set_sort)
  moreover have "parents_exist (sort_key se_id (map snd m))"
    using assms(2) keyed_keys [OF assms(1)] by (force simp: parents_exist_def closed_map_def)
  moreover have "parent_rel (sort_key se_id (map snd m)) = parent_rel (map snd m)"
    by (simp add: parent_rel_def)
  ultimately show ?thesis using assms(3) by (simp add: session_wf_def)
qed

text \<open>The cycle phase removes exactly the keys whose walk does not end.\<close>

lemma cycle_phase:
  assumes "keyed m"
  defines "ids \<equiv> remdups_adj (sort (filter (\<lambda>i. has_cycle i m) (map fst m)))"
  shows "remove_ids ids m [] = (filter (\<lambda>(k, e). \<not> has_cycle k m) m, ids)"
    "length (filter (\<lambda>(k, e). \<not> has_cycle k m) m) + length ids = length m"
proof -
  have ids: "set ids = {k \<in> hm_keys m. has_cycle k m}" "distinct ids"
    by (auto simp: ids_def distinct_remdups_adj_sorted)
  have same: "filter (\<lambda>(k, e). k \<notin> set ids) m = filter (\<lambda>(k, e). \<not> has_cycle k m) m"
    unfolding ids(1) by (intro filter_cong) (auto simp: image_iff)
  then show "remove_ids ids m [] = (filter (\<lambda>(k, e). \<not> has_cycle k m) m, ids)"
    using ids by (simp add: remove_ids_spec filter_id_conv)
  show "length (filter (\<lambda>(k, e). \<not> has_cycle k m) m) + length ids = length m"
    using removed_length [of m ids] ids assms(1) unfolding same keyed_def by auto
qed

lemma repair_phases:
  assumes "repair_entries es = (report, fs)"
  obtains unique dups m inv where
    "dedup_keys se_id {} (sort_key se_id es) = (unique, dups)"
    "prune_invalid_parents (entry_index unique) [] = (m, inv)"
    "fs = sort_key se_id (map snd (filter (\<lambda>(k, e). \<not> has_cycle k m) m))"
    "rr_removed_duplicates report = length dups"
    "rr_removed_invalid_parent report = length inv"
    "rr_removed_cycles report = length (remdups_adj (sort (filter (\<lambda>i. has_cycle i m) (map fst m))))"
    "keyed m" "closed_map m" "set m \<subseteq> set (entry_index unique)"
    "length m + length inv = length (entry_index unique)"
proof -
  obtain unique dups where u: "dedup_keys se_id {} (sort_key se_id es) = (unique, dups)"
    by (cases "dedup_keys se_id {} (sort_key se_id es)")
  obtain m inv where m: "prune_invalid_parents (entry_index unique) [] = (m, inv)"
    by (cases "prune_invalid_parents (entry_index unique) []")
  note spec = prune_invalid_parents_spec [OF keyed_entry_index m]
  show thesis
  proof (rule that [OF u m])
    show "fs = sort_key se_id (map snd (filter (\<lambda>(k, e). \<not> has_cycle k m) m))"
      "rr_removed_duplicates report = length dups" "rr_removed_invalid_parent report = length inv"
      "rr_removed_cycles report = length (remdups_adj (sort (filter (\<lambda>i. has_cycle i m) (map fst m))))"
      using assms cycle_phase(1) [of m] spec by (auto simp: repair_entries_def Let_def u m)
  qed (use spec in auto)
qed

lemma repair_entries_wf: "session_wf (snd (repair_entries es))"
proof -
  obtain report fs where r: "repair_entries es = (report, fs)" by (cases "repair_entries es")
  from r show ?thesis
  proof (cases rule: repair_phases)
    case (1 unique dups m inv)
    from session_wf_keyed [OF acyclic_survivors [OF 1(7,8)]] 1(3) r show ?thesis by simp
  qed
qed

lemma hm_collect_distinct: "distinct (map fst ps) \<Longrightarrow> hm_collect ps = ps"
proof (induction ps rule: rev_induct)
  case (snoc p ps)
  have upd: "AList.update k v al = al @ [(k, v)]" if "k \<notin> fst ` set al" for k v and al :: "('a \<times> 'b) list"
    using that by (induction al) auto
  from snoc show ?case by (cases p) (auto simp: hm_collect_def upd)
qed (simp add: hm_collect_def)

lemma entry_index_distinct:
  "distinct (map se_id es) \<Longrightarrow> entry_index es = map (\<lambda>e. (se_id e, e)) es"
  by (simp add: entry_index_def hm_collect_distinct comp_def)

lemma repair_accounting:
  assumes "repair_entries es = (report, fs)"
  shows "length fs + rr_removed_duplicates report + rr_removed_invalid_parent report
    + rr_removed_cycles report = length es"
  using assms
proof (cases rule: repair_phases)
  case (1 unique dups m inv)
  note u = dedup_keys_unique [OF 1(1)]
  have "length (entry_index unique) = length unique" using u(1) by (simp add: entry_index_distinct)
  with 1 u(4) cycle_phase(2) [OF 1(7)] show ?thesis by simp
qed

lemma repair_subset:
  assumes "repair_entries es = (report, fs)"
  shows "set fs \<subseteq> set es"
  using assms
proof (cases rule: repair_phases)
  case (1 unique dups m inv)
  have "snd ` set (entry_index unique) \<subseteq> set unique"
    using dedup_keys_unique(1) [OF 1(1)] by (simp add: entry_index_distinct image_image)
  moreover have "set unique \<subseteq> set es" using dedup_keys_unique(3) [OF 1(1)] by simp
  ultimately show ?thesis using 1(3,9) by (force simp: image_subset_iff)
qed

lemma repair_wf_id:
  assumes "session_wf es"
  shows "repair_entries es =
    (\<lparr>rr_removed_duplicates = 0, rr_duplicate_ids = [], rr_removed_invalid_parent = 0,
      rr_invalid_parent_ids = [], rr_removed_cycles = 0, rr_cycle_ids = []\<rparr>, sort_key se_id es)"
proof -
  note d = session_wfD [OF assms]
  let ?s = "sort_key se_id es"
  have dist: "distinct (map se_id ?s)" using d(1) by (metis distinct_map distinct_sort set_sort)
  have "dedup_keys se_id {} ?s = (?s, [])" using dist by (simp add: dedup_keys_id)
  moreover have "closed_map (entry_index ?s)"
    using d(2) unfolding closed_map_def entry_index_keys
    by (force simp: entry_index_distinct [OF dist] parents_exist_def)
  then have "prune_invalid_parents (entry_index ?s) [] = (entry_index ?s, [])"
    by (simp add: prune_invalid_parents_closed keyed_entry_index)
  moreover have "parent_rel ?s = parent_rel es" by (simp add: parent_rel_def)
  then have "\<not> has_cycle i (entry_index ?s)" for i
    using ranked_if_acyclic [OF dist] d(3) by (simp add: has_cycle_iff)
  ultimately show ?thesis
    by (simp add: repair_entries_def Let_def) (simp add: entry_index_distinct [OF dist] comp_def sort_key_id_if_sorted)
qed

lemma repair_idempotent: "snd (repair_entries (snd (repair_entries es))) = snd (repair_entries es)"
proof -
  have "\<exists>xs. snd (repair_entries es) = sort_key se_id xs"
    by (auto simp: repair_entries_def Let_def case_prod_beta)
  then show ?thesis
    using repair_wf_id [OF repair_entries_wf [of es]] by (auto simp: sort_key_id_if_sorted)
qed

subsection \<open>Properties\<close>

text \<open>C18. Repair turns any list of entries into a well-formed session that keeps only entries of the
  input, accounts for every entry it drops in exactly one of its three counters, and is stable under
  a second repair.\<close>

theorem repair_restores_integrity:
  "let (report, fs) = repair_entries es in
     session_wf fs \<and> set fs \<subseteq> set es
     \<and> length fs + rr_removed_duplicates report + rr_removed_invalid_parent report
         + rr_removed_cycles report = length es
     \<and> snd (repair_entries fs) = fs"
proof -
  obtain report fs where r: "repair_entries es = (report, fs)" by (cases "repair_entries es")
  with repair_entries_wf [of es] repair_subset [OF r] repair_accounting [OF r] repair_idempotent [of es]
  show ?thesis by simp
qed

text \<open>Repair of a well-formed session removes nothing: it reports zero counts and only puts the
  entries in id order.\<close>

theorem repair_keeps_valid_sessions:
  assumes "session_wf es"
  shows "repair_entries es =
    (\<lparr>rr_removed_duplicates = 0, rr_duplicate_ids = [], rr_removed_invalid_parent = 0,
      rr_invalid_parent_ids = [], rr_removed_cycles = 0, rr_cycle_ids = []\<rparr>, sort_key se_id es)"
  using assms by (rule repair_wf_id)

theorem repair_keeps_valid_sessions_witness:
  "repair_entries sample_session =
    (\<lparr>rr_removed_duplicates = 0, rr_duplicate_ids = [], rr_removed_invalid_parent = 0,
      rr_invalid_parent_ids = [], rr_removed_cycles = 0, rr_cycle_ids = []\<rparr>,
     sort_key se_id sample_session)"
  by (rule repair_keeps_valid_sessions [OF sample_session_wf])

end
