(* ===== verification/Session_Store.thy ===== *)
theory Session_Store
  imports Session_Usage Session_Ops Session_Merge Session_Repair
begin

text \<open>
  \<open>SessionStore\<close> (\<open>crates/tau-session/src/lib.rs\<close>, \<open>session_store_runtime.rs\<close>): the in-memory copy
  of the entries and the handlers that lock, read, compute, write and refresh the copy. Locking and
  storage are parameters of the handlers (\<open>SessionIo\<close>); \<open>entry_storage\<close> is the contract the store
  needs of them, and the JSONL backend provides it. Sequences of handlers keep the stored session
  well formed.
\<close>

record ('d, 'v) SessionIo =
  io_lock :: "nat \<Rightarrow> nat \<Rightarrow> 'd \<Rightarrow> SessionError + unit"
  io_read :: "'d \<Rightarrow> SessionError + 'v entries"
  io_write :: "'v entries \<Rightarrow> 'd \<Rightarrow> SessionError + 'd"
  io_import_legacy :: "'d \<Rightarrow> SessionError + (nat \<times> 'd)"
  io_read_usage :: "'d \<Rightarrow> SessionError + SessionUsageSummary"
  io_write_usage :: "SessionUsageSummary \<Rightarrow> 'd \<Rightarrow> SessionError + 'd"

record 'v SessionStore =
  ss_path :: string
  ss_backend :: SessionStorageBackend
  ss_backend_reason_code :: string
  ss_entries :: "'v entries"
  ss_usage_summary :: SessionUsageSummary
  ss_next_id :: nat
  ss_lock_wait_ms :: nat
  ss_lock_stale_ms :: nat

datatype SessionImportMode = Merge | Replace

record ImportReport =
  ir_imported_entries :: nat
  ir_remapped_entries :: nat
  ir_remapped_ids :: "(nat \<times> nat) list"
  ir_replaced_entries :: nat
  ir_resulting_entries :: nat
  ir_active_head :: "nat option"

abbreviation DEFAULT_LOCK_WAIT_MS :: nat where "DEFAULT_LOCK_WAIT_MS \<equiv> 5000"
abbreviation DEFAULT_LOCK_STALE_MS :: nat where "DEFAULT_LOCK_STALE_MS \<equiv> 30000"

subsection \<open>Handlers\<close>

definition store_load ::
  "('d, 'v) SessionIo \<Rightarrow> string \<Rightarrow> SessionError + ResolvedSessionBackend \<Rightarrow> 'd
     \<Rightarrow> SessionError + ('v SessionStore \<times> 'd)" where
  "store_load io path resolution d =
     and_then resolution (\<lambda>resolved.
     and_then (io_import_legacy io d) (\<lambda>(imported, d').
     and_then (io_read io d') (\<lambda>es.
     and_then (io_read_usage io d') (\<lambda>usage.
       Inr (\<lparr>ss_path = path, ss_backend = rb_backend resolved,
             ss_backend_reason_code = rb_reason_code resolved, ss_entries = es,
             ss_usage_summary = usage, ss_next_id = next_entry_id es,
             ss_lock_wait_ms = DEFAULT_LOCK_WAIT_MS, ss_lock_stale_ms = DEFAULT_LOCK_STALE_MS\<rparr>, d')))))"

definition head_id :: "'v SessionStore \<Rightarrow> nat option" where
  "head_id s = last_id (ss_entries s)"

definition store_contains :: "'v SessionStore \<Rightarrow> nat \<Rightarrow> bool" where
  "store_contains s i = (\<exists>e \<in> set (ss_entries s). se_id e = i)"

definition set_lock_policy :: "nat \<Rightarrow> nat \<Rightarrow> 'v SessionStore \<Rightarrow> 'v SessionStore" where
  "set_lock_policy wait stale s = s\<lparr>ss_lock_wait_ms := max wait 1, ss_lock_stale_ms := stale\<rparr>"

definition with_lock ::
  "('d, 'v) SessionIo \<Rightarrow> 'v SessionStore \<Rightarrow> 'd \<Rightarrow> SessionError + unit" where
  "with_lock io s d = io_lock io (ss_lock_wait_ms s) (ss_lock_stale_ms s) d"

definition append_messages ::
  "('d, 'v) SessionIo \<Rightarrow> nat option \<Rightarrow> 'v Message list \<Rightarrow> 'v SessionStore \<Rightarrow> 'd
     \<Rightarrow> SessionError + (nat option \<times> 'v SessionStore \<times> 'd)" where
  "append_messages io parent_id messages s d =
     (if messages = [] then Inr (parent_id, s, d)
      else
        and_then (with_lock io s d) (\<lambda>_.
        and_then (io_read io d) (\<lambda>es.
        and_then (append_entries es parent_id messages) (\<lambda>(es', next_id, head).
        and_then (io_write io es' d) (\<lambda>d'.
          Inr (head, s\<lparr>ss_entries := es', ss_next_id := next_id\<rparr>, d'))))))"

definition ensure_initialized ::
  "('d, 'v) SessionIo \<Rightarrow> string \<Rightarrow> 'v SessionStore \<Rightarrow> 'd
     \<Rightarrow> SessionError + (nat option \<times> 'v SessionStore \<times> 'd)" where
  "ensure_initialized io system_prompt s d =
     (if ss_entries s \<noteq> [] then Inr (head_id s, s, d)
      else if trim system_prompt = [] then Inr (None, s, d)
      else append_messages io None [message_system system_prompt] s d)"

definition record_usage_delta ::
  "('d, 'v) SessionIo \<Rightarrow> (f64 \<Rightarrow> f64 \<Rightarrow> f64) \<Rightarrow> SessionUsageSummary \<Rightarrow> 'v SessionStore \<Rightarrow> 'd
     \<Rightarrow> SessionError + ('v SessionStore \<times> 'd)" where
  "record_usage_delta io f64_add delta s d =
     (if is_empty_delta delta then Inr (s, d)
      else
        and_then (with_lock io s d) (\<lambda>_.
        and_then (io_read_usage io d) (\<lambda>stored.
        let summary = add_usage f64_add stored delta in
        and_then (io_write_usage io summary d) (\<lambda>d'.
          Inr (s\<lparr>ss_usage_summary := summary\<rparr>, d')))))"

text \<open>\<open>snapshot\<close> is the result of reading the source file.\<close>

definition import_snapshot ::
  "('d, 'v) SessionIo \<Rightarrow> SessionError + 'v entries \<Rightarrow> SessionImportMode \<Rightarrow> 'v SessionStore \<Rightarrow> 'd
     \<Rightarrow> SessionError + (ImportReport \<times> 'v SessionStore \<times> 'd)" where
  "import_snapshot io snapshot mode s d =
     and_then snapshot (\<lambda>imported.
     let report = validation_report_for_entries imported in
     if \<not> is_valid report
     then Inl (ImportInvalid (vr_entries report) (vr_duplicates report) (vr_invalid_parent report)
                 (vr_cycles report))
     else
       and_then (with_lock io s d) (\<lambda>_.
       and_then (io_read io d) (\<lambda>existing.
       case mode of
         Merge \<Rightarrow>
           and_then (merge_entries_with_remap existing imported) (\<lambda>(merged, remapped, head).
           and_then (io_write io merged d) (\<lambda>d'.
             Inr (\<lparr>ir_imported_entries = length imported, ir_remapped_entries = length remapped,
                   ir_remapped_ids = remapped, ir_replaced_entries = 0,
                   ir_resulting_entries = length merged, ir_active_head = head\<rparr>,
                  s\<lparr>ss_entries := merged, ss_next_id := next_entry_id merged\<rparr>, d')))
       | Replace \<Rightarrow>
           and_then (io_write io imported d) (\<lambda>d'.
             Inr (\<lparr>ir_imported_entries = length imported, ir_remapped_entries = 0,
                   ir_remapped_ids = [], ir_replaced_entries = length existing,
                   ir_resulting_entries = length imported, ir_active_head = last_id imported\<rparr>,
                  s\<lparr>ss_entries := imported, ss_next_id := next_entry_id imported\<rparr>, d')))))"

definition merge_branches ::
  "('d, 'v) SessionIo \<Rightarrow> nat \<Rightarrow> nat \<Rightarrow> SessionMergeStrategy \<Rightarrow> 'v SessionStore \<Rightarrow> 'd
     \<Rightarrow> SessionError + (BranchMergeReport \<times> 'v SessionStore \<times> 'd)" where
  "merge_branches io source_head target_head strategy s d =
     and_then (with_lock io s d) (\<lambda>_.
     and_then (io_read io d) (\<lambda>es.
     and_then (merge_branch_entries es source_head target_head strategy) (\<lambda>(es', report).
     and_then (if bm_appended_entries report > 0 then io_write io es' d else Inr d) (\<lambda>d'.
       Inr (report, s\<lparr>ss_entries := es', ss_next_id := next_entry_id es'\<rparr>, d')))))"

definition repair ::
  "('d, 'v) SessionIo \<Rightarrow> 'v SessionStore \<Rightarrow> 'd \<Rightarrow> SessionError + (RepairReport \<times> 'v SessionStore \<times> 'd)" where
  "repair io s d =
     and_then (with_lock io s d) (\<lambda>_.
     and_then (io_read io d) (\<lambda>es.
     let (report, repaired) = repair_entries es in
     and_then (io_write io repaired d) (\<lambda>d'.
       Inr (report, s\<lparr>ss_entries := repaired, ss_next_id := next_entry_id repaired\<rparr>, d'))))"

definition compact_to_lineage ::
  "('d, 'v) SessionIo \<Rightarrow> nat option \<Rightarrow> 'v SessionStore \<Rightarrow> 'd
     \<Rightarrow> SessionError + (CompactReport \<times> 'v SessionStore \<times> 'd)" where
  "compact_to_lineage io preferred s d =
     and_then (with_lock io s d) (\<lambda>_.
     and_then (io_read io d) (\<lambda>es.
     and_then (compact_entries es preferred) (\<lambda>(report, compacted).
       if es = [] then Inr (report, s\<lparr>ss_entries := es, ss_next_id := 1\<rparr>, d)
       else and_then (io_write io compacted d) (\<lambda>d'.
         Inr (report, s\<lparr>ss_entries := compacted, ss_next_id := next_entry_id compacted\<rparr>, d')))))"

definition export_lineage ::
  "('e, 'v) SessionIo \<Rightarrow> nat option \<Rightarrow> 'v SessionStore \<Rightarrow> 'e \<Rightarrow> SessionError + (nat \<times> 'e)" where
  "export_lineage dest head s d =
     and_then (lineage_entries (ss_entries s) head) (\<lambda>lineage.
     and_then (io_write dest lineage d) (\<lambda>d'. Inr (length lineage, d')))"

definition export_lineage_jsonl ::
  "nat option \<Rightarrow> 'v SessionStore \<Rightarrow> SessionError + 'v SessionLine list" where
  "export_lineage_jsonl head s =
     and_then (lineage_entries (ss_entries s) head) (\<lambda>lineage. Inr (jsonl_lines lineage))"

definition validation_report :: "'v SessionStore \<Rightarrow> SessionValidationReport" where
  "validation_report s = validation_report_for_entries (ss_entries s)"

subsection \<open>Initialization (session_runtime_helpers.rs)\<close>

record 'v SessionRuntime =
  sr_store :: "'v SessionStore"
  sr_active_head :: "nat option"

definition initialize_session ::
  "('d, 'v) SessionIo \<Rightarrow> string \<Rightarrow> SessionError + ResolvedSessionBackend \<Rightarrow> nat \<Rightarrow> nat \<Rightarrow> nat option \<Rightarrow> string \<Rightarrow> 'd
     \<Rightarrow> SessionError + ('v SessionRuntime \<times> 'v Message list \<times> 'd)" where
  "initialize_session io path resolution wait stale branch_from system_prompt d =
     and_then (store_load io path resolution d) (\<lambda>(s0, d0).
     let s = set_lock_policy (max wait 1) stale s0 in
     and_then (ensure_initialized io system_prompt s d0) (\<lambda>(head, s', d').
     and_then (case branch_from of
                 None \<Rightarrow> Inr head
               | Some b \<Rightarrow> if \<not> store_contains s' b then Inl (UnknownId b) else Inr (Some b)) (\<lambda>active.
     and_then (lineage_messages (ss_entries s') active) (\<lambda>lineage.
       Inr (\<lparr>sr_store = s', sr_active_head = active\<rparr>, lineage, d')))))"

subsection \<open>Sequences of operations\<close>

datatype 'v SessionOp =
    OpAppend "nat option" "'v Message list"
  | OpImport "'v entries" SessionImportMode
  | OpMerge nat nat SessionMergeStrategy
  | OpRepair
  | OpCompact "nat option"

definition keep_on_error :: "'s \<Rightarrow> SessionError + ('r \<times> 's) \<Rightarrow> 's" where
  "keep_on_error s r = (case r of Inl _ \<Rightarrow> s | Inr (_, s') \<Rightarrow> s')"

fun run_op :: "('d, 'v) SessionIo \<Rightarrow> 'v SessionOp \<Rightarrow> 'v SessionStore \<times> 'd \<Rightarrow> 'v SessionStore \<times> 'd" where
  "run_op io (OpAppend p ms) (s, d) = keep_on_error (s, d) (append_messages io p ms s d)"
| "run_op io (OpImport es mode) (s, d) = keep_on_error (s, d) (import_snapshot io (Inr es) mode s d)"
| "run_op io (OpMerge a b strategy) (s, d) = keep_on_error (s, d) (merge_branches io a b strategy s d)"
| "run_op io OpRepair (s, d) = keep_on_error (s, d) (repair io s d)"
| "run_op io (OpCompact h) (s, d) = keep_on_error (s, d) (compact_to_lineage io h s d)"

text \<open>Room for the new ids below \<open>u64::MAX\<close>, and imported snapshots in ascending id order.\<close>

fun op_ok :: "'v SessionOp \<Rightarrow> 'v entries \<Rightarrow> bool" where
  "op_ok (OpAppend p ms) es = (max_or_0 (map se_id es) + length ms < 2 ^ 64)"
| "op_ok (OpImport new mode) es =
     (mode = Merge \<longrightarrow> sorted_wrt (<) (map se_id new) \<and> max_or_0 (map se_id es) + length new < 2 ^ 64)"
| "op_ok (OpMerge a b strategy) es = (max_or_0 (map se_id es) + length es < 2 ^ 64)"
| "op_ok OpRepair es = True"
| "op_ok (OpCompact h) es = True"

inductive session_run :: "('d, 'v) SessionIo \<Rightarrow> 'v SessionStore \<times> 'd \<Rightarrow> bool" for io where
  run_start: "io_read io d = Inr [] \<Longrightarrow> session_run io (s, d)"
| run_step: "session_run io (s, d) \<Longrightarrow> io_read io d = Inr es \<Longrightarrow> op_ok op es
     \<Longrightarrow> session_run io (run_op io op (s, d))"

subsection \<open>The storage contract\<close>

locale entry_storage =
  fixes io :: "('d, 'v) SessionIo"
    and view :: "'v entries \<Rightarrow> 'v entries"
  assumes read_write: "io_write io es d = Inr d' \<Longrightarrow> io_read io d' = Inr (view es)"
    and view_wf: "session_wf es \<Longrightarrow> session_wf (view es)"
begin

lemma write_wf:
  "session_wf es \<Longrightarrow> io_write io es d = Inr d' \<Longrightarrow> \<exists>fs. io_read io d' = Inr fs \<and> session_wf fs"
  using read_write view_wf by blast

lemma append_messages_wf:
  assumes "io_read io d = Inr es" "session_wf es" "op_ok (OpAppend p ms) es"
    and "append_messages io p ms s d = Inr (h, s', d')"
  shows "\<exists>fs. io_read io d' = Inr fs \<and> session_wf fs"
proof (cases "ms = []")
  case True
  with assms show ?thesis by (simp add: append_messages_def)
next
  case False
  with assms obtain es' n where new: "append_entries es p ms = Inr (es', n, h)" "io_write io es' d = Inr d'"
    by (auto simp: append_messages_def result_simps)
  have "session_wf es'" using append_entries_correct [OF assms(2) _ new(1)] assms(3) by auto
  with new(2) show ?thesis by (rule write_wf [rotated])
qed

lemma import_snapshot_wf:
  assumes "io_read io d = Inr es" "session_wf es" "op_ok (OpImport new mode) es"
    and "import_snapshot io (Inr new) mode s d = Inr (r, s', d')"
  shows "\<exists>fs. io_read io d' = Inr fs \<and> session_wf fs"
proof -
  from assms(4) have new: "session_wf new"
    by (auto simp: import_snapshot_def Let_def validation_sound_complete split: if_splits)
  show ?thesis
  proof (cases mode)
    case Merge
    from assms(4,1) Merge new obtain merged rm hd where
      m: "merge_entries_with_remap es new = Inr (merged, rm, hd)" "io_write io merged d = Inr d'"
      by (auto simp: import_snapshot_def Let_def validation_sound_complete result_simps)
    have "session_wf merged"
      using merge_with_remap_wf [OF assms(2) new] m(1) assms(3) Merge by auto
    with m(2) show ?thesis by (rule write_wf [rotated])
  next
    case Replace
    from assms(4,1) Replace new have "io_write io new d = Inr d'"
      by (auto simp: import_snapshot_def Let_def validation_sound_complete result_simps)
    with new show ?thesis by (rule write_wf)
  qed
qed

lemma merge_branches_wf:
  assumes "io_read io d = Inr es" "session_wf es" "op_ok (OpMerge a b strategy) es"
    and "merge_branches io a b strategy s d = Inr (r, s', d')"
  shows "\<exists>fs. io_read io d' = Inr fs \<and> session_wf fs"
proof -
  from assms(1,4) obtain es' where m: "merge_branch_entries es a b strategy = Inr (es', r)"
    and w: "bm_appended_entries r > 0 \<Longrightarrow> io_write io es' d = Inr d'" "bm_appended_entries r = 0 \<Longrightarrow> d' = d"
    by (auto simp: merge_branches_def result_simps split: if_splits)
  have heads: "a \<in> entry_ids es" "b \<in> entry_ids es" "a \<noteq> b"
    using m by (auto simp: merge_branch_entries_def Let_def split: if_splits)
  have room: "max_or_0 (map se_id es) + length es < 2 ^ 64" using assms(3) by simp
  moreover have "length es > 0" using heads(1) by auto
  ultimately have room1: "max_or_0 (map se_id es) < u64_max" by linarith
  show ?thesis
  proof (cases "bm_appended_entries r = 0")
    case True
    with w assms show ?thesis by simp
  next
    case False
    then have wr: "io_write io es' d = Inr d'" using w(1) by simp
    have "session_wf es'"
    proof (cases strategy)
      case Append
      then show ?thesis using merge_append_correct [OF assms(2) heads room] m by auto
    next
      case Squash
      then show ?thesis using merge_squash_correct [OF assms(2) heads room1] m by auto
    next
      case FastForward
      then show ?thesis using m False
        by (auto simp: merge_branch_entries_def merge_by_strategy_def Let_def result_simps split: if_splits)
    qed
    then show ?thesis using wr by (rule write_wf)
  qed
qed

lemma repair_wf:
  assumes "repair io s d = Inr (r, s', d')"
  shows "\<exists>fs. io_read io d' = Inr fs \<and> session_wf fs"
proof -
  from assms obtain es where "io_write io (snd (repair_entries es)) d = Inr d'"
    by (auto simp: repair_def result_simps case_prod_beta)
  with repair_entries_wf show ?thesis by (rule write_wf)
qed

lemma compact_wf:
  assumes "io_read io d = Inr es" "session_wf es" "compact_to_lineage io h s d = Inr (r, s', d')"
  shows "\<exists>fs. io_read io d' = Inr fs \<and> session_wf fs"
proof (cases "es = []")
  case True
  with assms show ?thesis by (auto simp: compact_to_lineage_def result_simps)
next
  case False
  with assms(1,3) obtain c where c: "compact_entries es h = Inr (r, c)" "io_write io c d = Inr d'"
    by (auto simp: compact_to_lineage_def result_simps)
  have "i \<in> entry_ids es" if "h = Some i" for i
    using c(1) False that
    by (auto simp: compact_entries_def collect_lineage_ids_def Let_def result_simps split: if_splits)
  then have "session_wf c" using compact_entries_correct [OF assms(2) False, of h] c(1) by auto
  with c(2) show ?thesis by (rule write_wf [rotated])
qed

lemma run_op_wf:
  assumes "io_read io d = Inr es" "session_wf es" "op_ok op es" "run_op io op (s, d) = (s', d')"
  shows "\<exists>fs. io_read io d' = Inr fs \<and> session_wf fs"
proof (cases op)
  case (OpAppend p ms)
  then show ?thesis using assms append_messages_wf
    by (cases "append_messages io p ms s d") (auto simp: keep_on_error_def)
next
  case (OpImport new mode)
  with assms(3) have "op_ok (OpImport new mode) es" by (simp del: op_ok.simps)
  from import_snapshot_wf [OF assms(1,2) this, of s _ s' d'] OpImport assms(1,2,4) show ?thesis
    by (cases "import_snapshot io (Inr new) mode s d") (auto simp: keep_on_error_def)
next
  case (OpMerge a b strategy)
  then show ?thesis using assms merge_branches_wf
    by (cases "merge_branches io a b strategy s d") (auto simp: keep_on_error_def)
next
  case OpRepair
  then show ?thesis using assms repair_wf
    by (cases "repair io s d") (auto simp: keep_on_error_def)
next
  case (OpCompact h)
  then show ?thesis using assms compact_wf
    by (cases "compact_to_lineage io h s d") (auto simp: keep_on_error_def)
qed

lemma session_run_wf:
  "session_run io c \<Longrightarrow> \<exists>es. io_read io (snd c) = Inr es \<and> session_wf es"
proof (induction rule: session_run.induct)
  case (run_start d s)
  then show ?case by simp
next
  case (run_step s d es op)
  obtain s' d' where r: "run_op io op (s, d) = (s', d')" by fastforce
  have "session_wf es" using run_step.IH run_step.hyps(2) by simp
  from run_op_wf [OF run_step.hyps(2) this run_step.hyps(3) r] r show ?case by simp
qed

end

subsection \<open>The backends provide the contract\<close>

text \<open>\<open>read_session_entries\<close>, \<open>write_session_entries_atomic\<close>, \<open>read_session_usage_summary\<close> and
  \<open>write_session_usage_summary_atomic\<close> dispatch on the backend; each backend is one \<open>SessionIo\<close>. The
  JSONL and SQLite backends keep the usage summary in a JSON file beside the session, Postgres in a
  table.\<close>

definition jsonl_io ::
  "(nat \<Rightarrow> nat \<Rightarrow> 'v files \<times> usage_files \<Rightarrow> SessionError + unit) \<Rightarrow> string \<Rightarrow> nat
     \<Rightarrow> ('v files \<times> usage_files, 'v) SessionIo" where
  "jsonl_io lock name timestamp =
     \<lparr>io_lock = lock,
      io_read = (\<lambda>(fs, us). read_session_entries_jsonl (fs name)),
      io_write = (\<lambda>es (fs, us).
        Inr (foldl file_step fs (write_session_entries_atomic_jsonl name timestamp es), us)),
      io_import_legacy = (\<lambda>d. Inr (0, d)),
      io_read_usage = (\<lambda>(fs, us). read_session_usage_summary_json (us (name @ ''.usage.json''))),
      io_write_usage = (\<lambda>u (fs, us).
        Inr (fs, write_session_usage_summary_atomic_json (name @ ''.usage.json'') timestamp u us))\<rparr>"


definition sqlite_io ::
  "(nat \<Rightarrow> nat \<Rightarrow> 'db option \<times> usage_files \<Rightarrow> SessionError + unit)
     \<Rightarrow> ('db option \<Rightarrow> SessionError + 'db) \<Rightarrow> (nat, 'db, 'v) EntryTable \<Rightarrow> bool
     \<Rightarrow> 'v SessionLine list option \<Rightarrow> string \<Rightarrow> nat \<Rightarrow> ('db option \<times> usage_files, 'v) SessionIo" where
  "sqlite_io lock open_db T same_path legacy name timestamp =
     \<lparr>io_lock = lock,
      io_read = (\<lambda>(file, us). read_session_entries_sqlite open_db T file),
      io_write = (\<lambda>es (file, us).
        and_then (write_session_entries_sqlite open_db T es file) (\<lambda>file'. Inr (file', us))),
      io_import_legacy = (\<lambda>(file, us).
        and_then (maybe_import_legacy_jsonl_into_sqlite open_db T Sqlite same_path legacy file)
          (\<lambda>(n, file'). Inr (n, file', us))),
      io_read_usage = (\<lambda>(file, us). read_session_usage_summary_json (us (name @ ''.usage.json''))),
      io_write_usage = (\<lambda>u (file, us).
        Inr (file, write_session_usage_summary_atomic_json (name @ ''.usage.json'') timestamp u us))\<rparr>"

definition postgres_io ::
  "(nat \<Rightarrow> nat \<Rightarrow> 'db \<times> usage_row option \<Rightarrow> SessionError + unit) \<Rightarrow> (int, 'db, 'v) EntryTable
     \<Rightarrow> ('db \<times> usage_row option, 'v) SessionIo" where
  "postgres_io lock T =
     \<lparr>io_lock = lock,
      io_read = (\<lambda>(db, u). read_session_entries_postgres T db),
      io_write = (\<lambda>es (db, u).
        and_then (write_session_entries_postgres T es db) (\<lambda>db'. Inr (db', u))),
      io_import_legacy = (\<lambda>d. Inr (0, d)),
      io_read_usage = (\<lambda>(db, u). read_session_usage_summary_postgres u),
      io_write_usage = (\<lambda>v (db, u).
        and_then (write_session_usage_summary_postgres v) (\<lambda>row. Inr (db, Some row)))\<rparr>"

lemma session_wf_sort: "session_wf es \<Longrightarrow> session_wf (sort_key se_id es)"
  by (simp add: session_wf_def parents_exist_def parent_rel_def distinct_map)

text \<open>The SQL backends provide the contract too, with the view in id order, for every table that
  keeps unique ids.\<close>

lemma sqlite_entry_storage:
  assumes "table_laws T" "\<And>db. open_db (Some db) = Inr db"
  shows "entry_storage (sqlite_io lock open_db T same_path legacy name t) (sort_key se_id)"
  using sqlite_roundtrip(1) [OF assms] session_wf_sort
  by unfold_locales (auto simp: sqlite_io_def result_simps)

lemma postgres_entry_storage:
  assumes "table_laws T"
  shows "entry_storage (postgres_io lock T) (sort_key se_id)"
  using postgres_roundtrip(1) [OF assms] session_wf_sort
  by unfold_locales (auto simp: postgres_io_def result_simps)

subsection \<open>Properties\<close>



text \<open>The same holds for the two SQL backends on every table that keeps unique ids and selects in
  id order.\<close>

theorem sql_sessions_always_wf:
  assumes "table_laws T" "table_laws U" "\<And>db. open_db (Some db) = Inr db"
  shows "(session_run (postgres_io lock T) (s, d)
      \<longrightarrow> (\<exists>es. io_read (postgres_io lock T) d = Inr es \<and> session_wf es))
    \<and> (session_run (sqlite_io lock' open_db U same_path legacy name t) (s', d')
      \<longrightarrow> (\<exists>es. io_read (sqlite_io lock' open_db U same_path legacy name t) d' = Inr es \<and> session_wf es))"
  using entry_storage.session_run_wf [OF postgres_entry_storage [OF assms(1), of lock], of "(s, d)"]
    entry_storage.session_run_wf [OF sqlite_entry_storage [OF assms(2,3), of lock' same_path legacy name t], of "(s', d')"]
  by simp

definition empty_store :: "unit SessionStore" where
  "empty_store = \<lparr>ss_path = ''s.jsonl'', ss_backend = Jsonl,
     ss_backend_reason_code = ''session_backend_path_jsonl'', ss_entries = [],
     ss_usage_summary = default_usage, ss_next_id = 1, ss_lock_wait_ms = 5000, ss_lock_stale_ms = 30000\<rparr>"

definition open_list_db :: "'row list option \<Rightarrow> SessionError + 'row list" where
  "open_list_db file = (case file of None \<Rightarrow> Inr [] | Some db \<Rightarrow> Inr db)"

theorem sql_sessions_always_wf_witness:
  "\<exists>es. io_read (postgres_io (\<lambda>_ _ _. Inr ()) list_table) ([], None) = Inr es \<and> session_wf (es :: unit entries)"
proof -
  let ?io = "postgres_io (\<lambda>_ _ _. Inr ()) list_table :: (_, unit) SessionIo"
  have run: "session_run ?io (empty_store, [], None)"
    by (rule run_start) (simp add: postgres_io_def read_session_entries_postgres_def list_table_def)
  have op: "open_list_db (Some db) = Inr db" for db :: "(nat \<times> nat option \<times> unit Message) list"
    by (simp add: open_list_db_def)
  from sql_sessions_always_wf [OF list_table_laws list_table_laws op] run show ?thesis by (rule mp [OF conjunct1])
qed

text \<open>Recording a usage delta adds the token counts, saturating at \<open>u64::MAX\<close>, to what is stored,
  and a later load reads the same summary; a delta of zero tokens and negligible cost changes
  nothing.\<close>

theorem usage_delta_recorded:
  assumes "record_usage_delta (jsonl_io lock name t) f64_add delta s d = Inr (s', d')"
    and "io_read_usage (jsonl_io lock name t) d = Inr stored"
  shows "if is_empty_delta delta then s' = s \<and> d' = d
    else io_read_usage (jsonl_io lock name t) d' = Inr (ss_usage_summary s')
      \<and> ss_usage_summary s' = add_usage f64_add stored delta
      \<and> us_total_tokens (ss_usage_summary s') = min (us_total_tokens stored + us_total_tokens delta) u64_max
      \<and> io_read (jsonl_io lock name t) d' = io_read (jsonl_io lock name t) d"
  using assms
  by (auto simp: record_usage_delta_def result_simps jsonl_io_def usage_json_roundtrip Let_def
      add_usage_def u64_saturating_add_def split: if_splits prod.splits)

theorem usage_delta_recorded_witness:
  "\<exists>s' d'. record_usage_delta (jsonl_io (\<lambda>_ _ _. Inr ()) ''s.jsonl'' 0) (\<lambda>a b. a)
       (default_usage\<lparr>us_total_tokens := 5\<rparr>) empty_store (Map.empty, Map.empty) = Inr (s', d')
     \<and> us_total_tokens (ss_usage_summary s') = min (0 + 5) u64_max"
proof -
  let ?io = "jsonl_io (\<lambda>_ _ _. Inr ()) ''s.jsonl'' 0 :: (_, unit) SessionIo"
  let ?delta = "default_usage\<lparr>us_total_tokens := 5\<rparr>"
  obtain s' d' where run: "record_usage_delta ?io (\<lambda>a b. a) ?delta empty_store (Map.empty, Map.empty) = Inr (s', d')"
    by (simp add: record_usage_delta_def is_empty_delta_def with_lock_def jsonl_io_def Let_def
        read_session_usage_summary_json_def default_usage_def)
  have stored: "io_read_usage ?io (Map.empty, Map.empty) = Inr default_usage"
    by (simp add: jsonl_io_def read_session_usage_summary_json_def)
  have "\<not> is_empty_delta ?delta" by (simp add: is_empty_delta_def)
  then have "us_total_tokens (ss_usage_summary s') = min (us_total_tokens default_usage + us_total_tokens ?delta) u64_max"
    using usage_delta_recorded [OF run stored] by argo
  with run show ?thesis by (intro exI conjI) (assumption, simp add: default_usage_def)
qed

end
