(* ===== verification/Session_Navigation.thy ===== *)
theory Session_Navigation
  imports Session_Store
begin

text \<open>
  Head navigation of \<open>crates/tau-session/src/session_navigation_commands.rs\<close>: the navigation file
  with its undo and redo stacks and the handlers \<open>resolve_session_navigation_head\<close>,
  \<open>navigate_session_head\<close>, \<open>undo_session_head\<close> and \<open>redo_session_head\<close>. The handlers mutate the runtime
  before they save, so a failed save leaves the new head in the runtime; the model returns the
  result, the runtime and the file. A stack is a list whose last element is the top.
\<close>

abbreviation SESSION_NAVIGATION_SCHEMA_VERSION :: nat where "SESSION_NAVIGATION_SCHEMA_VERSION \<equiv> 1"
abbreviation SESSION_NAVIGATION_MAX_STACK_DEPTH :: nat where "SESSION_NAVIGATION_MAX_STACK_DEPTH \<equiv> 256"

type_synonym nav_stack = "nat option list"

record SessionNavigationState =
  nv_schema_version :: nat
  nv_current_head :: "nat option"
  nv_undo_stack :: nav_stack
  nv_redo_stack :: nav_stack

definition default_navigation :: SessionNavigationState where
  "default_navigation = \<lparr>nv_schema_version = SESSION_NAVIGATION_SCHEMA_VERSION, nv_current_head = None,
     nv_undo_stack = [], nv_redo_stack = []\<rparr>"

record SessionNavigationTransition =
  nt_previous_head :: "nat option"
  nt_active_head :: "nat option"
  nt_undo_depth :: nat
  nt_redo_depth :: nat
  nt_skipped_invalid_targets :: nat
  nt_changed :: bool

text \<open>The navigation file: absent, JSON of the state, or text that does not parse.\<close>

datatype NavigationFile = NoNavigation | NavigationJson SessionNavigationState | OtherNavigation

datatype NavigationError =
    NavParse
  | NavUnsupportedSchema nat
  | NavUnknownId nat
  | NavSaveFailed

definition load_session_navigation_state ::
  "NavigationFile \<Rightarrow> NavigationError + SessionNavigationState" where
  "load_session_navigation_state file =
     (case file of
        NoNavigation \<Rightarrow> Inr default_navigation
      | OtherNavigation \<Rightarrow> Inl NavParse
      | NavigationJson parsed \<Rightarrow>
          if nv_schema_version parsed \<noteq> SESSION_NAVIGATION_SCHEMA_VERSION
          then Inl (NavUnsupportedSchema (nv_schema_version parsed)) else Inr parsed)"

text \<open>\<open>save_ok\<close> is whether \<open>write_text_atomic\<close> succeeds.\<close>

definition save_session_navigation_state ::
  "bool \<Rightarrow> SessionNavigationState \<Rightarrow> NavigationError + NavigationFile" where
  "save_session_navigation_state save_ok state =
     (if save_ok then Inr (NavigationJson (state\<lparr>nv_schema_version := SESSION_NAVIGATION_SCHEMA_VERSION\<rparr>))
      else Inl NavSaveFailed)"

definition trim_navigation_stack :: "nav_stack \<Rightarrow> nav_stack" where
  "trim_navigation_stack stack =
     (if length stack \<le> SESSION_NAVIGATION_MAX_STACK_DEPTH then stack
      else drop (length stack - SESSION_NAVIGATION_MAX_STACK_DEPTH) stack)"

definition known_target :: "'v SessionStore \<Rightarrow> nat option \<Rightarrow> bool" where
  "known_target store candidate = (case candidate of Some i \<Rightarrow> store_contains store i | None \<Rightarrow> True)"

definition prune_navigation_stack :: "'v SessionStore \<Rightarrow> nav_stack \<Rightarrow> nav_stack \<times> nat" where
  "prune_navigation_stack store stack =
     (let kept = filter (known_target store) stack in (kept, length stack - length kept))"

definition normalize_runtime_head :: "'v SessionStore \<Rightarrow> nat option \<Rightarrow> nat option" where
  "normalize_runtime_head store head =
     (case head of Some i \<Rightarrow> if store_contains store i then Some i else None | None \<Rightarrow> None)"

definition prune_navigation_state ::
  "'v SessionStore \<Rightarrow> SessionNavigationState \<Rightarrow> SessionNavigationState \<times> nat" where
  "prune_navigation_state store state =
     (let (head, skipped) =
            (case nv_current_head state of
               Some i \<Rightarrow> if \<not> store_contains store i then (None, 1) else (Some i, 0)
             | None \<Rightarrow> (None, 0));
          (undo, u) = prune_navigation_stack store (nv_undo_stack state);
          (redo, r) = prune_navigation_stack store (nv_redo_stack state)
      in (state\<lparr>nv_current_head := head, nv_undo_stack := undo, nv_redo_stack := redo\<rparr>, skipped + u + r))"

definition save_if_changed ::
  "bool \<Rightarrow> nat \<Rightarrow> SessionNavigationState \<Rightarrow> SessionNavigationState \<Rightarrow> NavigationFile
     \<Rightarrow> NavigationError + NavigationFile" where
  "save_if_changed save_ok skipped state original file =
     (if skipped > 0 \<or> state \<noteq> original then save_session_navigation_state save_ok state else Inr file)"

definition resolve_session_navigation_head ::
  "bool \<Rightarrow> 'v SessionStore \<Rightarrow> NavigationFile \<Rightarrow> NavigationError + (nat option \<times> NavigationFile)" where
  "resolve_session_navigation_head save_ok store file =
     and_then (load_session_navigation_state file) (\<lambda>original.
     let (pruned, skipped) = prune_navigation_state store original;
         state = (if nv_current_head pruned = None then pruned\<lparr>nv_current_head := head_id store\<rparr> else pruned)
     in and_then (save_if_changed save_ok skipped state original file) (\<lambda>file'.
          Inr (nv_current_head state, file')))"

text \<open>The common end of the three handlers: set the runtime's head, save, report.\<close>

definition finish_navigation ::
  "bool \<Rightarrow> nat option \<Rightarrow> bool \<Rightarrow> nat \<Rightarrow> SessionNavigationState \<Rightarrow> SessionNavigationState
     \<Rightarrow> 'v SessionRuntime \<Rightarrow> NavigationFile
     \<Rightarrow> (NavigationError + SessionNavigationTransition) \<times> 'v SessionRuntime \<times> NavigationFile" where
  "finish_navigation save_ok previous changed skipped state original runtime file =
     (let runtime' = runtime\<lparr>sr_active_head := nv_current_head state\<rparr> in
      case save_if_changed save_ok skipped state original file of
        Inl err \<Rightarrow> (Inl err, runtime', file)
      | Inr file' \<Rightarrow>
          (Inr \<lparr>nt_previous_head = previous, nt_active_head = sr_active_head runtime',
                nt_undo_depth = length (nv_undo_stack state), nt_redo_depth = length (nv_redo_stack state),
                nt_skipped_invalid_targets = skipped, nt_changed = changed\<rparr>, runtime', file'))"

definition navigate_session_head ::
  "bool \<Rightarrow> nat option \<Rightarrow> 'v SessionRuntime \<Rightarrow> NavigationFile
     \<Rightarrow> (NavigationError + SessionNavigationTransition) \<times> 'v SessionRuntime \<times> NavigationFile" where
  "navigate_session_head save_ok target_head runtime file =
     (if \<not> known_target (sr_store runtime) target_head
      then (Inl (NavUnknownId (the target_head)), runtime, file)
      else case load_session_navigation_state file of
        Inl err \<Rightarrow> (Inl err, runtime, file)
      | Inr original \<Rightarrow>
          (let previous = normalize_runtime_head (sr_store runtime) (sr_active_head runtime);
               (pruned, skipped) = prune_navigation_state (sr_store runtime) original;
               changed = (previous \<noteq> target_head);
               state =
                 (if changed
                  then pruned\<lparr>nv_undo_stack := trim_navigation_stack (nv_undo_stack pruned @ [previous]),
                              nv_redo_stack := [], nv_current_head := target_head\<rparr>
                  else pruned\<lparr>nv_current_head := previous\<rparr>)
           in finish_navigation save_ok previous changed skipped state original runtime file))"

text \<open>\<open>while let Some(candidate) = stack.pop()\<close>: the first known candidate from the top, the rest of
  the stack and the number of candidates skipped.\<close>

fun pop_from_top :: "'v SessionStore \<Rightarrow> nav_stack \<Rightarrow> nat \<Rightarrow> nat option option \<times> nav_stack \<times> nat" where
  "pop_from_top store [] skipped = (None, [], skipped)"
| "pop_from_top store (candidate # rest) skipped =
     (if known_target store candidate then (Some candidate, rest, skipped)
      else pop_from_top store rest (skipped + 1))"

definition pop_known :: "'v SessionStore \<Rightarrow> nav_stack \<Rightarrow> nat \<Rightarrow> nat option option \<times> nav_stack \<times> nat" where
  "pop_known store stack skipped =
     (let (target, rest, n) = pop_from_top store (rev stack) skipped in (target, rev rest, n))"

definition undo_session_head ::
  "bool \<Rightarrow> 'v SessionRuntime \<Rightarrow> NavigationFile
     \<Rightarrow> (NavigationError + SessionNavigationTransition) \<times> 'v SessionRuntime \<times> NavigationFile" where
  "undo_session_head save_ok runtime file =
     (case load_session_navigation_state file of
        Inl err \<Rightarrow> (Inl err, runtime, file)
      | Inr original \<Rightarrow>
          (let previous = normalize_runtime_head (sr_store runtime) (sr_active_head runtime);
               (pruned, skipped) = prune_navigation_state (sr_store runtime) original;
               (target, undo, skipped') = pop_known (sr_store runtime) (nv_undo_stack pruned) skipped
           in case target of
                Some target_head \<Rightarrow>
                  finish_navigation save_ok previous True skipped'
                    (pruned\<lparr>nv_undo_stack := undo,
                            nv_redo_stack := trim_navigation_stack (nv_redo_stack pruned @ [previous]),
                            nv_current_head := target_head\<rparr>) original runtime file
              | None \<Rightarrow>
                  finish_navigation save_ok previous False skipped'
                    (pruned\<lparr>nv_undo_stack := undo, nv_current_head := previous\<rparr>) original runtime file))"

definition redo_session_head ::
  "bool \<Rightarrow> 'v SessionRuntime \<Rightarrow> NavigationFile
     \<Rightarrow> (NavigationError + SessionNavigationTransition) \<times> 'v SessionRuntime \<times> NavigationFile" where
  "redo_session_head save_ok runtime file =
     (case load_session_navigation_state file of
        Inl err \<Rightarrow> (Inl err, runtime, file)
      | Inr original \<Rightarrow>
          (let previous = normalize_runtime_head (sr_store runtime) (sr_active_head runtime);
               (pruned, skipped) = prune_navigation_state (sr_store runtime) original;
               (target, redo, skipped') = pop_known (sr_store runtime) (nv_redo_stack pruned) skipped
           in case target of
                Some target_head \<Rightarrow>
                  finish_navigation save_ok previous True skipped'
                    (pruned\<lparr>nv_redo_stack := redo,
                            nv_undo_stack := trim_navigation_stack (nv_undo_stack pruned @ [previous]),
                            nv_current_head := target_head\<rparr>) original runtime file
              | None \<Rightarrow>
                  finish_navigation save_ok previous False skipped'
                    (pruned\<lparr>nv_redo_stack := redo, nv_current_head := previous\<rparr>) original runtime file))"

subsection \<open>Stacks\<close>

lemma trim_length: "length (trim_navigation_stack s) = min (length s) SESSION_NAVIGATION_MAX_STACK_DEPTH"
  by (simp add: trim_navigation_stack_def)

lemma set_trim: "set (trim_navigation_stack s) \<subseteq> set s"
  by (auto simp: trim_navigation_stack_def dest: in_set_dropD)

text \<open>The top survives a push with trimming.\<close>

lemma trim_push: "\<exists>rest. trim_navigation_stack (s @ [x]) = rest @ [x] \<and> suffix rest s"
  by (cases "length s < 256") (auto simp: trim_navigation_stack_def suffix_def, metis append_take_drop_id)

definition nav_ok :: "'v SessionStore \<Rightarrow> SessionNavigationState \<Rightarrow> bool" where
  "nav_ok store st = (nv_schema_version st = SESSION_NAVIGATION_SCHEMA_VERSION
     \<and> known_target store (nv_current_head st)
     \<and> (\<forall>c \<in> set (nv_undo_stack st) \<union> set (nv_redo_stack st). known_target store c)
     \<and> length (nv_undo_stack st) \<le> SESSION_NAVIGATION_MAX_STACK_DEPTH
     \<and> length (nv_redo_stack st) \<le> SESSION_NAVIGATION_MAX_STACK_DEPTH)"

definition depths_ok :: "SessionNavigationState \<Rightarrow> bool" where
  "depths_ok st = (nv_schema_version st = SESSION_NAVIGATION_SCHEMA_VERSION
     \<and> length (nv_undo_stack st) \<le> SESSION_NAVIGATION_MAX_STACK_DEPTH
     \<and> length (nv_redo_stack st) \<le> SESSION_NAVIGATION_MAX_STACK_DEPTH)"

definition prune_pure :: "'v SessionStore \<Rightarrow> SessionNavigationState \<Rightarrow> SessionNavigationState" where
  "prune_pure store st = st\<lparr>nv_current_head := normalize_runtime_head store (nv_current_head st),
     nv_undo_stack := filter (known_target store) (nv_undo_stack st),
     nv_redo_stack := filter (known_target store) (nv_redo_stack st)\<rparr>"

lemma prune_state_eq: "\<exists>n. prune_navigation_state store st = (prune_pure store st, n)"
  by (auto simp: prune_navigation_state_def prune_pure_def prune_navigation_stack_def Let_def
      normalize_runtime_head_def split: option.split)

lemma prune_state_ok:
  "nav_ok store st \<Longrightarrow> prune_navigation_state store st = (st, 0)"
  by (cases st) (auto simp: prune_navigation_state_def prune_navigation_stack_def Let_def nav_ok_def
      known_target_def filter_id_conv split: option.splits)

lemma normalize_known: "known_target store (normalize_runtime_head store h)"
  by (auto simp: normalize_runtime_head_def known_target_def split: option.split)

lemma normalize_id: "known_target store h \<Longrightarrow> normalize_runtime_head store h = h"
  by (auto simp: normalize_runtime_head_def known_target_def split: option.splits)

lemma pop_known_filter:
  assumes "\<forall>c \<in> set s. known_target store c"
  shows "pop_known store s n = (case rev s of [] \<Rightarrow> (None, [], n) | c # r \<Rightarrow> (Some c, rev r, n))"
  using assms by (cases s rule: rev_cases) (auto simp: pop_known_def)

subsection \<open>What a handler leaves behind\<close>

lemma load_json: "nv_schema_version st = SESSION_NAVIGATION_SCHEMA_VERSION \<Longrightarrow>
  load_session_navigation_state (NavigationJson st) = Inr st"
  by (simp add: load_session_navigation_state_def)

lemma load_version:
  "load_session_navigation_state file = Inr st \<Longrightarrow> nv_schema_version st = SESSION_NAVIGATION_SCHEMA_VERSION"
  by (auto simp: load_session_navigation_state_def default_navigation_def split: NavigationFile.splits if_splits)

lemma finish_saves:
  assumes "load_session_navigation_state file = Inr original"
    and "nv_schema_version st = SESSION_NAVIGATION_SCHEMA_VERSION"
  shows "\<exists>tr file'. finish_navigation True previous changed n st original runtime file
      = (Inr tr, runtime\<lparr>sr_active_head := nv_current_head st\<rparr>, file')
    \<and> load_session_navigation_state file' = Inr st \<and> nt_active_head tr = nv_current_head st
    \<and> nt_changed tr = changed"
  using assms
  by (auto simp: finish_navigation_def Let_def save_if_changed_def save_session_navigation_state_def load_json)

lemma navigate_effect:
  assumes l: "load_session_navigation_state file = Inr original" and t: "known_target (sr_store rt) t"
    and diff: "normalize_runtime_head (sr_store rt) (sr_active_head rt) \<noteq> t"
  defines "h \<equiv> normalize_runtime_head (sr_store rt) (sr_active_head rt)"
    and "p \<equiv> prune_pure (sr_store rt) original"
  shows "\<exists>tr file'. navigate_session_head True t rt file = (Inr tr, rt\<lparr>sr_active_head := t\<rparr>, file')
    \<and> nt_changed tr \<and> load_session_navigation_state file' = Inr
        (p\<lparr>nv_undo_stack := trim_navigation_stack (nv_undo_stack p @ [h]), nv_redo_stack := [], nv_current_head := t\<rparr>)"
proof -
  obtain n where n: "prune_navigation_state (sr_store rt) original = (p, n)"
    using prune_state_eq p_def by blast
  let ?st = "p\<lparr>nv_undo_stack := trim_navigation_stack (nv_undo_stack p @ [h]), nv_redo_stack := [], nv_current_head := t\<rparr>"
  have "nv_schema_version ?st = 1" using load_version [OF l] by (simp add: p_def prune_pure_def)
  from finish_saves [OF l this, of h True n rt] obtain tr file' where
    "finish_navigation True h True n ?st original rt file = (Inr tr, rt\<lparr>sr_active_head := t\<rparr>, file')"
    "load_session_navigation_state file' = Inr ?st" "nt_changed tr" by auto
  with l t diff n show ?thesis by (simp add: navigate_session_head_def h_def)
qed

lemma undo_effect:
  assumes l: "load_session_navigation_state file = Inr st" and ok: "nav_ok (sr_store rt) st"
    and u: "nv_undo_stack st = u @ [t]" and h: "known_target (sr_store rt) (sr_active_head rt)"
  shows "\<exists>tr file'. undo_session_head True rt file = (Inr tr, rt\<lparr>sr_active_head := t\<rparr>, file')
    \<and> nt_changed tr \<and> load_session_navigation_state file' = Inr
        (st\<lparr>nv_undo_stack := u, nv_redo_stack := trim_navigation_stack (nv_redo_stack st @ [sr_active_head rt]),
            nv_current_head := t\<rparr>)"
proof -
  let ?st = "st\<lparr>nv_undo_stack := u, nv_redo_stack := trim_navigation_stack (nv_redo_stack st @ [sr_active_head rt]),
            nv_current_head := t\<rparr>"
  have "nv_schema_version ?st = 1" using load_version [OF l] by simp
  from finish_saves [OF l this, of "sr_active_head rt" True 0 rt] obtain tr file' where
    "finish_navigation True (sr_active_head rt) True 0 ?st st rt file = (Inr tr, rt\<lparr>sr_active_head := t\<rparr>, file')"
    "load_session_navigation_state file' = Inr ?st" "nt_changed tr" by auto
  moreover have "pop_known (sr_store rt) (u @ [t]) 0 = (Some t, u, 0)"
    using ok u by (subst pop_known_filter) (auto simp: nav_ok_def)
  ultimately show ?thesis
    using l u by (simp add: undo_session_head_def prune_state_ok [OF ok] normalize_id [OF h])
qed

lemma redo_effect:
  assumes l: "load_session_navigation_state file = Inr st" and ok: "nav_ok (sr_store rt) st"
    and u: "nv_redo_stack st = u @ [t]" and h: "known_target (sr_store rt) (sr_active_head rt)"
  shows "\<exists>tr file'. redo_session_head True rt file = (Inr tr, rt\<lparr>sr_active_head := t\<rparr>, file')
    \<and> nt_changed tr \<and> load_session_navigation_state file' = Inr
        (st\<lparr>nv_redo_stack := u, nv_undo_stack := trim_navigation_stack (nv_undo_stack st @ [sr_active_head rt]),
            nv_current_head := t\<rparr>)"
proof -
  let ?st = "st\<lparr>nv_redo_stack := u, nv_undo_stack := trim_navigation_stack (nv_undo_stack st @ [sr_active_head rt]),
            nv_current_head := t\<rparr>"
  have "nv_schema_version ?st = 1" using load_version [OF l] by simp
  from finish_saves [OF l this, of "sr_active_head rt" True 0 rt] obtain tr file' where
    "finish_navigation True (sr_active_head rt) True 0 ?st st rt file = (Inr tr, rt\<lparr>sr_active_head := t\<rparr>, file')"
    "load_session_navigation_state file' = Inr ?st" "nt_changed tr" by auto
  moreover have "pop_known (sr_store rt) (u @ [t]) 0 = (Some t, u, 0)"
    using ok u by (subst pop_known_filter) (auto simp: nav_ok_def)
  ultimately show ?thesis
    using l u by (simp add: redo_session_head_def prune_state_ok [OF ok] normalize_id [OF h])
qed

subsection \<open>The invariant\<close>

datatype NavOp = Navigate "nat option" | Undo | Redo

fun run_nav ::
  "bool \<Rightarrow> NavOp \<Rightarrow> 'v SessionRuntime \<Rightarrow> NavigationFile
     \<Rightarrow> (NavigationError + SessionNavigationTransition) \<times> 'v SessionRuntime \<times> NavigationFile" where
  "run_nav save_ok (Navigate t) rt file = navigate_session_head save_ok t rt file"
| "run_nav save_ok Undo rt file = undo_session_head save_ok rt file"
| "run_nav save_ok Redo rt file = redo_session_head save_ok rt file"

lemma finish_result:
  assumes "finish_navigation save_ok previous changed n st original rt file = (Inr tr, rt', file')"
    and "load_session_navigation_state file = Inr original" "nv_schema_version st = SESSION_NAVIGATION_SCHEMA_VERSION"
  shows "rt' = rt\<lparr>sr_active_head := nv_current_head st\<rparr> \<and> load_session_navigation_state file' = Inr st"
  using assms
  by (auto simp: finish_navigation_def Let_def save_if_changed_def save_session_navigation_state_def
      load_json split: if_splits)

lemma prune_pure_ok: "depths_ok st \<Longrightarrow> nav_ok store (prune_pure store st)"
  by (auto simp: depths_ok_def nav_ok_def prune_pure_def normalize_known
      intro: order.trans [OF length_filter_le])

lemma nav_ok_push:
  assumes "nav_ok store st" "known_target store h" "known_target store t"
  shows "set u \<subseteq> set (nv_undo_stack st) \<Longrightarrow> length u \<le> 256 \<Longrightarrow>
      nav_ok store (st\<lparr>nv_undo_stack := u,
        nv_redo_stack := trim_navigation_stack (nv_redo_stack st @ [h]), nv_current_head := t\<rparr>)"
    and "set u \<subseteq> set (nv_redo_stack st) \<Longrightarrow> length u \<le> 256 \<Longrightarrow>
      nav_ok store (st\<lparr>nv_redo_stack := u,
        nv_undo_stack := trim_navigation_stack (nv_undo_stack st @ [h]), nv_current_head := t\<rparr>)"
  using assms set_trim [of "nv_redo_stack st @ [h]"] set_trim [of "nv_undo_stack st @ [h]"]
  by (auto simp: nav_ok_def trim_length)

lemma pop_of_ok:
  assumes "\<forall>c \<in> set s. known_target store c" "length s \<le> 256" "pop_known store s n = (target, rest, n')"
  shows "set rest \<subseteq> set s \<and> length rest \<le> 256 \<and> n' = n \<and> (\<forall>t. target = Some t \<longrightarrow> t \<in> set s)"
  using assms by (cases s rule: rev_cases) (auto simp: pop_known_filter)

lemma run_nav_inv:
  assumes run: "run_nav save_ok op rt file = (Inr tr, rt', file')"
    and l: "load_session_navigation_state file = Inr st" and d: "depths_ok st"
  shows "\<exists>st'. load_session_navigation_state file' = Inr st' \<and> nav_ok (sr_store rt) st'
    \<and> rt' = rt\<lparr>sr_active_head := nv_current_head st'\<rparr>"
proof -
  let ?store = "sr_store rt" and ?h = "normalize_runtime_head (sr_store rt) (sr_active_head rt)"
  let ?p = "prune_pure ?store st"
  obtain n where n: "prune_navigation_state ?store st = (?p, n)" using prune_state_eq by blast
  have p: "nav_ok ?store ?p" using prune_pure_ok [OF d] .
  have h: "known_target ?store ?h" by (rule normalize_known)
  have stay: "nav_ok ?store (?p\<lparr>nv_current_head := ?h\<rparr>)" using p h by (simp add: nav_ok_def)
  have "\<exists>ch st' m. nav_ok ?store st' \<and>
      finish_navigation save_ok ?h ch m st' st rt file = (Inr tr, rt', file')"
  proof (cases op)
    case (Navigate t)
    then have "known_target ?store t" using run by (auto simp: navigate_session_head_def split: if_splits)
    moreover from this have "nav_ok ?store (?p\<lparr>nv_undo_stack := trim_navigation_stack (nv_undo_stack ?p @ [?h]),
        nv_redo_stack := [], nv_current_head := t\<rparr>)"
      using nav_ok_push(2) [OF p h, of t "[]"] by (simp add: nav_ok_def)
    ultimately show ?thesis
      using run Navigate l n stay by (cases "?h = t") (auto simp: navigate_session_head_def Let_def)
  next
    case Undo
    obtain target rest m where pop: "pop_known ?store (nv_undo_stack ?p) n = (target, rest, m)"
      by (cases "pop_known ?store (nv_undo_stack ?p) n")
    have r: "set rest \<subseteq> set (nv_undo_stack ?p)" "length rest \<le> 256" "\<forall>t. target = Some t \<longrightarrow> known_target ?store t"
      using pop_of_ok [OF _ _ pop] p by (auto simp: nav_ok_def)
    have "nav_ok ?store (?p\<lparr>nv_undo_stack := rest, nv_current_head := ?h\<rparr>)"
      using p h r(1,2) by (auto simp: nav_ok_def)
    then show ?thesis using run Undo l n pop r nav_ok_push(1) [OF p h _ r(1,2)]
      by (cases target) (auto simp: undo_session_head_def Let_def)
  next
    case Redo
    obtain target rest m where pop: "pop_known ?store (nv_redo_stack ?p) n = (target, rest, m)"
      by (cases "pop_known ?store (nv_redo_stack ?p) n")
    have r: "set rest \<subseteq> set (nv_redo_stack ?p)" "length rest \<le> 256" "\<forall>t. target = Some t \<longrightarrow> known_target ?store t"
      using pop_of_ok [OF _ _ pop] p by (auto simp: nav_ok_def)
    have "nav_ok ?store (?p\<lparr>nv_redo_stack := rest, nv_current_head := ?h\<rparr>)"
      using p h r(1,2) by (auto simp: nav_ok_def)
    then show ?thesis using run Redo l n pop r nav_ok_push(2) [OF p h _ r(1,2)]
      by (cases target) (auto simp: redo_session_head_def Let_def)
  qed
  then obtain ch st' m where st': "nav_ok ?store st'"
    "finish_navigation save_ok ?h ch m st' st rt file = (Inr tr, rt', file')" by blast
  moreover have "nv_schema_version st' = 1" using st'(1) by (simp add: nav_ok_def)
  ultimately show ?thesis using finish_result [OF st'(2) l] by blast
qed

subsection \<open>Properties\<close>

text \<open>After any successful navigate, undo or redo the navigation file loads, both stacks are
  within their limit of 256 and every head they hold, and the active head of the runtime, is a
  known entry or the empty head; the runtime's head is the one in the file.\<close>

theorem navigation_invariant:
  assumes "run_nav save_ok op rt file = (Inr tr, rt', file')"
    and "load_session_navigation_state file = Inr st" and "depths_ok st"
  shows "\<exists>st'. load_session_navigation_state file' = Inr st' \<and> nav_ok (sr_store rt) st'
    \<and> rt' = rt\<lparr>sr_active_head := nv_current_head st'\<rparr>"
  using assms by (rule run_nav_inv)

definition sample_runtime :: "unit SessionRuntime" where
  "sample_runtime = \<lparr>sr_store = empty_store\<lparr>ss_entries := sample_session\<rparr>, sr_active_head = Some 2\<rparr>"

lemma sample_runtime_contains: "store_contains (sr_store sample_runtime) i \<longleftrightarrow> i \<in> {1, 2, 3}"
  by (auto simp: sample_runtime_def store_contains_def sample_session_def)

theorem navigation_invariant_witness:
  "\<exists>tr rt' file' st'. run_nav True (Navigate (Some 3)) sample_runtime NoNavigation = (Inr tr, rt', file')
    \<and> load_session_navigation_state file' = Inr st' \<and> nav_ok (sr_store sample_runtime) st'
    \<and> rt' = sample_runtime\<lparr>sr_active_head := nv_current_head st'\<rparr>"
proof -
  have l: "load_session_navigation_state NoNavigation = Inr default_navigation"
    by (simp add: load_session_navigation_state_def)
  have h: "sr_active_head sample_runtime = Some 2" by (simp add: sample_runtime_def)
  obtain tr rt' file' where run: "run_nav True (Navigate (Some 3)) sample_runtime NoNavigation = (Inr tr, rt', file')"
    using navigate_effect [OF l, of sample_runtime "Some 3"] h
    by (auto simp: known_target_def sample_runtime_contains normalize_runtime_head_def)
  moreover have "depths_ok default_navigation" by (simp add: depths_ok_def default_navigation_def)
  ultimately show ?thesis using navigation_invariant [OF run l] by blast
qed

text \<open>C19. Undo after a navigation that changed the head returns to the head before it, and redo then
  returns to the target with the navigation file as the navigation left it.\<close>

theorem navigate_undo_redo:
  assumes "load_session_navigation_state file = Inr st" and "depths_ok st"
    and "known_target (sr_store rt) h" "known_target (sr_store rt) t" "h \<noteq> t" "sr_active_head rt = h"
  shows "\<exists>tr1 f1 tr2 f2 tr3 f3.
    navigate_session_head True t rt file = (Inr tr1, rt\<lparr>sr_active_head := t\<rparr>, f1)
    \<and> undo_session_head True (rt\<lparr>sr_active_head := t\<rparr>) f1 = (Inr tr2, rt\<lparr>sr_active_head := h\<rparr>, f2)
    \<and> redo_session_head True (rt\<lparr>sr_active_head := h\<rparr>) f2 = (Inr tr3, rt\<lparr>sr_active_head := t\<rparr>, f3)
    \<and> load_session_navigation_state f3 = load_session_navigation_state f1"
proof -
  let ?store = "sr_store rt" and ?p = "prune_pure (sr_store rt) st"
  have p: "nav_ok ?store ?p" using prune_pure_ok [OF assms(2)] .
  obtain rest where rest: "trim_navigation_stack (nv_undo_stack ?p @ [h]) = rest @ [h]"
    using trim_push by blast
  have len: "length rest < 256" using trim_length [of "nv_undo_stack ?p @ [h]"] unfolding rest by auto
  let ?st1 = "?p\<lparr>nv_undo_stack := rest @ [h], nv_redo_stack := [], nv_current_head := t\<rparr>"
  have ok1: "nav_ok ?store ?st1"
    using nav_ok_push(2) [OF p assms(3,4), of "[]"] unfolding rest by (simp add: nav_ok_def)
  obtain tr1 f1 where 1: "navigate_session_head True t rt file = (Inr tr1, rt\<lparr>sr_active_head := t\<rparr>, f1)"
    "load_session_navigation_state f1 = Inr ?st1"
    using navigate_effect [OF assms(1,4)] assms(3,5,6) rest by (auto simp: normalize_id)
  let ?rt1 = "rt\<lparr>sr_active_head := t\<rparr>"
  let ?st2 = "?p\<lparr>nv_undo_stack := rest, nv_redo_stack := [t], nv_current_head := h\<rparr>"
  obtain tr2 f2 where 2: "undo_session_head True ?rt1 f1 = (Inr tr2, ?rt1\<lparr>sr_active_head := h\<rparr>, f2)"
    "load_session_navigation_state f2 = Inr ?st2"
    using undo_effect [OF 1(2), of ?rt1 rest h] ok1 assms(4) by (auto simp: trim_navigation_stack_def)
  let ?rt2 = "rt\<lparr>sr_active_head := h\<rparr>"
  have ok2: "nav_ok ?store ?st2" using ok1 assms(3,4) len by (auto simp: nav_ok_def)
  have "trim_navigation_stack (rest @ [h]) = rest @ [h]" using len by (simp add: trim_navigation_stack_def)
  then obtain tr3 f3 where 3: "redo_session_head True ?rt2 f2 = (Inr tr3, ?rt2\<lparr>sr_active_head := t\<rparr>, f3)"
    "load_session_navigation_state f3 = Inr ?st1"
    using redo_effect [OF 2(2), of ?rt2 "[]" t] ok2 assms(3) by auto
  from 1 2 3 show ?thesis by auto
qed

theorem navigate_undo_redo_witness:
  "\<exists>tr1 f1 tr2 f2 tr3 f3.
    navigate_session_head True (Some 3) sample_runtime NoNavigation
      = (Inr tr1, sample_runtime\<lparr>sr_active_head := Some 3\<rparr>, f1)
    \<and> undo_session_head True (sample_runtime\<lparr>sr_active_head := Some 3\<rparr>) f1
      = (Inr tr2, sample_runtime\<lparr>sr_active_head := Some 2\<rparr>, f2)
    \<and> redo_session_head True (sample_runtime\<lparr>sr_active_head := Some 2\<rparr>) f2
      = (Inr tr3, sample_runtime\<lparr>sr_active_head := Some 3\<rparr>, f3)
    \<and> load_session_navigation_state f3 = load_session_navigation_state f1"
  by (rule navigate_undo_redo [where st = default_navigation])
    (simp_all add: load_session_navigation_state_def depths_ok_def default_navigation_def known_target_def
      sample_runtime_contains, simp add: sample_runtime_def)

end
