(* ===== verification/Session_Lock.thy ===== *)
theory Session_Lock
  imports Prelude
begin

text \<open>
  The lock file of \<open>crates/tau-session/src/session_locking.rs\<close>: \<open>acquire_lock\<close>, \<open>reclaim_stale_lock\<close>
  and the guard's \<open>drop\<close>, as an interleaving of the file operations of several processes. Each
  process runs the loop of \<open>acquire_lock\<close>; one step is one file operation of one process, and time
  passes between steps. Without reclamation (\<open>stale_after\<close> zero) at most one process holds the lock;
  with reclamation two can, because the age check and the removal are separate operations.
\<close>

text \<open>Where a process is in \<open>acquire_lock\<close>: about to open the file, inside \<open>reclaim_stale_lock\<close> with
  the age check passed, about to compare the elapsed time, sleeping before the next turn, holding
  the guard, finished with an error, or killed while it held the guard.\<close>

datatype LockPhase =
    Opening | Reclaiming | CheckingTimeout | Sleeping | Holding | Released | TimedOut | Crashed

record LockPolicy =
  lp_timeout :: nat
  lp_stale_after :: nat

text \<open>\<open>lw_file\<close> is the modification time of the lock file (\<open>None\<close>: no file).\<close>

record LockWorld =
  lw_now :: nat
  lw_file :: "nat option"
  lw_phase :: "nat \<Rightarrow> LockPhase"
  lw_start :: "nat \<Rightarrow> nat"

text \<open>\<open>create_new(true).open(path)\<close>; on \<open>AlreadyExists\<close> the loop tries to reclaim.\<close>

definition open_lock_file :: "LockPolicy \<Rightarrow> nat \<Rightarrow> LockWorld \<Rightarrow> LockWorld" where
  "open_lock_file pol p w =
     (case lw_file w of
        None \<Rightarrow> w\<lparr>lw_file := Some (lw_now w), lw_phase := (lw_phase w)(p := Holding)\<rparr>
      | Some modified \<Rightarrow>
          if lp_stale_after pol > 0 \<and> lp_stale_after pol \<le> lw_now w - modified
          then w\<lparr>lw_phase := (lw_phase w)(p := Reclaiming)\<rparr>
          else w\<lparr>lw_phase := (lw_phase w)(p := CheckingTimeout)\<rparr>)"

text \<open>\<open>fs::remove_file(path).is_ok()\<close> after the age check: on success the loop continues, otherwise
  the elapsed time is compared.\<close>

definition remove_stale_file :: "nat \<Rightarrow> LockWorld \<Rightarrow> LockWorld" where
  "remove_stale_file p w =
     (case lw_file w of
        Some _ \<Rightarrow> w\<lparr>lw_file := None, lw_phase := (lw_phase w)(p := Opening)\<rparr>
      | None \<Rightarrow> w\<lparr>lw_phase := (lw_phase w)(p := CheckingTimeout)\<rparr>)"

definition check_timeout :: "LockPolicy \<Rightarrow> nat \<Rightarrow> LockWorld \<Rightarrow> LockWorld" where
  "check_timeout pol p w =
     (if lp_timeout pol \<le> lw_now w - lw_start w p
      then w\<lparr>lw_phase := (lw_phase w)(p := TimedOut)\<rparr>
      else w\<lparr>lw_phase := (lw_phase w)(p := Sleeping)\<rparr>)"

text \<open>\<open>LockGuard::drop\<close>.\<close>

definition drop_guard :: "nat \<Rightarrow> LockWorld \<Rightarrow> LockWorld" where
  "drop_guard p w = w\<lparr>lw_file := None, lw_phase := (lw_phase w)(p := Released)\<rparr>"

text \<open>A process that is killed leaves its lock file behind.\<close>

definition crash :: "nat \<Rightarrow> LockWorld \<Rightarrow> LockWorld" where
  "crash p w = w\<lparr>lw_phase := (lw_phase w)(p := Crashed)\<rparr>"

definition pass_time :: "LockWorld \<Rightarrow> LockWorld" where
  "pass_time w = w\<lparr>lw_now := lw_now w + 1\<rparr>"

inductive lock_step :: "LockPolicy \<Rightarrow> LockWorld \<Rightarrow> LockWorld \<Rightarrow> bool" for pol where
  step_open: "lw_phase w p = Opening \<Longrightarrow> lock_step pol w (open_lock_file pol p w)"
| step_remove: "lw_phase w p = Reclaiming \<Longrightarrow> lock_step pol w (remove_stale_file p w)"
| step_timeout: "lw_phase w p = CheckingTimeout \<Longrightarrow> lock_step pol w (check_timeout pol p w)"
| step_wake: "lw_phase w p = Sleeping \<Longrightarrow> lock_step pol w (w\<lparr>lw_phase := (lw_phase w)(p := Opening)\<rparr>)"
| step_drop: "lw_phase w p = Holding \<Longrightarrow> lock_step pol w (drop_guard p w)"
| step_crash: "lw_phase w p = Holding \<Longrightarrow> lock_step pol w (crash p w)"
| step_time: "lock_step pol w (pass_time w)"

inductive_cases lock_stepE: "lock_step pol w w'"

definition lock_start :: "LockWorld \<Rightarrow> bool" where
  "lock_start w = (lw_file w = None \<and> (\<forall>p. lw_phase w p = Opening))"

inductive lock_reachable :: "LockPolicy \<Rightarrow> LockWorld \<Rightarrow> LockWorld \<Rightarrow> bool" for pol w0 where
  reach_start: "lock_reachable pol w0 w0"
| reach_step: "lock_reachable pol w0 w \<Longrightarrow> lock_step pol w w' \<Longrightarrow> lock_reachable pol w0 w'"

definition mutual_exclusion :: "LockWorld \<Rightarrow> bool" where
  "mutual_exclusion w = (\<forall>p q. lw_phase w p = Holding \<longrightarrow> lw_phase w q = Holding \<longrightarrow> p = q)"

subsection \<open>The invariant without reclamation\<close>

definition lock_inv :: "LockWorld \<Rightarrow> bool" where
  "lock_inv w = (mutual_exclusion w
     \<and> (\<forall>p. lw_phase w p = Holding \<longrightarrow> lw_file w \<noteq> None)
     \<and> (\<forall>p. lw_phase w p \<noteq> Reclaiming))"

lemmas lock_defs = open_lock_file_def remove_stale_file_def check_timeout_def drop_guard_def
  crash_def pass_time_def

lemma lock_step_inv:
  assumes "lp_stale_after pol = 0" "lock_inv w" "lock_step pol w w'"
  shows "lock_inv w'"
  using assms(3,1,2)
  by (cases rule: lock_step.cases)
    (auto simp: lock_inv_def mutual_exclusion_def lock_defs split: option.splits if_splits)

lemma lock_reachable_inv:
  assumes "lp_stale_after pol = 0" "lock_start w0" "lock_reachable pol w0 w"
  shows "lock_inv w"
  using assms(3)
proof (induction rule: lock_reachable.induct)
  case reach_start
  then show ?case using assms(2) by (simp add: lock_start_def lock_inv_def mutual_exclusion_def)
next
  case (reach_step w w')
  then show ?case using lock_step_inv [OF assms(1)] by blast
qed

subsection \<open>Progress\<close>

text \<open>A waiting process whose timeout has passed fails at its next check; an opening process that
  finds no file takes the lock.\<close>

lemma open_free_lock:
  "lw_file w = None \<Longrightarrow> lw_phase (open_lock_file pol p w) p = Holding
     \<and> lw_file (open_lock_file pol p w) = Some (lw_now w)"
  by (simp add: open_lock_file_def)

subsection \<open>Properties\<close>

text \<open>With stale-lock reclamation off, at most one process holds the session lock in every
  reachable state, and the lock file exists while it is held.\<close>

theorem lock_excludes_without_reclaim:
  assumes "lp_stale_after pol = 0" and "lock_start w0" and "lock_reachable pol w0 w"
  shows "mutual_exclusion w \<and> (lw_phase w p = Holding \<longrightarrow> lw_file w \<noteq> None)"
  using lock_reachable_inv [OF assms] by (auto simp: lock_inv_def)

definition sample_world :: LockWorld where
  "sample_world = \<lparr>lw_now = 0, lw_file = None, lw_phase = (\<lambda>p. Opening), lw_start = (\<lambda>p. 0)\<rparr>"

theorem lock_excludes_without_reclaim_witness:
  "mutual_exclusion (open_lock_file \<lparr>lp_timeout = 5, lp_stale_after = 0\<rparr> 7 sample_world)
    \<and> lw_file (open_lock_file \<lparr>lp_timeout = 5, lp_stale_after = 0\<rparr> 7 sample_world) \<noteq> None"
proof -
  let ?pol = "\<lparr>lp_timeout = 5, lp_stale_after = 0\<rparr> :: LockPolicy"
  have "lock_reachable ?pol sample_world (open_lock_file ?pol 7 sample_world)"
    by (rule reach_step [OF reach_start], rule step_open) (simp add: sample_world_def)
  moreover have "lock_start sample_world" by (simp add: lock_start_def sample_world_def)
  moreover have "lw_phase (open_lock_file ?pol 7 sample_world) 7 = Holding"
    by (simp add: sample_world_def open_lock_file_def)
  ultimately show ?thesis using lock_excludes_without_reclaim [of ?pol sample_world _ 7] by simp
qed

text \<open>With reclamation on, mutual exclusion fails although no live holder is ever too slow: after a
  holder was killed, two processes can both pass the age check of its old lock file before either
  removes it; the second removal then deletes the lock the first one has taken, and both hold it.\<close>

theorem stale_reclaim_breaks_exclusion:
  "\<exists>w. lock_reachable \<lparr>lp_timeout = 9, lp_stale_after = 1\<rparr> sample_world w
     \<and> lw_phase w 0 = Crashed \<and> \<not> mutual_exclusion w"
proof -
  let ?pol = "\<lparr>lp_timeout = 9, lp_stale_after = 1\<rparr> :: LockPolicy"
  define w1 where "w1 = open_lock_file ?pol 0 sample_world"
  define w2 where "w2 = pass_time (crash 0 w1)"
  define w3 where "w3 = open_lock_file ?pol 2 (open_lock_file ?pol 1 w2)"
  define w4 where "w4 = open_lock_file ?pol 1 (remove_stale_file 1 w3)"
  define w5 where "w5 = open_lock_file ?pol 2 (remove_stale_file 2 w4)"
  note w_defs = w1_def w2_def w3_def w4_def w5_def lock_defs sample_world_def
  have "lock_reachable ?pol sample_world w1"
    unfolding w1_def by (rule reach_step [OF reach_start], rule step_open) (simp add: w_defs)
  then have "lock_reachable ?pol sample_world w2" unfolding w2_def
    by (rule reach_step [OF reach_step, OF _ step_crash step_time]) (simp add: w_defs)
  then have "lock_reachable ?pol sample_world w3" unfolding w3_def
    by (rule reach_step [OF reach_step, OF _ step_open step_open]) (simp_all add: w_defs)
  then have "lock_reachable ?pol sample_world w4" unfolding w4_def
    by (rule reach_step [OF reach_step, OF _ step_remove step_open]) (simp_all add: w_defs)
  then have "lock_reachable ?pol sample_world w5" unfolding w5_def
    by (rule reach_step [OF reach_step, OF _ step_remove step_open]) (simp_all add: w_defs)
  moreover have "lw_phase w5 0 = Crashed" "lw_phase w5 1 = Holding" "lw_phase w5 2 = Holding"
    by (simp_all add: w_defs)
  ultimately show ?thesis unfolding mutual_exclusion_def by (metis zero_neq_one numeral_One numeral_eq_iff semiring_norm(85))
qed

end
