(* ===== verification/Training_Types.thy ===== *)
theory Training_Types
  imports Rust_Text
begin

text \<open>
  The data of the training pipeline (\<open>crates/tau-training-types/src/lib.rs\<close>, lines 1 to 420 and the
  query and worker types at its end): rollout and attempt status machines, rollouts, attempts,
  spans, resources and workers. JSON values are a type parameter, times are nanoseconds as integers.
  The status graphs are analysed once here: which statuses can still change, and which can be
  reached.
\<close>

datatype RolloutStatus =
    RolloutQueuing | RolloutPreparing | RolloutRunning | RolloutFailed | RolloutSucceeded
  | RolloutCancelled | RolloutRequeuing

datatype AttemptStatus =
    AttemptPreparing | AttemptRunning | AttemptFailed | AttemptSucceeded | AttemptUnresponsive
  | AttemptTimeout

subsection \<open>Status machines\<close>

definition rollout_edges :: "(RolloutStatus \<times> RolloutStatus) list" where
  "rollout_edges =
     [(RolloutQueuing, RolloutPreparing),
      (RolloutQueuing, RolloutRunning),
      (RolloutQueuing, RolloutCancelled),
      (RolloutQueuing, RolloutRequeuing),
      (RolloutPreparing, RolloutRunning),
      (RolloutPreparing, RolloutFailed),
      (RolloutPreparing, RolloutCancelled),
      (RolloutPreparing, RolloutRequeuing),
      (RolloutRunning, RolloutSucceeded),
      (RolloutRunning, RolloutFailed),
      (RolloutRunning, RolloutCancelled),
      (RolloutRunning, RolloutRequeuing),
      (RolloutFailed, RolloutRequeuing),
      (RolloutFailed, RolloutCancelled),
      (RolloutRequeuing, RolloutPreparing),
      (RolloutRequeuing, RolloutRunning),
      (RolloutRequeuing, RolloutCancelled)]"

definition rollout_can_transition_to :: "RolloutStatus \<Rightarrow> RolloutStatus \<Rightarrow> bool" where
  "rollout_can_transition_to s next = (s = next \<or> (s, next) \<in> set rollout_edges)"

definition rollout_is_terminal :: "RolloutStatus \<Rightarrow> bool" where
  "rollout_is_terminal s = (s \<in> {RolloutFailed, RolloutSucceeded, RolloutCancelled})"

definition attempt_edges :: "(AttemptStatus \<times> AttemptStatus) list" where
  "attempt_edges =
     [(AttemptPreparing, AttemptRunning),
      (AttemptPreparing, AttemptFailed),
      (AttemptPreparing, AttemptSucceeded),
      (AttemptPreparing, AttemptTimeout),
      (AttemptPreparing, AttemptUnresponsive),
      (AttemptRunning, AttemptFailed),
      (AttemptRunning, AttemptSucceeded),
      (AttemptRunning, AttemptTimeout),
      (AttemptRunning, AttemptUnresponsive)]"

definition attempt_can_transition_to :: "AttemptStatus \<Rightarrow> AttemptStatus \<Rightarrow> bool" where
  "attempt_can_transition_to s next = (s = next \<or> (s, next) \<in> set attempt_edges)"

definition attempt_is_terminal :: "AttemptStatus \<Rightarrow> bool" where
  "attempt_is_terminal s =
     (s \<in> {AttemptFailed, AttemptSucceeded, AttemptUnresponsive, AttemptTimeout})"

datatype StatusTransitionError =
    InvalidRolloutStatus RolloutStatus RolloutStatus
  | InvalidAttemptStatus AttemptStatus AttemptStatus

definition rollout_ensure_transition :: "RolloutStatus \<Rightarrow> RolloutStatus \<Rightarrow> StatusTransitionError + unit" where
  "rollout_ensure_transition s next =
     (if rollout_can_transition_to s next then Inr () else Inl (InvalidRolloutStatus s next))"

definition attempt_ensure_transition :: "AttemptStatus \<Rightarrow> AttemptStatus \<Rightarrow> StatusTransitionError + unit" where
  "attempt_ensure_transition s next =
     (if attempt_can_transition_to s next then Inr () else Inl (InvalidAttemptStatus s next))"

subsection \<open>Records\<close>

datatype RolloutMode = Train | Val | Test

record 'v RolloutConfig =
  rc_max_attempts :: nat
  rc_metadata :: "(string, 'v) hash_map"

definition default_rollout_config :: "'v RolloutConfig" where
  "default_rollout_config = \<lparr>rc_max_attempts = 1, rc_metadata = []\<rparr>"

record 'v Rollout =
  ro_rollout_id :: string
  ro_input :: 'v
  ro_start_time :: "int option"
  ro_end_time :: "int option"
  ro_mode :: "RolloutMode option"
  ro_status :: RolloutStatus
  ro_config :: "'v RolloutConfig"
  ro_metadata :: "(string, 'v) hash_map"
  ro_assigned_worker_id :: "string option"
  ro_attempt_count :: nat

definition rollout_new :: "string \<Rightarrow> 'v \<Rightarrow> RolloutMode option \<Rightarrow> 'v Rollout" where
  "rollout_new rid input mode =
     \<lparr>ro_rollout_id = rid, ro_input = input, ro_start_time = None, ro_end_time = None, ro_mode = mode,
      ro_status = RolloutQueuing, ro_config = default_rollout_config, ro_metadata = [],
      ro_assigned_worker_id = None, ro_attempt_count = 0\<rparr>"

record Attempt =
  at_attempt_id :: string
  at_rollout_id :: string
  at_sequence_id :: nat
  at_worker_id :: string
  at_status :: AttemptStatus
  at_started_at :: int
  at_last_heartbeat_at :: int
  at_ended_at :: "int option"
  at_error_message :: "string option"

definition attempt_new :: "string \<Rightarrow> string \<Rightarrow> nat \<Rightarrow> string \<Rightarrow> int \<Rightarrow> Attempt" where
  "attempt_new aid rid seq wid now =
     \<lparr>at_attempt_id = aid, at_rollout_id = rid, at_sequence_id = seq, at_worker_id = wid,
      at_status = AttemptPreparing, at_started_at = now, at_last_heartbeat_at = now,
      at_ended_at = None, at_error_message = None\<rparr>"

record 'v SpanEvent =
  ev_name :: string
  ev_timestamp :: int
  ev_attributes :: "(string, 'v) hash_map"

record 'v TrainingSpan =
  sp_rollout_id :: string
  sp_attempt_id :: string
  sp_sequence_id :: nat
  sp_trace_id :: string
  sp_span_id :: string
  sp_parent_id :: "string option"
  sp_name :: string
  sp_attributes :: "(string, 'v) hash_map"
  sp_events :: "'v SpanEvent list"
  sp_start_time :: int
  sp_end_time :: "int option"

definition span_new ::
  "string \<Rightarrow> string \<Rightarrow> nat \<Rightarrow> string \<Rightarrow> string \<Rightarrow> string option \<Rightarrow> string \<Rightarrow> int \<Rightarrow> 'v TrainingSpan" where
  "span_new rid aid seq trace span parent name now =
     \<lparr>sp_rollout_id = rid, sp_attempt_id = aid, sp_sequence_id = seq, sp_trace_id = trace,
      sp_span_id = span, sp_parent_id = parent, sp_name = name, sp_attributes = [], sp_events = [],
      sp_start_time = now, sp_end_time = None\<rparr>"

record 'v ResourcesUpdate =
  ru_resources_id :: string
  ru_version :: nat
  ru_resources :: "(string, 'v) hash_map"
  ru_created_time :: int
  ru_is_latest :: bool

record RolloutQuery =
  rq_statuses :: "RolloutStatus list option"
  rq_mode :: "RolloutMode option"
  rq_ids :: "string list option"
  rq_limit :: "nat option"
  rq_offset :: nat

record WorkerState =
  wk_worker_id :: string
  wk_registered_at :: int
  wk_last_heartbeat_at :: int
  wk_active_rollout_id :: "string option"
  wk_active_attempt_id :: "string option"

subsection \<open>The status graphs\<close>

lemma rollout_can_refl [simp]: "rollout_can_transition_to s s"
  by (simp add: rollout_can_transition_to_def)

lemma attempt_can_refl [simp]: "attempt_can_transition_to s s"
  by (simp add: attempt_can_transition_to_def)

lemma attempt_terminal_stuck:
  "attempt_is_terminal s \<Longrightarrow> attempt_can_transition_to s t \<Longrightarrow> t = s"
  by (auto simp: attempt_is_terminal_def attempt_can_transition_to_def attempt_edges_def)

lemma rollout_final_stuck:
  "s \<in> {RolloutSucceeded, RolloutCancelled} \<Longrightarrow> rollout_can_transition_to s t \<Longrightarrow> t = s"
  by (auto simp: rollout_can_transition_to_def rollout_edges_def)

lemma rollout_queuing_source: "rollout_can_transition_to s RolloutQueuing \<Longrightarrow> s = RolloutQueuing"
  by (auto simp: rollout_can_transition_to_def rollout_edges_def)

lemma rollout_requeue_sources:
  "rollout_can_transition_to s RolloutRequeuing \<longleftrightarrow> s \<notin> {RolloutSucceeded, RolloutCancelled}"
  by (cases s) (auto simp: rollout_can_transition_to_def rollout_edges_def)

lemma rollout_run_sources:
  "s \<in> {RolloutQueuing, RolloutRequeuing} \<Longrightarrow> rollout_can_transition_to s RolloutRunning"
  by (auto simp: rollout_can_transition_to_def rollout_edges_def)

text \<open>A path of the status graph.\<close>

lemma rollout_path_final:
  assumes "rollout_can_transition_to\<^sup>*\<^sup>* s t" "s \<in> {RolloutSucceeded, RolloutCancelled}"
  shows "t = s"
  using assms(1)
proof (induction rule: rtranclp_induct)
  case (step t u)
  with assms(2) rollout_final_stuck [of t u] show ?case by simp
qed simp

lemma rollout_path_to_success:
  assumes "rollout_can_transition_to\<^sup>*\<^sup>* s t" "t = RolloutSucceeded"
  shows "s = RolloutSucceeded \<or> rollout_can_transition_to\<^sup>*\<^sup>* s RolloutRunning"
  using assms
proof (induction rule: rtranclp_induct)
  case (step t u)
  then have "t = RolloutSucceeded \<or> t = RolloutRunning"
    by (auto simp: rollout_can_transition_to_def rollout_edges_def)
  with step show ?case by blast
qed simp

end
