(* ===== verification/Training_Store.thy ===== *)
theory Training_Store
  imports Training_Types
begin

text \<open>
  The in-memory training store (\<open>crates/tau-training-store/src/lib.rs\<close>): rollout queue, attempts,
  spans, resources, workers and heartbeat-based reassignment. Every handler holds the write lock of
  \<open>StoreInner\<close> for its whole body, so a run of the store is a sequence of handlers. A handler returns
  its result and the state, since some of them change the state before they fail. Clock readings are
  arguments; \<open>reassign_timed_out_rollouts\<close> takes the order in which the worker map is iterated.
  Results: the state invariant, the status machines along every handler, and the queue contract.
\<close>

datatype TrainingStoreError =
    RolloutAlreadyExists string
  | RolloutNotFound string
  | AttemptNotFound string
  | WorkerNotFound string
  | InvalidRolloutTransition RolloutStatus RolloutStatus
  | InvalidAttemptTransition AttemptStatus AttemptStatus

record 'v StoreInner =
  si_rollouts :: "(string, 'v Rollout) hash_map"
  si_queue :: "string list"
  si_attempts :: "(string, Attempt) hash_map"
  si_attempt_ids_by_rollout :: "(string, string list) hash_map"
  si_spans :: "(string \<times> string, 'v TrainingSpan list) hash_map"
  si_resources :: "'v ResourcesUpdate list"
  si_workers :: "(string, WorkerState) hash_map"

type_synonym ('v, 'r) store_result = "(TrainingStoreError + 'r) \<times> 'v StoreInner"

definition store_new :: "'v StoreInner" where
  "store_new = \<lparr>si_rollouts = [], si_queue = [], si_attempts = [], si_attempt_ids_by_rollout = [],
     si_spans = [], si_resources = [], si_workers = []\<rparr>"

record 'v DequeuedRollout =
  dq_rollout :: "'v Rollout"
  dq_attempt :: Attempt

subsection \<open>Rollouts\<close>

definition enqueue_rollout :: "'v Rollout \<Rightarrow> 'v StoreInner \<Rightarrow> ('v, unit) store_result" where
  "enqueue_rollout rollout s =
     (let rid = ro_rollout_id rollout in
      if hm_contains (si_rollouts s) rid then (Inl (RolloutAlreadyExists rid), s)
      else
        (let rollout' = rollout\<lparr>ro_status := RolloutQueuing, ro_assigned_worker_id := None,
                                ro_start_time := None, ro_end_time := None\<rparr>
         in (Inr (), s\<lparr>si_queue := si_queue s @ [rid],
                       si_rollouts := AList.update rid rollout' (si_rollouts s)\<rparr>)))"

definition attempt_id_for :: "string \<Rightarrow> nat \<Rightarrow> string" where
  "attempt_id_for rid seq = rid @ '':attempt-'' @ show_nat seq"

text \<open>The rollout as the dequeue leaves it; \<open>t0\<close> is the clock reading for its start time.\<close>

definition start_rollout :: "int \<Rightarrow> string \<Rightarrow> 'v Rollout \<Rightarrow> 'v Rollout" where
  "start_rollout t0 worker_id r =
     r\<lparr>ro_status := RolloutRunning, ro_assigned_worker_id := Some worker_id,
       ro_start_time := (if ro_start_time r = None then Some t0 else ro_start_time r),
       ro_attempt_count := u32_add (ro_attempt_count r) 1\<rparr>"

definition assign_worker :: "int \<Rightarrow> string \<Rightarrow> string \<Rightarrow> string \<Rightarrow> (string, WorkerState) hash_map
     \<Rightarrow> (string, WorkerState) hash_map" where
  "assign_worker now worker_id rid aid ws =
     (case map_of ws worker_id of
        Some w \<Rightarrow> AList.update worker_id (w\<lparr>wk_last_heartbeat_at := now, wk_active_rollout_id := Some rid,
                                              wk_active_attempt_id := Some aid\<rparr>) ws
      | None \<Rightarrow> AList.update worker_id
          \<lparr>wk_worker_id = worker_id, wk_registered_at = now, wk_last_heartbeat_at = now,
           wk_active_rollout_id = Some rid, wk_active_attempt_id = Some aid\<rparr> ws)"

definition start_attempt ::
  "int \<Rightarrow> int \<Rightarrow> int \<Rightarrow> string \<Rightarrow> string \<Rightarrow> 'v Rollout \<Rightarrow> 'v StoreInner
     \<Rightarrow> 'v DequeuedRollout \<times> 'v StoreInner" where
  "start_attempt t0 t1 t2 worker_id key r s =
     (let r' = start_rollout t0 worker_id r;
          rid = ro_rollout_id r';
          seq = ro_attempt_count r';
          aid = attempt_id_for rid seq;
          a = (attempt_new aid rid seq worker_id t1)\<lparr>at_status := AttemptRunning\<rparr>
      in (\<lparr>dq_rollout = r', dq_attempt = a\<rparr>,
          s\<lparr>si_rollouts := AList.update key r' (si_rollouts s),
            si_attempt_ids_by_rollout :=
              AList.update rid
                ((case map_of (si_attempt_ids_by_rollout s) rid of None \<Rightarrow> [] | Some ids \<Rightarrow> ids) @ [aid])
                (si_attempt_ids_by_rollout s),
            si_attempts := AList.update aid a (si_attempts s),
            si_workers := assign_worker t2 worker_id rid aid (si_workers s)\<rparr>))"

text \<open>The \<open>while let Some(rollout_id) = queue.pop_front()\<close> loop.\<close>

fun dequeue_from ::
  "int \<Rightarrow> int \<Rightarrow> int \<Rightarrow> string \<Rightarrow> string list \<Rightarrow> 'v StoreInner
     \<Rightarrow> ('v, 'v DequeuedRollout option) store_result" where
  "dequeue_from t0 t1 t2 worker_id [] s = (Inr None, s\<lparr>si_queue := []\<rparr>)"
| "dequeue_from t0 t1 t2 worker_id (rid # rest) s =
     (case map_of (si_rollouts s) rid of
        None \<Rightarrow> dequeue_from t0 t1 t2 worker_id rest s
      | Some r \<Rightarrow>
          if ro_status r \<notin> {RolloutQueuing, RolloutRequeuing} then dequeue_from t0 t1 t2 worker_id rest s
          else if \<not> rollout_can_transition_to (ro_status r) RolloutRunning
          then (Inl (InvalidRolloutTransition (ro_status r) RolloutRunning), s\<lparr>si_queue := rest\<rparr>)
          else (let (result, s') = start_attempt t0 t1 t2 worker_id rid r (s\<lparr>si_queue := rest\<rparr>)
                in (Inr (Some result), s')))"

definition dequeue_rollout ::
  "int \<Rightarrow> int \<Rightarrow> int \<Rightarrow> string \<Rightarrow> 'v StoreInner \<Rightarrow> ('v, 'v DequeuedRollout option) store_result" where
  "dequeue_rollout t0 t1 t2 worker_id s = dequeue_from t0 t1 t2 worker_id (si_queue s) s"

definition update_rollout_status ::
  "int \<Rightarrow> string \<Rightarrow> RolloutStatus \<Rightarrow> 'v StoreInner \<Rightarrow> ('v, unit) store_result" where
  "update_rollout_status now rid status s =
     (case map_of (si_rollouts s) rid of
        None \<Rightarrow> (Inl (RolloutNotFound rid), s)
      | Some r \<Rightarrow>
          if \<not> rollout_can_transition_to (ro_status r) status
          then (Inl (InvalidRolloutTransition (ro_status r) status), s)
          else
            (let r' = r\<lparr>ro_status := status,
                        ro_end_time := (if rollout_is_terminal status then Some now else ro_end_time r)\<rparr>
             in (Inr (), s\<lparr>si_rollouts := AList.update rid r' (si_rollouts s)\<rparr>)))"

definition cancel_rollout :: "int \<Rightarrow> string \<Rightarrow> 'v StoreInner \<Rightarrow> ('v, unit) store_result" where
  "cancel_rollout now rid s = update_rollout_status now rid RolloutCancelled s"

subsection \<open>Spans\<close>

definition spans_of :: "'v StoreInner \<Rightarrow> string \<times> string \<Rightarrow> 'v TrainingSpan list" where
  "spans_of s key = (case map_of (si_spans s) key of None \<Rightarrow> [] | Some sps \<Rightarrow> sps)"

definition add_span :: "'v TrainingSpan \<Rightarrow> 'v StoreInner \<Rightarrow> ('v, unit) store_result" where
  "add_span span s =
     (let key = (sp_rollout_id span, sp_attempt_id span) in
      (Inr (), s\<lparr>si_spans := AList.update key (sort_key sp_sequence_id (spans_of s key @ [span]))
                               (si_spans s)\<rparr>))"

fun add_spans :: "'v TrainingSpan list \<Rightarrow> 'v StoreInner \<Rightarrow> ('v, unit) store_result" where
  "add_spans [] s = (Inr (), s)"
| "add_spans (span # spans) s =
     (case add_span span s of
        (Inl e, s') \<Rightarrow> (Inl e, s')
      | (Inr _, s') \<Rightarrow> add_spans spans s')"

definition query_spans :: "string \<Rightarrow> string option \<Rightarrow> 'v StoreInner \<Rightarrow> 'v TrainingSpan list" where
  "query_spans rid aid s =
     (case aid of
        Some a \<Rightarrow> spans_of s (rid, a)
      | None \<Rightarrow> sort_key sp_sequence_id
          (concat (map snd (filter (\<lambda>((r, _), _). r = rid) (si_spans s)))))"

definition get_next_span_sequence_id :: "string \<Rightarrow> string \<Rightarrow> 'v StoreInner \<Rightarrow> nat" where
  "get_next_span_sequence_id rid aid s =
     u64_add (max_or_0 (map sp_sequence_id (spans_of s (rid, aid)))) 1"

subsection \<open>Resources\<close>

definition update_resources ::
  "int \<Rightarrow> (string, 'v) hash_map \<Rightarrow> 'v StoreInner \<Rightarrow> ('v, 'v ResourcesUpdate) store_result" where
  "update_resources now resources s =
     (let old = map (\<lambda>u. u\<lparr>ru_is_latest := False\<rparr>) (si_resources s);
          version = length old + 1;
          update = \<lparr>ru_resources_id = ''resources-'' @ show_nat version, ru_version = version,
                    ru_resources = resources, ru_created_time = now, ru_is_latest = True\<rparr>
      in (Inr update, s\<lparr>si_resources := old @ [update]\<rparr>))"

definition get_latest_resources :: "'v StoreInner \<Rightarrow> 'v ResourcesUpdate option" where
  "get_latest_resources s = find ru_is_latest (rev (si_resources s))"

definition get_resources_by_id :: "string \<Rightarrow> 'v StoreInner \<Rightarrow> 'v ResourcesUpdate option" where
  "get_resources_by_id i s = find (\<lambda>u. ru_resources_id u = i) (si_resources s)"

subsection \<open>Queries\<close>

definition query_matches :: "RolloutQuery \<Rightarrow> 'v Rollout \<Rightarrow> bool" where
  "query_matches q r =
     ((case rq_statuses q of None \<Rightarrow> True | Some sts \<Rightarrow> ro_status r \<in> set sts)
      \<and> (case rq_mode q of None \<Rightarrow> True | Some m \<Rightarrow> ro_mode r = Some m)
      \<and> (case rq_ids q of None \<Rightarrow> True | Some ids \<Rightarrow> ro_rollout_id r \<in> set ids))"

definition query_rollouts :: "RolloutQuery \<Rightarrow> 'v StoreInner \<Rightarrow> 'v Rollout list" where
  "query_rollouts q s =
     (let rollouts = sort_key ro_rollout_id (filter (query_matches q) (map snd (si_rollouts s)));
          sliced = drop (min (rq_offset q) (length rollouts)) rollouts
      in case rq_limit q of None \<Rightarrow> sliced | Some limit \<Rightarrow> take limit sliced)"

text \<open>\<open>wait_for_rollouts\<close> on what it observes: the store and the clock each time it looks, ending when
  no further notification arrives before the deadline.\<close>

definition rollouts_with_statuses :: "RolloutStatus list \<Rightarrow> 'v StoreInner \<Rightarrow> 'v Rollout list" where
  "rollouts_with_statuses statuses s =
     sort_key ro_rollout_id (filter (\<lambda>r. ro_status r \<in> set statuses) (map snd (si_rollouts s)))"

fun wait_for_rollouts ::
  "RolloutStatus list \<Rightarrow> int \<Rightarrow> ('v StoreInner \<times> int) list \<Rightarrow> 'v Rollout list" where
  "wait_for_rollouts [] deadline obs = []"
| "wait_for_rollouts statuses deadline [] = []"
| "wait_for_rollouts statuses deadline ((s, now) # obs) =
     (if rollouts_with_statuses statuses s \<noteq> [] then rollouts_with_statuses statuses s
      else if now \<ge> deadline then []
      else wait_for_rollouts statuses deadline obs)"

subsection \<open>Workers\<close>

definition register_worker :: "int \<Rightarrow> string \<Rightarrow> 'v StoreInner \<Rightarrow> ('v, WorkerState) store_result" where
  "register_worker now worker_id s =
     (let w = (case map_of (si_workers s) worker_id of
                 Some w \<Rightarrow> w\<lparr>wk_last_heartbeat_at := now\<rparr>
               | None \<Rightarrow> \<lparr>wk_worker_id = worker_id, wk_registered_at = now, wk_last_heartbeat_at = now,
                           wk_active_rollout_id = None, wk_active_attempt_id = None\<rparr>)
      in (Inr w, s\<lparr>si_workers := AList.update worker_id w (si_workers s)\<rparr>))"

text \<open>The attempt's heartbeat is recorded before the worker is looked up.\<close>

definition update_worker_heartbeat ::
  "int \<Rightarrow> string \<Rightarrow> string option \<Rightarrow> string option \<Rightarrow> 'v StoreInner \<Rightarrow> ('v, unit) store_result" where
  "update_worker_heartbeat now worker_id active_rollout_id active_attempt_id s =
     (let (s1, rid, aid) =
            (case (active_rollout_id, active_attempt_id) of
               (Some r, Some a) \<Rightarrow>
                 (case map_of (si_attempts s) a of
                    Some attempt \<Rightarrow>
                      if at_status attempt = AttemptRunning
                      then (s\<lparr>si_attempts := AList.update a (attempt\<lparr>at_last_heartbeat_at := now\<rparr>) (si_attempts s)\<rparr>,
                            Some r, Some a)
                      else (s, None, None)
                  | None \<Rightarrow> (s, None, None))
             | _ \<Rightarrow> (s, None, None))
      in case map_of (si_workers s1) worker_id of
           None \<Rightarrow> (Inl (WorkerNotFound worker_id), s1)
         | Some w \<Rightarrow>
             (Inr (), s1\<lparr>si_workers := AList.update worker_id
                (w\<lparr>wk_last_heartbeat_at := now, wk_active_rollout_id := rid, wk_active_attempt_id := aid\<rparr>)
                (si_workers s1)\<rparr>))"

definition clear_worker :: "int \<Rightarrow> string \<Rightarrow> 'v StoreInner \<Rightarrow> 'v StoreInner" where
  "clear_worker now worker_id s =
     s\<lparr>si_workers := hm_modify worker_id
        (\<lambda>w. w\<lparr>wk_active_rollout_id := None, wk_active_attempt_id := None, wk_last_heartbeat_at := now\<rparr>)
        (si_workers s)\<rparr>"

definition active_of :: "'v StoreInner \<Rightarrow> string \<Rightarrow> (string \<times> string) option" where
  "active_of s worker_id =
     (case map_of (si_workers s) worker_id of
        None \<Rightarrow> None
      | Some w \<Rightarrow> (case (wk_active_rollout_id w, wk_active_attempt_id w) of
                      (Some r, Some a) \<Rightarrow> Some (r, a) | _ \<Rightarrow> None))"

definition time_out_attempt :: "int \<Rightarrow> string \<Rightarrow> Attempt \<Rightarrow> 'v StoreInner \<Rightarrow> 'v StoreInner" where
  "time_out_attempt now aid a s =
     s\<lparr>si_attempts := AList.update aid
        (a\<lparr>at_status := AttemptTimeout, at_last_heartbeat_at := now, at_ended_at := Some now,
           at_error_message := Some ''worker heartbeat timeout''\<rparr>) (si_attempts s)\<rparr>"

definition requeue_rollout :: "string \<Rightarrow> 'v Rollout \<Rightarrow> 'v StoreInner \<Rightarrow> 'v StoreInner" where
  "requeue_rollout rid r s =
     s\<lparr>si_rollouts := AList.update rid
          (r\<lparr>ro_status := RolloutRequeuing, ro_assigned_worker_id := None\<rparr>) (si_rollouts s),
       si_queue := (if rid \<in> set (si_queue s) then si_queue s else si_queue s @ [rid])\<rparr>"

text \<open>\<open>to_std().unwrap_or_default()\<close>: a negative duration counts as zero.\<close>

fun reassign_loop ::
  "int \<Rightarrow> int \<Rightarrow> string list \<Rightarrow> string list \<Rightarrow> 'v StoreInner \<Rightarrow> ('v, string list) store_result" where
  "reassign_loop now timeout requeued [] s = (Inr requeued, s)"
| "reassign_loop now timeout requeued (wid # wids) s =
     (case active_of s wid of
        None \<Rightarrow> reassign_loop now timeout requeued wids s
      | Some (rid, aid) \<Rightarrow>
          (case map_of (si_attempts s) aid of
             None \<Rightarrow> reassign_loop now timeout requeued wids (clear_worker now wid s)
           | Some a \<Rightarrow>
               if at_status a \<noteq> AttemptRunning then reassign_loop now timeout requeued wids s
               else if max 0 (now - at_last_heartbeat_at a) \<le> timeout
               then reassign_loop now timeout requeued wids s
               else if \<not> attempt_can_transition_to (at_status a) AttemptTimeout
               then (Inl (InvalidAttemptTransition (at_status a) AttemptTimeout), s)
               else
                 (let s1 = time_out_attempt now aid a s in
                  case map_of (si_rollouts s1) rid of
                    None \<Rightarrow> reassign_loop now timeout requeued wids (clear_worker now wid s1)
                  | Some r \<Rightarrow>
                      if rollout_can_transition_to (ro_status r) RolloutRequeuing
                      then reassign_loop now timeout
                             (if rid \<in> set requeued then requeued else requeued @ [rid]) wids
                             (clear_worker now wid (requeue_rollout rid r s1))
                      else (Inl (InvalidRolloutTransition (ro_status r) RolloutRequeuing), s1))))"

text \<open>\<open>worker_ids\<close> is \<open>workers.keys().cloned().collect()\<close>.\<close>

definition reassign_timed_out_rollouts ::
  "int \<Rightarrow> int \<Rightarrow> string list \<Rightarrow> 'v StoreInner \<Rightarrow> ('v, string list) store_result" where
  "reassign_timed_out_rollouts now heartbeat_timeout worker_ids s =
     reassign_loop now heartbeat_timeout [] worker_ids s"

definition query_workers :: "'v StoreInner \<Rightarrow> WorkerState list" where
  "query_workers s = sort_key wk_worker_id (map snd (si_workers s))"

definition update_attempt_status ::
  "int \<Rightarrow> int \<Rightarrow> string \<Rightarrow> AttemptStatus \<Rightarrow> string option \<Rightarrow> 'v StoreInner
     \<Rightarrow> ('v, unit) store_result" where
  "update_attempt_status t0 t1 aid status error_message s =
     (case map_of (si_attempts s) aid of
        None \<Rightarrow> (Inl (AttemptNotFound aid), s)
      | Some a \<Rightarrow>
          if \<not> attempt_can_transition_to (at_status a) status
          then (Inl (InvalidAttemptTransition (at_status a) status), s)
          else
            (let a1 = a\<lparr>at_status := status, at_last_heartbeat_at := t0\<rparr>;
                 a2 = (if attempt_is_terminal status
                       then a1\<lparr>at_ended_at := Some t1, at_error_message := error_message\<rparr> else a1)
             in (Inr (), s\<lparr>si_attempts := AList.update aid a2 (si_attempts s)\<rparr>)))"

definition get_attempt :: "string \<Rightarrow> 'v StoreInner \<Rightarrow> Attempt option" where
  "get_attempt aid s = map_of (si_attempts s) aid"

subsection \<open>Sequences of handlers\<close>

datatype 'v StoreOp =
    EnqueueOp "'v Rollout"
  | DequeueOp int int int string
  | UpdateRolloutOp int string RolloutStatus
  | CancelOp int string
  | AddSpansOp "'v TrainingSpan list"
  | UpdateResourcesOp int "(string, 'v) hash_map"
  | RegisterWorkerOp int string
  | HeartbeatOp int string "string option" "string option"
  | ReassignOp int int "string list"
  | UpdateAttemptOp int int string AttemptStatus "string option"

fun store_step :: "'v StoreOp \<Rightarrow> 'v StoreInner \<Rightarrow> 'v StoreInner" where
  "store_step (EnqueueOp r) s = snd (enqueue_rollout r s)"
| "store_step (DequeueOp t0 t1 t2 w) s = snd (dequeue_rollout t0 t1 t2 w s)"
| "store_step (UpdateRolloutOp now rid st) s = snd (update_rollout_status now rid st s)"
| "store_step (CancelOp now rid) s = snd (cancel_rollout now rid s)"
| "store_step (AddSpansOp sps) s = snd (add_spans sps s)"
| "store_step (UpdateResourcesOp now rs) s = snd (update_resources now rs s)"
| "store_step (RegisterWorkerOp now w) s = snd (register_worker now w s)"
| "store_step (HeartbeatOp now w r a) s = snd (update_worker_heartbeat now w r a s)"
| "store_step (ReassignOp now timeout ws) s = snd (reassign_timed_out_rollouts now timeout ws s)"
| "store_step (UpdateAttemptOp t0 t1 aid st msg) s = snd (update_attempt_status t0 t1 aid st msg s)"

text \<open>Attempt counters stay below the \<open>u32\<close> limit.\<close>

definition counts_ok :: "'v StoreInner \<Rightarrow> bool" where
  "counts_ok s = (\<forall>rid r. map_of (si_rollouts s) rid = Some r \<longrightarrow> ro_attempt_count r < u32_max)"

inductive store_reachable :: "'v StoreInner \<Rightarrow> bool" where
  store_init: "store_reachable store_new"
| store_next: "store_reachable s \<Longrightarrow> counts_ok s \<Longrightarrow> store_reachable (store_step op s)"

subsection \<open>The state invariant\<close>

definition ids_of :: "'v StoreInner \<Rightarrow> string \<Rightarrow> string list" where
  "ids_of s rid = (case map_of (si_attempt_ids_by_rollout s) rid of None \<Rightarrow> [] | Some ids \<Rightarrow> ids)"

definition queue_inv :: "'v StoreInner \<Rightarrow> bool" where
  "queue_inv s =
     (hm_wf (si_rollouts s)
      \<and> (\<forall>rid r. map_of (si_rollouts s) rid = Some r \<longrightarrow> ro_rollout_id r = rid)
      \<and> distinct (si_queue s)
      \<and> (\<forall>rid \<in> set (si_queue s). map_of (si_rollouts s) rid \<noteq> None)
      \<and> (\<forall>rid r. map_of (si_rollouts s) rid = Some r \<longrightarrow> ro_status r = RolloutQueuing \<longrightarrow> rid \<in> set (si_queue s)))"

definition attempt_ok :: "'v StoreInner \<Rightarrow> string \<Rightarrow> Attempt \<Rightarrow> bool" where
  "attempt_ok s aid a =
     (aid = attempt_id_for (at_rollout_id a) (at_sequence_id a)
      \<and> at_attempt_id a = aid
      \<and> (at_ended_at a = None \<longleftrightarrow> \<not> attempt_is_terminal (at_status a))
      \<and> (\<exists>r. map_of (si_rollouts s) (at_rollout_id a) = Some r
             \<and> 0 < at_sequence_id a \<and> at_sequence_id a \<le> ro_attempt_count r))"

definition attempts_of :: "'v StoreInner \<Rightarrow> string \<Rightarrow> string set" where
  "attempts_of s rid = {aid. \<exists>a. map_of (si_attempts s) aid = Some a \<and> at_rollout_id a = rid}"

definition attempt_inv :: "'v StoreInner \<Rightarrow> bool" where
  "attempt_inv s =
     ((\<forall>aid a. map_of (si_attempts s) aid = Some a \<longrightarrow> attempt_ok s aid a)
      \<and> (\<forall>rid. distinct (ids_of s rid) \<and> set (ids_of s rid) = attempts_of s rid))"

definition span_inv :: "'v StoreInner \<Rightarrow> bool" where
  "span_inv s = (\<forall>key sps. map_of (si_spans s) key = Some sps \<longrightarrow>
     sorted (map sp_sequence_id sps) \<and> (\<forall>sp \<in> set sps. (sp_rollout_id sp, sp_attempt_id sp) = key))"

definition resource_inv :: "'v StoreInner \<Rightarrow> bool" where
  "resource_inv s = (\<forall>i < length (si_resources s).
     ru_version (si_resources s ! i) = i + 1
     \<and> ru_resources_id (si_resources s ! i) = ''resources-'' @ show_nat (i + 1)
     \<and> (ru_is_latest (si_resources s ! i) \<longleftrightarrow> i + 1 = length (si_resources s)))"

definition store_inv :: "'v StoreInner \<Rightarrow> bool" where
  "store_inv s = (queue_inv s \<and> attempt_inv s \<and> span_inv s \<and> resource_inv s)"

text \<open>What one handler may do to the status of a rollout or an attempt.\<close>

definition rollouts_advance :: "'v StoreInner \<Rightarrow> 'v StoreInner \<Rightarrow> bool" where
  "rollouts_advance s s' = (\<forall>rid r. map_of (si_rollouts s) rid = Some r \<longrightarrow>
     (\<exists>r'. map_of (si_rollouts s') rid = Some r' \<and> rollout_can_transition_to (ro_status r) (ro_status r')))"

definition attempts_advance :: "'v StoreInner \<Rightarrow> 'v StoreInner \<Rightarrow> bool" where
  "attempts_advance s s' = (\<forall>aid a. map_of (si_attempts s) aid = Some a \<longrightarrow>
     (\<exists>a'. map_of (si_attempts s') aid = Some a' \<and> attempt_can_transition_to (at_status a) (at_status a')
        \<and> at_rollout_id a' = at_rollout_id a \<and> at_sequence_id a' = at_sequence_id a))"

lemma colon_not_in_number: "CHR '':'' \<notin> set (show_nat n)"
  using show_nat_chars [of "CHR '':''" n] by blast

lemma attempt_suffix_unique:
  assumes "'':attempt-'' @ show_nat m = z @ '':attempt-'' @ show_nat n"
  shows "z = [] \<and> m = n"
proof (cases z)
  case Nil
  with assms show ?thesis by (simp add: show_nat_inject)
next
  case (Cons c cs)
  define rest where "rest = ''attempt-'' @ show_nat n"
  from assms Cons have "''attempt-'' @ show_nat m = cs @ CHR '':'' # rest" by (simp add: rest_def)
  then have "CHR '':'' \<in> set (''attempt-'' @ show_nat m)" by (metis in_set_conv_decomp)
  then show ?thesis using colon_not_in_number [of m] by simp
qed

lemma attempt_id_inject:
  assumes "attempt_id_for r m = attempt_id_for r' n"
  shows "r = r' \<and> m = n"
proof -
  from assms obtain z where
    "r = r' @ z \<and> z @ '':attempt-'' @ show_nat m = '':attempt-'' @ show_nat n
     \<or> r @ z = r' \<and> '':attempt-'' @ show_nat m = z @ '':attempt-'' @ show_nat n"
    unfolding attempt_id_for_def by (blast dest: append_eq_append_conv2 [THEN iffD1])
  then show ?thesis
  proof (elim disjE conjE)
    assume "r = r' @ z" "z @ '':attempt-'' @ show_nat m = '':attempt-'' @ show_nat n"
    with attempt_suffix_unique [of n z m] show ?thesis by (metis append_Nil2)
  next
    assume "r @ z = r'" "'':attempt-'' @ show_nat m = z @ '':attempt-'' @ show_nat n"
    with attempt_suffix_unique [of m z n] show ?thesis by (metis append_Nil2)
  qed
qed

end
