(* ===== verification/Training_Invariants.thy ===== *)
theory Training_Invariants
  imports Training_Store
begin

text \<open>
  The invariant of the in-memory training store along every handler, the status machines of rollouts
  and attempts, and the queue contract \<open>rollout_fifo\<close> with the store as its provider.
\<close>

subsection \<open>Dequeuing\<close>

definition eligible :: "'v StoreInner \<Rightarrow> string \<Rightarrow> bool" where
  "eligible s rid = (case map_of (si_rollouts s) rid of None \<Rightarrow> False
     | Some r \<Rightarrow> ro_status r \<in> {RolloutQueuing, RolloutRequeuing})"

definition pending :: "'v StoreInner \<Rightarrow> string list" where
  "pending s = filter (eligible s) (si_queue s)"

lemma dequeue_from_spec:
  "dequeue_from t0 t1 t2 w q s =
     (case dropWhile (\<lambda>rid. \<not> eligible s rid) q of
        [] \<Rightarrow> (Inr None, s\<lparr>si_queue := []\<rparr>)
      | rid # rest \<Rightarrow>
          (let (result, s') = start_attempt t0 t1 t2 w rid (the (map_of (si_rollouts s) rid)) (s\<lparr>si_queue := rest\<rparr>)
           in (Inr (Some result), s')))"
  by (induction t0 t1 t2 w q s rule: dequeue_from.induct)
    (auto simp: eligible_def rollout_run_sources split: option.splits)

lemma dropWhile_split:
  assumes "dropWhile (\<lambda>x. \<not> P x) xs = y # ys"
  obtains pre where "xs = pre @ y # ys" "\<And>x. x \<in> set pre \<Longrightarrow> \<not> P x" "P y"
proof
  show "xs = takeWhile (\<lambda>x. \<not> P x) xs @ y # ys"
    using takeWhile_dropWhile_id [of "\<lambda>x. \<not> P x" xs] assms by simp
  show "\<And>x. x \<in> set (takeWhile (\<lambda>x. \<not> P x) xs) \<Longrightarrow> \<not> P x" by (drule set_takeWhileD) simp
  show "P y" using assms by (simp add: dropWhile_eq_Cons_conv)
qed

lemma dequeue_cases:
  obtains (idle) "pending s = []" "dequeue_rollout t0 t1 t2 w s = (Inr None, s\<lparr>si_queue := []\<rparr>)"
  | (taken) pre rid rest r result s' where
      "si_queue s = pre @ rid # rest" "\<And>x. x \<in> set pre \<Longrightarrow> \<not> eligible s x" "pending s = rid # filter (eligible s) rest"
      "map_of (si_rollouts s) rid = Some r" "ro_status r \<in> {RolloutQueuing, RolloutRequeuing}"
      "start_attempt t0 t1 t2 w rid r (s\<lparr>si_queue := rest\<rparr>) = (result, s')"
      "dequeue_rollout t0 t1 t2 w s = (Inr (Some result), s')"
proof (cases "dropWhile (\<lambda>rid. \<not> eligible s rid) (si_queue s)")
  case Nil
  then have "pending s = []" by (simp add: pending_def dropWhile_eq_Nil_conv filter_empty_conv)
  moreover have "dequeue_rollout t0 t1 t2 w s = (Inr None, s\<lparr>si_queue := []\<rparr>)"
    unfolding dequeue_rollout_def dequeue_from_spec Nil by simp
  ultimately show thesis by (rule idle)
next
  case (Cons rid rest)
  then obtain pre where pre: "si_queue s = pre @ rid # rest" "\<And>x. x \<in> set pre \<Longrightarrow> \<not> eligible s x" "eligible s rid"
    by (rule dropWhile_split) blast
  then have "pending s = rid # filter (eligible s) rest" by (simp add: pending_def filter_empty_conv)
  moreover obtain r where r: "map_of (si_rollouts s) rid = Some r" "ro_status r \<in> {RolloutQueuing, RolloutRequeuing}"
    using pre(3) by (auto simp: eligible_def split: option.splits)
  moreover obtain result s' where "start_attempt t0 t1 t2 w rid r (s\<lparr>si_queue := rest\<rparr>) = (result, s')"
    by fastforce
  ultimately show thesis
    using taken pre(1,2) Cons by (simp add: dequeue_rollout_def dequeue_from_spec)
qed

lemma start_attempt_effect:
  assumes "start_attempt t0 t1 t2 w rid r s = (result, s')" "ro_rollout_id r = rid"
  shows "dq_rollout result = start_rollout t0 w r"
    "dq_attempt result = (attempt_new (attempt_id_for rid (ro_attempt_count (start_rollout t0 w r))) rid
        (ro_attempt_count (start_rollout t0 w r)) w t1)\<lparr>at_status := AttemptRunning\<rparr>"
    "map_of (si_rollouts s') = (map_of (si_rollouts s))(rid \<mapsto> dq_rollout result)"
    "map_of (si_attempts s') = (map_of (si_attempts s))(at_attempt_id (dq_attempt result) \<mapsto> dq_attempt result)"
    "si_rollouts s' = AList.update rid (dq_rollout result) (si_rollouts s)"
    "si_queue s' = si_queue s" "si_spans s' = si_spans s" "si_resources s' = si_resources s"
    "ids_of s' = (ids_of s)(rid := ids_of s rid @ [at_attempt_id (dq_attempt result)])"
  using assms
  by (auto simp: start_attempt_def Let_def start_rollout_def attempt_new_def ids_of_def hashmap_simps fun_eq_iff
      split: option.splits)

subsection \<open>Rollouts and the queue\<close>

lemma queue_inv_change:
  assumes inv: "queue_inv s" and r: "map_of (si_rollouts s) rid = Some r" "ro_rollout_id r' = rid"
    and q: "distinct q" "set q \<subseteq> insert rid (set (si_queue s))"
    and keep: "\<And>x r. x \<in> set (si_queue s) \<Longrightarrow> x \<notin> set q \<Longrightarrow> x \<noteq> rid \<Longrightarrow> map_of (si_rollouts s) x = Some r
        \<Longrightarrow> ro_status r \<noteq> RolloutQueuing"
    and new: "ro_status r' = RolloutQueuing \<Longrightarrow> rid \<in> set q"
    and s': "si_rollouts s' = AList.update rid r' (si_rollouts s)" "si_queue s' = q"
  shows "queue_inv s'"
  unfolding queue_inv_def s'
proof (intro conjI ballI allI impI)
  show "hm_wf (AList.update rid r' (si_rollouts s))" "distinct q"
    using inv q by (simp_all add: queue_inv_def)
next
  fix x y assume "map_of (AList.update rid r' (si_rollouts s)) x = Some y"
  then show "ro_rollout_id y = x" using inv r(2) by (auto simp: hashmap_simps queue_inv_def split: if_splits)
next
  fix x assume "x \<in> set q"
  then show "map_of (AList.update rid r' (si_rollouts s)) x \<noteq> None"
    using inv q(2) by (auto simp: hashmap_simps queue_inv_def)
next
  fix x y assume "map_of (AList.update rid r' (si_rollouts s)) x = Some y" "ro_status y = RolloutQueuing"
  then show "x \<in> set q" using inv new keep by (fastforce simp: hashmap_simps queue_inv_def split: if_splits)
qed

text \<open>Attempts depend on the rollouts only through their counters.\<close>

lemma attempt_ok_counters:
  assumes "attempt_ok s aid a"
    and "\<And>rid r. map_of (si_rollouts s) rid = Some r \<Longrightarrow>
      \<exists>r'. map_of (si_rollouts s') rid = Some r' \<and> ro_attempt_count r \<le> ro_attempt_count r'"
  shows "attempt_ok s' aid a"
  using assms(1) assms(2) [of "at_rollout_id a"] unfolding attempt_ok_def by fastforce

lemma attempt_inv_change:
  assumes "attempt_inv s" "si_attempts s' = si_attempts s"
    "si_attempt_ids_by_rollout s' = si_attempt_ids_by_rollout s"
    and ctr: "\<And>rid r. map_of (si_rollouts s) rid = Some r \<Longrightarrow>
      \<exists>r'. map_of (si_rollouts s') rid = Some r' \<and> ro_attempt_count r \<le> ro_attempt_count r'"
  shows "attempt_inv s'"
proof -
  have "attempt_ok s' aid a" if "attempt_ok s aid a" for aid a
    using that ctr by (rule attempt_ok_counters)
  then show ?thesis
    using assms(1) by (simp add: attempt_inv_def attempts_of_def ids_of_def assms(2,3))
qed

text \<open>Changing an attempt in place.\<close>

lemma attempt_inv_modify:
  assumes inv: "attempt_inv s" and a: "map_of (si_attempts s) aid = Some a"
    and s': "si_attempts s' = AList.update aid a' (si_attempts s)" "si_rollouts s' = si_rollouts s"
    "si_attempt_ids_by_rollout s' = si_attempt_ids_by_rollout s"
    and a': "at_rollout_id a' = at_rollout_id a" "at_sequence_id a' = at_sequence_id a" "at_attempt_id a' = at_attempt_id a"
    "at_ended_at a' = None \<longleftrightarrow> \<not> attempt_is_terminal (at_status a')"
  shows "attempt_inv s'"
proof -
  have "attempts_of s' rid = attempts_of s rid" for rid
    using a a'(1) by (auto simp: attempts_of_def s' hashmap_simps)
  moreover have "attempt_ok s' aid a'"
    using inv a a' unfolding attempt_inv_def attempt_ok_def s'(2) by metis
  moreover have "attempt_ok s' x y" if "attempt_ok s x y" for x y
    using that unfolding attempt_ok_def s'(2) .
  ultimately show ?thesis
    using inv by (auto simp: attempt_inv_def s' hashmap_simps ids_of_def)
qed

lemma attempt_inv_start:
  assumes inv: "attempt_inv s" and r: "map_of (si_rollouts s) rid = Some r" "ro_rollout_id r = rid"
    "ro_attempt_count r < u32_max"
    and start: "start_attempt t0 t1 t2 w rid r s = (result, s')"
  shows "attempt_inv s'" "map_of (si_attempts s) (at_attempt_id (dq_attempt result)) = None"
proof -
  note eff = start_attempt_effect [OF start r(2)]
  let ?a = "dq_attempt result"
  have cnt: "ro_attempt_count (dq_rollout result) = ro_attempt_count r + 1"
    using eff(1) r(3) by (simp add: start_rollout_def u32_add_def)
  have a: "at_rollout_id ?a = rid" "at_sequence_id ?a = ro_attempt_count r + 1" "at_ended_at ?a = None"
    "at_status ?a = AttemptRunning" "at_attempt_id ?a = attempt_id_for rid (ro_attempt_count r + 1)"
    using eff(1,2) cnt by (simp_all add: attempt_new_def)
  show fresh: "map_of (si_attempts s) (at_attempt_id ?a) = None"
  proof (rule ccontr)
    assume "map_of (si_attempts s) (at_attempt_id ?a) \<noteq> None"
    then obtain b where b: "map_of (si_attempts s) (at_attempt_id ?a) = Some b" by auto
    then have ok: "attempt_ok s (at_attempt_id ?a) b" using inv by (simp add: attempt_inv_def)
    then have "at_rollout_id b = rid \<and> at_sequence_id b = ro_attempt_count r + 1"
      using a(5) attempt_id_inject by (metis attempt_ok_def)
    with ok r(1) show False by (auto simp: attempt_ok_def)
  qed
  have "attempt_ok s' x y" if "attempt_ok s x y" for x y
    using that by (rule attempt_ok_counters) (use r cnt eff(3) in auto)
  moreover have "attempt_ok s' (at_attempt_id ?a) ?a"
    using a eff(3) cnt by (simp add: attempt_ok_def attempt_is_terminal_def)
  moreover have "attempts_of s' x = (if x = rid then insert (at_attempt_id ?a) (attempts_of s x) else attempts_of s x)" for x
    using fresh a(1) by (auto simp: attempts_of_def eff(4))
  moreover have "at_attempt_id ?a \<notin> attempts_of s rid" using fresh by (simp add: attempts_of_def)
  ultimately show "attempt_inv s'"
    using inv by (auto simp: attempt_inv_def eff(4,9))
qed

subsection \<open>Every handler keeps the invariant\<close>

lemma enqueue_queue_inv:
  assumes "queue_inv s"
  shows "queue_inv (snd (enqueue_rollout r s))"
proof (cases "hm_contains (si_rollouts s) (ro_rollout_id r)")
  case False
  then have "map_of (si_rollouts s) (ro_rollout_id r) = None" by (simp add: hm_contains_def)
  then have "ro_rollout_id r \<notin> set (si_queue s)" using assms by (auto simp: queue_inv_def)
  then show ?thesis
    using assms False by (auto simp: enqueue_rollout_def Let_def queue_inv_def hashmap_simps)
qed (simp add: enqueue_rollout_def Let_def assms)

lemma enqueue_inv:
  assumes "store_inv s"
  shows "store_inv (snd (enqueue_rollout r s))"
proof (cases "hm_contains (si_rollouts s) (ro_rollout_id r)")
  case False
  then have none: "map_of (si_rollouts s) (ro_rollout_id r) = None" by (simp add: hm_contains_def)
  have "attempt_inv (snd (enqueue_rollout r s))"
    by (rule attempt_inv_change [of s])
      (use assms False none in \<open>auto simp: store_inv_def enqueue_rollout_def Let_def hashmap_simps\<close>)
  with assms False enqueue_queue_inv [of s r] show ?thesis
    by (simp add: enqueue_rollout_def Let_def store_inv_def span_inv_def resource_inv_def)
qed (simp add: enqueue_rollout_def Let_def assms)

lemma update_rollout_inv:
  assumes "store_inv s"
  shows "store_inv (snd (update_rollout_status now rid st s))"
proof (cases "\<exists>r. map_of (si_rollouts s) rid = Some r \<and> rollout_can_transition_to (ro_status r) st")
  case True
  then obtain r where r: "map_of (si_rollouts s) rid = Some r" "rollout_can_transition_to (ro_status r) st" by blast
  let ?s' = "snd (update_rollout_status now rid st s)"
  let ?r' = "r\<lparr>ro_status := st, ro_end_time := (if rollout_is_terminal st then Some now else ro_end_time r)\<rparr>"
  have s': "?s' = s\<lparr>si_rollouts := AList.update rid ?r' (si_rollouts s)\<rparr>"
    using r by (simp add: update_rollout_status_def Let_def)
  have inv: "queue_inv s" "attempt_inv s" using assms by (simp_all add: store_inv_def)
  have "queue_inv ?s'" unfolding s'
  proof (rule queue_inv_change [OF inv(1) r(1), where r' = ?r' and q = "si_queue s"])
    show "ro_status ?r' = RolloutQueuing \<Longrightarrow> rid \<in> set (si_queue s)"
      using r rollout_queuing_source inv(1) by (auto simp: queue_inv_def)
  qed (use inv(1) r(1) in \<open>auto simp: queue_inv_def\<close>)
  moreover have "attempt_inv ?s'" unfolding s'
    by (rule attempt_inv_change [OF inv(2)]) (use r in \<open>auto simp: hashmap_simps\<close>)
  ultimately show ?thesis using assms unfolding s' by (simp add: store_inv_def span_inv_def resource_inv_def)
next
  case False
  then show ?thesis using assms by (auto simp: update_rollout_status_def split: option.splits)
qed

lemma dequeue_queue_inv:
  assumes "queue_inv s"
  shows "queue_inv (snd (dequeue_rollout t0 t1 t2 w s))"
proof (cases rule: dequeue_cases [of s t0 t1 t2 w])
  case idle
  have "rid \<notin> set (si_queue s)" if "map_of (si_rollouts s) rid = Some r" "ro_status r = RolloutQueuing" for rid r
    using idle(1) that by (auto simp: pending_def filter_empty_conv eligible_def)
  then show ?thesis using assms by (auto simp: idle(2) queue_inv_def)
next
  case (taken pre rid rest r result s')
  have id: "ro_rollout_id r = rid" using taken(4) assms by (simp add: queue_inv_def)
  note eff = start_attempt_effect [OF taken(6) id]
  have "queue_inv s'"
  proof (rule queue_inv_change [OF assms taken(4), where r' = "dq_rollout result" and q = rest])
    show "distinct rest" using assms taken(1) by (simp add: queue_inv_def)
    show "ro_status y \<noteq> RolloutQueuing"
      if "x \<in> set (si_queue s)" "x \<notin> set rest" "x \<noteq> rid" "map_of (si_rollouts s) x = Some y" for x y
      using that taken(1) taken(2) [of x] by (auto simp: eligible_def)
    show "si_rollouts s' = AList.update rid (dq_rollout result) (si_rollouts s)" using eff(5) by simp
  qed (use eff(1,6) id taken(1) in \<open>auto simp: start_rollout_def\<close>)
  then show ?thesis by (simp add: taken(7))
qed

lemma dequeue_inv:
  assumes "store_inv s" "counts_ok s"
  shows "store_inv (snd (dequeue_rollout t0 t1 t2 w s))"
proof (cases rule: dequeue_cases [of s t0 t1 t2 w])
  case idle
  have "attempt_inv (s\<lparr>si_queue := []\<rparr>)"
    by (rule attempt_inv_change [of s]) (use assms in \<open>auto simp: store_inv_def\<close>)
  with assms(1) dequeue_queue_inv [of s t0 t1 t2 w] show ?thesis
    by (simp add: idle(2) store_inv_def span_inv_def resource_inv_def)
next
  case (taken pre rid rest r result s')
  have inv: "queue_inv s" "attempt_inv s" using assms by (simp_all add: store_inv_def)
  then have id: "ro_rollout_id r = rid" using taken(4) by (simp add: queue_inv_def)
  have cnt: "ro_attempt_count r < u32_max" using assms(2) taken(4) by (auto simp: counts_ok_def)
  have "attempt_inv (s\<lparr>si_queue := rest\<rparr>)" by (rule attempt_inv_change [OF inv(2)]) auto
  from attempt_inv_start(1) [OF this _ id cnt taken(6)] taken(4) have "attempt_inv s'" by simp
  with assms(1) dequeue_queue_inv [OF inv(1), of t0 t1 t2 w] start_attempt_effect(7,8) [OF taken(6) id]
  show ?thesis by (simp add: taken(7) store_inv_def span_inv_def resource_inv_def)
qed

text \<open>Handlers that leave rollouts, queue, attempts, spans and resources alone.\<close>

lemma store_inv_frame:
  assumes "store_inv s" "si_rollouts s' = si_rollouts s" "si_queue s' = si_queue s" "si_attempts s' = si_attempts s"
    "si_attempt_ids_by_rollout s' = si_attempt_ids_by_rollout s" "si_spans s' = si_spans s"
    "si_resources s' = si_resources s"
  shows "store_inv s'"
  using assms
  by (simp add: store_inv_def queue_inv_def attempt_inv_def attempt_ok_def attempts_of_def ids_of_def
      span_inv_def resource_inv_def)

lemma add_span_inv:
  assumes "store_inv s"
  shows "store_inv (snd (add_span sp s))"
proof -
  let ?s' = "snd (add_span sp s)"
  have "queue_inv ?s'" using assms by (simp add: add_span_def Let_def store_inv_def queue_inv_def)
  moreover have "attempt_inv ?s'" using assms
    by (auto simp: add_span_def Let_def store_inv_def intro: attempt_inv_change)
  moreover have "span_inv ?s'" using assms
    by (auto simp: add_span_def Let_def store_inv_def span_inv_def hashmap_simps spans_of_def split: option.splits
        dest!: sym [of "Some _"])
  ultimately show ?thesis using assms by (simp add: store_inv_def resource_inv_def add_span_def Let_def)
qed

lemma add_spans_inv: "store_inv s \<Longrightarrow> store_inv (snd (add_spans sps s))"
proof (induction sps s rule: add_spans.induct)
  case (2 sp sps s)
  then show ?case using add_span_inv [of s sp] by (simp add: add_span_def Let_def)
qed simp

lemma update_resources_inv:
  assumes "store_inv s"
  shows "store_inv (snd (update_resources now rs s))"
proof -
  let ?s' = "snd (update_resources now rs s)"
  have "queue_inv ?s'" "span_inv ?s'" using assms
    by (simp_all add: update_resources_def Let_def store_inv_def queue_inv_def span_inv_def)
  moreover have "attempt_inv ?s'" using assms
    by (auto simp: update_resources_def Let_def store_inv_def intro: attempt_inv_change)
  moreover have "resource_inv ?s'" using assms
    by (auto simp: update_resources_def Let_def store_inv_def resource_inv_def nth_append less_Suc_eq)
  ultimately show ?thesis by (simp add: store_inv_def)
qed

lemma register_worker_inv: "store_inv s \<Longrightarrow> store_inv (snd (register_worker now w s))"
  by (rule store_inv_frame) (simp_all add: register_worker_def Let_def)

text \<open>Changing one attempt in place, with the rest of the store.\<close>

lemma store_inv_attempt:
  assumes "store_inv s" "map_of (si_attempts s) aid = Some a"
    and "at_rollout_id a' = at_rollout_id a" "at_sequence_id a' = at_sequence_id a" "at_attempt_id a' = at_attempt_id a"
    "at_ended_at a' = None \<longleftrightarrow> \<not> attempt_is_terminal (at_status a')"
  shows "store_inv (s\<lparr>si_attempts := AList.update aid a' (si_attempts s)\<rparr>)"
proof -
  let ?s' = "s\<lparr>si_attempts := AList.update aid a' (si_attempts s)\<rparr>"
  have "attempt_inv ?s'"
    by (rule attempt_inv_modify [of s aid a _ a']) (use assms in \<open>simp_all add: store_inv_def\<close>)
  then show ?thesis using assms(1) by (simp add: store_inv_def queue_inv_def span_inv_def resource_inv_def)
qed

lemma attempt_ended: "store_inv s \<Longrightarrow> map_of (si_attempts s) aid = Some a \<Longrightarrow>
  at_ended_at a = None \<longleftrightarrow> \<not> attempt_is_terminal (at_status a)"
  by (simp add: store_inv_def attempt_inv_def attempt_ok_def)

lemma heartbeat_inv:
  assumes "store_inv s"
  shows "store_inv (snd (update_worker_heartbeat now w rid aid s))"
proof -
  define touched where "touched = (case (rid, aid) of
      (Some r, Some x) \<Rightarrow>
        (case map_of (si_attempts s) x of
           Some a \<Rightarrow> if at_status a = AttemptRunning
             then (s\<lparr>si_attempts := AList.update x (a\<lparr>at_last_heartbeat_at := now\<rparr>) (si_attempts s)\<rparr>, Some r, Some x)
             else (s, None, None)
         | None \<Rightarrow> (s, None, None))
    | _ \<Rightarrow> (s, None, None))"
  have t: "store_inv (fst touched)"
    using assms store_inv_attempt [OF assms] attempt_ended [OF assms]
    by (auto simp: touched_def split: option.splits)
  have "\<exists>w'. snd (update_worker_heartbeat now w rid aid s) = (fst touched)\<lparr>si_workers := w'\<rparr>
      \<or> snd (update_worker_heartbeat now w rid aid s) = fst touched"
    unfolding update_worker_heartbeat_def touched_def [symmetric]
    by (auto simp: Let_def split: prod.split option.split)
  then show ?thesis using t by (auto intro: store_inv_frame)
qed

lemma update_attempt_inv:
  assumes "store_inv s"
  shows "store_inv (snd (update_attempt_status t0 t1 aid st msg s))"
proof (cases "map_of (si_attempts s) aid")
  case (Some a)
  have "\<not> attempt_is_terminal (at_status a)" if "attempt_can_transition_to (at_status a) st" "\<not> attempt_is_terminal st"
    using that attempt_terminal_stuck by metis
  then show ?thesis
    using assms Some attempt_ended [OF assms Some] store_inv_attempt [OF assms Some]
    by (auto simp: update_attempt_status_def Let_def)
qed (simp add: update_attempt_status_def assms)

subsubsection \<open>Reassignment\<close>

lemma time_out_inv:
  assumes "store_inv s" "map_of (si_attempts s) aid = Some a"
  shows "store_inv (time_out_attempt now aid a s)"
  unfolding time_out_attempt_def
  by (rule store_inv_attempt [OF assms]) (simp_all add: attempt_is_terminal_def)

lemma clear_worker_inv: "store_inv s \<Longrightarrow> store_inv (clear_worker now w s)"
  by (rule store_inv_frame) (simp_all add: clear_worker_def)

lemma requeue_inv:
  assumes "store_inv s" "map_of (si_rollouts s) rid = Some r"
  shows "store_inv (requeue_rollout rid r s)"
proof -
  let ?r' = "r\<lparr>ro_status := RolloutRequeuing, ro_assigned_worker_id := None\<rparr>"
  have inv: "queue_inv s" "attempt_inv s" using assms by (simp_all add: store_inv_def)
  have "queue_inv (requeue_rollout rid r s)"
    by (rule queue_inv_change [OF inv(1) assms(2), where r' = ?r' and q = "si_queue (requeue_rollout rid r s)"])
      (use inv(1) assms(2) in \<open>auto simp: requeue_rollout_def queue_inv_def split: if_splits\<close>)
  moreover have "attempt_inv (requeue_rollout rid r s)"
    by (rule attempt_inv_change [OF inv(2)]) (use assms(2) in \<open>auto simp: requeue_rollout_def hashmap_simps\<close>)
  ultimately show ?thesis using assms(1)
    by (simp add: store_inv_def span_inv_def resource_inv_def requeue_rollout_def)
qed

text \<open>Induction for the reassignment loop: a property kept by its three mutations is kept by the loop.\<close>

lemma reassign_loop_preserves:
  assumes start: "P s"
    and clear: "\<And>s w. P s \<Longrightarrow> P (clear_worker now w s)"
    and tout: "\<And>s aid a. P s \<Longrightarrow> map_of (si_attempts s) aid = Some a \<Longrightarrow> at_status a = AttemptRunning
        \<Longrightarrow> P (time_out_attempt now aid a s)"
    and requeue: "\<And>s rid r. P s \<Longrightarrow> map_of (si_rollouts s) rid = Some r
        \<Longrightarrow> rollout_can_transition_to (ro_status r) RolloutRequeuing \<Longrightarrow> P (requeue_rollout rid r s)"
  shows "P (snd (reassign_loop now timeout req wids s))"
  using start
proof (induction wids arbitrary: req s)
  case (Cons wid wids)
  show ?case
  proof (cases "active_of s wid")
    case None
    with Cons show ?thesis by simp
  next
    case (Some p)
    obtain rid aid where p: "active_of s wid = Some (rid, aid)" using Some by (cases p) simp
    show ?thesis
    proof (cases "map_of (si_attempts s) aid")
      case None
      with Cons p show ?thesis by (simp add: clear)
    next
      case (Some a)
      show ?thesis
      proof (cases "at_status a \<noteq> AttemptRunning \<or> max 0 (now - at_last_heartbeat_at a) \<le> timeout")
        case True
        with Cons p Some show ?thesis by auto
      next
        case False
        let ?s1 = "time_out_attempt now aid a s"
        have P1: "P ?s1" using tout [OF Cons.prems Some] False by simp
        have "attempt_can_transition_to (at_status a) AttemptTimeout"
          using False by (simp add: attempt_can_transition_to_def attempt_edges_def)
        with False p Some P1 Cons.IH clear requeue show ?thesis
          by (cases "map_of (si_rollouts ?s1) rid") (simp_all add: Let_def del: max.bounded_iff)
      qed
    qed
  qed
qed simp

lemma reassign_loop_inv: "store_inv s \<Longrightarrow> store_inv (snd (reassign_loop now timeout req wids s))"
  by (rule reassign_loop_preserves) (simp_all add: clear_worker_inv time_out_inv requeue_inv)

lemma store_step_inv: "store_inv s \<Longrightarrow> counts_ok s \<Longrightarrow> store_inv (store_step op s)"
  by (cases op) (simp_all add: enqueue_inv dequeue_inv update_rollout_inv cancel_rollout_def add_spans_inv
      update_resources_inv register_worker_inv heartbeat_inv reassign_timed_out_rollouts_def reassign_loop_inv
      update_attempt_inv)

lemma store_new_inv: "store_inv store_new"
  by (simp add: store_new_def store_inv_def queue_inv_def attempt_inv_def attempts_of_def ids_of_def
      span_inv_def resource_inv_def)

lemma store_reachable_inv: "store_reachable s \<Longrightarrow> store_inv s"
  by (induction rule: store_reachable.induct) (simp_all add: store_new_inv store_step_inv)

subsection \<open>Status machines\<close>

definition advances :: "'v StoreInner \<Rightarrow> 'v StoreInner \<Rightarrow> bool" where
  "advances s s' = (rollouts_advance s s' \<and> attempts_advance s s')"

lemma advances_refl [simp]: "advances s s"
  by (simp add: advances_def rollouts_advance_def attempts_advance_def)

lemma advances_frame:
  "si_rollouts s' = si_rollouts s \<Longrightarrow> si_attempts s' = si_attempts s \<Longrightarrow> advances s s'"
  by (simp add: advances_def rollouts_advance_def attempts_advance_def)

lemma advances_rollout:
  assumes "map_of (si_rollouts s) rid = None \<or> (\<exists>r. map_of (si_rollouts s) rid = Some r
      \<and> rollout_can_transition_to (ro_status r) (ro_status r'))"
    and "map_of (si_rollouts s') = (map_of (si_rollouts s))(rid \<mapsto> r')" "si_attempts s' = si_attempts s"
  shows "advances s s'"
  using assms by (auto simp: advances_def rollouts_advance_def attempts_advance_def)

lemma advances_attempt:
  assumes "map_of (si_attempts s) aid = Some a" "attempt_can_transition_to (at_status a) (at_status a')"
    "at_rollout_id a' = at_rollout_id a" "at_sequence_id a' = at_sequence_id a"
    and "map_of (si_attempts s') = (map_of (si_attempts s))(aid \<mapsto> a')" "si_rollouts s' = si_rollouts s"
  shows "advances s s'"
  using assms by (auto simp: advances_def rollouts_advance_def attempts_advance_def)

lemma enqueue_advances: "advances s (snd (enqueue_rollout r s))"
proof (cases "hm_contains (si_rollouts s) (ro_rollout_id r)")
  case False
  then show ?thesis
    by (intro advances_rollout [where rid = "ro_rollout_id r"])
      (auto simp: enqueue_rollout_def Let_def hashmap_simps map_of_eq_None_iff)
qed (simp add: enqueue_rollout_def Let_def)

lemma update_rollout_advances: "advances s (snd (update_rollout_status now rid st s))"
proof (cases "\<exists>r. map_of (si_rollouts s) rid = Some r \<and> rollout_can_transition_to (ro_status r) st")
  case True
  then show ?thesis
    by (auto simp: update_rollout_status_def Let_def hashmap_simps advances_def rollouts_advance_def attempts_advance_def)
next
  case False
  then show ?thesis by (auto simp: update_rollout_status_def split: option.splits)
qed

lemma dequeue_advances:
  assumes "store_inv s" "counts_ok s"
  shows "advances s (snd (dequeue_rollout t0 t1 t2 w s))"
proof (cases rule: dequeue_cases [of s t0 t1 t2 w])
  case idle
  then show ?thesis by (auto intro: advances_frame)
next
  case (taken pre rid rest r result s')
  have inv: "queue_inv s" "attempt_inv s" using assms by (simp_all add: store_inv_def)
  then have id: "ro_rollout_id r = rid" using taken(4) by (simp add: queue_inv_def)
  note eff = start_attempt_effect [OF taken(6) id]
  have cnt: "ro_attempt_count r < u32_max" using assms(2) taken(4) by (auto simp: counts_ok_def)
  have "attempt_inv (s\<lparr>si_queue := rest\<rparr>)" by (rule attempt_inv_change [OF inv(2)]) auto
  from attempt_inv_start(2) [OF this _ id cnt taken(6)] taken(4)
  have "map_of (si_attempts s) (at_attempt_id (dq_attempt result)) = None" by simp
  moreover have "rollout_can_transition_to (ro_status r) (ro_status (dq_rollout result))"
    using eff(1) rollout_run_sources [OF taken(5)] by (simp add: start_rollout_def)
  ultimately show ?thesis
    using taken(4) eff(3,4) unfolding taken(7)
    by (auto simp: advances_def rollouts_advance_def attempts_advance_def)
qed

lemma heartbeat_advances: "advances s (snd (update_worker_heartbeat now w rid aid s))"
proof -
  have "si_rollouts (snd (update_worker_heartbeat now w rid aid s)) = si_rollouts s"
    by (auto simp: update_worker_heartbeat_def Let_def split: option.split)
  moreover have "attempts_advance s (snd (update_worker_heartbeat now w rid aid s))"
    by (auto simp: update_worker_heartbeat_def Let_def attempts_advance_def hashmap_simps split: option.split)
  ultimately show ?thesis by (simp add: advances_def rollouts_advance_def)
qed

lemma update_attempt_advances: "advances s (snd (update_attempt_status t0 t1 aid st msg s))"
proof (cases "\<exists>a. map_of (si_attempts s) aid = Some a \<and> attempt_can_transition_to (at_status a) st")
  case True
  then obtain a where a: "map_of (si_attempts s) aid = Some a" "attempt_can_transition_to (at_status a) st" by blast
  show ?thesis
    by (rule advances_attempt [OF a(1)]) (use a in \<open>auto simp: update_attempt_status_def Let_def hashmap_simps\<close>)
next
  case False
  then show ?thesis by (auto simp: update_attempt_status_def split: option.splits)
qed

text \<open>The loop may meet a rollout several times; each time it goes to the same status.\<close>

lemma reassign_advances: "advances s (snd (reassign_loop now timeout req wids s))"
proof -
  define P where "P t = ((\<forall>rid r. map_of (si_rollouts s) rid = Some r \<longrightarrow>
        (\<exists>r'. map_of (si_rollouts t) rid = Some r' \<and> (ro_status r' = ro_status r
            \<or> rollout_can_transition_to (ro_status r) RolloutRequeuing \<and> ro_status r' = RolloutRequeuing)))
      \<and> attempts_advance s t)" for t
  have "P (snd (reassign_loop now timeout req wids s))"
  proof (rule reassign_loop_preserves)
    show "P s" by (simp add: P_def attempts_advance_def)
    show "P (clear_worker now w t)" if "P t" for t w
      using that by (simp add: P_def clear_worker_def attempts_advance_def)
    show "P (time_out_attempt now aid a t)"
      if "P t" "map_of (si_attempts t) aid = Some a" "at_status a = AttemptRunning" for t aid a
    proof -
      have "attempt_can_transition_to x AttemptTimeout" if "attempt_can_transition_to x AttemptRunning" for x
        using that by (auto simp: attempt_can_transition_to_def attempt_edges_def)
      with that show ?thesis
        by (auto simp: P_def time_out_attempt_def attempts_advance_def hashmap_simps) (metis option.inject)+
    qed
    show "P (requeue_rollout rid r t)"
      if "P t" "map_of (si_rollouts t) rid = Some r" "rollout_can_transition_to (ro_status r) RolloutRequeuing" for t rid r
      using that by (auto simp: P_def requeue_rollout_def attempts_advance_def hashmap_simps)
        (metis option.inject)+
  qed
  then show ?thesis
    unfolding P_def advances_def rollouts_advance_def by (metis rollout_can_refl)
qed

lemma store_step_advances:
  assumes "store_inv s" "counts_ok s"
  shows "advances s (store_step op s)"
proof -
  have "si_rollouts (snd (add_spans sps s)) = si_rollouts s \<and> si_attempts (snd (add_spans sps s)) = si_attempts s" for sps
    by (induction sps s rule: add_spans.induct) (simp_all add: add_span_def Let_def)
  then show ?thesis
    by (cases op) (simp_all add: enqueue_advances dequeue_advances [OF assms] update_rollout_advances cancel_rollout_def
        heartbeat_advances reassign_timed_out_rollouts_def reassign_advances update_attempt_advances advances_frame
        update_resources_def register_worker_def Let_def)
qed

subsection \<open>The queue contract\<close>

fun drain :: "('s \<Rightarrow> 'a option \<times> 's) \<Rightarrow> nat \<Rightarrow> 's \<Rightarrow> 'a option list \<times> 's" where
  "drain deq 0 s = ([], s)"
| "drain deq (Suc n) s = (let (x, s1) = deq s; (xs, s2) = drain deq n s1 in (x # xs, s2))"

text \<open>What runners rely on of a store: enqueued rollouts come back first in, first out.\<close>

locale rollout_fifo =
  fixes inv :: "'s \<Rightarrow> bool" and known :: "'s \<Rightarrow> string set" and pend :: "'s \<Rightarrow> string list"
    and enq :: "'r \<Rightarrow> 's \<Rightarrow> 's" and key :: "'r \<Rightarrow> string" and deq :: "'s \<Rightarrow> string option \<times> 's"
  assumes enq_inv: "inv s \<Longrightarrow> inv (enq r s)"
    and enq_known: "inv s \<Longrightarrow> known (enq r s) = insert (key r) (known s)"
    and enq_pend: "inv s \<Longrightarrow> key r \<notin> known s \<Longrightarrow> pend (enq r s) = pend s @ [key r]"
    and deq_inv: "inv s \<Longrightarrow> inv (snd (deq s))"
    and deq_result: "inv s \<Longrightarrow> fst (deq s) = (case pend s of [] \<Rightarrow> None | x # _ \<Rightarrow> Some x)"
    and deq_pend: "inv s \<Longrightarrow> pend (snd (deq s)) = tl (pend s)"
begin

lemma drain_pending:
  "inv s \<Longrightarrow> n = length (pend s) \<Longrightarrow> fst (drain deq n s) = map Some (pend s) \<and> pend (snd (drain deq n s)) = []"
proof (induction n arbitrary: s)
  case (Suc n)
  then obtain x xs where p: "pend s = x # xs" by (cases "pend s") auto
  have "fst (deq s) = Some x" "pend (snd (deq s)) = xs" "inv (snd (deq s))"
    using Suc.prems deq_result deq_pend deq_inv p by simp_all
  with Suc.IH [of "snd (deq s)"] Suc.prems p show ?case by (simp add: case_prod_beta)
qed simp

lemma enq_all_pend:
  "inv s \<Longrightarrow> distinct (map key rs) \<Longrightarrow> set (map key rs) \<inter> known s = {} \<Longrightarrow>
     inv (fold enq rs s) \<and> pend (fold enq rs s) = pend s @ map key rs"
proof (induction rs arbitrary: s)
  case (Cons r rs)
  then have "inv (enq r s)" "key r \<notin> known s" "set (map key rs) \<inter> known (enq r s) = {}"
    using enq_inv enq_known by auto
  with Cons enq_pend show ?case by simp
qed simp

lemma fifo:
  assumes "inv s" "distinct (map key rs)" "set (map key rs) \<inter> known s = {}"
  shows "fst (drain deq (length (pend s) + length rs) (fold enq rs s)) = map Some (pend s @ map key rs)"
  using enq_all_pend [OF assms] drain_pending [of "fold enq rs s"] by simp

end

definition dequeue_id :: "int \<Rightarrow> int \<Rightarrow> int \<Rightarrow> string \<Rightarrow> 'v StoreInner \<Rightarrow> string option \<times> 'v StoreInner" where
  "dequeue_id t0 t1 t2 w s =
     (case dequeue_rollout t0 t1 t2 w s of
        (Inr (Some d), s') \<Rightarrow> (Some (ro_rollout_id (dq_rollout d)), s')
      | (_, s') \<Rightarrow> (None, s'))"

lemma pending_after_start:
  assumes "queue_inv s" "si_queue s = pre @ rid # rest" "map_of (si_rollouts s) rid = Some r"
    and start: "start_attempt t0 t1 t2 w rid r (s\<lparr>si_queue := rest\<rparr>) = (result, s')"
  shows "pending s' = filter (eligible s) rest"
proof -
  have "ro_rollout_id r = rid" "rid \<notin> set rest" using assms(1-3) by (auto simp: queue_inv_def)
  note eff = start_attempt_effect [OF start this(1)]
  have "eligible s' x = eligible s x" if "x \<in> set rest" for x
    using that \<open>rid \<notin> set rest\<close> by (auto simp: eligible_def eff(3))
  then show ?thesis using eff(6) by (simp add: pending_def cong: filter_cong)
qed

lemma pending_enqueue:
  assumes "queue_inv s" "ro_rollout_id r \<notin> hm_keys (si_rollouts s)"
  shows "pending (snd (enqueue_rollout r s)) = pending s @ [ro_rollout_id r]"
proof -
  have "ro_rollout_id r \<notin> set (si_queue s)"
    using assms by (force simp: queue_inv_def dest: map_of_SomeD)
  then have "filter (eligible (snd (enqueue_rollout r s))) (si_queue s) = filter (eligible s) (si_queue s)"
    using assms(2) by (intro filter_cong) (auto simp: eligible_def enqueue_rollout_def Let_def hashmap_simps)
  with assms(2) show ?thesis
    by (simp add: pending_def enqueue_rollout_def Let_def hashmap_simps eligible_def)
qed

lemma dequeue_id_spec:
  assumes inv: "queue_inv s"
  shows "fst (dequeue_id t0 t1 t2 w s) = (case pending s of [] \<Rightarrow> None | x # _ \<Rightarrow> Some x)"
    "pending (snd (dequeue_id t0 t1 t2 w s)) = tl (pending s)"
    "queue_inv (snd (dequeue_id t0 t1 t2 w s))"
proof -
  have "fst (dequeue_id t0 t1 t2 w s) = (case pending s of [] \<Rightarrow> None | x # _ \<Rightarrow> Some x)
      \<and> pending (snd (dequeue_id t0 t1 t2 w s)) = tl (pending s)"
  proof (cases rule: dequeue_cases [of s t0 t1 t2 w])
    case (taken pre rid rest r result s')
    have "ro_rollout_id r = rid" using inv taken(4) by (simp add: queue_inv_def)
    then have "ro_rollout_id (dq_rollout result) = rid"
      using start_attempt_effect(1) [OF taken(6)] by (simp add: start_rollout_def)
    then show ?thesis
      using taken(3,7) pending_after_start [OF inv taken(1,4,6)] by (simp add: dequeue_id_def)
  qed (simp add: dequeue_id_def pending_def)
  then show "fst (dequeue_id t0 t1 t2 w s) = (case pending s of [] \<Rightarrow> None | x # _ \<Rightarrow> Some x)"
    "pending (snd (dequeue_id t0 t1 t2 w s)) = tl (pending s)" by simp_all
  show "queue_inv (snd (dequeue_id t0 t1 t2 w s))"
    using dequeue_queue_inv [OF inv, of t0 t1 t2 w]
    by (auto simp: dequeue_id_def split: prod.split sum.split option.split)
qed

lemma enqueue_known:
  "hm_keys (si_rollouts (snd (enqueue_rollout r s))) = insert (ro_rollout_id r) (hm_keys (si_rollouts s))"
  by (auto simp: enqueue_rollout_def Let_def hashmap_simps dom_update)

interpretation mem: rollout_fifo queue_inv "\<lambda>s. hm_keys (si_rollouts s)" pending
  "\<lambda>r s. snd (enqueue_rollout r s)" ro_rollout_id "dequeue_id t0 t1 t2 w"
  by unfold_locales (rule enqueue_queue_inv enqueue_known pending_enqueue dequeue_id_spec; assumption)+

end
