(* ===== verification/Training_Properties.thy ===== *)
theory Training_Properties
  imports Training_Invariants
begin

text \<open>
  Reassignment of timed-out rollouts, spans, resources and paging of the training store, and the
  properties of the store as a whole.
\<close>

subsection \<open>Reassignment is complete\<close>

definition overdue :: "int \<Rightarrow> int \<Rightarrow> Attempt \<Rightarrow> bool" where
  "overdue now timeout a = (at_status a = AttemptRunning \<and> timeout < max 0 (now - at_last_heartbeat_at a))"

definition quiet :: "int \<Rightarrow> int \<Rightarrow> 'v StoreInner \<Rightarrow> string \<Rightarrow> bool" where
  "quiet now timeout s w = (\<forall>rid aid a. active_of s w = Some (rid, aid) \<longrightarrow> map_of (si_attempts s) aid = Some a
     \<longrightarrow> \<not> overdue now timeout a)"

lemma active_of_clear:
  "active_of (clear_worker now w s) x = (if x = w then None else active_of s x)"
  by (auto simp: active_of_def clear_worker_def hashmap_simps split: option.split)

lemma active_of_other [simp]:
  "active_of (time_out_attempt now aid a s) = active_of s" "active_of (requeue_rollout rid r s) = active_of s"
  by (simp_all add: active_of_def time_out_attempt_def requeue_rollout_def fun_eq_iff)

lemma quiet_clear:
  "quiet now timeout (clear_worker n w s) w" "quiet now timeout s x \<Longrightarrow> quiet now timeout (clear_worker n w s) x"
  by (auto simp: quiet_def active_of_clear, auto simp: clear_worker_def)

lemma quiet_requeue: "quiet now timeout (requeue_rollout rid r s) x = quiet now timeout s x"
  by (simp add: quiet_def) (simp add: requeue_rollout_def)

lemma quiet_time_out:
  "quiet now timeout s x \<Longrightarrow> quiet now timeout (time_out_attempt n aid a s) x"
  by (simp add: quiet_def) (auto simp: time_out_attempt_def hashmap_simps overdue_def)

lemma pending_clear [simp]: "pending (clear_worker now w s) = pending s"
  by (simp add: pending_def eligible_def clear_worker_def cong: filter_cong)

lemma pending_time_out [simp]: "pending (time_out_attempt now aid a s) = pending s"
  by (simp add: pending_def eligible_def time_out_attempt_def cong: filter_cong)

lemma set_pending_requeue: "set (pending (requeue_rollout rid r s)) = insert rid (set (pending s))"
  by (auto simp: pending_def eligible_def requeue_rollout_def hashmap_simps)

text \<open>When the loop succeeds, no worker it visited is left with an overdue attempt, and every rollout
  it reports waits in the queue.\<close>

lemma reassign_loop_complete:
  assumes "reassign_loop now timeout req wids s = (Inr req', s')"
    and "\<And>w. w \<in> D \<Longrightarrow> quiet now timeout s w" "set req \<subseteq> set (pending s)"
  shows "(\<forall>w \<in> D \<union> set wids. quiet now timeout s' w) \<and> set req' \<subseteq> set (pending s')"
  using assms
proof (induction wids arbitrary: req s D)
  case (Cons wid wids)
  have step: ?case
    if "reassign_loop now timeout req1 wids s1 = (Inr req', s')" "\<And>w. w \<in> insert wid D \<Longrightarrow> quiet now timeout s1 w"
      "set req1 \<subseteq> set (pending s1)" for req1 s1
    using Cons.IH [OF that] by auto
  show ?case
  proof (cases "active_of s wid")
    case None
    show ?thesis by (rule step [of req s]) (use Cons.prems None in \<open>auto simp: quiet_def\<close>)
  next
    case (Some p)
    obtain rid aid where p: "active_of s wid = Some (rid, aid)" using Some by (cases p) simp
    show ?thesis
    proof (cases "map_of (si_attempts s) aid")
      case None
      show ?thesis
        by (rule step [of req "clear_worker now wid s"]) (use Cons.prems None p in \<open>auto simp: quiet_clear\<close>)
    next
      case (Some a)
      show ?thesis
      proof (cases "overdue now timeout a")
        case False
        then have "at_status a \<noteq> AttemptRunning \<or> max 0 (now - at_last_heartbeat_at a) \<le> timeout"
          by (auto simp: overdue_def not_less)
        then have "reassign_loop now timeout req wids s = (Inr req', s')"
          using Cons.prems(1) p Some
          by (cases "at_status a = AttemptRunning") (simp_all del: max.bounded_iff)
        then show ?thesis
          by (rule step) (use Cons.prems False Some p in \<open>auto simp: quiet_def\<close>)
      next
        case True
        let ?s1 = "time_out_attempt now aid a s"
        have can: "attempt_can_transition_to (at_status a) AttemptTimeout"
          using True by (simp add: overdue_def attempt_can_transition_to_def attempt_edges_def)
        have q1: "quiet now timeout ?s1 w" if "w \<in> D" for w using Cons.prems(2) [OF that] by (rule quiet_time_out)
        have run: "at_status a = AttemptRunning" "\<not> max 0 (now - at_last_heartbeat_at a) \<le> timeout"
          using True by (simp_all add: overdue_def del: max.bounded_iff)
        show ?thesis
        proof (cases "map_of (si_rollouts ?s1) rid")
          case None
          show ?thesis
            by (rule step [of req "clear_worker now wid ?s1"])
              (use Cons.prems None Some p can run q1 in \<open>auto simp: quiet_clear Let_def simp del: max.bounded_iff\<close>)
        next
          case (Some r)
          let ?req = "if rid \<in> set req then req else req @ [rid]"
          have "rollout_can_transition_to (ro_status r) RolloutRequeuing"
            using Cons.prems(1) p \<open>map_of (si_attempts s) aid = Some a\<close> Some can run
            by (auto simp: Let_def simp del: max.bounded_iff split: if_splits)
          then show ?thesis
            by (intro step [of ?req "clear_worker now wid (requeue_rollout rid r ?s1)"])
              (use Cons.prems p \<open>map_of (si_attempts s) aid = Some a\<close> Some can run q1 in
                \<open>auto simp: quiet_clear quiet_requeue set_pending_requeue Let_def simp del: max.bounded_iff\<close>)
        qed
      qed
    qed
  qed
qed auto

text \<open>Only rollouts that some worker has as its active one are requeued.\<close>

lemma reassign_only_active:
  assumes "reassign_loop now timeout req wids s = (Inr req', s')" "x \<notin> set req"
    and "\<And>w aid. active_of s w \<noteq> Some (x, aid)"
  shows "x \<notin> set req'"
  using assms
proof (induction wids arbitrary: req s)
  case (Cons wid wids)
  show ?case
  proof (cases "active_of s wid")
    case None
    with Cons show ?thesis by simp
  next
    case (Some p)
    obtain rid aid where p: "active_of s wid = Some (rid, aid)" "rid \<noteq> x"
      using Some Cons.prems(3) by (cases p) auto
    have rest: "x \<notin> set req'"
      if "reassign_loop now timeout req1 wids (clear_worker now wid t) = (Inr req', s')" "x \<notin> set req1"
        "active_of t = active_of s" for req1 t
      by (rule Cons.IH [OF that(1,2)]) (use Cons.prems(3) that(3) in \<open>simp add: active_of_clear\<close>)
    have same: "x \<notin> set req'" if "reassign_loop now timeout req wids s = (Inr req', s')"
      using Cons.IH [OF that Cons.prems(2,3)] .
    show ?thesis
    proof (cases "map_of (si_attempts s) aid")
      case None
      with Cons.prems(1,2) p rest [of req s] show ?thesis by simp
    next
      case (Some a)
      let ?s1 = "time_out_attempt now aid a s"
      from Cons.prems(1,2) p Some same rest [of req ?s1] rest [of _ "requeue_rollout rid _ ?s1"] show ?thesis
        by (cases "map_of (si_rollouts ?s1) rid")
          (auto simp: Let_def simp del: max.bounded_iff split: if_splits)
    qed
  qed
qed simp

subsection \<open>Spans, resources and pages\<close>

lemma span_after_add:
  "sp_rollout_id span = rid \<Longrightarrow> sp_attempt_id span = aid \<Longrightarrow>
   mset (query_spans rid (Some aid) (snd (add_span span s))) = add_mset span (mset (query_spans rid (Some aid) s))"
  by (auto simp: query_spans_def add_span_def Let_def spans_of_def hashmap_simps)

lemma next_sequence_fresh:
  assumes "sp \<in> set (query_spans rid (Some aid) s)" "\<forall>x \<in> set (query_spans rid (Some aid) s). sp_sequence_id x < u64_max"
  shows "sp_sequence_id sp < get_next_span_sequence_id rid aid s"
proof -
  let ?l = "map sp_sequence_id (query_spans rid (Some aid) s)"
  have "max_or_0 ?l \<le> u64_max - 1" unfolding max_or_0_le_iff using assms(2) by fastforce
  then have "u64_add (max_or_0 ?l) 1 = max_or_0 ?l + 1" by (simp add: u64_add_def)
  moreover have "sp_sequence_id sp \<le> max_or_0 ?l" using assms(1) by (intro max_or_0_upper) simp
  ultimately show ?thesis by (simp add: get_next_span_sequence_id_def query_spans_def)
qed

lemma spans_sorted: "span_inv s \<Longrightarrow> sorted (map sp_sequence_id (query_spans rid aid s))"
  by (auto simp: query_spans_def span_inv_def spans_of_def split: option.splits)

lemma find_nth_unique:
  assumes "i < length xs" "P (xs ! i)" "\<And>j. j < length xs \<Longrightarrow> P (xs ! j) \<Longrightarrow> j = i"
  shows "find P xs = Some (xs ! i)"
proof -
  have "\<not> P (xs ! j)" if "j < i" for j using assms(3) [of j] assms(1) that by auto
  with assms(1,2) show ?thesis unfolding find_Some_iff by blast
qed

lemma resource_lookup:
  assumes "resource_inv s" "i < length (si_resources s)"
  shows "get_resources_by_id (''resources-'' @ show_nat (i + 1)) s = Some (si_resources s ! i)"
  unfolding get_resources_by_id_def
  by (rule find_nth_unique) (use assms in \<open>auto simp: resource_inv_def show_nat_inject\<close>)

lemma latest_after_update:
  assumes "update_resources now rs s = (Inr u, s')"
  shows "get_latest_resources s' = Some u" "ru_resources u = rs" "ru_version u = length (si_resources s) + 1"
    "si_resources s' = map (\<lambda>u. u\<lparr>ru_is_latest := False\<rparr>) (si_resources s) @ [u]"
    "ru_resources_id u = ''resources-'' @ show_nat (length (si_resources s) + 1)"
  using assms by (auto simp: update_resources_def Let_def get_latest_resources_def)

lemma query_page:
  "query_rollouts (q\<lparr>rq_offset := off, rq_limit := Some n\<rparr>) s
     = take n (drop off (query_rollouts (q\<lparr>rq_offset := 0, rq_limit := None\<rparr>) s))"
  by (simp add: query_rollouts_def query_matches_def [abs_def] Let_def min_def)

lemma pages_concat:
  "concat (map (\<lambda>i. query_rollouts (q\<lparr>rq_offset := i * n, rq_limit := Some n\<rparr>) s) [0..<k])
     = take (k * n) (query_rollouts (q\<lparr>rq_offset := 0, rq_limit := None\<rparr>) s)"
proof (induction k)
  case (Suc k)
  have "take (Suc k * n) l = take (k * n) l @ take n (drop (k * n) l)" for l :: "'a Rollout list"
    by (simp add: add.commute [of n] take_add)
  with Suc show ?case by (simp add: query_page)
qed simp

subsection \<open>Properties\<close>

definition sample_rollout :: "string \<Rightarrow> unit Rollout" where
  "sample_rollout rid = rollout_new rid () None"

lemmas store_eval = enqueue_rollout_def dequeue_rollout_def update_rollout_status_def start_attempt_def
  start_rollout_def attempt_new_def assign_worker_def sample_rollout_def rollout_new_def store_new_def
  default_rollout_config_def hm_contains_def Let_def u32_add_def rollout_can_transition_to_def rollout_edges_def
  reassign_timed_out_rollouts_def active_of_def clear_worker_def time_out_attempt_def requeue_rollout_def
  hm_modify_def attempt_can_transition_to_def attempt_edges_def rollout_is_terminal_def

lemma sample_counts_ok: "counts_ok (store_new :: unit StoreInner)"
  by (simp add: counts_ok_def store_new_def)

text \<open>C4. In every reachable state of the training store the rollout map, the queue, the attempts, the
  per-rollout attempt lists, the spans and the resource versions fit together; in particular the
  queue has no duplicates, every rollout in status \<open>Queuing\<close> is in the queue, attempt ids are the ones
  derived from rollout and sequence number, and an attempt has an end time exactly when its status is
  terminal.\<close>

theorem training_store_invariant:
  assumes "store_reachable s"
  shows "queue_inv s \<and> attempt_inv s \<and> span_inv s \<and> resource_inv s"
  using store_reachable_inv [OF assms] by (simp add: store_inv_def)

theorem training_store_invariant_witness:
  "queue_inv (store_step (EnqueueOp (sample_rollout ''r'')) store_new)
    \<and> attempt_inv (store_step (EnqueueOp (sample_rollout ''r'')) store_new)
    \<and> span_inv (store_step (EnqueueOp (sample_rollout ''r'')) store_new)
    \<and> resource_inv (store_step (EnqueueOp (sample_rollout ''r'')) store_new)"
  by (rule training_store_invariant [OF store_next [OF store_init sample_counts_ok]])



text \<open>C26. The queue is first in, first out: rollouts with new ids that are enqueued one after the other
  are handed out by the following dequeues after everything that was already waiting, each once and
  in the order of enqueuing.\<close>

theorem dequeue_order_is_fifo:
  assumes "store_reachable s" and "distinct (map ro_rollout_id rs)"
    and "set (map ro_rollout_id rs) \<inter> hm_keys (si_rollouts s) = {}"
  shows "fst (drain (dequeue_id t0 t1 t2 w) (length (pending s) + length rs)
      (fold (\<lambda>r s. snd (enqueue_rollout r s)) rs s)) = map Some (pending s @ map ro_rollout_id rs)"
  by (rule mem.fifo [OF _ assms(2,3)]) (use store_reachable_inv [OF assms(1)] in \<open>simp add: store_inv_def\<close>)

theorem dequeue_order_is_fifo_witness:
  "fst (drain (dequeue_id 0 0 0 ''w'') (length (pending (store_new :: unit StoreInner)) + 2)
      (fold (\<lambda>r s. snd (enqueue_rollout r s)) [sample_rollout ''a'', sample_rollout ''b''] store_new))
    = map Some (pending (store_new :: unit StoreInner) @ [''a'', ''b''])"
  using dequeue_order_is_fifo [OF store_init, of "[sample_rollout ''a'', sample_rollout ''b'']" 0 0 0 "''w''"]
  by (simp add: sample_rollout_def rollout_new_def store_new_def del: drain.simps)

text \<open>C36. A dequeue never comes back empty while some rollout is in status \<open>Queuing\<close>. What it returns was
  waiting, is now running and assigned to the caller, and its attempt is running under an id that no
  attempt had before.\<close>

theorem dequeue_finds_queued_work:
  assumes "store_reachable s" and "counts_ok s"
    and "map_of (si_rollouts s) rid = Some r" and "ro_status r = RolloutQueuing"
  shows "\<exists>d s'. dequeue_rollout t0 t1 t2 w s = (Inr (Some d), s')
    \<and> ro_rollout_id (dq_rollout d) = hd (pending s)
    \<and> ro_status (dq_rollout d) = RolloutRunning \<and> ro_assigned_worker_id (dq_rollout d) = Some w
    \<and> map_of (si_attempts s) (at_attempt_id (dq_attempt d)) = None
    \<and> get_attempt (at_attempt_id (dq_attempt d)) s' = Some (dq_attempt d)
    \<and> at_status (dq_attempt d) = AttemptRunning"
proof -
  have inv: "queue_inv s" "attempt_inv s" using store_reachable_inv [OF assms(1)] by (simp_all add: store_inv_def)
  have "rid \<in> set (pending s)" using inv(1) assms(3,4) by (auto simp: queue_inv_def pending_def eligible_def)
  then show ?thesis
  proof (cases rule: dequeue_cases [of s t0 t1 t2 w])
    case (taken pre x rest y result s')
    have id: "ro_rollout_id y = x" using inv(1) taken(4) by (simp add: queue_inv_def)
    note eff = start_attempt_effect [OF taken(6) id]
    have cnt: "ro_attempt_count y < u32_max" using assms(2) taken(4) by (auto simp: counts_ok_def)
    have "attempt_inv (s\<lparr>si_queue := rest\<rparr>)" by (rule attempt_inv_change [OF inv(2)]) auto
    from attempt_inv_start(2) [OF this _ id cnt taken(6)] taken(4)
    have "map_of (si_attempts s) (at_attempt_id (dq_attempt result)) = None" by simp
    then show ?thesis using taken(3,7) eff(1,2,4) id
      by (simp add: get_attempt_def start_rollout_def attempt_new_def)
  qed simp
qed

theorem dequeue_finds_queued_work_witness:
  "\<exists>d s'. dequeue_rollout 0 0 0 ''w'' (store_step (EnqueueOp (sample_rollout ''r'')) store_new) = (Inr (Some d), s')"
proof -
  let ?s = "store_step (EnqueueOp (sample_rollout ''r'')) store_new"
  have "map_of (si_rollouts ?s) ''r'' = Some (sample_rollout ''r'')" "counts_ok ?s"
    by (auto simp: store_eval counts_ok_def)
  moreover have "ro_status (sample_rollout ''r'') = RolloutQueuing" by (simp add: sample_rollout_def rollout_new_def)
  ultimately show ?thesis
    using dequeue_finds_queued_work [OF store_next [OF store_init sample_counts_ok]] by blast
qed

text \<open>A reassignment that succeeds leaves none of the workers it was given with a running attempt
  older than the timeout, and every rollout it reports is waiting in the queue again.\<close>

theorem reassign_requeues_overdue:
  assumes "reassign_timed_out_rollouts now timeout worker_ids s = (Inr requeued, s')"
  shows "set requeued \<subseteq> set (pending s')
    \<and> (\<forall>w rid aid a. w \<in> set worker_ids \<and> active_of s' w = Some (rid, aid) \<and> get_attempt aid s' = Some a
         \<longrightarrow> \<not> overdue now timeout a)"
  using reassign_loop_complete [OF assms [unfolded reassign_timed_out_rollouts_def], of "{}"]
  by (auto simp: quiet_def get_attempt_def)

definition busy_store :: "unit StoreInner" where
  "busy_store = snd (dequeue_rollout 0 0 0 ''w'' (snd (enqueue_rollout (sample_rollout ''r'') store_new)))"

theorem reassign_requeues_overdue_witness:
  "\<exists>s'. reassign_timed_out_rollouts 100 10 [''w''] busy_store = (Inr [''r''], s') \<and> set [''r''] \<subseteq> set (pending s')"
proof -
  obtain s' where "reassign_timed_out_rollouts 100 10 [''w''] busy_store = (Inr [''r''], s')"
    by (simp add: busy_store_def store_eval)
  with reassign_requeues_overdue [OF this] show ?thesis by blast
qed

text \<open>Moving a running rollout to \<open>Requeuing\<close> with \<open>update_rollout_status\<close> is accepted but does not
  put it back into the queue: the rollout waits to be run again and no dequeue ever finds it.\<close>

theorem requeue_by_status_is_lost:
  "\<exists>s r. store_reachable (s :: unit StoreInner) \<and> map_of (si_rollouts s) ''r'' = Some r
     \<and> ro_status r = RolloutRequeuing
     \<and> (\<forall>t0 t1 t2 w. \<exists>s'. dequeue_rollout t0 t1 t2 w s = (Inr None, s'))"
proof -
  let ?s0 = "store_new :: unit StoreInner"
  let ?s1 = "store_step (EnqueueOp (sample_rollout ''r'')) ?s0"
  let ?s2 = "store_step (DequeueOp 0 0 0 ''w'') ?s1"
  let ?s3 = "store_step (UpdateRolloutOp 0 ''r'' RolloutRequeuing) ?s2"
  have "counts_ok ?s1" "counts_ok ?s2" by (auto simp: store_eval counts_ok_def)
  then have "store_reachable ?s3"
    using store_init sample_counts_ok by (intro store_next)
  moreover have "\<exists>r. map_of (si_rollouts ?s3) ''r'' = Some r \<and> ro_status r = RolloutRequeuing" by (simp add: store_eval)
  moreover have "\<exists>s'. dequeue_rollout t0 t1 t2 w ?s3 = (Inr None, s')" for t0 t1 t2 w by (simp add: store_eval)
  ultimately show ?thesis by blast
qed

text \<open>The configured maximum of attempts is not enforced: after one heartbeat timeout the store hands
  out a second attempt of a rollout whose \<open>max_attempts\<close> is 1.\<close>

theorem max_attempts_not_enforced:
  "\<exists>s r. store_reachable (s :: unit StoreInner) \<and> map_of (si_rollouts s) ''r'' = Some r
     \<and> ro_status r = RolloutRunning \<and> rc_max_attempts (ro_config r) = 1 \<and> ro_attempt_count r = 2"
proof -
  let ?s0 = "store_new :: unit StoreInner"
  let ?s1 = "store_step (EnqueueOp (sample_rollout ''r'')) ?s0"
  let ?s2 = "store_step (DequeueOp 0 0 0 ''w'') ?s1"
  let ?s3 = "store_step (ReassignOp 100 10 [''w'']) ?s2"
  let ?s4 = "store_step (DequeueOp 100 100 100 ''v'') ?s3"
  have "counts_ok ?s1" "counts_ok ?s2" "counts_ok ?s3" by (auto simp: store_eval counts_ok_def)
  then have "store_reachable ?s4" using store_init sample_counts_ok by (intro store_next)
  moreover have "\<exists>r. map_of (si_rollouts ?s4) ''r'' = Some r \<and> ro_status r = RolloutRunning
      \<and> rc_max_attempts (ro_config r) = 1 \<and> ro_attempt_count r = 2"
    by (simp add: store_eval)
  ultimately show ?thesis by blast
qed

text \<open>A worker that dequeues a second rollout while its first attempt is still running orphans the
  first one: the store remembers one active attempt per worker, so no reassignment ever requeues the
  earlier rollout, however long its heartbeat is overdue.\<close>

theorem second_dequeue_orphans_first:
  "\<exists>s. store_reachable (s :: unit StoreInner)
     \<and> (\<exists>a. get_attempt (attempt_id_for ''a'' 1) s = Some a \<and> overdue 100 10 a)
     \<and> (\<forall>ws. case reassign_timed_out_rollouts 100 10 ws s of
               (Inr requeued, s') \<Rightarrow> ''a'' \<notin> set requeued | (Inl _, _) \<Rightarrow> True)"
proof -
  let ?s0 = "store_new :: unit StoreInner"
  let ?s1 = "store_step (EnqueueOp (sample_rollout ''a'')) ?s0"
  let ?s2 = "store_step (EnqueueOp (sample_rollout ''b'')) ?s1"
  let ?s3 = "store_step (DequeueOp 0 0 0 ''w'') ?s2"
  let ?s4 = "store_step (DequeueOp 0 0 0 ''w'') ?s3"
  have "counts_ok ?s1" "counts_ok ?s2" "counts_ok ?s3" by (auto simp: store_eval counts_ok_def)
  then have "store_reachable ?s4" using store_init sample_counts_ok by (intro store_next)
  moreover have "\<exists>a. get_attempt (attempt_id_for ''a'' 1) ?s4 = Some a \<and> overdue 100 10 a"
    by (simp add: store_eval get_attempt_def overdue_def attempt_id_for_def)
  moreover have "''a'' \<notin> set requeued"
    if "reassign_timed_out_rollouts 100 10 ws ?s4 = (Inr requeued, s')" for ws requeued s'
  proof -
    have "active_of ?s4 w \<noteq> Some (''a'', aid)" for w aid by (simp add: store_eval)
    then show ?thesis
      using that reassign_only_active [of 100 10 "[]" ws ?s4 requeued s' "''a''"]
      by (simp add: reassign_timed_out_rollouts_def)
  qed
  then have "case reassign_timed_out_rollouts 100 10 ws ?s4 of
      (Inr requeued, s') \<Rightarrow> ''a'' \<notin> set requeued | (Inl _, _) \<Rightarrow> True" for ws
    by (auto split: prod.split sum.split)
  ultimately show ?thesis by blast
qed

text \<open>Pages of a rollout query, read with consecutive offsets and the page size as limit, put together
  are the complete answer: nothing is skipped or repeated.\<close>

theorem query_pages_cover:
  assumes "length (query_rollouts (q\<lparr>rq_offset := 0, rq_limit := None\<rparr>) s) \<le> k * n"
  shows "concat (map (\<lambda>i. query_rollouts (q\<lparr>rq_offset := i * n, rq_limit := Some n\<rparr>) s) [0..<k])
    = query_rollouts (q\<lparr>rq_offset := 0, rq_limit := None\<rparr>) s"
  using assms by (simp add: pages_concat)

theorem query_pages_cover_witness:
  "concat (map (\<lambda>i. query_rollouts (\<lparr>rq_statuses = None, rq_mode = None, rq_ids = None, rq_limit = None, rq_offset = 0\<rparr>
      \<lparr>rq_offset := i * 1, rq_limit := Some 1\<rparr>) busy_store) [0..<2])
    = query_rollouts (\<lparr>rq_statuses = None, rq_mode = None, rq_ids = None, rq_limit = None, rq_offset = 0\<rparr>
      \<lparr>rq_offset := 0, rq_limit := None\<rparr>) busy_store"
  by (rule query_pages_cover) (simp add: busy_store_def store_eval query_rollouts_def query_matches_def)

text \<open>Resource snapshots are versioned without gaps: after \<open>n\<close> updates the next one returns
  version \<open>n + 1\<close>, it is the latest one, and every earlier snapshot can still be read by its id with the
  contents it had.\<close>

theorem resource_versions:
  assumes "store_reachable s" and "counts_ok s" and "update_resources now rs s = (Inr u, s')"
  shows "ru_version u = length (si_resources s) + 1 \<and> get_latest_resources s' = Some u
    \<and> get_resources_by_id (ru_resources_id u) s' = Some u
    \<and> (\<forall>i < length (si_resources s). \<exists>old.
         get_resources_by_id (ru_resources_id (si_resources s ! i)) s' = Some old
         \<and> ru_resources old = ru_resources (si_resources s ! i) \<and> \<not> ru_is_latest old)"
proof -
  note upd = latest_after_update [OF assms(3)]
  have "store_reachable s'" using store_next [OF assms(1,2), of "UpdateResourcesOp now rs"] assms(3) by simp
  then have inv: "resource_inv s" "resource_inv s'"
    using store_reachable_inv [of s] store_reachable_inv [of s'] assms(1) by (simp_all add: store_inv_def)
  have "get_resources_by_id (ru_resources_id u) s' = Some u"
    using resource_lookup [OF inv(2), of "length (si_resources s)"] upd(4,5) by (simp add: nth_append)
  moreover have "\<exists>old. get_resources_by_id (ru_resources_id (si_resources s ! i)) s' = Some old
      \<and> ru_resources old = ru_resources (si_resources s ! i) \<and> \<not> ru_is_latest old" if "i < length (si_resources s)" for i
    using resource_lookup [OF inv(2), of i] that inv(1) upd(4) by (simp add: nth_append resource_inv_def)
  ultimately show ?thesis using upd(1,3) by blast
qed

theorem resource_versions_witness:
  "\<exists>u s'. update_resources 5 [(''k'', ())] store_new = (Inr u, s')
     \<and> ru_version u = length (si_resources (store_new :: unit StoreInner)) + 1 \<and> get_latest_resources s' = Some u"
proof -
  obtain u s' where u: "update_resources 5 [(''k'', ())] store_new = (Inr u, s')"
    by (simp add: update_resources_def Let_def)
  with resource_versions [OF store_init sample_counts_ok u] show ?thesis by blast
qed

text \<open>The next sequence number of an attempt's spans is above all stored ones, and adding a span
  keeps the answers of span queries sorted and adds exactly that span.\<close>

theorem span_sequence_numbers:
  assumes "store_reachable s" and "\<forall>x \<in> set (query_spans rid (Some aid) s). sp_sequence_id x < u64_max"
    and "sp_rollout_id span = rid" "sp_attempt_id span = aid"
  shows "(\<forall>sp \<in> set (query_spans rid (Some aid) s). sp_sequence_id sp < get_next_span_sequence_id rid aid s)
    \<and> sorted (map sp_sequence_id (query_spans rid (Some aid) (snd (add_span span s))))
    \<and> mset (query_spans rid (Some aid) (snd (add_span span s))) = add_mset span (mset (query_spans rid (Some aid) s))"
  using next_sequence_fresh [OF _ assms(2)] span_after_add [OF assms(3,4), of s]
    spans_sorted [of "snd (add_span span s)" rid "Some aid"]
    add_span_inv [OF store_reachable_inv [OF assms(1)], of span]
  unfolding store_inv_def by blast

theorem span_sequence_numbers_witness:
  "mset (query_spans ''r'' (Some ''a'') (snd (add_span (span_new ''r'' ''a'' 1 ''t'' ''s'' None ''n'' 0 :: unit TrainingSpan) store_new)))
    = add_mset (span_new ''r'' ''a'' 1 ''t'' ''s'' None ''n'' 0) (mset (query_spans ''r'' (Some ''a'') store_new))"
proof -
  have "query_spans ''r'' (Some ''a'') (store_new :: unit StoreInner) = []"
    by (simp add: query_spans_def spans_of_def store_new_def)
  moreover have "sp_rollout_id (span_new r a 1 t u p n 0) = r" "sp_attempt_id (span_new r a 1 t u p n 0) = a" for r a t u p n
    by (simp_all add: span_new_def)
  ultimately show ?thesis by (intro span_sequence_numbers [OF store_init, THEN conjunct2, THEN conjunct2]) simp_all
qed

end
