(* ===== verification/Training_Payloads.thy ===== *)
theory Training_Payloads
  imports Training_Types Rust_Float
begin

text \<open>
  The reinforcement-learning payloads of \<open>crates/tau-training-types/src/lib.rs\<close> (trajectories,
  advantage batches, checkpoints, bundles), their \<open>validate\<close> methods with every error branch, and
  \<open>resolve_checkpoint_lineage_path\<close>. The JSON accessor \<open>Value::as_str\<close> is an argument. The validators
  are shown to accept exactly the payloads of a closed description, and the lineage walk to return
  exactly the path from a root to the leaf.
\<close>

abbreviation RL_SCHEMA_VERSION_V1 :: nat where "RL_SCHEMA_VERSION_V1 \<equiv> 1"

datatype RlSchemaError =
    UnsupportedSchemaVersion string nat "nat list"
  | EmptyField string string
  | OutOfRange string string f64
  | LengthMismatch string string nat string nat
  | StepIndexMismatch string nat nat nat
  | NonFinite string string

datatype RlBundleError =
    TrajectorySchema RlSchemaError
  | AdvantageSchema RlSchemaError
  | BundleCheckpointSchema RlSchemaError
  | TrajectoryIdMismatch string string
  | StepAdvantageLengthMismatch nat nat
  | CheckpointGlobalStepMismatch nat nat

datatype CheckpointLineageError =
    CheckpointSchema string RlSchemaError
  | DuplicateCheckpointId string
  | UnknownLeafCheckpoint string
  | MissingParentCheckpoint string string
  | LineageCycleDetected string

definition ensure_supported_rl_schema :: "string \<Rightarrow> nat \<Rightarrow> RlSchemaError + unit" where
  "ensure_supported_rl_schema type_name version =
     (if version = RL_SCHEMA_VERSION_V1 then Inr ()
      else Inl (UnsupportedSchemaVersion type_name version [RL_SCHEMA_VERSION_V1]))"

text \<open>\<open>map_err\<close>.\<close>

definition map_err :: "('e \<Rightarrow> 'f) \<Rightarrow> 'e + 'a \<Rightarrow> 'f + 'a" where
  "map_err f r = (case r of Inl e \<Rightarrow> Inl (f e) | Inr x \<Rightarrow> Inr x)"

text \<open>\<open>if condition { return Err(error) }\<close>.\<close>

definition ensure :: "bool \<Rightarrow> 'e \<Rightarrow> 'e + unit" where
  "ensure ok e = (if ok then Inr () else Inl e)"

subsection \<open>Trajectories\<close>

record 'v TrajectoryStep =
  ts_step_index :: nat
  ts_observation :: 'v
  ts_action :: 'v
  ts_reward :: f64
  ts_done :: bool
  ts_logprob :: "f64 option"
  ts_value_estimate :: "f64 option"
  ts_metadata :: "(string, 'v) hash_map"

definition step_new :: "nat \<Rightarrow> 'v \<Rightarrow> 'v \<Rightarrow> f64 \<Rightarrow> bool \<Rightarrow> 'v TrajectoryStep" where
  "step_new i observation action reward finished =
     \<lparr>ts_step_index = i, ts_observation = observation, ts_action = action, ts_reward = reward,
      ts_done = finished, ts_logprob = None, ts_value_estimate = None, ts_metadata = []\<rparr>"

definition opt_finite :: "f64 option \<Rightarrow> bool" where
  "opt_finite v = (case v of None \<Rightarrow> True | Some x \<Rightarrow> f64_is_finite x)"

definition step_validate :: "'v TrajectoryStep \<Rightarrow> RlSchemaError + unit" where
  "step_validate st =
     and_then (ensure (f64_is_finite (ts_reward st)) (NonFinite ''TrajectoryStep'' ''reward'')) (\<lambda>_.
     and_then (ensure (opt_finite (ts_logprob st)) (NonFinite ''TrajectoryStep'' ''logprob'')) (\<lambda>_.
       ensure (opt_finite (ts_value_estimate st)) (NonFinite ''TrajectoryStep'' ''value_estimate'')))"

record 'v EpisodeTrajectory =
  et_schema_version :: nat
  et_trajectory_id :: string
  et_rollout_id :: "string option"
  et_episode_id :: "string option"
  et_steps :: "'v TrajectoryStep list"
  et_discount_factor :: f64
  et_total_return :: f64
  et_created_at :: int
  et_metadata :: "(string, 'v) hash_map"

text \<open>\<open>position as u32\<close> truncates.\<close>

fun steps_validate :: "nat \<Rightarrow> 'v TrajectoryStep list \<Rightarrow> RlSchemaError + unit" where
  "steps_validate position [] = Inr ()"
| "steps_validate position (st # sts) =
     (let expected = position mod 2 ^ 32 in
      if ts_step_index st \<noteq> expected
      then Inl (StepIndexMismatch ''EpisodeTrajectory'' expected (ts_step_index st) position)
      else and_then (step_validate st) (\<lambda>_. steps_validate (position + 1) sts))"

definition trajectory_validate :: "'v EpisodeTrajectory \<Rightarrow> RlSchemaError + unit" where
  "trajectory_validate t =
     and_then (ensure_supported_rl_schema ''EpisodeTrajectory'' (et_schema_version t)) (\<lambda>_.
     and_then (ensure (et_steps t \<noteq> []) (EmptyField ''EpisodeTrajectory'' ''steps'')) (\<lambda>_.
     and_then (ensure (f64_in_unit (et_discount_factor t))
        (OutOfRange ''EpisodeTrajectory'' ''discount_factor'' (et_discount_factor t))) (\<lambda>_.
     and_then (ensure (f64_is_finite (et_total_return t)) (NonFinite ''EpisodeTrajectory'' ''total_return'')) (\<lambda>_.
       steps_validate 0 (et_steps t)))))"

subsection \<open>Advantage batches\<close>

record 'v AdvantageBatch =
  ab_schema_version :: nat
  ab_batch_id :: string
  ab_trajectory_id :: string
  ab_advantages :: "f64 list"
  ab_returns :: "f64 list"
  ab_value_targets :: "f64 list"
  ab_normalized :: bool
  ab_created_at :: int
  ab_metadata :: "(string, 'v) hash_map"

definition batch_new :: "string \<Rightarrow> string \<Rightarrow> f64 list \<Rightarrow> f64 list \<Rightarrow> int \<Rightarrow> 'v AdvantageBatch" where
  "batch_new batch_id trajectory_id advantages returns now =
     \<lparr>ab_schema_version = RL_SCHEMA_VERSION_V1, ab_batch_id = batch_id, ab_trajectory_id = trajectory_id,
      ab_advantages = advantages, ab_returns = returns, ab_value_targets = [], ab_normalized = False,
      ab_created_at = now, ab_metadata = []\<rparr>"

definition batch_validate :: "'v AdvantageBatch \<Rightarrow> RlSchemaError + unit" where
  "batch_validate b =
     and_then (ensure_supported_rl_schema ''AdvantageBatch'' (ab_schema_version b)) (\<lambda>_.
     and_then (ensure (ab_advantages b \<noteq> []) (EmptyField ''AdvantageBatch'' ''advantages'')) (\<lambda>_.
     and_then (ensure (length (ab_advantages b) = length (ab_returns b))
        (LengthMismatch ''AdvantageBatch'' ''advantages'' (length (ab_advantages b)) ''returns'' (length (ab_returns b)))) (\<lambda>_.
     and_then (ensure (ab_value_targets b = [] \<or> length (ab_value_targets b) = length (ab_advantages b))
        (LengthMismatch ''AdvantageBatch'' ''value_targets'' (length (ab_value_targets b))
          ''advantages'' (length (ab_advantages b)))) (\<lambda>_.
     and_then (ensure (list_all f64_is_finite (ab_advantages b)) (NonFinite ''AdvantageBatch'' ''advantages'')) (\<lambda>_.
     and_then (ensure (list_all f64_is_finite (ab_returns b)) (NonFinite ''AdvantageBatch'' ''returns'')) (\<lambda>_.
       ensure (list_all f64_is_finite (ab_value_targets b)) (NonFinite ''AdvantageBatch'' ''value_targets'')))))))"

subsection \<open>Checkpoints and bundles\<close>

record 'v CheckpointRecord =
  ck_schema_version :: nat
  ck_checkpoint_id :: string
  ck_algorithm :: string
  ck_policy_version :: string
  ck_global_step :: nat
  ck_episode_count :: nat
  ck_mean_reward :: "f64 option"
  ck_artifact_uri :: "string option"
  ck_created_at :: int
  ck_metadata :: "(string, 'v) hash_map"

definition checkpoint_new :: "string \<Rightarrow> string \<Rightarrow> string \<Rightarrow> nat \<Rightarrow> int \<Rightarrow> 'v CheckpointRecord" where
  "checkpoint_new cid algorithm policy_version global_step now =
     \<lparr>ck_schema_version = RL_SCHEMA_VERSION_V1, ck_checkpoint_id = cid, ck_algorithm = algorithm,
      ck_policy_version = policy_version, ck_global_step = global_step, ck_episode_count = 0,
      ck_mean_reward = None, ck_artifact_uri = None, ck_created_at = now, ck_metadata = []\<rparr>"

definition checkpoint_validate :: "'v CheckpointRecord \<Rightarrow> RlSchemaError + unit" where
  "checkpoint_validate c =
     and_then (ensure_supported_rl_schema ''CheckpointRecord'' (ck_schema_version c)) (\<lambda>_.
     and_then (ensure (trim (ck_algorithm c) \<noteq> []) (EmptyField ''CheckpointRecord'' ''algorithm'')) (\<lambda>_.
     and_then (ensure (trim (ck_policy_version c) \<noteq> []) (EmptyField ''CheckpointRecord'' ''policy_version'')) (\<lambda>_.
       ensure (opt_finite (ck_mean_reward c)) (NonFinite ''CheckpointRecord'' ''mean_reward''))))"

record 'v RlPayloadBundle =
  pb_trajectory :: "'v EpisodeTrajectory"
  pb_advantages :: "'v AdvantageBatch"
  pb_checkpoint :: "'v CheckpointRecord"

definition bundle_validate :: "'v RlPayloadBundle \<Rightarrow> RlBundleError + unit" where
  "bundle_validate b =
     and_then (map_err TrajectorySchema (trajectory_validate (pb_trajectory b))) (\<lambda>_.
     and_then (map_err AdvantageSchema (batch_validate (pb_advantages b))) (\<lambda>_.
     and_then (map_err BundleCheckpointSchema (checkpoint_validate (pb_checkpoint b))) (\<lambda>_.
     and_then (ensure (et_trajectory_id (pb_trajectory b) = ab_trajectory_id (pb_advantages b))
        (TrajectoryIdMismatch (et_trajectory_id (pb_trajectory b)) (ab_trajectory_id (pb_advantages b)))) (\<lambda>_.
     let step_count = length (et_steps (pb_trajectory b));
         advantage_count = length (ab_advantages (pb_advantages b))
     in and_then (ensure (step_count = advantage_count) (StepAdvantageLengthMismatch step_count advantage_count)) (\<lambda>_.
          ensure (\<not> ck_global_step (pb_checkpoint b) < step_count)
            (CheckpointGlobalStepMismatch (ck_global_step (pb_checkpoint b)) step_count))))))"

subsection \<open>Checkpoint lineage\<close>

definition parent_checkpoint :: "('v \<Rightarrow> string option) \<Rightarrow> 'v CheckpointRecord \<Rightarrow> string option" where
  "parent_checkpoint as_str c =
     Option.bind (Option.bind (map_of (ck_metadata c) ''parent_checkpoint_id'') as_str)
       (\<lambda>v. if trim v = [] then None else Some (trim v))"

fun index_checkpoints ::
  "(string, 'v CheckpointRecord) hash_map \<Rightarrow> 'v CheckpointRecord list
     \<Rightarrow> CheckpointLineageError + (string, 'v CheckpointRecord) hash_map" where
  "index_checkpoints by_id [] = Inr by_id"
| "index_checkpoints by_id (c # cs) =
     and_then (map_err (CheckpointSchema (ck_checkpoint_id c)) (checkpoint_validate c)) (\<lambda>_.
       if hm_contains by_id (ck_checkpoint_id c) then Inl (DuplicateCheckpointId (ck_checkpoint_id c))
       else index_checkpoints (AList.update (ck_checkpoint_id c) c by_id) cs)"

function checkpoint_walk ::
  "('v \<Rightarrow> string option) \<Rightarrow> (string, 'v CheckpointRecord) hash_map \<Rightarrow> string set \<Rightarrow> string \<Rightarrow> string list
     \<Rightarrow> CheckpointLineageError + string list" where
  "checkpoint_walk as_str by_id visited cursor acc =
     (if cursor \<in> visited then Inl (LineageCycleDetected cursor)
      else case map_of by_id cursor of
        None \<Rightarrow> Inl (UnknownLeafCheckpoint cursor)
      | Some c \<Rightarrow>
          (case parent_checkpoint as_str c of
             None \<Rightarrow> Inr (cursor # acc)
           | Some p \<Rightarrow>
               if \<not> hm_contains by_id p then Inl (MissingParentCheckpoint (ck_checkpoint_id c) p)
               else checkpoint_walk as_str by_id (insert cursor visited) p (cursor # acc)))"
  by pat_completeness auto
termination
proof (relation "measure (\<lambda>(as_str, by_id, visited, cursor, acc). card (hm_keys by_id - visited))")
  fix by_id :: "(string, 'v CheckpointRecord) hash_map" and visited cursor c
  assume "cursor \<notin> visited" "map_of by_id cursor = Some c"
  then have "cursor \<in> hm_keys by_id - visited" by (force dest: map_of_SomeD)
  then have "hm_keys by_id - insert cursor visited \<subset> hm_keys by_id - visited" by blast
  then show "((as_str, by_id, insert cursor visited, p, cursor # acc), as_str, by_id, visited, cursor, acc)
      \<in> measure (\<lambda>(as_str, by_id, visited, cursor, acc). card (hm_keys by_id - visited))" for as_str p acc
    by (simp add: psubset_card_mono)
qed simp

declare checkpoint_walk.simps [simp del]

definition resolve_checkpoint_lineage_path ::
  "('v \<Rightarrow> string option) \<Rightarrow> 'v CheckpointRecord list \<Rightarrow> string \<Rightarrow> CheckpointLineageError + string list" where
  "resolve_checkpoint_lineage_path as_str records leaf =
     and_then (index_checkpoints [] records) (\<lambda>by_id.
       if \<not> hm_contains by_id leaf then Inl (UnknownLeafCheckpoint leaf)
       else checkpoint_walk as_str by_id {} leaf [])"

subsection \<open>What the validators accept\<close>

named_theorems payload_simps

lemma ensure_ok [payload_simps]: "ensure b e = Inr u \<longleftrightarrow> b"
  by (simp add: ensure_def)

lemma map_err_ok [payload_simps]: "map_err f r = Inr x \<longleftrightarrow> r = Inr x"
  by (cases r) (simp_all add: map_err_def)

lemma schema_ok [payload_simps]: "ensure_supported_rl_schema n v = Inr u \<longleftrightarrow> v = RL_SCHEMA_VERSION_V1"
  by (simp add: ensure_supported_rl_schema_def)

lemma and_then_unit [payload_simps]: "and_then r (\<lambda>_. g) = Inr (u :: unit) \<longleftrightarrow> r = Inr () \<and> g = Inr ()"
  for r :: "'e + unit"
  by (cases r) (simp_all add: and_then_def)

definition step_ok :: "'v TrajectoryStep \<Rightarrow> bool" where
  "step_ok st = (f64_is_finite (ts_reward st) \<and> opt_finite (ts_logprob st) \<and> opt_finite (ts_value_estimate st))"

lemma step_validate_iff [payload_simps]: "step_validate st = Inr u \<longleftrightarrow> step_ok st"
  by (simp add: step_validate_def step_ok_def payload_simps)

lemma steps_validate_iff:
  "steps_validate n sts = Inr u \<longleftrightarrow>
     (\<forall>i < length sts. ts_step_index (sts ! i) = (n + i) mod 2 ^ 32 \<and> step_ok (sts ! i))"
proof (induction n sts rule: steps_validate.induct)
  case (2 n st sts)
  have "(\<forall>i < length (st # sts). ts_step_index ((st # sts) ! i) = (n + i) mod 2 ^ 32 \<and> step_ok ((st # sts) ! i))
      \<longleftrightarrow> (ts_step_index st = n mod 2 ^ 32 \<and> step_ok st)
        \<and> (\<forall>i < length sts. ts_step_index (sts ! i) = (n + 1 + i) mod 2 ^ 32 \<and> step_ok (sts ! i))"
    unfolding length_Cons All_less_Suc2 by simp
  with 2 show ?case by (auto simp: Let_def payload_simps)
qed simp

definition trajectory_ok :: "'v EpisodeTrajectory \<Rightarrow> bool" where
  "trajectory_ok t = (et_schema_version t = RL_SCHEMA_VERSION_V1 \<and> et_steps t \<noteq> []
     \<and> f64_in_unit (et_discount_factor t) \<and> f64_is_finite (et_total_return t)
     \<and> (\<forall>i < length (et_steps t). ts_step_index (et_steps t ! i) = i mod 2 ^ 32 \<and> step_ok (et_steps t ! i)))"

lemma trajectory_validate_iff [payload_simps]: "trajectory_validate t = Inr u \<longleftrightarrow> trajectory_ok t"
  by (simp add: trajectory_validate_def trajectory_ok_def payload_simps steps_validate_iff)

definition batch_ok :: "'v AdvantageBatch \<Rightarrow> bool" where
  "batch_ok b = (ab_schema_version b = RL_SCHEMA_VERSION_V1 \<and> ab_advantages b \<noteq> []
     \<and> length (ab_returns b) = length (ab_advantages b)
     \<and> length (ab_value_targets b) \<in> {0, length (ab_advantages b)}
     \<and> (\<forall>x \<in> set (ab_advantages b @ ab_returns b @ ab_value_targets b). f64_is_finite x))"

lemma batch_validate_iff [payload_simps]: "batch_validate b = Inr u \<longleftrightarrow> batch_ok b"
  by (auto simp: batch_validate_def batch_ok_def payload_simps list_all_iff)

definition checkpoint_ok :: "'v CheckpointRecord \<Rightarrow> bool" where
  "checkpoint_ok c = (ck_schema_version c = RL_SCHEMA_VERSION_V1 \<and> trim (ck_algorithm c) \<noteq> []
     \<and> trim (ck_policy_version c) \<noteq> [] \<and> opt_finite (ck_mean_reward c))"

lemma checkpoint_validate_iff [payload_simps]: "checkpoint_validate c = Inr u \<longleftrightarrow> checkpoint_ok c"
  by (simp add: checkpoint_validate_def checkpoint_ok_def payload_simps)

lemma bundle_validate_iff:
  "bundle_validate b = Inr u \<longleftrightarrow>
     trajectory_ok (pb_trajectory b) \<and> batch_ok (pb_advantages b) \<and> checkpoint_ok (pb_checkpoint b)
     \<and> et_trajectory_id (pb_trajectory b) = ab_trajectory_id (pb_advantages b)
     \<and> length (et_steps (pb_trajectory b)) = length (ab_advantages (pb_advantages b))
     \<and> length (et_steps (pb_trajectory b)) \<le> ck_global_step (pb_checkpoint b)"
  by (auto simp: bundle_validate_def payload_simps Let_def)

subsection \<open>The lineage walk\<close>

lemma update_fresh: "k \<notin> hm_keys m \<Longrightarrow> AList.update k v m = m @ [(k, v)]"
  by (induction m) auto

lemma index_checkpoints_iff:
  "index_checkpoints by_id cs = Inr m \<longleftrightarrow>
     (\<forall>c \<in> set cs. checkpoint_ok c) \<and> distinct (map ck_checkpoint_id cs)
     \<and> set (map ck_checkpoint_id cs) \<inter> hm_keys by_id = {}
     \<and> m = by_id @ map (\<lambda>c. (ck_checkpoint_id c, c)) cs"
proof (induction by_id cs rule: index_checkpoints.induct)
  case (2 by_id c cs)
  show ?case
  proof (cases "checkpoint_ok c \<and> ck_checkpoint_id c \<notin> hm_keys by_id")
    case True
    then have "map_err (CheckpointSchema (ck_checkpoint_id c)) (checkpoint_validate c) = Inr ()"
      by (simp add: payload_simps)
    with True 2 show ?thesis by (auto simp: hm_contains_iff update_fresh)
  next
    case False
    then have "map_err (CheckpointSchema (ck_checkpoint_id c)) (checkpoint_validate c) = Inr () \<longleftrightarrow> checkpoint_ok c"
      by (simp add: payload_simps)
    with False show ?thesis
      by (cases "map_err (CheckpointSchema (ck_checkpoint_id c)) (checkpoint_validate c)")
        (auto simp: and_then_def hm_contains_iff)
  qed
qed auto

definition chain :: "('v \<Rightarrow> string option) \<Rightarrow> 'v CheckpointRecord list \<Rightarrow> bool" where
  "chain as_str cs = (cs \<noteq> [] \<and> distinct (map ck_checkpoint_id cs) \<and> parent_checkpoint as_str (hd cs) = None
     \<and> successively (\<lambda>a b. parent_checkpoint as_str b = Some (ck_checkpoint_id a)) cs)"

lemma chain_snoc:
  "cs \<noteq> [] \<Longrightarrow> chain as_str (cs @ [c]) \<longleftrightarrow> chain as_str cs \<and> ck_checkpoint_id c \<notin> ck_checkpoint_id ` set cs
     \<and> parent_checkpoint as_str c = Some (ck_checkpoint_id (last cs))"
  by (auto simp: chain_def successively_append_iff)

lemma checkpoint_walk_sound:
  assumes keys: "\<And>k c. map_of m k = Some c \<Longrightarrow> ck_checkpoint_id c = k"
  shows "checkpoint_walk as_str m visited cursor acc = Inr path \<Longrightarrow>
    \<exists>cs. path = map ck_checkpoint_id cs @ acc \<and> chain as_str cs \<and> ck_checkpoint_id (last cs) = cursor
      \<and> (\<forall>c \<in> set cs. map_of m (ck_checkpoint_id c) = Some c \<and> ck_checkpoint_id c \<notin> visited)"
  using keys
proof (induction as_str m visited cursor acc rule: checkpoint_walk.induct)
  case (1 as_str m visited cursor acc)
  from "1.prems"(1) obtain c where c: "cursor \<notin> visited" "map_of m cursor = Some c"
    by (auto simp: checkpoint_walk.simps [of as_str m] split: if_splits option.splits)
  then have id: "ck_checkpoint_id c = cursor" using "1.prems"(2) by blast
  show ?case
  proof (cases "parent_checkpoint as_str c")
    case None
    with "1.prems"(1) c id show ?thesis
      by (intro exI [of _ "[c]"]) (auto simp: checkpoint_walk.simps [of as_str m] chain_def)
  next
    case (Some p)
    with "1.prems"(1) c have p: "hm_contains m p"
      "checkpoint_walk as_str m (insert cursor visited) p (cursor # acc) = Inr path"
      by (auto simp: checkpoint_walk.simps [of as_str m visited] split: if_splits)
    from "1.IH" [OF c Some _ p(2) "1.prems"(2)] p(1) obtain cs where
      "path = map ck_checkpoint_id cs @ cursor # acc" "chain as_str cs" "ck_checkpoint_id (last cs) = p"
      "\<forall>c \<in> set cs. map_of m (ck_checkpoint_id c) = Some c \<and> ck_checkpoint_id c \<notin> insert cursor visited"
      by blast
    moreover from this have "cs \<noteq> []" by (simp add: chain_def)
    ultimately show ?thesis using c id Some
      by (intro exI [of _ "cs @ [c]"]) (auto simp: chain_snoc)
  qed
qed

lemma checkpoint_walk_complete:
  assumes "chain as_str cs" "\<forall>c \<in> set cs. map_of m (ck_checkpoint_id c) = Some c \<and> ck_checkpoint_id c \<notin> visited"
  shows "checkpoint_walk as_str m visited (ck_checkpoint_id (last cs)) acc = Inr (map ck_checkpoint_id cs @ acc)"
  using assms
proof (induction cs arbitrary: visited acc rule: rev_induct)
  case (snoc c cs)
  show ?case
  proof (cases "cs = []")
    case True
    with snoc show ?thesis by (simp add: checkpoint_walk.simps [of as_str m] chain_def)
  next
    case False
    then have c: "chain as_str cs" "parent_checkpoint as_str c = Some (ck_checkpoint_id (last cs))"
      "ck_checkpoint_id c \<notin> ck_checkpoint_id ` set cs"
      using snoc.prems(1) by (simp_all add: chain_snoc)
    have "hm_contains m (ck_checkpoint_id (last cs))"
      using snoc.prems(2) False by (auto simp: hm_contains_def)
    moreover have "\<forall>x \<in> set cs. map_of m (ck_checkpoint_id x) = Some x \<and> ck_checkpoint_id x \<notin> insert (ck_checkpoint_id c) visited"
    proof
      fix x assume "x \<in> set cs"
      moreover from this have "ck_checkpoint_id x \<noteq> ck_checkpoint_id c" using c(3) by (metis imageI)
      ultimately show "map_of m (ck_checkpoint_id x) = Some x \<and> ck_checkpoint_id x \<notin> insert (ck_checkpoint_id c) visited"
        using snoc.prems(2) by simp
    qed
    note snoc.IH [OF c(1) this, of "ck_checkpoint_id c # acc"]
    ultimately show ?thesis
      using snoc.prems(2) c(2) by (simp add: checkpoint_walk.simps [of as_str m visited])
  qed
qed (simp add: chain_def)

lemma lineage_path_iff:
  "resolve_checkpoint_lineage_path as_str records leaf = Inr path \<longleftrightarrow>
     (\<forall>c \<in> set records. checkpoint_ok c) \<and> distinct (map ck_checkpoint_id records)
     \<and> (\<exists>cs. set cs \<subseteq> set records \<and> chain as_str cs \<and> ck_checkpoint_id (last cs) = leaf
          \<and> path = map ck_checkpoint_id cs)"
proof (cases "(\<forall>c \<in> set records. checkpoint_ok c) \<and> distinct (map ck_checkpoint_id records)")
  case True
  let ?m = "map (\<lambda>c. (ck_checkpoint_id c, c)) records"
  have m: "index_checkpoints [] records = Inr ?m" using True by (simp add: index_checkpoints_iff)
  have look: "map_of ?m k = Some c \<longleftrightarrow> c \<in> set records \<and> ck_checkpoint_id c = k" for k c
    using True by (subst map_of_eq_Some_iff) (auto simp: comp_def)
  have "resolve_checkpoint_lineage_path as_str records leaf = Inr path
      \<longleftrightarrow> hm_contains ?m leaf \<and> checkpoint_walk as_str ?m {} leaf [] = Inr path"
    using m by (simp add: resolve_checkpoint_lineage_path_def)
  also have "\<dots> \<longleftrightarrow> (\<exists>cs. set cs \<subseteq> set records \<and> chain as_str cs \<and> ck_checkpoint_id (last cs) = leaf
          \<and> path = map ck_checkpoint_id cs)"
  proof
    assume "hm_contains ?m leaf \<and> checkpoint_walk as_str ?m {} leaf [] = Inr path"
    then have "checkpoint_walk as_str ?m {} leaf [] = Inr path" ..
    from checkpoint_walk_sound [OF _ this] look obtain cs where
      "path = map ck_checkpoint_id cs" "chain as_str cs" "ck_checkpoint_id (last cs) = leaf"
      "\<forall>c \<in> set cs. map_of ?m (ck_checkpoint_id c) = Some c" by auto
    then show "\<exists>cs. set cs \<subseteq> set records \<and> chain as_str cs \<and> ck_checkpoint_id (last cs) = leaf
          \<and> path = map ck_checkpoint_id cs" using look by blast
  next
    assume "\<exists>cs. set cs \<subseteq> set records \<and> chain as_str cs \<and> ck_checkpoint_id (last cs) = leaf
          \<and> path = map ck_checkpoint_id cs"
    then obtain cs where cs: "set cs \<subseteq> set records" "chain as_str cs" "ck_checkpoint_id (last cs) = leaf"
      "path = map ck_checkpoint_id cs" by blast
    then have all: "\<forall>c \<in> set cs. map_of ?m (ck_checkpoint_id c) = Some c \<and> ck_checkpoint_id c \<notin> {}"
      using look by blast
    moreover have "last cs \<in> set cs" using cs(2) by (simp add: chain_def)
    ultimately have "hm_contains ?m leaf" using cs(3) by (auto simp: hm_contains_def)
    with checkpoint_walk_complete [OF cs(2) all, of "[]"] cs(3,4)
    show "hm_contains ?m leaf \<and> checkpoint_walk as_str ?m {} leaf [] = Inr path" by simp
  qed
  finally show ?thesis using True by simp
next
  case False
  then have "index_checkpoints [] records \<noteq> Inr m" for m by (auto simp: index_checkpoints_iff)
  then have "resolve_checkpoint_lineage_path as_str records leaf \<noteq> Inr path"
    by (cases "index_checkpoints [] records") (auto simp: resolve_checkpoint_lineage_path_def)
  with False show ?thesis by blast
qed

subsection \<open>Properties\<close>

text \<open>A payload bundle validates exactly when its trajectory, advantages and checkpoint are each
  acceptable (known schema, finite numbers, discount factor between 0 and 1, steps numbered from 0,
  aligned vectors, named algorithm and policy) and they agree on the trajectory id, the number of
  steps and a checkpoint step not below it.\<close>

theorem bundle_validation_exact:
  "bundle_validate b = Inr () \<longleftrightarrow>
     trajectory_ok (pb_trajectory b) \<and> batch_ok (pb_advantages b) \<and> checkpoint_ok (pb_checkpoint b)
     \<and> et_trajectory_id (pb_trajectory b) = ab_trajectory_id (pb_advantages b)
     \<and> length (et_steps (pb_trajectory b)) = length (ab_advantages (pb_advantages b))
     \<and> length (et_steps (pb_trajectory b)) \<le> ck_global_step (pb_checkpoint b)"
  by (rule bundle_validate_iff)

text \<open>The checkpoint lineage query terminates for all inputs and succeeds with a path exactly when
  all records are acceptable with distinct ids and the path is the chain of parent links from a
  checkpoint without parent to the leaf.\<close>

theorem checkpoint_lineage_exact:
  "resolve_checkpoint_lineage_path as_str records leaf = Inr path \<longleftrightarrow>
     list_all checkpoint_ok records \<and> distinct (map ck_checkpoint_id records)
     \<and> (\<exists>cs. set cs \<subseteq> set records \<and> chain as_str cs \<and> ck_checkpoint_id (last cs) = leaf
          \<and> path = map ck_checkpoint_id cs)"
  unfolding list_all_iff by (rule lineage_path_iff)

end
