(* ===== verification/Access_Rbac.thy ===== *)
theory Access_Rbac
  imports Rust_Text
begin

text \<open>
  Role-based access control (\<open>crates/tau-access/src/rbac.rs\<close>): the policy file and its validation,
  principals, role resolution, the decision procedure and the parser of the \<open>/rbac\<close> command. A
  \<open>BTreeMap\<close> is its association list in key order, a \<open>BTreeSet\<close> the sorted list of its elements;
  environment variables are an argument. The policy file is given as \<open>serde_json\<close> reads it. The
  decision is shown to be the deny-overrides semantics of the policy.
\<close>

abbreviation RBAC_SCHEMA_VERSION :: nat where "RBAC_SCHEMA_VERSION \<equiv> 1"

record RbacRolePolicy =
  rr_allow :: "string list"
  rr_deny :: "string list"

record RbacBinding =
  rb_principal :: string
  rb_roles :: "string list"

record RbacPolicyFile =
  rp_schema_version :: nat
  rp_team_mode :: bool
  rp_bindings :: "RbacBinding list"
  rp_roles :: "(string \<times> RbacRolePolicy) list"

definition default_policy :: RbacPolicyFile where
  "default_policy = \<lparr>rp_schema_version = RBAC_SCHEMA_VERSION, rp_team_mode = False, rp_bindings = [], rp_roles = []\<rparr>"

datatype RbacDecision =
    Allow string "string option" "string option"
  | Deny string "string option" "string option"

fun is_allowed :: "RbacDecision \<Rightarrow> bool" where
  "is_allowed (Allow _ _ _) = True"
| "is_allowed (Deny _ _ _) = False"

fun reason_code :: "RbacDecision \<Rightarrow> string" where
  "reason_code (Allow r _ _) = r"
| "reason_code (Deny r _ _) = r"

fun matched_role :: "RbacDecision \<Rightarrow> string option" where
  "matched_role (Allow _ m _) = m"
| "matched_role (Deny _ m _) = m"

fun matched_pattern :: "RbacDecision \<Rightarrow> string option" where
  "matched_pattern (Allow _ _ p) = p"
| "matched_pattern (Deny _ _ p) = p"

datatype RbacError =
    RbacUsage
  | RbacEmptyPrincipal
  | RbacChannelRequiresActor string
  | RbacUnsupportedChannel string
  | RbacParse
  | RbacUnsupportedSchema nat
  | RbacEmptyBindingPrincipal
  | RbacDuplicateBinding string
  | RbacBindingWithoutRoles string
  | RbacEmptyRoleInBinding string
  | RbacEmptyRoleId
  | RbacRoleWithoutRules string

subsection \<open>Principals\<close>

record RbacEnv =
  env_local_actor :: "string option"
  env_user :: "string option"
  env_logname :: "string option"

text \<open>Characters that are not ASCII have one leading byte and continuation bytes; each such character
  becomes one hyphen.\<close>

definition sanitize_byte :: "char \<Rightarrow> string" where
  "sanitize_byte c =
     (if is_ascii_alphanumeric c \<or> c = CHR ''-'' \<or> c = CHR ''_'' then [ascii_lower c]
      else if leading_byte c then ''-'' else [])"

definition sanitize_principal_component :: "string \<Rightarrow> string" where
  "sanitize_principal_component raw =
     (let trimmed = trim raw in
      if trimmed = [] then ''unknown''
      else (let output = concat (map sanitize_byte trimmed) in
            if output = [] then ''unknown'' else output))"

definition or_else :: "'a option \<Rightarrow> 'a option \<Rightarrow> 'a option" where
  "or_else a b = (case a of None \<Rightarrow> b | Some x \<Rightarrow> Some x)"

definition non_empty_trimmed :: "string option \<Rightarrow> string option" where
  "non_empty_trimmed v = Option.bind (map_option trim v) (\<lambda>t. if t = [] then None else Some t)"

definition local_principal :: "RbacEnv \<Rightarrow> string option \<Rightarrow> string" where
  "local_principal env actor_override =
     (let actor = or_else (or_else (or_else (non_empty_trimmed actor_override) (env_local_actor env))
                    (env_user env)) (env_logname env)
      in ''local:'' @ sanitize_principal_component (case actor of Some a \<Rightarrow> a | None \<Rightarrow> ''operator''))"

definition resolve_local_principal :: "RbacEnv \<Rightarrow> string" where
  "resolve_local_principal env = local_principal env None"

definition github_principal :: "string \<Rightarrow> string" where
  "github_principal login = ''github:'' @ sanitize_principal_component login"

definition slack_principal :: "string \<Rightarrow> string" where
  "slack_principal user_id = ''slack:'' @ sanitize_principal_component user_id"

definition discord_principal :: "string \<Rightarrow> string" where
  "discord_principal user_id = ''discord:'' @ sanitize_principal_component user_id"

definition telegram_principal :: "string \<Rightarrow> string" where
  "telegram_principal user_id = ''telegram:'' @ sanitize_principal_component user_id"

definition resolve_principal_input ::
  "RbacEnv \<Rightarrow> string option \<Rightarrow> string option \<Rightarrow> string option \<Rightarrow> RbacError + string" where
  "resolve_principal_input env who channel actor =
     (case who of
        Some p \<Rightarrow> if trim p = [] then Inl RbacEmptyPrincipal else Inr (trim p)
      | None \<Rightarrow>
          (let ch = (case channel of None \<Rightarrow> ''local'' | Some c \<Rightarrow> c);
               need = ok_or actor (RbacChannelRequiresActor ch)
           in if ch = ''local'' then Inr (local_principal env actor)
              else if ch = ''github'' then and_then need (\<lambda>a. Inr (github_principal a))
              else if ch = ''slack'' then and_then need (\<lambda>a. Inr (slack_principal a))
              else if ch = ''discord'' then and_then need (\<lambda>a. Inr (discord_principal a))
              else if ch = ''telegram'' then and_then need (\<lambda>a. Inr (telegram_principal a))
              else Inl (RbacUnsupportedChannel ch)))"

subsection \<open>The policy file\<close>

datatype RbacFile = NoPolicy | PolicyJson RbacPolicyFile | OtherPolicy

fun validate_bindings :: "string set \<Rightarrow> RbacBinding list \<Rightarrow> RbacError + unit" where
  "validate_bindings seen [] = Inr ()"
| "validate_bindings seen (b # bs) =
     (if trim (rb_principal b) = [] then Inl RbacEmptyBindingPrincipal
      else if rb_principal b \<in> seen then Inl (RbacDuplicateBinding (rb_principal b))
      else if rb_roles b = [] then Inl (RbacBindingWithoutRoles (rb_principal b))
      else if \<exists>role \<in> set (rb_roles b). trim role = [] then Inl (RbacEmptyRoleInBinding (rb_principal b))
      else validate_bindings (insert (rb_principal b) seen) bs)"

fun validate_roles :: "(string \<times> RbacRolePolicy) list \<Rightarrow> RbacError + unit" where
  "validate_roles [] = Inr ()"
| "validate_roles ((role_id, pol) # rest) =
     (if trim role_id = [] then Inl RbacEmptyRoleId
      else if rr_allow pol = [] \<and> rr_deny pol = [] then Inl (RbacRoleWithoutRules role_id)
      else validate_roles rest)"

definition validate_rbac_policy :: "RbacPolicyFile \<Rightarrow> RbacError + unit" where
  "validate_rbac_policy policy =
     (if rp_schema_version policy \<noteq> RBAC_SCHEMA_VERSION then Inl (RbacUnsupportedSchema (rp_schema_version policy))
      else and_then (validate_bindings {} (rp_bindings policy)) (\<lambda>_. validate_roles (rp_roles policy)))"

definition load_rbac_policy :: "RbacFile \<Rightarrow> RbacError + RbacPolicyFile" where
  "load_rbac_policy file =
     (case file of
        NoPolicy \<Rightarrow> Inr default_policy
      | OtherPolicy \<Rightarrow> Inl RbacParse
      | PolicyJson parsed \<Rightarrow> and_then (validate_rbac_policy parsed) (\<lambda>_. Inr parsed))"

subsection \<open>Decisions\<close>

definition wildcard_pattern_matches :: "string \<Rightarrow> string \<Rightarrow> bool" where
  "wildcard_pattern_matches pattern value =
     (if pattern = ''*'' then True
      else if pattern \<noteq> [] \<and> last pattern = CHR ''*'' then prefix (butlast pattern) value
      else pattern = value)"

definition resolve_roles_for_principal :: "RbacPolicyFile \<Rightarrow> string \<Rightarrow> string list" where
  "resolve_roles_for_principal policy who =
     remdups_adj (sort
       (filter (\<lambda>role. role \<noteq> [])
         (concat (map (\<lambda>b. if wildcard_pattern_matches (rb_principal b) who
                            then map trim (rb_roles b) else []) (rp_bindings policy)))))"

text \<open>The two nested loops over roles and patterns: the first match in order.\<close>

fun first_match ::
  "(RbacRolePolicy \<Rightarrow> string list) \<Rightarrow> (string \<times> RbacRolePolicy) list \<Rightarrow> string \<Rightarrow> string list
     \<Rightarrow> (string \<times> string) option" where
  "first_match rules role_map action [] = None"
| "first_match rules role_map action (role # roles) =
     (case map_of role_map role of
        None \<Rightarrow> first_match rules role_map action roles
      | Some pol \<Rightarrow>
          (case find (\<lambda>pattern. wildcard_pattern_matches pattern action) (rules pol) of
             Some pattern \<Rightarrow> Some (role, pattern)
           | None \<Rightarrow> first_match rules role_map action roles))"

definition evaluate_policy :: "RbacPolicyFile \<Rightarrow> string \<Rightarrow> string \<Rightarrow> RbacDecision" where
  "evaluate_policy policy principal_raw action =
     (let who = trim principal_raw in
      if \<not> rp_team_mode policy then Allow ''allow_team_mode_disabled'' None None
      else if who = [] then Deny ''deny_principal_missing'' None None
      else
        (let roles = resolve_roles_for_principal policy who in
         if roles = [] then Deny ''deny_unbound_principal'' None None
         else case first_match rr_deny (rp_roles policy) action roles of
           Some (role, pattern) \<Rightarrow> Deny ''deny_role_policy'' (Some role) (Some pattern)
         | None \<Rightarrow>
             (case first_match rr_allow (rp_roles policy) action roles of
                Some (role, pattern) \<Rightarrow> Allow ''allow_role_policy'' (Some role) (Some pattern)
              | None \<Rightarrow> Deny ''deny_no_matching_allow'' None None)))"

definition authorize_action_for_principal :: "RbacFile \<Rightarrow> string \<Rightarrow> string \<Rightarrow> RbacError + RbacDecision" where
  "authorize_action_for_principal file who action =
     and_then (load_rbac_policy file) (\<lambda>policy. Inr (evaluate_policy policy who action))"

definition authorize_command_for_principal :: "RbacFile \<Rightarrow> string \<Rightarrow> string \<Rightarrow> RbacError + RbacDecision" where
  "authorize_command_for_principal file who command_name =
     authorize_action_for_principal file who (''command:'' @ command_name)"

definition authorize_tool_for_principal ::
  "RbacEnv \<Rightarrow> RbacFile \<Rightarrow> string option \<Rightarrow> string \<Rightarrow> RbacError + RbacDecision" where
  "authorize_tool_for_principal env file who tool_name =
     authorize_action_for_principal file
       (case non_empty_trimmed who of Some p \<Rightarrow> p | None \<Rightarrow> resolve_local_principal env)
       (''tool:'' @ tool_name)"

subsection \<open>The command parser\<close>

datatype RbacOutputFormat = TextFormat | JsonFormat

datatype RbacCommand =
    WhoAmI string RbacOutputFormat
  | Check string string RbacOutputFormat

record RbacFlags =
  rf_format :: RbacOutputFormat
  rf_principal :: "string option"
  rf_channel :: "string option"
  rf_actor :: "string option"

definition no_flags :: RbacFlags where
  "no_flags = \<lparr>rf_format = TextFormat, rf_principal = None, rf_channel = None, rf_actor = None\<rparr>"

fun parse_flags :: "RbacFlags \<Rightarrow> string list \<Rightarrow> RbacError + RbacFlags" where
  "parse_flags f [] = Inr f"
| "parse_flags f (t # ts) =
     (if t = ''--json'' then parse_flags (f\<lparr>rf_format := JsonFormat\<rparr>) ts
      else if t \<in> {''--principal'', ''--channel'', ''--actor''} then
        (case ts of
           [] \<Rightarrow> Inl RbacUsage
         | value # rest \<Rightarrow>
             parse_flags
               (if t = ''--principal'' then f\<lparr>rf_principal := Some value\<rparr>
                else if t = ''--channel'' then f\<lparr>rf_channel := Some value\<rparr>
                else f\<lparr>rf_actor := Some value\<rparr>) rest)
      else Inl RbacUsage)"

definition parse_rbac_whoami :: "RbacEnv \<Rightarrow> string list \<Rightarrow> RbacError + RbacCommand" where
  "parse_rbac_whoami env tokens =
     and_then (parse_flags no_flags tokens) (\<lambda>f.
     and_then (resolve_principal_input env (rf_principal f) (rf_channel f) (rf_actor f)) (\<lambda>who.
       Inr (WhoAmI who (rf_format f))))"

definition parse_rbac_check :: "RbacEnv \<Rightarrow> string list \<Rightarrow> RbacError + RbacCommand" where
  "parse_rbac_check env tokens =
     (case tokens of
        [] \<Rightarrow> Inl RbacUsage
      | action # rest \<Rightarrow>
          if prefix ''--'' action then Inl RbacUsage
          else
            and_then (parse_flags no_flags rest) (\<lambda>f.
            and_then (resolve_principal_input env (rf_principal f) (rf_channel f) (rf_actor f)) (\<lambda>who.
              Inr (Check who action (rf_format f)))))"

definition parse_rbac_command :: "RbacEnv \<Rightarrow> string \<Rightarrow> RbacError + RbacCommand" where
  "parse_rbac_command env command_args =
     (case split_whitespace command_args of
        [] \<Rightarrow> Inl RbacUsage
      | t # ts \<Rightarrow>
          if t = ''whoami'' then parse_rbac_whoami env ts
          else if t = ''check'' then parse_rbac_check env ts
          else Inl RbacUsage)"

subsection \<open>The meaning of a policy\<close>

definition bound_roles :: "RbacPolicyFile \<Rightarrow> string \<Rightarrow> string set" where
  "bound_roles policy who = {trim role | role b. b \<in> set (rp_bindings policy) \<and> role \<in> set (rb_roles b)
     \<and> wildcard_pattern_matches (rb_principal b) who \<and> trim role \<noteq> []}"

definition rule_applies ::
  "(RbacRolePolicy \<Rightarrow> string list) \<Rightarrow> RbacPolicyFile \<Rightarrow> string \<Rightarrow> string \<Rightarrow> bool" where
  "rule_applies rules policy who action = (\<exists>role \<in> bound_roles policy who. \<exists>pol pattern.
     map_of (rp_roles policy) role = Some pol \<and> pattern \<in> set (rules pol) \<and> wildcard_pattern_matches pattern action)"

lemma set_resolve_roles: "set (resolve_roles_for_principal policy who) = bound_roles policy who"
  by (auto simp: resolve_roles_for_principal_def bound_roles_def split: if_splits)

lemma resolve_roles_sorted:
  "sorted (resolve_roles_for_principal policy who)" "distinct (resolve_roles_for_principal policy who)"
  by (simp_all add: resolve_roles_for_principal_def distinct_remdups_adj_sorted sorted_remdups_adj)

lemma first_match_None:
  "first_match rules m action roles = None \<longleftrightarrow>
     (\<forall>role \<in> set roles. \<forall>pol. map_of m role = Some pol \<longrightarrow>
        (\<forall>pattern \<in> set (rules pol). \<not> wildcard_pattern_matches pattern action))"
  by (induction roles) (auto simp: find_None_iff find_Some_iff split: option.splits dest: nth_mem)

lemma first_match_Some:
  "first_match rules m action roles = Some (role, pattern) \<Longrightarrow>
     role \<in> set roles \<and> (\<exists>pol. map_of m role = Some pol \<and> pattern \<in> set (rules pol))
     \<and> wildcard_pattern_matches pattern action"
proof (induction roles)
  case (Cons r roles)
  show ?case
  proof (cases "map_of m r")
    case (Some pol)
    with Cons show ?thesis
      by (cases "find (\<lambda>pattern. wildcard_pattern_matches pattern action) (rules pol)")
        (auto simp: find_Some_iff)
  qed (use Cons in auto)
qed simp

lemma first_match_applies:
  "first_match rules (rp_roles policy) action (resolve_roles_for_principal policy who) \<noteq> None
     \<longleftrightarrow> rule_applies rules policy who action"
  unfolding first_match_None set_resolve_roles rule_applies_def by blast

lemma evaluate_allowed_iff:
  "is_allowed (evaluate_policy policy who action) \<longleftrightarrow>
     \<not> rp_team_mode policy
     \<or> (trim who \<noteq> [] \<and> rule_applies rr_allow policy (trim who) action
        \<and> \<not> rule_applies rr_deny policy (trim who) action)"
proof -
  let ?roles = "resolve_roles_for_principal policy (trim who)"
  have deny: "first_match rr_deny (rp_roles policy) action ?roles = None
      \<longleftrightarrow> \<not> rule_applies rr_deny policy (trim who) action"
    using first_match_applies [of rr_deny policy action "trim who"] by blast
  have allow: "first_match rr_allow (rp_roles policy) action ?roles = None
      \<longleftrightarrow> \<not> rule_applies rr_allow policy (trim who) action"
    using first_match_applies [of rr_allow policy action "trim who"] by blast
  have none: "?roles = [] \<Longrightarrow> \<not> rule_applies rr_allow policy (trim who) action"
    using set_resolve_roles [of policy "trim who"] by (simp add: rule_applies_def)
  show ?thesis using deny allow none
    by (auto simp: evaluate_policy_def Let_def split: option.split)
qed

text \<open>The reason given is a real one.\<close>

lemma evaluate_reason:
  "evaluate_policy policy who action = Deny ''deny_role_policy'' (Some role) (Some pattern) \<Longrightarrow>
     role \<in> bound_roles policy (trim who) \<and> (\<exists>pol. map_of (rp_roles policy) role = Some pol \<and> pattern \<in> set (rr_deny pol))
     \<and> wildcard_pattern_matches pattern action"
  "evaluate_policy policy who action = Allow ''allow_role_policy'' (Some role) (Some pattern) \<Longrightarrow>
     role \<in> bound_roles policy (trim who) \<and> (\<exists>pol. map_of (rp_roles policy) role = Some pol \<and> pattern \<in> set (rr_allow pol))
     \<and> wildcard_pattern_matches pattern action"
  unfolding set_resolve_roles [symmetric]
  by (auto simp: evaluate_policy_def Let_def split: if_splits option.splits dest: first_match_Some)

lemma validate_bindings_iff:
  "validate_bindings seen bs = Inr u \<longleftrightarrow>
     (\<forall>b \<in> set bs. trim (rb_principal b) \<noteq> [] \<and> rb_roles b \<noteq> [] \<and> (\<forall>role \<in> set (rb_roles b). trim role \<noteq> []))
     \<and> distinct (map rb_principal bs) \<and> rb_principal ` set bs \<inter> seen = {}"
  by (induction seen bs rule: validate_bindings.induct) auto

lemma validate_roles_iff:
  "validate_roles rs = Inr u \<longleftrightarrow> (\<forall>(role, pol) \<in> set rs. trim role \<noteq> [] \<and> (rr_allow pol \<noteq> [] \<or> rr_deny pol \<noteq> []))"
  by (induction rs rule: validate_roles.induct) auto

subsection \<open>Principals\<close>

definition principal_char :: "char \<Rightarrow> bool" where
  "principal_char c = (let n = of_char c :: nat in 48 \<le> n \<and> n \<le> 57 \<or> 97 \<le> n \<and> n \<le> 122 \<or> n = 45 \<or> n = 95)"

lemma sanitize_byte_chars: "c \<in> set (sanitize_byte d) \<Longrightarrow> principal_char c"
proof -
  have lower: "principal_char (ascii_lower d)" if "is_ascii_alphanumeric d"
  proof (cases "65 \<le> (of_char d :: nat) \<and> of_char d \<le> (90 :: nat)")
    case True
    then have "of_char (ascii_lower d) = (of_char d + 32 :: nat)"
      by (auto simp: ascii_lower_def of_char_of take_bit_nat_eq_self)
    with True show ?thesis by (simp add: principal_char_def)
  next
    case False
    with that show ?thesis
      by (auto simp: ascii_lower_def principal_char_def is_ascii_alphanumeric_def Let_def)
  qed
  assume "c \<in> set (sanitize_byte d)"
  with lower show ?thesis
    by (auto simp: sanitize_byte_def ascii_lower_def principal_char_def split: if_splits)
qed

lemma sanitize_chars:
  "sanitize_principal_component raw \<noteq> []" "c \<in> set (sanitize_principal_component raw) \<Longrightarrow> principal_char c"
  by (auto simp: sanitize_principal_component_def Let_def principal_char_def split: if_splits
      dest: sanitize_byte_chars [unfolded principal_char_def Let_def])

lemma hyphen_codes: "of_char c = (45 :: nat) \<longleftrightarrow> c = CHR ''-''" "of_char c = (95 :: nat) \<longleftrightarrow> c = CHR ''_''"
proof -
  have codes: "(45 :: nat) = of_char CHR ''-''" "(95 :: nat) = of_char CHR ''_''" by simp_all
  show "of_char c = (45 :: nat) \<longleftrightarrow> c = CHR ''-''" unfolding codes(1) by (rule inj_eq [OF inj_of_char])
  show "of_char c = (95 :: nat) \<longleftrightarrow> c = CHR ''_''" unfolding codes(2) by (rule inj_eq [OF inj_of_char])
qed

lemma sanitize_byte_id:
  assumes "principal_char c"
  shows "sanitize_byte c = [c]"
proof -
  have kept: "is_ascii_alphanumeric c \<or> c = CHR ''-'' \<or> c = CHR ''_''"
    using assms unfolding principal_char_def is_ascii_alphanumeric_def Let_def hyphen_codes by blast
  have "of_char c \<notin> {65..90 :: nat}" using assms by (auto simp: principal_char_def Let_def)
  then have "ascii_lower c = c" unfolding ascii_lower_def by (rule if_not_P)
  then show ?thesis unfolding sanitize_byte_def if_P [OF kept] by simp
qed

lemma ws_ends: "c \<in> ws_lead \<Longrightarrow> \<not> principal_char c" "c \<in> ws_last \<Longrightarrow> \<not> principal_char c"
  by (auto simp: ws_lead_def ws_last_def white_space_def utf8_def principal_char_def of_char_of take_bit_nat_eq_self)

lemma trim_principal_chars:
  assumes "\<And>c. c \<in> set s \<Longrightarrow> principal_char c"
  shows "trim s = s"
  using assms ws_ends by (intro trim_id_ends) (metis hd_in_set last_in_set)

lemma sanitize_idem:
  "sanitize_principal_component (sanitize_principal_component raw) = sanitize_principal_component raw"
proof -
  let ?s = "sanitize_principal_component raw"
  have "trim ?s = ?s" by (rule trim_principal_chars) (rule sanitize_chars(2))
  moreover have "concat (map sanitize_byte ?s) = ?s"
  proof -
    have "map sanitize_byte ?s = map (\<lambda>c. [c]) ?s" using sanitize_chars(2) sanitize_byte_id by simp
    then show ?thesis by (simp only: concat_map_singleton map_ident)
  qed
  ultimately show ?thesis
    using sanitize_chars(1) [of raw] by (simp add: sanitize_principal_component_def [of ?s])
qed

subsection \<open>Properties\<close>

text \<open>C8. Access decisions are the deny-overrides reading of the policy: with team mode on, an action is
  allowed exactly when the principal is not blank, some allow rule of a role bound to it matches the
  action and no deny rule of such a role does. The order of bindings, roles and rules is irrelevant.\<close>

theorem rbac_deny_overrides:
  "is_allowed (evaluate_policy policy who action) \<longleftrightarrow>
     (if rp_team_mode policy
      then trim who \<noteq> [] \<and> rule_applies rr_allow policy (trim who) action
        \<and> \<not> rule_applies rr_deny policy (trim who) action
      else True)"
  by (simp add: evaluate_allowed_iff)

text \<open>Authorization fails closed: it returns an error and no decision exactly when there is a policy
  file that does not parse or does not validate, and a policy validates exactly when its schema
  version is supported, principals are non-blank and distinct, every binding has roles, and roles
  are non-blank with at least one rule.\<close>

theorem rbac_fails_closed:
  "(\<not> is_ok (authorize_action_for_principal rbac_file who action) \<longleftrightarrow>
      rbac_file = OtherPolicy \<or> (\<exists>p. rbac_file = PolicyJson p \<and> \<not> is_ok (validate_rbac_policy p)))
   \<and> (is_ok (validate_rbac_policy policy) \<longleftrightarrow>
      rp_schema_version policy = RBAC_SCHEMA_VERSION \<and> distinct (map rb_principal (rp_bindings policy))
      \<and> list_all (\<lambda>b. trim (rb_principal b) \<noteq> [] \<and> rb_roles b \<noteq> [] \<and> list_all (\<lambda>role. trim role \<noteq> []) (rb_roles b))
          (rp_bindings policy)
      \<and> list_all (\<lambda>(role, pol). trim role \<noteq> [] \<and> \<not> (rr_allow pol = [] \<and> rr_deny pol = [])) (rp_roles policy))"
proof -
  have ok: "is_ok r \<longleftrightarrow> (\<exists>u. r = Inr u)" for r :: "RbacError + unit" by (cases r) simp_all
  have "is_ok (authorize_action_for_principal rbac_file who action) \<longleftrightarrow>
      \<not> (rbac_file = OtherPolicy \<or> (\<exists>p. rbac_file = PolicyJson p \<and> \<not> is_ok (validate_rbac_policy p)))"
    by (cases rbac_file) (auto simp: authorize_action_for_principal_def load_rbac_policy_def and_then_def
        split: sum.split)
  moreover have "is_ok (validate_rbac_policy policy) \<longleftrightarrow> rp_schema_version policy = RBAC_SCHEMA_VERSION
      \<and> validate_bindings {} (rp_bindings policy) = Inr () \<and> validate_roles (rp_roles policy) = Inr ()"
    unfolding ok by (cases "validate_bindings {} (rp_bindings policy)") (auto simp: validate_rbac_policy_def)
  ultimately show ?thesis
    by (auto simp: validate_bindings_iff validate_roles_iff list_all_iff)
qed

text \<open>Principals are canonical: the actor part of a principal is non-empty and made of lower-case
  letters, digits, hyphen and underscore only, so it holds no colon, wildcard or white space, the
  decision procedure's \<open>trim\<close> leaves it alone, and sanitizing it again changes nothing.\<close>

theorem principals_canonical:
  "sanitize_principal_component raw \<noteq> [] \<and> list_all principal_char (sanitize_principal_component raw)
   \<and> sanitize_principal_component (sanitize_principal_component raw) = sanitize_principal_component raw
   \<and> trim (github_principal raw) = github_principal raw"
proof -
  let ?s = "sanitize_principal_component raw"
  have "hd (github_principal raw) \<notin> ws_lead" "last (github_principal raw) \<notin> ws_last"
    using ws_ends(1) [of "CHR ''g''"] ws_ends(2) [of "last ?s"] sanitize_chars(1) [of raw]
      sanitize_chars(2) [of "last ?s" raw]
    by (auto simp: github_principal_def principal_char_def)
  then have "trim (github_principal raw) = github_principal raw" by (intro trim_id_ends) blast
  then show ?thesis using sanitize_chars sanitize_idem by (auto simp: list_all_iff)
qed

text \<open>Different actors can share a principal: every character outside letters, digits, hyphen and
  underscore is mapped to a hyphen, so the roles of one user are granted to the other.\<close>

theorem principals_can_collide:
  "local_principal env (Some ''ann.lee'') = local_principal env (Some ''ann-lee'')"
proof -
  have "trim ''ann.lee'' = ''ann.lee''" "trim ''ann-lee'' = ''ann-lee''"
    by (simp_all add: trim_visible)
  then show ?thesis
    by (simp add: local_principal_def non_empty_trimmed_def or_else_def sanitize_principal_component_def
        sanitize_byte_def is_ascii_alphanumeric_def leading_byte_def ascii_lower_def)
qed

text \<open>Role ids are compared without trimming the keys of the role table, while the roles of a binding
  are trimmed: a valid policy whose role id carries a space never has that role's deny rules applied.\<close>

theorem untrimmed_role_never_denies:
  "\<exists>policy. is_ok (validate_rbac_policy policy) \<and> rp_team_mode policy
     \<and> (\<exists>b \<in> set (rp_bindings policy). rb_principal b = ''*'' \<and> '' ops'' \<in> set (rb_roles b))
     \<and> (\<exists>pol. map_of (rp_roles policy) '' ops'' = Some pol \<and> ''tool:*'' \<in> set (rr_deny pol))
     \<and> is_allowed (evaluate_policy policy ''local:ann'' ''tool:bash'')"
proof -
  let ?p = "\<lparr>rp_schema_version = 1, rp_team_mode = True,
      rp_bindings = [\<lparr>rb_principal = ''*'', rb_roles = ['' ops'', ''dev'']\<rparr>],
      rp_roles = [('' ops'', \<lparr>rr_allow = [], rr_deny = [''tool:*'']\<rparr>),
                  (''dev'', \<lparr>rr_allow = [''*''], rr_deny = []\<rparr>)]\<rparr>"
  have t: "trim ''local:ann'' = ''local:ann''" "trim ''dev'' = ''dev''" "trim ''*'' = ''*''" "trim ''ops'' = ''ops''"
    by (simp_all add: trim_visible)
  have ops: "trim '' ops'' = ''ops''" using t(4) by (simp add: trim_def trim_start_space)
  have "is_ok (validate_rbac_policy ?p)" using t ops by (simp add: validate_rbac_policy_def)
  moreover have "is_allowed (evaluate_policy ?p ''local:ann'' ''tool:bash'')"
  proof -
    have "bound_roles ?p ''local:ann'' = {''ops'', ''dev''}"
    proof -
      have "bound_roles ?p ''local:ann'' = {trim role | role. role \<in> {'' ops'', ''dev''} \<and> trim role \<noteq> []}"
        by (auto simp: bound_roles_def wildcard_pattern_matches_def)
      also have "\<dots> = {trim '' ops'', trim ''dev''}"
        using t ops by (auto intro: exI [of _ "'' ops''"] exI [of _ "''dev''"])
      finally show ?thesis using t ops by simp
    qed
    then show ?thesis unfolding evaluate_allowed_iff rule_applies_def
      using t(1) by (simp add: wildcard_pattern_matches_def)
  qed
  ultimately show ?thesis by (intro exI [of _ ?p]) simp
qed

end
