(* ===== verification/Rust_Net.thy ===== *)
theory Rust_Net
  imports Rust_Text "HOL-Library.Word"
begin

unbundle bit_operations_syntax

text \<open>
  Internet addresses as the standard library has them (\<open>std::net\<close>): octets and segments are machine
  words, the address classes are the tests of the library on them, and \<open>IpAddr::from_str\<close> is its
  recursive-descent parser. The classes are shown to be address blocks of the 32-bit and 128-bit
  address space, and the parser to read what \<open>Display\<close> prints for an \<open>Ipv4Addr\<close>.
\<close>

datatype Ipv4Addr = Ipv4Addr "8 word" "8 word" "8 word" "8 word"

datatype Ipv6Addr =
  Ipv6Addr "16 word" "16 word" "16 word" "16 word" "16 word" "16 word" "16 word" "16 word"

datatype IpAddr = V4 Ipv4Addr | V6 Ipv6Addr

subsection \<open>Address classes\<close>

fun octets :: "Ipv4Addr \<Rightarrow> 8 word list" where
  "octets (Ipv4Addr a b c d) = [a, b, c, d]"

fun segments :: "Ipv6Addr \<Rightarrow> 16 word list" where
  "segments (Ipv6Addr a b c d e f g h) = [a, b, c, d, e, f, g, h]"

fun v4_is_private :: "Ipv4Addr \<Rightarrow> bool" where
  "v4_is_private (Ipv4Addr a b c d) \<longleftrightarrow>
     a = 10 \<or> (a = 172 \<and> 16 \<le> b \<and> b \<le> 31) \<or> (a = 192 \<and> b = 168)"

fun v4_is_loopback :: "Ipv4Addr \<Rightarrow> bool" where
  "v4_is_loopback (Ipv4Addr a b c d) \<longleftrightarrow> a = 127"

fun v4_is_link_local :: "Ipv4Addr \<Rightarrow> bool" where
  "v4_is_link_local (Ipv4Addr a b c d) \<longleftrightarrow> a = 169 \<and> b = 254"

definition v4_is_broadcast :: "Ipv4Addr \<Rightarrow> bool" where
  "v4_is_broadcast ip \<longleftrightarrow> octets ip = [255, 255, 255, 255]"

definition v4_is_unspecified :: "Ipv4Addr \<Rightarrow> bool" where
  "v4_is_unspecified ip \<longleftrightarrow> octets ip = [0, 0, 0, 0]"

fun v4_is_multicast :: "Ipv4Addr \<Rightarrow> bool" where
  "v4_is_multicast (Ipv4Addr a b c d) \<longleftrightarrow> 224 \<le> a \<and> a \<le> 239"

definition v6_is_unspecified :: "Ipv6Addr \<Rightarrow> bool" where
  "v6_is_unspecified ip \<longleftrightarrow> segments ip = [0, 0, 0, 0, 0, 0, 0, 0]"

definition v6_is_loopback :: "Ipv6Addr \<Rightarrow> bool" where
  "v6_is_loopback ip \<longleftrightarrow> segments ip = [0, 0, 0, 0, 0, 0, 0, 1]"

definition v6_is_multicast :: "Ipv6Addr \<Rightarrow> bool" where
  "v6_is_multicast ip \<longleftrightarrow> (segments ip ! 0) AND 0xff00 = 0xff00"

definition v6_is_unique_local :: "Ipv6Addr \<Rightarrow> bool" where
  "v6_is_unique_local ip \<longleftrightarrow> (segments ip ! 0) AND 0xfe00 = 0xfc00"

fun is_unspecified :: "IpAddr \<Rightarrow> bool" where
  "is_unspecified (V4 ip) = v4_is_unspecified ip"
| "is_unspecified (V6 ip) = v6_is_unspecified ip"

fun is_multicast :: "IpAddr \<Rightarrow> bool" where
  "is_multicast (V4 ip) = v4_is_multicast ip"
| "is_multicast (V6 ip) = v6_is_multicast ip"

text \<open>\<open>Ipv4Addr::to_ipv6_mapped\<close>.\<close>

fun to_ipv6_mapped :: "Ipv4Addr \<Rightarrow> Ipv6Addr" where
  "to_ipv6_mapped (Ipv4Addr a b c d) =
     Ipv6Addr 0 0 0 0 0 0xffff (word_cat a b) (word_cat c d)"

subsection \<open>Address blocks\<close>

text \<open>A block is a base address and a prefix length, as in CIDR notation; membership compares the
  leading bits.\<close>

fun v4_number :: "Ipv4Addr \<Rightarrow> nat" where
  "v4_number (Ipv4Addr a b c d) = ((unat a * 256 + unat b) * 256 + unat c) * 256 + unat d"

definition v4_in_block :: "nat list \<Rightarrow> nat \<Rightarrow> Ipv4Addr \<Rightarrow> bool" where
  "v4_in_block base len ip \<longleftrightarrow>
     v4_number ip div 2 ^ (32 - len) = foldl (\<lambda>n b. n * 256 + b) 0 base div 2 ^ (32 - len)"

definition v6_number :: "Ipv6Addr \<Rightarrow> nat" where
  "v6_number ip = foldl (\<lambda>n s. n * 65536 + unat s) 0 (segments ip)"

definition v6_in_block :: "nat list \<Rightarrow> nat \<Rightarrow> Ipv6Addr \<Rightarrow> bool" where
  "v6_in_block base len ip \<longleftrightarrow>
     v6_number ip div 2 ^ (128 - len) = foldl (\<lambda>n s. n * 65536 + s) 0 base div 2 ^ (128 - len)"

lemma unat8: "unat (w :: 8 word) < 256"
  using unsigned_less [of w] by simp

lemma unat16: "unat (w :: 16 word) < 65536"
  using unsigned_less [of w] by simp

lemma v4_number_div:
  "v4_number (Ipv4Addr a b c d) div 16777216 = unat a"
  "v4_number (Ipv4Addr a b c d) div 65536 = unat a * 256 + unat b"
  "v4_number (Ipv4Addr a b c d) div 268435456 = unat a div 16"
  "v4_number (Ipv4Addr a b c d) div 1048576 = (unat a * 256 + unat b) div 16"
  "v4_number (Ipv4Addr a b c d) div 4194304 = (unat a * 256 + unat b) div 64"
  using unat8 [of a] unat8 [of b] unat8 [of c] unat8 [of d] by simp_all

lemmas word_nat_simps = word_unat_eq_iff word_le_nat_alt

lemma div_eq_bounds: "0 < k \<Longrightarrow> n div k = m \<longleftrightarrow> m * k \<le> n \<and> n < Suc m * k" for n k m :: nat
  using div_nat_eqI [of k m n] div_times_less_eq_dividend [of n k] dividend_less_div_times [of k n]
  by (auto simp: algebra_simps)

lemma v4_private_blocks:
  "v4_is_private ip \<longleftrightarrow>
     v4_in_block [10, 0, 0, 0] 8 ip \<or> v4_in_block [172, 16, 0, 0] 12 ip \<or> v4_in_block [192, 168, 0, 0] 16 ip"
proof (cases ip)
  case (Ipv4Addr a b c d)
  have "a = 172 \<and> 16 \<le> b \<and> b \<le> 31 \<longleftrightarrow> (unat a * 256 + unat b) div 16 = 2753"
    using unat8 [of b] by (simp add: word_nat_simps div_eq_bounds) presburger
  moreover have "a = 192 \<and> b = 168 \<longleftrightarrow> unat a * 256 + unat b = 49320"
    using unat8 [of b] by (simp add: word_nat_simps) presburger
  moreover have "a = 10 \<longleftrightarrow> unat a = 10" by (simp add: word_nat_simps)
  ultimately show ?thesis
    unfolding v4_in_block_def Ipv4Addr by (simp add: v4_number_div del: v4_number.simps)
qed

lemma v4_classes:
  "v4_is_loopback ip \<longleftrightarrow> v4_in_block [127, 0, 0, 0] 8 ip"
  "v4_is_link_local ip \<longleftrightarrow> v4_in_block [169, 254, 0, 0] 16 ip"
  "v4_is_multicast ip \<longleftrightarrow> v4_in_block [224, 0, 0, 0] 4 ip"
proof -
  obtain a b c d where ip: "ip = Ipv4Addr a b c d" by (cases ip)
  note facts = unat8 [of a] unat8 [of b] 
  show "v4_is_loopback ip \<longleftrightarrow> v4_in_block [127, 0, 0, 0] 8 ip"
    unfolding v4_in_block_def ip
    by (simp add: v4_number_div word_nat_simps del: v4_number.simps)
  show "v4_is_link_local ip \<longleftrightarrow> v4_in_block [169, 254, 0, 0] 16 ip"
    unfolding v4_in_block_def ip using facts
    by (simp add: v4_number_div word_nat_simps del: v4_number.simps) arith
  show "v4_is_multicast ip \<longleftrightarrow> v4_in_block [224, 0, 0, 0] 4 ip"
    unfolding v4_in_block_def ip using facts
    by (simp add: v4_number_div word_nat_simps del: v4_number.simps) arith
qed

lemma digits_eq: "n * k + d = m * k + e \<longleftrightarrow> n = m \<and> d = e" if "d < k" "e < k" for n m k d e :: nat
proof
  assume eq: "n * k + d = m * k + e"
  have "n = (n * k + d) div k" "m = (m * k + e) div k" using that by simp_all
  with eq show "n = m \<and> d = e" by simp
qed simp

lemma v4_number_inject: "v4_number x = v4_number y \<longleftrightarrow> x = y"
  by (cases x; cases y) (simp only: v4_number.simps digits_eq [OF unat8 unat8] word_unat_eq_iff Ipv4Addr.inject conj_assoc)

lemma v6_number_top:
  "v6_number (Ipv6Addr a b c d e f g h) div 2 ^ 112 = unat a"
  "v6_number (Ipv6Addr a b c d e f g h) div 2 ^ 96 = unat a * 65536 + unat b"
  using unat16 [of a] unat16 [of b] unat16 [of c] unat16 [of d] unat16 [of e] unat16 [of f]
    unat16 [of g] unat16 [of h]
  by (simp_all add: v6_number_def)

lemma unat_and_not_mask: "unat (w AND NOT (mask n)) = unat w div 2 ^ n * 2 ^ n" for w :: "'a::len word"
proof -
  have eq: "w AND NOT (mask n) = push_bit n (drop_bit n w)"
    by (rule bit_word_eqI) (auto simp: bit_simps)
  have "unat w div 2 ^ n * 2 ^ n < 2 ^ LENGTH('a)"
    using unsigned_less [of w] by (metis div_times_less_eq_dividend order_le_less_trans)
  then show ?thesis
    unfolding eq unsigned_push_bit_eq unat_drop_bit_eq
    by (simp only: push_bit_eq_mult drop_bit_eq_div take_bit_nat_eq_self)
qed

lemma prefix_masks:
  "(w :: 16 word) AND 0xff00 = 0xff00 \<longleftrightarrow> unat w div 2 ^ 8 = 0xff"
  "(w :: 16 word) AND 0xfe00 = 0xfc00 \<longleftrightarrow> unat w div 2 ^ 9 = 0x7e"
  "(w :: 16 word) AND 0xffc0 = 0xfe80 \<longleftrightarrow> unat w div 2 ^ 6 = 0x3fa"
proof -
  have m: "(0xff00 :: 16 word) = NOT (mask 8)" "(0xfe00 :: 16 word) = NOT (mask 9)"
    "(0xffc0 :: 16 word) = NOT (mask 6)" by (simp_all add: mask_eq_exp_minus_1)
  show "(w :: 16 word) AND 0xff00 = 0xff00 \<longleftrightarrow> unat w div 2 ^ 8 = 0xff"
    unfolding word_unat_eq_iff m(1) unat_and_not_mask by (simp flip: m(1)) 
  show "(w :: 16 word) AND 0xfe00 = 0xfc00 \<longleftrightarrow> unat w div 2 ^ 9 = 0x7e"
    unfolding word_unat_eq_iff m unat_and_not_mask by simp
  show "(w :: 16 word) AND 0xffc0 = 0xfe80 \<longleftrightarrow> unat w div 2 ^ 6 = 0x3fa"
    unfolding word_unat_eq_iff m unat_and_not_mask by simp
qed

lemma v6_classes:
  "v6_is_multicast ip \<longleftrightarrow> v6_in_block [0xff00, 0, 0, 0, 0, 0, 0, 0] 8 ip"
  "v6_is_unique_local ip \<longleftrightarrow> v6_in_block [0xfc00, 0, 0, 0, 0, 0, 0, 0] 7 ip"
  "segments ip ! 0 AND 0xffc0 = 0xfe80 \<longleftrightarrow> v6_in_block [0xfe80, 0, 0, 0, 0, 0, 0, 0] 10 ip"
  "segments ip ! 0 = 0x2001 \<and> segments ip ! 1 = 0x0db8 \<longleftrightarrow>
     v6_in_block [0x2001, 0x0db8, 0, 0, 0, 0, 0, 0] 32 ip"
proof -
  obtain a b c d e f g h where ip: "ip = Ipv6Addr a b c d e f g h" by (cases ip)
  have top: "v6_number ip div 2 ^ (112 + k) = unat a div 2 ^ k" for k
    unfolding ip power_add div_mult2_eq v6_number_top ..
  show "v6_is_multicast ip \<longleftrightarrow> v6_in_block [0xff00, 0, 0, 0, 0, 0, 0, 0] 8 ip"
    using top [of 8] by (simp add: ip v6_is_multicast_def v6_in_block_def prefix_masks)
  show "v6_is_unique_local ip \<longleftrightarrow> v6_in_block [0xfc00, 0, 0, 0, 0, 0, 0, 0] 7 ip"
    using top [of 9] by (simp add: ip v6_is_unique_local_def v6_in_block_def prefix_masks)
  show "segments ip ! 0 AND 0xffc0 = 0xfe80 \<longleftrightarrow> v6_in_block [0xfe80, 0, 0, 0, 0, 0, 0, 0] 10 ip"
    using top [of 6] by (simp add: ip v6_in_block_def prefix_masks)
  have "a = 0x2001 \<and> b = 0x0db8 \<longleftrightarrow> unat a * 65536 + unat b = 0x2001 * 65536 + 0x0db8"
    by (subst digits_eq) (simp_all add: unat16 word_nat_simps)
  then show "segments ip ! 0 = 0x2001 \<and> segments ip ! 1 = 0x0db8 \<longleftrightarrow>
     v6_in_block [0x2001, 0x0db8, 0, 0, 0, 0, 0, 0] 32 ip"
    using v6_number_top(2) [of a b c d e f g h] by (simp add: ip v6_in_block_def)
qed

lemma v4_single: "v4_in_block [a, b, c, d] 32 ip \<longleftrightarrow> ip = Ipv4Addr (of_nat a) (of_nat b) (of_nat c) (of_nat d)"
  if "a < 256" "b < 256" "c < 256" "d < 256"
proof -
  have "v4_number (Ipv4Addr (of_nat a) (of_nat b) (of_nat c) (of_nat d)) = ((a * 256 + b) * 256 + c) * 256 + d"
    using that by (simp add: unat_of_nat)
  then show ?thesis
    by (simp add: v4_in_block_def flip: v4_number_inject)
qed

lemma v6_number_inject: "v6_number x = v6_number y \<longleftrightarrow> x = y"
  by (cases x; cases y)
    (simp only: v6_number_def segments.simps foldl.simps digits_eq [OF unat16 unat16] word_unat_eq_iff
      Ipv6Addr.inject conj_assoc mult_0 add_0)

lemma v6_singles:
  "v6_is_unspecified ip \<longleftrightarrow> v6_in_block [0, 0, 0, 0, 0, 0, 0, 0] 128 ip"
  "v6_is_loopback ip \<longleftrightarrow> v6_in_block [0, 0, 0, 0, 0, 0, 0, 1] 128 ip"
proof -
  have z: "v6_number (Ipv6Addr 0 0 0 0 0 0 0 0) = 0" "v6_number (Ipv6Addr 0 0 0 0 0 0 0 1) = 1"
    by (simp_all add: v6_number_def)
  show "v6_is_unspecified ip \<longleftrightarrow> v6_in_block [0, 0, 0, 0, 0, 0, 0, 0] 128 ip"
    using v6_number_inject [of ip "Ipv6Addr 0 0 0 0 0 0 0 0"]
    by (cases ip) (simp add: v6_is_unspecified_def v6_in_block_def z)
  show "v6_is_loopback ip \<longleftrightarrow> v6_in_block [0, 0, 0, 0, 0, 0, 0, 1] 128 ip"
    using v6_number_inject [of ip "Ipv6Addr 0 0 0 0 0 0 0 1"]
    by (cases ip) (simp add: v6_is_loopback_def v6_in_block_def z)
qed

subsection \<open>Parsing\<close>

text \<open>\<open>Parser\<close> of \<open>std::net\<close>: a reader returns its value and the rest of the input, or fails without
  consuming anything.\<close>

definition hex_digits :: string where
  "hex_digits = ''0123456789abcdef''"

definition to_digit :: "nat \<Rightarrow> char \<Rightarrow> nat option" where
  "to_digit radix c =
     (let v = length (takeWhile (\<lambda>d. d \<noteq> ascii_lower c) hex_digits)
      in if v < radix \<and> v < 16 then Some v else None)"

definition digits_number :: "nat \<Rightarrow> string \<Rightarrow> nat" where
  "digits_number radix ds = foldl (\<lambda>n c. n * radix + the (to_digit radix c)) 0 ds"

definition read_number :: "nat \<Rightarrow> nat \<Rightarrow> bool \<Rightarrow> nat \<Rightarrow> string \<Rightarrow> (nat \<times> string) option" where
  "read_number radix max_digits allow_zero_prefix bound s =
     (let ds = takeWhile (\<lambda>c. to_digit radix c \<noteq> None) s; n = digits_number radix ds in
      if ds = [] \<or> length ds > max_digits then None
      else if \<not> allow_zero_prefix \<and> hd ds = CHR ''0'' \<and> length ds > 1 then None
      else if n \<ge> bound then None
      else Some (n, drop (length ds) s))"

definition read_separator :: "char \<Rightarrow> nat \<Rightarrow> (string \<Rightarrow> ('a \<times> string) option) \<Rightarrow> string \<Rightarrow> ('a \<times> string) option" where
  "read_separator sep index inner s =
     (if index = 0 then inner s
      else case s of
        [] \<Rightarrow> None
      | c # rest \<Rightarrow> if c = sep then inner rest else None)"

fun read_octets :: "nat \<Rightarrow> nat \<Rightarrow> string \<Rightarrow> (8 word list \<times> string) option" where
  "read_octets 0 i s = Some ([], s)"
| "read_octets (Suc k) i s =
     (case read_separator CHR ''.'' i (read_number 10 3 False 256) s of
        None \<Rightarrow> None
      | Some (n, rest) \<Rightarrow> map_option (\<lambda>(os, r). (of_nat n # os, r)) (read_octets k (Suc i) rest))"

definition read_ipv4_addr :: "string \<Rightarrow> (Ipv4Addr \<times> string) option" where
  "read_ipv4_addr s =
     map_option (\<lambda>(os, r). (Ipv4Addr (os ! 0) (os ! 1) (os ! 2) (os ! 3), r)) (read_octets 4 0 s)"

text \<open>\<open>read_groups\<close> with \<open>k\<close> slots left: an embedded IPv4 address may end the groups when two slots
  are left.\<close>

fun read_groups :: "nat \<Rightarrow> nat \<Rightarrow> string \<Rightarrow> 16 word list \<times> bool \<times> string" where
  "read_groups 0 i s = ([], False, s)"
| "read_groups (Suc k) i s =
     (case if k \<ge> 1 then read_separator CHR '':'' i read_ipv4_addr s else None of
        Some (Ipv4Addr a b c d, rest) \<Rightarrow> ([word_cat a b, word_cat c d], True, rest)
      | None \<Rightarrow>
          (case read_separator CHR '':'' i (read_number 16 4 True 65536) s of
             None \<Rightarrow> ([], False, s)
           | Some (n, rest) \<Rightarrow>
               (let (gs, v4, r) = read_groups k (Suc i) rest in (of_nat n # gs, v4, r))))"

definition ipv6_of :: "16 word list \<Rightarrow> Ipv6Addr" where
  "ipv6_of gs = Ipv6Addr (gs ! 0) (gs ! 1) (gs ! 2) (gs ! 3) (gs ! 4) (gs ! 5) (gs ! 6) (gs ! 7)"

definition read_ipv6_addr :: "string \<Rightarrow> (Ipv6Addr \<times> string) option" where
  "read_ipv6_addr s =
     (let (head, head_ipv4, rest) = read_groups 8 0 s in
      if length head = 8 then Some (ipv6_of head, rest)
      else if head_ipv4 then None
      else if \<not> prefix ''::'' rest then None
      else
        (let (tail, _, r) = read_groups (8 - (length head + 1)) 0 (drop 2 rest)
         in Some (ipv6_of (head @ replicate (8 - length head - length tail) 0 @ tail), r)))"

definition read_ip_addr :: "string \<Rightarrow> (IpAddr \<times> string) option" where
  "read_ip_addr s =
     (case read_ipv4_addr s of
        Some (ip, r) \<Rightarrow> Some (V4 ip, r)
      | None \<Rightarrow> map_option (\<lambda>(ip, r). (V6 ip, r)) (read_ipv6_addr s))"

text \<open>\<open>str::parse::<IpAddr>\<close> accepts only when the reader consumed the whole input.\<close>

definition parse_ip_addr :: "string \<Rightarrow> IpAddr option" where
  "parse_ip_addr s =
     (case read_ip_addr s of Some (ip, []) \<Rightarrow> Some ip | _ \<Rightarrow> None)"

fun display_ipv4 :: "Ipv4Addr \<Rightarrow> string" where
  "display_ipv4 (Ipv4Addr a b c d) =
     join ''.'' (map (\<lambda>w. show_nat (unat w)) [a, b, c, d])"

subsection \<open>Dotted decimal reads back\<close>

lemma to_digit_decimal [simp]: "d < 10 \<Longrightarrow> to_digit 10 (decimal_digits ! d) = Some d"
  by (drule digit_cases, elim insertE emptyE; hypsubst; code_simp)

lemma to_digit_dot [simp]: "to_digit 10 CHR ''.'' = None"
  by (simp add: to_digit_def hex_digits_def ascii_lower_def)

lemma show_nat_digits: "c \<in> set (show_nat n) \<Longrightarrow> to_digit 10 c \<noteq> None"
proof (induction n rule: show_nat.induct)
  case (1 n)
  then show ?case
    by (cases "n < 10") (auto simp: show_nat.simps [of n])
qed

lemma digits_number_show: "digits_number 10 (show_nat n) = n"
proof (induction n rule: show_nat.induct)
  case (1 n)
  then show ?case
    by (subst show_nat.simps) (auto simp: digits_number_def)
qed

lemma length_show_nat: "n < 10 ^ k \<Longrightarrow> 0 < k \<Longrightarrow> length (show_nat n) \<le> k"
proof (induction k arbitrary: n)
  case (Suc k)
  show ?case
  proof (cases "n < 10")
    case False
    with Suc.prems have "n div 10 < 10 ^ k" "0 < k"
      by (auto simp: less_mult_imp_div_less mult.commute intro: Nat.gr0I)
    with Suc.IH [of "n div 10"] False show ?thesis by (subst show_nat.simps) simp
  qed (subst show_nat.simps, simp)
qed simp

lemma hd_show_nat: "0 < n \<Longrightarrow> hd (show_nat n) \<noteq> CHR ''0''"
proof (induction n rule: show_nat.induct)
  case (1 n)
  show ?case
  proof (cases "n < 10")
    case True
    with 1 digit_cases [OF True] show ?thesis
      by (subst show_nat.simps) (auto simp: decimal_digits_def)
  next
    case False
    with 1 show ?thesis by (subst show_nat.simps) simp
  qed
qed

lemma read_number_show:
  assumes "n < 256" "rest = [] \<or> hd rest = CHR ''.''"
  shows "read_number 10 3 False 256 (show_nat n @ rest) = Some (n, rest)"
proof -
  have tw: "takeWhile (\<lambda>c. to_digit 10 c \<noteq> None) (show_nat n @ rest) = show_nat n"
  proof -
    have "takeWhile (\<lambda>c. to_digit 10 c \<noteq> None) rest = []"
      using assms(2) by (cases rest) auto
    then show ?thesis
      using show_nat_digits by (subst takeWhile_append2) auto
  qed
  have len: "length (show_nat n) \<le> 3" using assms(1) length_show_nat [of n 3] by simp
  have zero: "hd (show_nat n) \<noteq> CHR ''0'' \<or> length (show_nat n) \<le> 1"
    using hd_show_nat [of n] by (cases "n = 0") (auto simp: show_nat.simps)
  show ?thesis
    unfolding read_number_def tw using assms(1) len zero by (auto simp: digits_number_show Let_def)
qed

lemma read_display_ipv4: "read_ipv4_addr (display_ipv4 ip) = Some (ip, [])"
proof (cases ip)
  have four: "read_octets 4 = read_octets (Suc (Suc (Suc (Suc 0))))" by (simp add: eval_nat_numeral)
  case (Ipv4Addr a b c d)
  then show ?thesis
    using read_number_show [OF unat8, of "[]" d]
    by (simp add: read_ipv4_addr_def four read_separator_def read_number_show unat8)
qed

lemma parse_display_ipv4: "parse_ip_addr (display_ipv4 ip) = Some (V4 ip)"
  by (simp add: parse_ip_addr_def read_ip_addr_def read_display_ipv4)

end
