(* ===== verification/Net_Ssrf.thy ===== *)
theory Net_Ssrf
  imports Rust_Net
begin

text \<open>
  The guard for outbound HTTP destinations (\<open>crates/tau-runtime/src/ssrf_guard.rs\<close>). The \<open>url\<close> crate
  and the resolver are arguments: \<open>Url::parse\<close> is a partial function to the parts of a URL the guard
  reads, \<open>lookup_host\<close> gives the addresses of a host and port or fails. The address tests are shown
  to be a list of address blocks, and an accepted URL to lead only to addresses outside them.
\<close>

record SsrfProtectionConfig =
  sp_enabled :: bool
  sp_allow_http :: bool
  sp_allow_private_network :: bool

definition default_ssrf_config :: SsrfProtectionConfig where
  "default_ssrf_config = \<lparr>sp_enabled = True, sp_allow_http = False, sp_allow_private_network = False\<rparr>"

text \<open>What the guard reads of a parsed URL.\<close>

record Url =
  url_scheme :: string
  url_host_str :: "string option"
  url_port_or_known_default :: "nat option"

datatype SsrfDetail =
    InvalidOutboundUrl string
  | MissingHost
  | EmptyHost
  | NoDefaultPort
  | MetadataHostname string
  | LocalhostHostname string
  | ResolutionFailed string
  | ResolvedNoAddresses string
  | NonHttps
  | UnsupportedScheme string
  | MetadataIp IpAddr
  | UnspecifiedIp IpAddr
  | MulticastIp IpAddr
  | PrivateIp IpAddr

record SsrfViolation =
  ssrf_reason_code :: string
  ssrf_detail :: SsrfDetail

definition violation :: "string \<Rightarrow> SsrfDetail \<Rightarrow> SsrfViolation" where
  "violation reason_code detail = \<lparr>ssrf_reason_code = reason_code, ssrf_detail = detail\<rparr>"

type_synonym resolver = "string \<Rightarrow> nat \<Rightarrow> IpAddr list option"

definition validate_scheme :: "Url \<Rightarrow> bool \<Rightarrow> SsrfViolation + unit" where
  "validate_scheme url allow_plain =
     (if url_scheme url = ''https'' then Inr ()
      else if url_scheme url = ''http'' then
        (if allow_plain then Inr () else Inl (violation ''delivery_ssrf_blocked_scheme'' NonHttps))
      else Inl (violation ''delivery_ssrf_blocked_scheme'' (UnsupportedScheme (url_scheme url))))"

definition trim_end_dots :: "string \<Rightarrow> string" where
  "trim_end_dots s = rev (dropWhile (\<lambda>c. c = CHR ''.'') (rev s))"

definition normalized_host :: "Url \<Rightarrow> SsrfViolation + string" where
  "normalized_host url =
     and_then (ok_or (url_host_str url) (violation ''delivery_ssrf_invalid_url'' MissingHost)) (\<lambda>raw.
       (let host = to_ascii_lowercase (trim_end_dots (trim raw)) in
        if host = [] then Inl (violation ''delivery_ssrf_invalid_url'' EmptyHost) else Inr host))"

definition is_localhost_hostname :: "string \<Rightarrow> bool" where
  "is_localhost_hostname host \<longleftrightarrow> host = ''localhost'' \<or> suffix ''.localhost'' host"

definition is_metadata_hostname :: "string \<Rightarrow> bool" where
  "is_metadata_hostname host \<longleftrightarrow>
     host \<in> {''metadata'', ''metadata.google.internal'', ''instance-data'',
             ''instance-data.ec2.internal'', ''metadata.azure.internal''}"

definition is_metadata_ip :: "IpAddr \<Rightarrow> bool" where
  "is_metadata_ip ip =
     (case ip of V4 ipv4 \<Rightarrow> ipv4 = Ipv4Addr 169 254 169 254 | V6 _ \<Rightarrow> False)"

definition is_ipv4_carrier_grade_nat :: "Ipv4Addr \<Rightarrow> bool" where
  "is_ipv4_carrier_grade_nat ipv4 \<longleftrightarrow>
     octets ipv4 ! 0 = 100 \<and> 64 \<le> octets ipv4 ! 1 \<and> octets ipv4 ! 1 \<le> 127"

definition is_ipv6_link_local :: "Ipv6Addr \<Rightarrow> bool" where
  "is_ipv6_link_local ipv6 \<longleftrightarrow> and (segments ipv6 ! 0) 0xffc0 = 0xfe80"

definition is_ipv6_documentation :: "Ipv6Addr \<Rightarrow> bool" where
  "is_ipv6_documentation ipv6 \<longleftrightarrow> segments ipv6 ! 0 = 0x2001 \<and> segments ipv6 ! 1 = 0x0db8"

definition is_private_network_ip :: "IpAddr \<Rightarrow> bool" where
  "is_private_network_ip ip =
     (case ip of
        V4 ipv4 \<Rightarrow> v4_is_private ipv4 \<or> v4_is_loopback ipv4 \<or> v4_is_link_local ipv4
          \<or> v4_is_broadcast ipv4 \<or> is_ipv4_carrier_grade_nat ipv4
      | V6 ipv6 \<Rightarrow> v6_is_loopback ipv6 \<or> v6_is_unique_local ipv6
          \<or> is_ipv6_link_local ipv6 \<or> is_ipv6_documentation ipv6)"

definition validate_ip :: "IpAddr \<Rightarrow> bool \<Rightarrow> SsrfViolation + unit" where
  "validate_ip ip allow_private =
     (if is_metadata_ip ip then
        Inl (violation ''delivery_ssrf_blocked_metadata_endpoint'' (MetadataIp ip))
      else if is_unspecified ip then
        Inl (violation ''delivery_ssrf_blocked_unspecified_ip'' (UnspecifiedIp ip))
      else if is_multicast ip then
        Inl (violation ''delivery_ssrf_blocked_multicast'' (MulticastIp ip))
      else if \<not> allow_private \<and> is_private_network_ip ip then
        Inl (violation ''delivery_ssrf_blocked_private_network'' (PrivateIp ip))
      else Inr ())"

text \<open>The loop over the resolved addresses stops at the first violation.\<close>

definition validate_addresses :: "bool \<Rightarrow> IpAddr list \<Rightarrow> SsrfViolation + unit" where
  "validate_addresses allow_private ips = try_fold (\<lambda>_ ip. validate_ip ip allow_private) () ips"

definition validate_url :: "resolver \<Rightarrow> SsrfProtectionConfig \<Rightarrow> Url \<Rightarrow> SsrfViolation + unit" where
  "validate_url lookup_host cfg url =
     (if \<not> sp_enabled cfg then Inr ()
      else and_then (validate_scheme url (sp_allow_http cfg)) (\<lambda>_.
        and_then (normalized_host url) (\<lambda>host.
          if is_metadata_hostname host then
            Inl (violation ''delivery_ssrf_blocked_metadata_endpoint'' (MetadataHostname host))
          else if is_localhost_hostname host \<and> \<not> sp_allow_private_network cfg then
            Inl (violation ''delivery_ssrf_blocked_private_network'' (LocalhostHostname host))
          else
            (case parse_ip_addr host of
               Some ip \<Rightarrow> validate_ip ip (sp_allow_private_network cfg)
             | None \<Rightarrow>
                 and_then (ok_or (url_port_or_known_default url)
                   (violation ''delivery_ssrf_invalid_url'' NoDefaultPort)) (\<lambda>port.
                 and_then (ok_or (lookup_host host port)
                   (violation ''delivery_ssrf_dns_resolution_failed'' (ResolutionFailed host))) (\<lambda>addresses.
                 and_then (validate_addresses (sp_allow_private_network cfg) addresses) (\<lambda>_.
                   if addresses = [] then
                     Inl (violation ''delivery_ssrf_dns_resolution_failed'' (ResolvedNoAddresses host))
                   else Inr ())))))))"

definition parse_and_validate_url ::
  "(string \<Rightarrow> Url option) \<Rightarrow> resolver \<Rightarrow> SsrfProtectionConfig \<Rightarrow> string \<Rightarrow> SsrfViolation + Url" where
  "parse_and_validate_url url_parse lookup_host cfg raw_url =
     and_then (ok_or (url_parse raw_url)
       (violation ''delivery_ssrf_invalid_url'' (InvalidOutboundUrl raw_url))) (\<lambda>url.
     and_then (validate_url lookup_host cfg url) (\<lambda>_. Inr url))"

subsection \<open>Blocks\<close>

fun in_block :: "nat list \<times> nat \<Rightarrow> IpAddr \<Rightarrow> bool" where
  "in_block (base, len) (V4 ip) \<longleftrightarrow> length base = 4 \<and> v4_in_block base len ip"
| "in_block (base, len) (V6 ip) \<longleftrightarrow> length base = 8 \<and> v6_in_block base len ip"

text \<open>The blocks refused under every configuration and those refused unless private networks are
  allowed.\<close>

definition always_blocked :: "(nat list \<times> nat) list" where
  "always_blocked =
     [([169, 254, 169, 254], 32), ([0, 0, 0, 0], 32), ([224, 0, 0, 0], 4),
      ([0, 0, 0, 0, 0, 0, 0, 0], 128), ([0xff00, 0, 0, 0, 0, 0, 0, 0], 8)]"

definition private_blocks :: "(nat list \<times> nat) list" where
  "private_blocks =
     [([10, 0, 0, 0], 8), ([172, 16, 0, 0], 12), ([192, 168, 0, 0], 16), ([127, 0, 0, 0], 8),
      ([169, 254, 0, 0], 16), ([255, 255, 255, 255], 32), ([100, 64, 0, 0], 10),
      ([0, 0, 0, 0, 0, 0, 0, 1], 128), ([0xfc00, 0, 0, 0, 0, 0, 0, 0], 7),
      ([0xfe80, 0, 0, 0, 0, 0, 0, 0], 10), ([0x2001, 0x0db8, 0, 0, 0, 0, 0, 0], 32)]"

definition admitted :: "bool \<Rightarrow> IpAddr \<Rightarrow> bool" where
  "admitted allow_private ip \<longleftrightarrow>
     list_all (\<lambda>block. \<not> in_block block ip) (always_blocked @ (if allow_private then [] else private_blocks))"

lemma carrier_grade_nat_block: "is_ipv4_carrier_grade_nat ip \<longleftrightarrow> v4_in_block [100, 64, 0, 0] 10 ip"
proof (cases ip)
  case (Ipv4Addr a b c d)
  have "a = 100 \<and> 64 \<le> b \<and> b \<le> 127 \<longleftrightarrow> (unat a * 256 + unat b) div 64 = 401"
    using unat8 [of b] by (simp add: word_nat_simps div_eq_bounds) presburger
  then show ?thesis
    unfolding is_ipv4_carrier_grade_nat_def v4_in_block_def Ipv4Addr
    by (simp add: v4_number_div del: v4_number.simps)
qed

lemma v4_hosts:
  "v4_is_unspecified ip \<longleftrightarrow> v4_in_block [0, 0, 0, 0] 32 ip"
  "v4_is_broadcast ip \<longleftrightarrow> v4_in_block [255, 255, 255, 255] 32 ip"
  "ip = Ipv4Addr 169 254 169 254 \<longleftrightarrow> v4_in_block [169, 254, 169, 254] 32 ip"
  by (cases ip; simp add: v4_single v4_is_unspecified_def v4_is_broadcast_def)+

lemma v6_guard_blocks:
  "is_ipv6_link_local ip \<longleftrightarrow> v6_in_block [0xfe80, 0, 0, 0, 0, 0, 0, 0] 10 ip"
  "is_ipv6_documentation ip \<longleftrightarrow> v6_in_block [0x2001, 0x0db8, 0, 0, 0, 0, 0, 0] 32 ip"
  by (simp_all only: is_ipv6_link_local_def is_ipv6_documentation_def v6_classes)

lemmas block_facts = v4_private_blocks v4_classes v4_hosts carrier_grade_nat_block v6_classes(1,2)
  v6_guard_blocks v6_singles

lemma validate_ip_ok_iff: "validate_ip ip allow_private = Inr () \<longleftrightarrow> admitted allow_private ip"
  by (cases ip)
    (auto simp: validate_ip_def admitted_def always_blocked_def private_blocks_def is_metadata_ip_def
      is_private_network_ip_def block_facts)

lemma validate_addresses_ok_iff:
  "validate_addresses allow_private ips = Inr () \<longleftrightarrow> list_all (admitted allow_private) ips"
  unfolding validate_addresses_def
  by (induction ips) (auto simp: result_simps validate_ip_ok_iff)

subsection \<open>Where an accepted URL leads\<close>

definition host_name :: "Url \<Rightarrow> string option" where
  "host_name url =
     Option.bind (url_host_str url) (\<lambda>raw.
       let host = to_ascii_lowercase (trim_end_dots (trim raw)) in if host = [] then None else Some host)"

text \<open>The addresses behind a host: the address itself for a literal, else what the resolver
  returns.\<close>

definition destinations :: "resolver \<Rightarrow> Url \<Rightarrow> string \<Rightarrow> IpAddr list" where
  "destinations lookup_host url host =
     (case parse_ip_addr host of
        Some ip \<Rightarrow> [ip]
      | None \<Rightarrow> (case Option.bind (url_port_or_known_default url) (lookup_host host) of
                  Some ips \<Rightarrow> ips | None \<Rightarrow> []))"

lemma normalized_host_Inr: "normalized_host url = Inr host \<longleftrightarrow> host_name url = Some host"
  by (auto simp: normalized_host_def host_name_def Let_def result_simps bind_eq_Some_conv split: if_splits)

lemma validate_scheme_ok:
  "validate_scheme url allow_plain = Inr () \<longleftrightarrow>
     url_scheme url = ''https'' \<or> (url_scheme url = ''http'' \<and> allow_plain)"
  by (simp add: validate_scheme_def)

lemma validate_url_ok_iff:
  "validate_url lookup_host cfg url = Inr () \<longleftrightarrow>
     (if sp_enabled cfg then
        (url_scheme url = ''https'' \<or> (url_scheme url = ''http'' \<and> sp_allow_http cfg))
        \<and> (\<exists>host. host_name url = Some host \<and> \<not> is_metadata_hostname host
             \<and> \<not> (is_localhost_hostname host \<and> \<not> sp_allow_private_network cfg)
             \<and> destinations lookup_host url host \<noteq> []
             \<and> list_all (admitted (sp_allow_private_network cfg)) (destinations lookup_host url host))
      else True)"
proof (cases "sp_enabled cfg \<and> validate_scheme url (sp_allow_http cfg) = Inr ()")
  case scheme: True
  show ?thesis
  proof (cases "normalized_host url")
    case (Inl e)
    then have "host_name url = None"
      using normalized_host_Inr [of url] by (cases "host_name url") auto
    with scheme Inl show ?thesis by (simp add: validate_url_def)
  next
    case (Inr host)
    note host = Inr normalized_host_Inr [THEN iffD1, OF Inr]
    note checks = validate_ip_ok_iff validate_addresses_ok_iff
    consider (literal) ip where "parse_ip_addr host = Some ip"
      | (unresolved) "parse_ip_addr host = None" "Option.bind (url_port_or_known_default url) (lookup_host host) = None"
      | (resolved) port ips where "parse_ip_addr host = None" "url_port_or_known_default url = Some port"
          "lookup_host host port = Some ips"
      by (cases "parse_ip_addr host"; cases "Option.bind (url_port_or_known_default url) (lookup_host host)")
        (auto simp: bind_eq_Some_conv simp del: bind_eq_None_conv)
    then show ?thesis
    proof cases
      case unresolved
      then show ?thesis using scheme host
        by (cases "url_port_or_known_default url") (simp_all add: validate_url_def destinations_def)
    qed (use scheme host in \<open>auto simp: validate_url_def destinations_def checks validate_scheme_ok result_simps\<close>)
  qed
next
  case False
  then show ?thesis using validate_scheme_ok [of url "sp_allow_http cfg"]
    by (cases "validate_scheme url (sp_allow_http cfg)") (auto simp: validate_url_def)
qed

subsection \<open>Literal addresses\<close>

lemma set_display_ipv4: "c \<in> set (display_ipv4 ip) \<Longrightarrow> c = CHR ''.'' \<or> to_digit 10 c \<noteq> None"
  by (cases ip) (use show_nat_digits in auto)

lemma digit_byte: "to_digit 10 c \<noteq> None \<Longrightarrow> (of_char c :: nat) \<in> {48..57} \<and> ascii_lower c = c"
proof -
  assume "to_digit 10 c \<noteq> None"
  then have len: "length (takeWhile (\<lambda>d. d \<noteq> ascii_lower c) hex_digits) < 10"
    by (auto simp: to_digit_def Let_def split: if_splits)
  then have "hex_digits ! length (takeWhile (\<lambda>d. d \<noteq> ascii_lower c) hex_digits) = ascii_lower c"
    using nth_length_takeWhile [of "\<lambda>d. d \<noteq> ascii_lower c" hex_digits] by (simp add: hex_digits_def)
  moreover have "(of_char (hex_digits ! k) :: nat) \<in> {48..57}" if "k < 10" for k
    using digit_cases [OF that] by (auto simp: hex_digits_def)
  ultimately have "(of_char (ascii_lower c) :: nat) \<in> {48..57}" using len by metis
  then show ?thesis
    by (auto simp: ascii_lower_def of_char_of take_bit_nat_eq_self split: if_splits)
qed

lemma display_ipv4_ends:
  "to_digit 10 (hd (display_ipv4 ip)) \<noteq> None" "to_digit 10 (last (display_ipv4 ip)) \<noteq> None"
  "display_ipv4 ip \<noteq> []"
proof -
  obtain a b c d where ip: "ip = Ipv4Addr a b c d" by (cases ip)
  have "to_digit 10 (hd (show_nat n)) \<noteq> None" "to_digit 10 (last (show_nat n)) \<noteq> None" for n
    using show_nat_digits [OF hd_in_set] show_nat_digits [OF last_in_set] by simp_all
  then show "to_digit 10 (hd (display_ipv4 ip)) \<noteq> None" "to_digit 10 (last (display_ipv4 ip)) \<noteq> None"
    by (simp_all add: ip)
qed (cases ip, simp)

lemma host_name_literal: "url_host_str url = Some (display_ipv4 ip) \<Longrightarrow> host_name url = Some (display_ipv4 ip)"
proof -
  have t: "trim (display_ipv4 ip) = display_ipv4 ip"
    using display_ipv4_ends [of ip] digit_byte by (intro trim_visible) fastforce+
  have d: "trim_end_dots (display_ipv4 ip) = display_ipv4 ip"
    using display_ipv4_ends(2,3) [of ip] unfolding trim_end_dots_def
    by (cases "display_ipv4 ip" rule: rev_cases) auto
  have l: "to_ascii_lowercase (display_ipv4 ip) = display_ipv4 ip"
    unfolding to_ascii_lowercase_def
    by (rule map_idI) (use set_display_ipv4 digit_byte in \<open>fastforce simp: ascii_lower_def\<close>)
  show "url_host_str url = Some (display_ipv4 ip) \<Longrightarrow> host_name url = Some (display_ipv4 ip)"
    by (simp add: host_name_def t d l display_ipv4_ends(3))
qed

lemma literal_not_named: "\<not> is_metadata_hostname (display_ipv4 ip)" "\<not> is_localhost_hostname (display_ipv4 ip)"
proof -
  have "to_digit 10 CHR ''a'' = None" "to_digit 10 CHR ''l'' = None" "to_digit 10 CHR ''t'' = None" by code_simp+
  then show "\<not> is_metadata_hostname (display_ipv4 ip)" "\<not> is_localhost_hostname (display_ipv4 ip)"
    using display_ipv4_ends(2) [of ip]
    by (auto simp: is_metadata_hostname_def is_localhost_hostname_def suffix_def)
qed

text \<open>The address test of the guard is exactly membership in a list of address blocks: an address
  is accepted if and only if it lies outside the metadata host, the unspecified hosts and the multicast
  blocks and, unless private networks are allowed, outside every private, loopback, link-local,
  broadcast, carrier-grade-NAT, unique-local and documentation block.\<close>

theorem ssrf_address_blocks:
  "is_ok (validate_ip ip allow_private) \<longleftrightarrow> admitted allow_private ip"
  using validate_ip_ok_iff [of ip allow_private] by (auto simp: is_ok_iff)

text \<open>C38. A URL passes the guard if and only if the guard is switched off, or its scheme is https (or
  http where that is allowed), its host is present and is neither a metadata name nor (unless private
  networks are allowed) a localhost name, and there is at least one address behind the host and every
  one of them is admitted; this holds for every resolver.\<close>

theorem ssrf_guard_checks_every_address:
  "is_ok (validate_url lookup_host cfg url) \<longleftrightarrow>
     (if sp_enabled cfg then
        (url_scheme url = ''https'' \<or> (url_scheme url = ''http'' \<and> sp_allow_http cfg))
        \<and> (\<exists>host. host_name url = Some host \<and> \<not> is_metadata_hostname host
             \<and> \<not> (is_localhost_hostname host \<and> \<not> sp_allow_private_network cfg)
             \<and> destinations lookup_host url host \<noteq> []
             \<and> list_all (admitted (sp_allow_private_network cfg)) (destinations lookup_host url host))
      else True)"
  using validate_url_ok_iff [of lookup_host cfg url] by (auto simp: is_ok_iff)

text \<open>Under the default configuration a URL whose host is written as an IPv4 address is accepted
  if and only if its scheme is https and the address is admitted, whatever the resolver would say.\<close>

theorem ssrf_literal_hosts:
  "is_ok (validate_url lookup_host default_ssrf_config
            \<lparr>url_scheme = scheme, url_host_str = Some (display_ipv4 ip), url_port_or_known_default = port\<rparr>)
   \<longleftrightarrow> scheme = ''https'' \<and> admitted False (V4 ip)"
  by (auto simp: is_ok_iff validate_url_ok_iff default_ssrf_config_def host_name_literal literal_not_named
      destinations_def parse_display_ipv4)

text \<open>An IPv4 address in its IPv4-mapped IPv6 form passes the address test whatever it is, the
  metadata address and the private ranges included: the guard does not look inside the mapping.\<close>

theorem ssrf_mapped_addresses_pass:
  "is_ok (validate_ip (V6 (to_ipv6_mapped ip)) allow_private)
   \<and> \<not> is_ok (validate_ip (V4 (Ipv4Addr 169 254 169 254)) allow_private)"
proof -
  have "is_ok (validate_ip (V6 (to_ipv6_mapped ip)) allow_private)"
    by (cases ip) (simp add: validate_ip_def is_metadata_ip_def v6_is_unspecified_def v6_is_multicast_def
        is_private_network_ip_def v6_is_loopback_def v6_is_unique_local_def is_ipv6_link_local_def
        is_ipv6_documentation_def)
  then show ?thesis by (simp add: validate_ip_def is_metadata_ip_def)
qed

end
