(* ===== verification/Json_File.thy ===== *)
theory Json_File
  imports Rust_Text
begin

text \<open>
  Small state files: JSON documents read with \<open>serde_json\<close> and replaced by \<open>write_text_atomic\<close>
  (\<open>crates/tau-core/src/atomic_io.rs\<close>). A file is absent, holds a document that deserializes to a
  value, or holds anything else; a write either replaces the document or fails and leaves the file as
  it was. The locale states what the clients of such a file rely on.
\<close>

datatype 'a json_file = NoFile | JsonFile 'a | OtherFile

text \<open>The outcome of the write is an argument.\<close>

definition save_json :: "bool \<Rightarrow> 'e \<Rightarrow> 'a \<Rightarrow> 'a json_file \<Rightarrow> ('e + unit) \<times> 'a json_file" where
  "save_json written failure value file =
     (if written then (Inr (), JsonFile value) else (Inl failure, file))"

lemma save_json_simps [simp]:
  "save_json True failure value file = (Inr (), JsonFile value)"
  "save_json False failure value file = (Inl failure, file)"
  by (simp_all add: save_json_def)

subsection \<open>Where state files are\<close>

text \<open>A path is the list of its components (an absolute path starts with the component \<open>/\<close>). The
  root of the \<open>.tau\<close> directory is the parent of a channel runtime's state directory, unless that
  parent is empty.\<close>

type_synonym path = "string list"

definition tau_root :: "path \<Rightarrow> path" where
  "tau_root state_dir =
     (if state_dir \<noteq> []
         \<and> last state_dir \<in> {''github'', ''slack'', ''events'', ''channel-store'', ''multi-channel''}
      then (if butlast state_dir = [] then state_dir else butlast state_dir)
      else state_dir)"

subsection \<open>The contract of a state file\<close>

locale json_store =
  fixes load :: "'s json_file \<Rightarrow> 'e + 's"
    and valid :: "'s \<Rightarrow> bool"
  assumes load_stored: "valid s \<Longrightarrow> load (JsonFile s) = Inr s"
    and load_valid: "load f = Inr s \<Longrightarrow> valid s"
begin

lemma load_after_save:
  assumes "valid s" "save_json written failure s f = (Inr (), g)"
  shows "load g = Inr s"
  using assms by (cases written) (auto simp: load_stored)

lemma failed_save_keeps:
  assumes "save_json written failure s f = (Inl e, g)"
  shows "g = f"
  using assms by (cases written) auto

end

end
