(* ===== verification/Access_Approvals.thy ===== *)
theory Access_Approvals
  imports Json_File
begin

text \<open>
  Approval requests (\<open>crates/tau-access/src/approvals.rs\<close>): the policy with its rules, the store of
  requests, the gate an action has to pass, the decisions of an operator and the \<open>/approvals\<close> command.
  Policy and store are JSON files; the clock, the outcomes of the writes and the fingerprint of an
  action (SHA-256 of its JSON form) are arguments. The text listing is its text, the JSON listing its
  contents. The mutex that serialises the operations makes each of them one step.
\<close>

abbreviation APPROVAL_POLICY_SCHEMA_VERSION :: nat where "APPROVAL_POLICY_SCHEMA_VERSION \<equiv> 1"
abbreviation APPROVAL_STORE_SCHEMA_VERSION :: nat where "APPROVAL_STORE_SCHEMA_VERSION \<equiv> 1"
abbreviation DEFAULT_APPROVAL_TIMEOUT_SECONDS :: nat where "DEFAULT_APPROVAL_TIMEOUT_SECONDS \<equiv> 900"

datatype ApprovalRequestStatus = Pending | Approved | Rejected | Expired | Consumed

fun approval_status_str :: "ApprovalRequestStatus \<Rightarrow> string" where
  "approval_status_str Pending = ''pending''"
| "approval_status_str Approved = ''approved''"
| "approval_status_str Rejected = ''rejected''"
| "approval_status_str Expired = ''expired''"
| "approval_status_str Consumed = ''consumed''"

record ApprovalPolicyRule =
  ar_id :: string
  ar_action :: string
  ar_command_prefixes :: "string list"
  ar_path_prefixes :: "string list"
  ar_command_names :: "string list"

record ApprovalPolicyFile =
  ap_schema_version :: nat
  ap_enabled :: bool
  ap_strict_mode :: bool
  ap_timeout_seconds :: nat
  ap_rules :: "ApprovalPolicyRule list"

definition default_approval_policy :: ApprovalPolicyFile where
  "default_approval_policy =
     \<lparr>ap_schema_version = APPROVAL_POLICY_SCHEMA_VERSION, ap_enabled = False, ap_strict_mode = True,
      ap_timeout_seconds = DEFAULT_APPROVAL_TIMEOUT_SECONDS, ap_rules = []\<rparr>"

record ApprovalRequestRecord =
  aq_id :: string
  aq_rule_id :: string
  aq_action_kind :: string
  aq_action_summary :: string
  aq_fingerprint :: string
  aq_status :: ApprovalRequestStatus
  aq_created_at_ms :: nat
  aq_expires_at_ms :: nat
  aq_decision_at_ms :: "nat option"
  aq_decision_reason :: "string option"
  aq_decision_actor :: "string option"
  aq_consumed_at_ms :: "nat option"

record ApprovalStoreFile =
  as_schema_version :: nat
  as_next_request_id :: nat
  as_requests :: "ApprovalRequestRecord list"

definition default_approval_store :: ApprovalStoreFile where
  "default_approval_store =
     \<lparr>as_schema_version = APPROVAL_STORE_SCHEMA_VERSION, as_next_request_id = 1, as_requests = []\<rparr>"

datatype ApprovalAction =
    ToolBash string "string option"
  | ToolWrite string nat
  | ToolEdit string string nat
  | Command string string

fun action_kind :: "ApprovalAction \<Rightarrow> string" where
  "action_kind (ToolBash _ _) = ''tool:bash''"
| "action_kind (ToolWrite _ _) = ''tool:write''"
| "action_kind (ToolEdit _ _ _) = ''tool:edit''"
| "action_kind (Command _ _) = ''command''"

fun action_summary :: "ApprovalAction \<Rightarrow> string" where
  "action_summary (ToolBash command cwd) =
     ''bash command='' @ [CHR 0x27] @ command @ [CHR 0x27] @ '' cwd=''
     @ (case cwd of Some c \<Rightarrow> c | None \<Rightarrow> ''default'')"
| "action_summary (ToolWrite p content_bytes) =
     ''write path='' @ p @ '' bytes='' @ show_nat content_bytes"
| "action_summary (ToolEdit p find_text replace_bytes) =
     ''edit path='' @ p @ '' find='' @ [CHR 0x27] @ find_text @ [CHR 0x27]
     @ '' replace_bytes='' @ show_nat replace_bytes"
| "action_summary (Command name args) =
     ''command name='' @ name @ '' args='' @ [CHR 0x27] @ args @ [CHR 0x27]"

fun action_command_name :: "ApprovalAction \<Rightarrow> string option" where
  "action_command_name (Command name _) = Some name"
| "action_command_name _ = None"

fun action_path_value :: "ApprovalAction \<Rightarrow> string option" where
  "action_path_value (ToolWrite p _) = Some p"
| "action_path_value (ToolEdit p _ _) = Some p"
| "action_path_value _ = None"

fun action_command_value :: "ApprovalAction \<Rightarrow> string option" where
  "action_command_value (ToolBash command _) = Some command"
| "action_command_value _ = None"

datatype ApprovalGateResult =
    Allowed
  | Denied string string string string

datatype ApprovalOutputFormat = ApprovalText | ApprovalJson

datatype ApprovalsCommand =
    ApprovalsList ApprovalOutputFormat "ApprovalRequestStatus option"
  | ApprovalsApprove string "string option"
  | ApprovalsReject string "string option"

datatype ApprovalError =
    ApprovalUsage
  | ApprovalInvalidStatus string
  | PolicyParse
  | PolicySchema nat
  | PolicyTimeoutZero
  | PolicyRuleIdEmpty
  | PolicyRuleDuplicate string
  | PolicyRuleAction string
  | StoreParse
  | StoreSchema nat
  | StoreWrite
  | RequestNotFound string
  | RequestNotPending string ApprovalRequestStatus
  | InvalidDecision ApprovalRequestStatus

subsection \<open>Files\<close>

fun validate_approval_rules :: "string set \<Rightarrow> ApprovalPolicyRule list \<Rightarrow> ApprovalError + unit" where
  "validate_approval_rules seen [] = Inr ()"
| "validate_approval_rules seen (r # rs) =
     (if trim (ar_id r) = [] then Inl PolicyRuleIdEmpty
      else if ar_id r \<in> seen then Inl (PolicyRuleDuplicate (ar_id r))
      else if ar_action r \<notin> {''tool:bash'', ''tool:write'', ''tool:edit'', ''command''}
        then Inl (PolicyRuleAction (ar_action r))
      else validate_approval_rules (insert (ar_id r) seen) rs)"

definition validate_approval_policy :: "ApprovalPolicyFile \<Rightarrow> ApprovalError + unit" where
  "validate_approval_policy policy =
     (if ap_schema_version policy \<noteq> APPROVAL_POLICY_SCHEMA_VERSION then Inl (PolicySchema (ap_schema_version policy))
      else if ap_timeout_seconds policy = 0 then Inl PolicyTimeoutZero
      else validate_approval_rules {} (ap_rules policy))"

definition load_approval_policy :: "ApprovalPolicyFile json_file \<Rightarrow> ApprovalError + ApprovalPolicyFile" where
  "load_approval_policy file =
     (case file of
        NoFile \<Rightarrow> Inr default_approval_policy
      | OtherFile \<Rightarrow> Inl PolicyParse
      | JsonFile parsed \<Rightarrow> and_then (validate_approval_policy parsed) (\<lambda>_. Inr parsed))"

definition load_approval_store :: "ApprovalStoreFile json_file \<Rightarrow> ApprovalError + ApprovalStoreFile" where
  "load_approval_store file =
     (case file of
        NoFile \<Rightarrow> Inr default_approval_store
      | OtherFile \<Rightarrow> Inl StoreParse
      | JsonFile parsed \<Rightarrow>
          if as_schema_version parsed \<noteq> APPROVAL_STORE_SCHEMA_VERSION then Inl (StoreSchema (as_schema_version parsed))
          else Inr parsed)"

definition save_approval_store ::
  "bool \<Rightarrow> ApprovalStoreFile \<Rightarrow> ApprovalStoreFile json_file \<Rightarrow> (ApprovalError + unit) \<times> ApprovalStoreFile json_file" where
  "save_approval_store written store file = save_json written StoreWrite store file"

definition approval_paths_for_state_dir :: "path \<Rightarrow> path \<times> path" where
  "approval_paths_for_state_dir state_dir =
     (tau_root state_dir @ [''approvals'', ''policy.json''], tau_root state_dir @ [''approvals'', ''requests.json''])"

definition default_approval_policy_path :: "string option \<Rightarrow> string" where
  "default_approval_policy_path env =
     (case map_option trim env of
        Some p \<Rightarrow> if p = [] then ''.tau/approvals/policy.json'' else p
      | None \<Rightarrow> ''.tau/approvals/policy.json'')"

definition default_approval_store_path :: "string option \<Rightarrow> string" where
  "default_approval_store_path env =
     (case map_option trim env of
        Some p \<Rightarrow> if p = [] then ''.tau/approvals/requests.json'' else p
      | None \<Rightarrow> ''.tau/approvals/requests.json'')"

subsection \<open>The gate\<close>

definition normalize_path_like :: "string \<Rightarrow> string" where
  "normalize_path_like raw = replace_char (CHR 0x5C) ''/'' raw"

definition rule_matches :: "ApprovalAction \<Rightarrow> ApprovalPolicyRule \<Rightarrow> bool" where
  "rule_matches action rule =
     (if ar_action rule \<noteq> action_kind action then False
      else case action_command_value action of
        Some command \<Rightarrow>
          ar_command_prefixes rule = []
          \<or> list_ex (\<lambda>p. prefix p (trim_start command)) (ar_command_prefixes rule)
      | None \<Rightarrow>
          (case action_path_value action of
             Some p \<Rightarrow>
               ar_path_prefixes rule = []
               \<or> list_ex (\<lambda>q. prefix (normalize_path_like q) (normalize_path_like p)) (ar_path_prefixes rule)
           | None \<Rightarrow>
               (case action_command_name action of
                  Some name \<Rightarrow> ar_command_names rule = [] \<or> name \<in> set (ar_command_names rule)
                | None \<Rightarrow> False)))"

definition match_approval_rule :: "ApprovalPolicyFile \<Rightarrow> ApprovalAction \<Rightarrow> ApprovalPolicyRule option" where
  "match_approval_rule policy action = find (rule_matches action) (ap_rules policy)"

definition is_overdue :: "nat \<Rightarrow> ApprovalRequestRecord \<Rightarrow> bool" where
  "is_overdue now_ms request \<longleftrightarrow> aq_status request = Pending \<and> aq_expires_at_ms request < now_ms"

definition expire_request :: "nat \<Rightarrow> ApprovalRequestRecord \<Rightarrow> ApprovalRequestRecord" where
  "expire_request now_ms request =
     (if is_overdue now_ms request then
        request\<lparr>aq_status := Expired, aq_decision_at_ms := Some now_ms,
                aq_decision_reason := Some ''approval_timeout'', aq_decision_actor := Some ''system-timeout''\<rparr>
      else request)"

definition expire_pending_requests :: "ApprovalStoreFile \<Rightarrow> nat \<Rightarrow> bool \<times> ApprovalStoreFile" where
  "expire_pending_requests store now_ms =
     (list_ex (is_overdue now_ms) (as_requests store),
      store\<lparr>as_requests := map (expire_request now_ms) (as_requests store)\<rparr>)"

fun position :: "('a \<Rightarrow> bool) \<Rightarrow> 'a list \<Rightarrow> nat option" where
  "position P [] = None"
| "position P (x # xs) = (if P x then Some 0 else map_option Suc (position P xs))"

definition rposition :: "('a \<Rightarrow> bool) \<Rightarrow> 'a list \<Rightarrow> nat option" where
  "rposition P xs = map_option (\<lambda>i. length xs - Suc i) (position P (rev xs))"

definition is_open_request :: "string \<Rightarrow> string \<Rightarrow> ApprovalRequestRecord \<Rightarrow> bool" where
  "is_open_request fingerprint rule_id request \<longleftrightarrow>
     aq_fingerprint request = fingerprint \<and> aq_rule_id request = rule_id
     \<and> aq_status request \<in> {Pending, Approved, Rejected, Expired}"

definition new_request ::
  "ApprovalPolicyFile \<Rightarrow> ApprovalPolicyRule \<Rightarrow> ApprovalAction \<Rightarrow> string \<Rightarrow> nat \<Rightarrow> string \<Rightarrow> ApprovalRequestRecord" where
  "new_request policy rule action fingerprint now_ms request_id =
     \<lparr>aq_id = request_id, aq_rule_id = ar_id rule, aq_action_kind = action_kind action,
      aq_action_summary = action_summary action, aq_fingerprint = fingerprint, aq_status = Pending,
      aq_created_at_ms = now_ms,
      aq_expires_at_ms = u64_saturating_add now_ms (u64_saturating_mul (ap_timeout_seconds policy) 1000),
      aq_decision_at_ms = None, aq_decision_reason = None, aq_decision_actor = None, aq_consumed_at_ms = None\<rparr>"

text \<open>\<open>save_approval_store(..)?; Ok(value)\<close>, and the same only when the store was changed.\<close>

definition save_then ::
  "bool \<Rightarrow> ApprovalStoreFile \<Rightarrow> ApprovalStoreFile json_file \<Rightarrow> 'a \<Rightarrow> (ApprovalError + 'a) \<times> ApprovalStoreFile json_file" where
  "save_then written store file value =
     (case save_approval_store written store file of
        (Inl e, f) \<Rightarrow> (Inl e, f)
      | (Inr _, f) \<Rightarrow> (Inr value, f))"

definition save_if ::
  "bool \<Rightarrow> bool \<Rightarrow> ApprovalStoreFile \<Rightarrow> ApprovalStoreFile json_file \<Rightarrow> 'a
     \<Rightarrow> (ApprovalError + 'a) \<times> ApprovalStoreFile json_file" where
  "save_if mutated written store file value =
     (if mutated then save_then written store file value else (Inr value, file))"

definition request_approval ::
  "bool \<Rightarrow> ApprovalPolicyFile \<Rightarrow> ApprovalPolicyRule \<Rightarrow> ApprovalAction \<Rightarrow> string \<Rightarrow> nat \<Rightarrow> ApprovalStoreFile
     \<Rightarrow> ApprovalStoreFile json_file \<Rightarrow> (ApprovalError + ApprovalGateResult) \<times> ApprovalStoreFile json_file" where
  "request_approval written policy rule action fingerprint now_ms store file =
     (let request_id = ''req-'' @ show_nat (as_next_request_id store);
          store' = store\<lparr>as_next_request_id := u64_saturating_add (as_next_request_id store) 1,
                         as_requests := as_requests store @ [new_request policy rule action fingerprint now_ms request_id]\<rparr>
      in save_then written store' file
           (Denied request_id (ar_id rule) ''approval_required'' ''approval required before action execution''))"

definition evaluate_approval_gate_with_paths ::
  "(ApprovalAction \<Rightarrow> string) \<Rightarrow> nat \<Rightarrow> bool \<Rightarrow> ApprovalPolicyFile json_file \<Rightarrow> ApprovalAction
     \<Rightarrow> ApprovalStoreFile json_file \<Rightarrow> (ApprovalError + ApprovalGateResult) \<times> ApprovalStoreFile json_file" where
  "evaluate_approval_gate_with_paths approval_fingerprint now_ms written policy_file action file =
     (case load_approval_policy policy_file of
        Inl e \<Rightarrow> (Inl e, file)
      | Inr policy \<Rightarrow>
          if \<not> ap_enabled policy then (Inr Allowed, file)
          else case match_approval_rule policy action of
            None \<Rightarrow> (Inr Allowed, file)
          | Some rule \<Rightarrow>
              (case load_approval_store file of
                 Inl e \<Rightarrow> (Inl e, file)
               | Inr loaded \<Rightarrow>
                   (let (mutated, store) = expire_pending_requests loaded now_ms;
                        fingerprint = approval_fingerprint action;
                        request = request_approval written policy rule action fingerprint now_ms store file
                    in case rposition (is_open_request fingerprint (ar_id rule)) (as_requests store) of
                         None \<Rightarrow> request
                       | Some i \<Rightarrow>
                           (let existing = as_requests store ! i in
                            case aq_status existing of
                              Approved \<Rightarrow>
                                save_then written
                                  (store\<lparr>as_requests := (as_requests store)[i := existing\<lparr>aq_status := Consumed,
                                     aq_consumed_at_ms := Some now_ms\<rparr>]\<rparr>) file Allowed
                            | Pending \<Rightarrow>
                                save_if mutated written store file
                                  (Denied (aq_id existing) (aq_rule_id existing) ''approval_pending''
                                     ''approval request is pending'')
                            | Rejected \<Rightarrow>
                                save_if mutated written store file
                                  (Denied (aq_id existing) (aq_rule_id existing) ''approval_rejected''
                                     (case aq_decision_reason existing of Some r \<Rightarrow> r | None \<Rightarrow> ''approval request was rejected''))
                            | Expired \<Rightarrow>
                                if \<not> ap_strict_mode policy then save_if mutated written store file Allowed else request
                            | Consumed \<Rightarrow> request))))"

subsection \<open>Decisions and listings\<close>

definition normalize_decision_actor :: "string option \<Rightarrow> string" where
  "normalize_decision_actor decision_actor =
     (case map_option trim decision_actor of
        Some a \<Rightarrow> if a = [] then ''local-command'' else a
      | None \<Rightarrow> ''local-command'')"

definition non_blank :: "string option \<Rightarrow> string option" where
  "non_blank reason = (case reason of Some r \<Rightarrow> if trim r = [] then None else Some r | None \<Rightarrow> None)"

definition decide_request ::
  "nat \<Rightarrow> ApprovalRequestStatus \<Rightarrow> string option \<Rightarrow> string option \<Rightarrow> ApprovalRequestRecord \<Rightarrow> ApprovalRequestRecord" where
  "decide_request now_ms status reason decision_actor request =
     request\<lparr>aq_status := status, aq_decision_at_ms := Some now_ms,
             aq_decision_actor := Some (normalize_decision_actor decision_actor),
             aq_decision_reason := non_blank reason\<rparr>"

text \<open>The store is saved a first time when requests expired, and again with the decision.\<close>

definition update_approval_decision ::
  "nat \<Rightarrow> bool \<Rightarrow> bool \<Rightarrow> string \<Rightarrow> ApprovalRequestStatus \<Rightarrow> string option \<Rightarrow> string option
     \<Rightarrow> ApprovalStoreFile json_file
     \<Rightarrow> (ApprovalError + ApprovalRequestRecord) \<times> ApprovalStoreFile json_file" where
  "update_approval_decision now_ms written1 written2 request_id status reason decision_actor file =
     (case load_approval_store file of
        Inl e \<Rightarrow> (Inl e, file)
      | Inr loaded \<Rightarrow>
          (let (mutated, store) = expire_pending_requests loaded now_ms in
           case save_if mutated written1 store file () of
             (Inl e, f) \<Rightarrow> (Inl e, f)
           | (Inr _, f) \<Rightarrow>
               (case position (\<lambda>record. aq_id record = request_id) (as_requests store) of
                  None \<Rightarrow> (Inl (RequestNotFound request_id), f)
                | Some i \<Rightarrow>
                    (let record = as_requests store ! i; decided = decide_request now_ms status reason decision_actor record in
                     if aq_status record \<noteq> Pending then (Inl (RequestNotPending request_id (aq_status record)), f)
                     else if \<not> (status = Approved \<or> status = Rejected) then (Inl (InvalidDecision status), f)
                     else save_then written2 (store\<lparr>as_requests := (as_requests store)[i := decided]\<rparr>) f decided))))"

record ApprovalStatusCounts =
  ac_pending :: nat
  ac_approved :: nat
  ac_rejected :: nat
  ac_expired :: nat
  ac_consumed :: nat

definition approval_status_counts :: "ApprovalStoreFile \<Rightarrow> ApprovalStatusCounts" where
  "approval_status_counts store =
     (let count = \<lambda>status. length (filter (\<lambda>r. aq_status r = status) (as_requests store)) in
      \<lparr>ac_pending = count Pending, ac_approved = count Approved, ac_rejected = count Rejected,
       ac_expired = count Expired, ac_consumed = count Consumed\<rparr>)"

definition filtered_requests :: "ApprovalRequestStatus option \<Rightarrow> ApprovalStoreFile \<Rightarrow> ApprovalRequestRecord list" where
  "filtered_requests status_filter store =
     filter (\<lambda>r. case status_filter of Some f \<Rightarrow> aq_status r = f | None \<Rightarrow> True) (as_requests store)"

text \<open>The text listing is sorted by creation time, newest first, then by id; the JSON listing is in
  store order.\<close>

definition sorted_requests :: "ApprovalRequestRecord list \<Rightarrow> ApprovalRequestRecord list" where
  "sorted_requests requests = sort_key (\<lambda>r. - int (aq_created_at_ms r)) (sort_key aq_id requests)"

definition show_flag :: "bool \<Rightarrow> string" where
  "show_flag b = (if b then ''true'' else ''false'')"

definition render_request :: "ApprovalRequestRecord \<Rightarrow> string" where
  "render_request r =
     ''approval request: id='' @ aq_id r @ '' status='' @ approval_status_str (aq_status r)
     @ '' action='' @ aq_action_kind r @ '' rule='' @ aq_rule_id r
     @ '' created_at_ms='' @ show_nat (aq_created_at_ms r) @ '' expires_at_ms='' @ show_nat (aq_expires_at_ms r)
     @ '' summary='' @ aq_action_summary r
     @ '' decision_reason='' @ (case aq_decision_reason r of Some d \<Rightarrow> d | None \<Rightarrow> ''none'')"

definition render_approvals_list_text ::
  "ApprovalPolicyFile \<Rightarrow> ApprovalStoreFile \<Rightarrow> ApprovalRequestStatus option \<Rightarrow> string \<Rightarrow> string \<Rightarrow> string" where
  "render_approvals_list_text policy store status_filter policy_path state_path =
     (let counts = approval_status_counts store in
      join [char_of (10 :: nat)]
        ((''approvals summary: enabled='' @ show_flag (ap_enabled policy) @ '' strict_mode='' @ show_flag (ap_strict_mode policy)
          @ '' timeout_seconds='' @ show_nat (ap_timeout_seconds policy) @ '' total='' @ show_nat (length (as_requests store))
          @ '' pending='' @ show_nat (ac_pending counts) @ '' approved='' @ show_nat (ac_approved counts)
          @ '' rejected='' @ show_nat (ac_rejected counts) @ '' expired='' @ show_nat (ac_expired counts)
          @ '' consumed='' @ show_nat (ac_consumed counts) @ '' policy='' @ policy_path @ '' store='' @ state_path)
         # map render_request (sorted_requests (filtered_requests status_filter store))))"

text \<open>The JSON listing holds the policy, the counts, the filter and the requests in store order.\<close>

datatype ApprovalsOutput =
    ApprovalsUsage
  | ApprovalsError ApprovalError
  | ApprovalsTextListing string
  | ApprovalsJsonListing ApprovalPolicyFile ApprovalStatusCounts "ApprovalRequestStatus option" "ApprovalRequestRecord list"
  | ApprovalsDecided ApprovalRequestRecord

definition execute_approvals_list ::
  "string \<Rightarrow> string \<Rightarrow> nat \<Rightarrow> bool \<Rightarrow> ApprovalPolicyFile json_file \<Rightarrow> ApprovalRequestStatus option
     \<Rightarrow> ApprovalOutputFormat \<Rightarrow> ApprovalStoreFile json_file \<Rightarrow> (ApprovalError + ApprovalsOutput) \<times> ApprovalStoreFile json_file" where
  "execute_approvals_list policy_path state_path now_ms written policy_file status_filter format file =
     (case load_approval_policy policy_file of
        Inl e \<Rightarrow> (Inl e, file)
      | Inr policy \<Rightarrow>
          (case load_approval_store file of
             Inl e \<Rightarrow> (Inl e, file)
           | Inr loaded \<Rightarrow>
               (let (mutated, store) = expire_pending_requests loaded now_ms in
                save_if mutated written store file
                  (case format of
                     ApprovalText \<Rightarrow>
                       ApprovalsTextListing (render_approvals_list_text policy store status_filter policy_path state_path)
                   | ApprovalJson \<Rightarrow>
                       ApprovalsJsonListing policy (approval_status_counts store) status_filter
                         (filtered_requests status_filter store)))))"

subsection \<open>The command\<close>

definition parse_approval_status :: "string \<Rightarrow> ApprovalError + ApprovalRequestStatus" where
  "parse_approval_status raw =
     (if raw = ''pending'' then Inr Pending
      else if raw = ''approved'' then Inr Approved
      else if raw = ''rejected'' then Inr Rejected
      else if raw = ''expired'' then Inr Expired
      else if raw = ''consumed'' then Inr Consumed
      else Inl (ApprovalInvalidStatus raw))"

fun parse_approvals_list_args ::
  "ApprovalOutputFormat \<Rightarrow> ApprovalRequestStatus option \<Rightarrow> string list \<Rightarrow> ApprovalError + ApprovalsCommand" where
  "parse_approvals_list_args format status_filter [] = Inr (ApprovalsList format status_filter)"
| "parse_approvals_list_args format status_filter (t # ts) =
     (if t = ''--json'' then parse_approvals_list_args ApprovalJson status_filter ts
      else if t = ''--status'' then
        (case ts of
           [] \<Rightarrow> Inl ApprovalUsage
         | raw # rest \<Rightarrow>
             and_then (parse_approval_status raw) (\<lambda>status. parse_approvals_list_args format (Some status) rest))
      else Inl ApprovalUsage)"

definition parse_approvals_decision_args :: "string list \<Rightarrow> bool \<Rightarrow> ApprovalError + ApprovalsCommand" where
  "parse_approvals_decision_args tokens approve =
     (if length tokens < 2 then Inl ApprovalUsage
      else
        (let request_id = tokens ! 1;
             reason = (if length tokens > 2 then Some (join '' '' (drop 2 tokens)) else None)
         in Inr (if approve then ApprovalsApprove request_id reason else ApprovalsReject request_id reason)))"

definition parse_approvals_command :: "string \<Rightarrow> ApprovalError + ApprovalsCommand" where
  "parse_approvals_command command_args =
     (let tokens = split_whitespace command_args in
      case tokens of
        [] \<Rightarrow> Inl ApprovalUsage
      | t # ts \<Rightarrow>
          if t = ''list'' then parse_approvals_list_args ApprovalText None ts
          else if t = ''approve'' then parse_approvals_decision_args tokens True
          else if t = ''reject'' then parse_approvals_decision_args tokens False
          else Inl ApprovalUsage)"

definition render_result ::
  "(ApprovalError + ApprovalsOutput) \<times> 'f \<Rightarrow> ApprovalsOutput \<times> 'f" where
  "render_result r = (case fst r of Inl e \<Rightarrow> ApprovalsError e | Inr out \<Rightarrow> out, snd r)"

definition decided_output :: "(ApprovalError + ApprovalRequestRecord) \<times> 'f \<Rightarrow> (ApprovalError + ApprovalsOutput) \<times> 'f" where
  "decided_output r = (case fst r of Inl e \<Rightarrow> Inl e | Inr q \<Rightarrow> Inr (ApprovalsDecided q), snd r)"

definition execute_approvals_command ::
  "string \<Rightarrow> string \<Rightarrow> nat \<Rightarrow> bool \<Rightarrow> bool \<Rightarrow> ApprovalPolicyFile json_file \<Rightarrow> string option \<Rightarrow> string
     \<Rightarrow> ApprovalStoreFile json_file \<Rightarrow> ApprovalsOutput \<times> ApprovalStoreFile json_file" where
  "execute_approvals_command policy_path state_path now_ms written1 written2 policy_file decision_actor command_args file =
     (case parse_approvals_command command_args of
        Inl _ \<Rightarrow> (ApprovalsUsage, file)
      | Inr (ApprovalsList format status_filter) \<Rightarrow>
          render_result (execute_approvals_list policy_path state_path now_ms written1 policy_file status_filter format file)
      | Inr (ApprovalsApprove request_id reason) \<Rightarrow>
          render_result (decided_output
            (update_approval_decision now_ms written1 written2 request_id Approved reason decision_actor file))
      | Inr (ApprovalsReject request_id reason) \<Rightarrow>
          render_result (decided_output
            (update_approval_decision now_ms written1 written2 request_id Rejected reason decision_actor file)))"

subsection \<open>How the store evolves\<close>

interpretation store: json_store load_approval_store "\<lambda>s. as_schema_version s = APPROVAL_STORE_SCHEMA_VERSION"
  by unfold_locales (auto simp: load_approval_store_def default_approval_store_def split: json_file.splits if_splits)

inductive status_step :: "ApprovalRequestStatus \<Rightarrow> ApprovalRequestStatus \<Rightarrow> bool" where
  approve: "status_step Pending Approved"
| reject: "status_step Pending Rejected"
| expire: "status_step Pending Expired"
| consume: "status_step Approved Consumed"

inductive_simps status_step_simps [simp]:
  "status_step Pending t" "status_step Approved t" "status_step Rejected t" "status_step Expired t" "status_step Consumed t"

definition same_request :: "ApprovalRequestRecord \<Rightarrow> ApprovalRequestRecord \<Rightarrow> bool" where
  "same_request q q' \<longleftrightarrow>
     aq_id q' = aq_id q \<and> aq_rule_id q' = aq_rule_id q \<and> aq_action_kind q' = aq_action_kind q
     \<and> aq_action_summary q' = aq_action_summary q \<and> aq_fingerprint q' = aq_fingerprint q
     \<and> aq_created_at_ms q' = aq_created_at_ms q \<and> aq_expires_at_ms q' = aq_expires_at_ms q"

text \<open>The bookkeeping of a record agrees with its status.\<close>

definition request_wf :: "ApprovalRequestRecord \<Rightarrow> bool" where
  "request_wf q \<longleftrightarrow>
     (aq_status q = Pending \<longleftrightarrow> aq_decision_at_ms q = None)
     \<and> (aq_status q = Pending \<longleftrightarrow> aq_decision_actor q = None)
     \<and> (aq_status q = Consumed \<longleftrightarrow> aq_consumed_at_ms q \<noteq> None)"

definition request_step :: "ApprovalRequestRecord \<Rightarrow> ApprovalRequestRecord \<Rightarrow> bool" where
  "request_step q q' \<longleftrightarrow> q' = q \<or>
     (same_request q q' \<and> status_step (aq_status q) (aq_status q') \<and> (request_wf q \<longrightarrow> request_wf q'))"

text \<open>The requests after an operation: each old one made at most one step, and at most one new pending
  request with the next id was added.\<close>

definition approvals_step :: "ApprovalStoreFile \<Rightarrow> ApprovalStoreFile \<Rightarrow> bool" where
  "approvals_step s s' \<longleftrightarrow> as_schema_version s' = as_schema_version s \<and>
     (\<exists>olds. list_all2 request_step (as_requests s) olds
       \<and> (as_requests s' = olds \<and> as_next_request_id s' = as_next_request_id s
          \<or> (\<exists>q. as_requests s' = olds @ [q] \<and> aq_status q = Pending \<and> request_wf q
               \<and> aq_id q = ''req-'' @ show_nat (as_next_request_id s)
               \<and> as_next_request_id s' = u64_saturating_add (as_next_request_id s) 1)))"

lemma request_step_refl [simp]: "request_step q q"
  by (simp add: request_step_def)

lemma expire_request_step: "request_step q (expire_request now q)"
  by (auto simp: request_step_def expire_request_def is_overdue_def same_request_def request_wf_def)

lemma expire_requests_step: "list_all2 request_step qs (map (expire_request now) qs)"
  by (simp add: list_all2_conv_all_nth expire_request_step)

lemma expire_request_cases:
  "aq_status (expire_request now q) \<noteq> Expired \<Longrightarrow> expire_request now q = q"
  by (auto simp: expire_request_def split: if_splits)

lemma update_after_expiry_step:
  assumes "i < length qs" "aq_status (map (expire_request now) qs ! i) \<noteq> Expired"
    "request_step (qs ! i) q'"
  shows "list_all2 request_step qs ((map (expire_request now) qs)[i := q'])"
  using assms by (auto simp: list_all2_conv_all_nth nth_list_update expire_request_step)

lemma consume_step: "aq_status q = Approved \<Longrightarrow> request_step q (q\<lparr>aq_status := Consumed, aq_consumed_at_ms := Some now\<rparr>)"
  by (auto simp: request_step_def same_request_def request_wf_def)

lemma decide_step:
  "aq_status q = Pending \<Longrightarrow> status = Approved \<or> status = Rejected \<Longrightarrow>
   request_step q (decide_request now status reason actor q)"
  by (auto simp: request_step_def same_request_def request_wf_def decide_request_def)

lemma position_Some: "position P xs = Some i \<Longrightarrow> i < length xs \<and> P (xs ! i)"
  by (induction xs arbitrary: i) (auto split: if_splits)

lemma position_None: "position P xs = None \<longleftrightarrow> list_all (\<lambda>x. \<not> P x) xs"
  by (induction xs) auto

lemma rposition_Some: "rposition P xs = Some i \<Longrightarrow> i < length xs \<and> P (xs ! i)"
  by (auto simp: rposition_def rev_nth dest!: position_Some)

lemma rposition_None: "rposition P xs = None \<longleftrightarrow> list_all (\<lambda>x. \<not> P x) xs"
  by (simp add: rposition_def position_None)

subsection \<open>Operations in sequence\<close>

datatype approval_op =
    GateOp "ApprovalPolicyFile json_file" ApprovalAction
  | DecideOp string ApprovalRequestStatus "string option" "string option"
  | ListOp string string "ApprovalPolicyFile json_file" "ApprovalRequestStatus option" ApprovalOutputFormat

text \<open>One operation with its clock reading and the outcomes of its writes.\<close>

type_synonym approval_call = "nat \<times> bool \<times> bool \<times> approval_op"

fun approval_apply :: "(ApprovalAction \<Rightarrow> string) \<Rightarrow> approval_call \<Rightarrow> ApprovalStoreFile json_file \<Rightarrow> ApprovalStoreFile json_file" where
  "approval_apply fp (now, w1, w2, GateOp policy action) stored =
     snd (evaluate_approval_gate_with_paths fp now w1 policy action stored)"
| "approval_apply fp (now, w1, w2, DecideOp i status reason actor) stored =
     snd (update_approval_decision now w1 w2 i status reason actor stored)"
| "approval_apply fp (now, w1, w2, ListOp policy_path state_path policy status_filter format) stored =
     snd (execute_approvals_list policy_path state_path now w1 policy status_filter format stored)"

lemma save_then_cases:
  "snd (save_then w s stored v) = stored \<or> snd (save_then w s stored v) = JsonFile s"
  by (cases w) (simp_all add: save_then_def save_approval_store_def)

lemma save_if_cases: "snd (save_if m w s stored v) = stored \<or> snd (save_if m w s stored v) = JsonFile s"
  using save_then_cases [of w s stored v] by (auto simp: save_if_def)

definition stored_step :: "ApprovalStoreFile \<Rightarrow> ApprovalStoreFile json_file \<Rightarrow> bool" where
  "stored_step s stored' \<longleftrightarrow> (\<exists>s'. load_approval_store stored' = Inr s' \<and> approvals_step s s')"

lemma stored_step_JsonFile:
  assumes "load_approval_store stored = Inr s" "approvals_step s s'"
  shows "stored_step s (JsonFile s')"
  using assms store.load_valid [OF assms(1)] store.load_stored [of s'] by (auto simp: stored_step_def approvals_step_def)

lemma approvals_step_refl: "approvals_step s s"
  by (auto simp: approvals_step_def intro!: exI [of _ "as_requests s"] list_all2_refl)

lemma stored_step_refl: "load_approval_store stored = Inr s \<Longrightarrow> stored_step s stored"
  using approvals_step_refl by (auto simp: stored_step_def)

lemma expired_approvals_step: "approvals_step s (snd (expire_pending_requests s now))"
  using expire_requests_step by (auto simp: approvals_step_def expire_pending_requests_def)

lemma saved_step:
  assumes "load_approval_store stored = Inr s" "approvals_step s s'" "f = stored \<or> f = JsonFile s'"
  shows "stored_step s f"
  using assms stored_step_refl stored_step_JsonFile by blast

lemma request_approval_step:
  assumes "load_approval_store stored = Inr s"
  shows "stored_step s (snd (request_approval w policy rule action fp now (snd (expire_pending_requests s now)) stored))"
proof -
  let ?s = "snd (expire_pending_requests s now)"
  let ?q = "new_request policy rule action fp now (''req-'' @ show_nat (as_next_request_id ?s))"
  let ?s' = "?s\<lparr>as_next_request_id := u64_saturating_add (as_next_request_id ?s) 1, as_requests := as_requests ?s @ [?q]\<rparr>"
  have "aq_status ?q = Pending \<and> request_wf ?q" by (simp add: new_request_def request_wf_def)
  then have "approvals_step s ?s'"
    using expire_requests_step [of "as_requests s" now]
    by (auto simp: approvals_step_def expire_pending_requests_def new_request_def)
  then show ?thesis
    unfolding request_approval_def Let_def by (rule saved_step [OF assms _ save_then_cases])
qed

lemma gate_step:
  assumes load: "load_approval_store stored = Inr s"
  shows "stored_step s (snd (evaluate_approval_gate_with_paths fp now w policy_file action stored))"
proof -
  let ?s = "snd (expire_pending_requests s now)"
  note keep = stored_step_refl [OF load]
  note expired = saved_step [OF load expired_approvals_step save_if_cases]
  note request = request_approval_step [OF load]
  have consume: "stored_step s (snd (save_then w (?s\<lparr>as_requests := (as_requests ?s)[i := (as_requests ?s ! i)\<lparr>aq_status := Consumed,
      aq_consumed_at_ms := Some now\<rparr>]\<rparr>) stored Allowed))"
    if "i < length (as_requests ?s)" "aq_status (as_requests ?s ! i) = Approved" for i
  proof -
    from that have i: "i < length (as_requests s)" "as_requests ?s = map (expire_request now) (as_requests s)"
      by (simp_all add: expire_pending_requests_def)
    with that have "as_requests ?s ! i = as_requests s ! i"
      using expire_request_cases [of now "as_requests s ! i"] by simp
    with i that have "list_all2 request_step (as_requests s) ((as_requests ?s)[i := (as_requests ?s ! i)\<lparr>aq_status := Consumed,
        aq_consumed_at_ms := Some now\<rparr>])"
      using update_after_expiry_step [of i "as_requests s" now] consume_step [of "as_requests s ! i" now] by simp
    then show ?thesis
      by (intro saved_step [OF load _ save_then_cases]) (auto simp: approvals_step_def expire_pending_requests_def)
  qed
  show ?thesis
    using keep expired request consume
    by (auto simp: evaluate_approval_gate_with_paths_def load Let_def split_beta split: sum.split option.split
        ApprovalRequestStatus.split dest!: rposition_Some)
qed

lemma decide_op_step:
  assumes load: "load_approval_store stored = Inr s"
  shows "stored_step s (snd (update_approval_decision now w1 w2 i status reason actor stored))"
proof -
  let ?s = "snd (expire_pending_requests s now)" and ?m = "fst (expire_pending_requests s now)"
  obtain r f where f: "save_if ?m w1 ?s stored () = (r, f)" by fastforce
  have first: "f = stored \<or> f = JsonFile ?s" using save_if_cases [of ?m w1 ?s stored "()"] f by simp
  have keep: "stored_step s f" by (rule saved_step [OF load expired_approvals_step first])
  have decide: "stored_step s (snd (save_then w2 (?s\<lparr>as_requests := (as_requests ?s)[k :=
      decide_request now status reason actor (as_requests ?s ! k)]\<rparr>) f v))"
    if "k < length (as_requests ?s)" "aq_status (as_requests ?s ! k) = Pending" "status = Approved \<or> status = Rejected"
    for k and v :: ApprovalRequestRecord
  proof -
    let ?s' = "?s\<lparr>as_requests := (as_requests ?s)[k := decide_request now status reason actor (as_requests ?s ! k)]\<rparr>"
    from that have k: "k < length (as_requests s)" "as_requests ?s = map (expire_request now) (as_requests s)"
      by (simp_all add: expire_pending_requests_def)
    with that have "as_requests ?s ! k = as_requests s ! k"
      using expire_request_cases [of now "as_requests s ! k"] by simp
    with k that have "list_all2 request_step (as_requests s)
        ((as_requests ?s)[k := decide_request now status reason actor (as_requests ?s ! k)])"
      using update_after_expiry_step [of k "as_requests s" now] decide_step [of "as_requests s ! k" status] by simp
    then have "approvals_step s ?s'" by (auto simp: approvals_step_def expire_pending_requests_def)
    then show ?thesis
      using save_then_cases [of w2 ?s' f v] keep stored_step_JsonFile [OF load] by metis
  qed
  show ?thesis
    using keep decide
    by (auto simp: update_approval_decision_def load f Let_def split_beta split: sum.split option.split
        dest!: position_Some)
qed

lemma list_op_step:
  assumes load: "load_approval_store stored = Inr s"
  shows "stored_step s (snd (execute_approvals_list policy_path state_path now w policy status_filter format stored))"
  using stored_step_refl [OF load] saved_step [OF load expired_approvals_step save_if_cases]
  by (auto simp: execute_approvals_list_def load split_beta split: sum.split)

lemma approval_apply_step:
  "load_approval_store stored = Inr s \<Longrightarrow> stored_step s (approval_apply fp call stored)"
  by (cases "(fp, call, stored)" rule: approval_apply.cases) (simp_all add: gate_step decide_op_step list_op_step)

subsection \<open>The invariant\<close>

definition approvals_ok :: "ApprovalStoreFile \<Rightarrow> bool" where
  "approvals_ok s \<longleftrightarrow>
     list_all request_wf (as_requests s)
     \<and> distinct (map aq_id (as_requests s))
     \<and> list_all (\<lambda>q. \<exists>n < as_next_request_id s. aq_id q = ''req-'' @ show_nat n) (as_requests s)"

lemma steps_keep_ids: "list_all2 request_step qs qs' \<Longrightarrow> map aq_id qs' = map aq_id qs"
  by (induction rule: list_all2_induct) (auto simp: request_step_def same_request_def)

lemma steps_keep_wf: "list_all2 request_step qs qs' \<Longrightarrow> list_all request_wf qs \<Longrightarrow> list_all request_wf qs'"
  by (induction rule: list_all2_induct) (auto simp: request_step_def)

lemma approvals_step_keeps:
  assumes "approvals_step s s'" "approvals_ok s" "as_next_request_id s < u64_max"
  shows "approvals_ok s'"
proof -
  from assms(1) obtain olds where olds: "list_all2 request_step (as_requests s) olds"
    and new: "as_requests s' = olds \<and> as_next_request_id s' = as_next_request_id s
      \<or> (\<exists>q. as_requests s' = olds @ [q] \<and> aq_status q = Pending \<and> request_wf q
           \<and> aq_id q = ''req-'' @ show_nat (as_next_request_id s)
           \<and> as_next_request_id s' = u64_saturating_add (as_next_request_id s) 1)"
    unfolding approvals_step_def by blast
  note ids = steps_keep_ids [OF olds]
  have wf: "list_all request_wf olds" using steps_keep_wf [OF olds] assms(2) by (simp add: approvals_ok_def)
  have bound: "\<exists>n < as_next_request_id s. aq_id q = ''req-'' @ show_nat n" if "q \<in> set olds" for q
  proof -
    from that have "aq_id q \<in> set (map aq_id (as_requests s))" unfolding ids [symmetric] by simp
    with assms(2) show ?thesis by (auto simp: approvals_ok_def list_all_iff)
  qed
  have fresh: "''req-'' @ show_nat (as_next_request_id s) \<notin> set (map aq_id olds)"
    using bound by (force simp: show_nat_inject)
  from new show ?thesis
  proof (elim disjE exE conjE)
    fix q
    assume q: "as_requests s' = olds @ [q]" "request_wf q" "aq_id q = ''req-'' @ show_nat (as_next_request_id s)"
      "as_next_request_id s' = u64_saturating_add (as_next_request_id s) 1"
    have next_id: "as_next_request_id s' = Suc (as_next_request_id s)"
      using q(4) assms(3) by (simp add: u64_saturating_add_def)
    have "list_all (\<lambda>q. \<exists>n < as_next_request_id s'. aq_id q = ''req-'' @ show_nat n) (as_requests s')"
      unfolding list_all_iff q(1) next_id using bound q(3) by (auto intro: less_SucI)
    moreover have "distinct (map aq_id (as_requests s'))"
      using fresh ids assms(2) by (simp add: q(1,3) approvals_ok_def)
    ultimately show ?thesis using wf q(1,2) by (simp add: approvals_ok_def)
  qed (use wf bound ids assms(2) in \<open>auto simp: approvals_ok_def list_all_iff\<close>)
qed

lemma approvals_step_next: "approvals_step s s' \<Longrightarrow> as_next_request_id s \<le> u64_max \<Longrightarrow> as_next_request_id s \<le> as_next_request_id s'"
  by (auto simp: approvals_step_def u64_saturating_add_def)

definition approvals_run :: "(ApprovalAction \<Rightarrow> string) \<Rightarrow> approval_call list \<Rightarrow> ApprovalStoreFile json_file \<Rightarrow> ApprovalStoreFile json_file" where
  "approvals_run fp calls stored = fold (approval_apply fp) calls stored"

lemma approvals_run_invariant:
  assumes "load_approval_store stored = Inr s" "approvals_ok s" "as_next_request_id s \<le> u64_max"
  shows "\<exists>s'. load_approval_store (approvals_run fp calls stored) = Inr s'
    \<and> as_next_request_id s \<le> as_next_request_id s' \<and> as_next_request_id s' \<le> u64_max
    \<and> (as_next_request_id s' < u64_max \<longrightarrow> approvals_ok s')"
  using assms
proof (induction calls arbitrary: stored s rule: rev_induct)
  case (snoc call calls)
  from snoc.IH [OF snoc.prems] obtain s1 where s1:
    "load_approval_store (approvals_run fp calls stored) = Inr s1" "as_next_request_id s \<le> as_next_request_id s1"
    "as_next_request_id s1 \<le> u64_max" "as_next_request_id s1 < u64_max \<longrightarrow> approvals_ok s1" by blast
  from approval_apply_step [OF s1(1), of fp call] obtain s2 where s2:
    "load_approval_store (approval_apply fp call (approvals_run fp calls stored)) = Inr s2" "approvals_step s1 s2"
    by (auto simp: stored_step_def)
  have le: "as_next_request_id s1 \<le> as_next_request_id s2" "as_next_request_id s2 \<le> u64_max"
    using approvals_step_next [OF s2(2) s1(3)] s2(2) s1(3)
    by (auto simp: approvals_step_def u64_saturating_add_def)
  have "approvals_ok s2" if "as_next_request_id s2 < u64_max"
    using approvals_step_keeps [OF s2(2)] s1(4) le that by simp
  with s2 le s1(2) show ?case by (auto simp: approvals_run_def)
qed (auto simp: approvals_run_def)

text \<open>C40. Every sequence of gate evaluations, decisions and listings, with any clock readings and any
  failing writes, leaves a store that loads; as long as the id counter is below its maximum, the request
  ids are distinct and below the counter, and the decision and consumption fields of every request
  agree with its status.\<close>

theorem approvals_invariant:
  "case load_approval_store (approvals_run fp calls NoFile) of
     Inl _ \<Rightarrow> False
   | Inr s \<Rightarrow> (if as_next_request_id s < u64_max then approvals_ok s else True)"
proof -
  have "load_approval_store NoFile = Inr default_approval_store" by (simp add: load_approval_store_def)
  moreover have "approvals_ok default_approval_store" "as_next_request_id default_approval_store \<le> u64_max"
    by (simp_all add: approvals_ok_def default_approval_store_def)
  ultimately show ?thesis
    using approvals_run_invariant [of NoFile default_approval_store fp calls] by auto
qed

text \<open>Requests follow their state machine: across any one operation every stored request keeps its
  id, rule, action, fingerprint and times and either stays as it is or moves from pending to approved,
  rejected or expired, or from approved to consumed; nothing is deleted, and at most one request is
  added, pending and at the end.\<close>

theorem approval_statuses_follow_machine:
  "case load_approval_store stored of
     Inl _ \<Rightarrow> True
   | Inr s \<Rightarrow> \<exists>s' olds. load_approval_store (approval_apply fp call stored) = Inr s'
       \<and> list_all2 (\<lambda>q q'. q' = q \<or> (same_request q q' \<and> status_step (aq_status q) (aq_status q'))) (as_requests s) olds
       \<and> (as_requests s' = olds \<or> (\<exists>q. as_requests s' = olds @ [q] \<and> aq_status q = Pending))"
proof (cases "load_approval_store stored")
  case (Inr s)
  from approval_apply_step [OF Inr, of fp call] obtain s' where s': "load_approval_store (approval_apply fp call stored) = Inr s'"
    "approvals_step s s'" by (auto simp: stored_step_def)
  then obtain olds where olds: "list_all2 request_step (as_requests s) olds"
    "as_requests s' = olds \<or> (\<exists>q. as_requests s' = olds @ [q] \<and> aq_status q = Pending)"
    by (auto simp: approvals_step_def)
  from olds(1) have "list_all2 (\<lambda>q q'. q' = q \<or> (same_request q q' \<and> status_step (aq_status q) (aq_status q')))
      (as_requests s) olds"
    by (rule list_all2_mono) (auto simp: request_step_def)
  with Inr s' olds(2) show ?thesis by auto
qed simp

subsection \<open>One approval, one execution\<close>





abbreviation approved_for :: "string \<Rightarrow> string \<Rightarrow> ApprovalRequestRecord \<Rightarrow> bool" where
  "approved_for f r q \<equiv> aq_fingerprint q = f \<and> aq_rule_id q = r \<and> aq_status q = Approved"

definition unused_approvals :: "string \<Rightarrow> string \<Rightarrow> ApprovalStoreFile \<Rightarrow> nat" where
  "unused_approvals f r s = length (filter (approved_for f r) (as_requests s))"

definition stored_approvals :: "string \<Rightarrow> string \<Rightarrow> ApprovalStoreFile json_file \<Rightarrow> nat" where
  "stored_approvals f r stored = (case load_approval_store stored of Inr s \<Rightarrow> unused_approvals f r s | Inl _ \<Rightarrow> 0)"


lemma unused_expire: "unused_approvals f r (snd (expire_pending_requests s now)) = unused_approvals f r s"
proof -
  have "approved_for f r (expire_request now q) \<longleftrightarrow> approved_for f r q" for q
    by (auto simp: expire_request_def is_overdue_def)
  then show ?thesis by (simp add: unused_approvals_def expire_pending_requests_def filter_map comp_def)
qed

lemma stored_JsonFile:
  "load_approval_store stored = Inr s \<Longrightarrow> as_schema_version s' = as_schema_version s \<Longrightarrow>
   stored_approvals f r (JsonFile s') = unused_approvals f r s'"
  using store.load_valid [of stored s] store.load_stored [of s'] by (simp add: stored_approvals_def)


lemma request_unused:
  assumes "load_approval_store stored = Inr s"
  shows "stored_approvals f r (snd (request_approval w policy rule action fp now (snd (expire_pending_requests s now)) stored))
      = unused_approvals f r s"
    "fst (request_approval w policy rule action fp now s' stored') \<noteq> Inr Allowed"
proof -
  let ?s = "snd (expire_pending_requests s now)"
  let ?q = "new_request policy rule action fp now (''req-'' @ show_nat (as_next_request_id ?s))"
  let ?s' = "?s\<lparr>as_next_request_id := u64_saturating_add (as_next_request_id ?s) 1, as_requests := as_requests ?s @ [?q]\<rparr>"
  have "unused_approvals f r ?s' = unused_approvals f r s"
    using unused_expire [of f r s now] by (simp add: unused_approvals_def new_request_def)
  moreover have "as_schema_version ?s' = as_schema_version s" by (simp add: expire_pending_requests_def)
  ultimately show "stored_approvals f r (snd (request_approval w policy rule action fp now ?s stored)) = unused_approvals f r s"
    unfolding request_approval_def Let_def
    using save_then_cases stored_JsonFile [OF assms] assms by (metis stored_approvals_def sum.simps(6))
  show "fst (request_approval w policy rule action fp now s' stored') \<noteq> Inr Allowed"
    by (cases w) (simp_all add: request_approval_def save_then_def save_approval_store_def Let_def)
qed

text \<open>The gate for an enabled policy with a matching rule, as a case distinction on the latest open
  request after expiry.\<close>

lemma gate_matched:
  assumes "load_approval_policy policy_file = Inr policy" "ap_enabled policy"
    "match_approval_rule policy action = Some rule" "load_approval_store stored = Inr s"
  shows "evaluate_approval_gate_with_paths fp now w policy_file action stored =
    (let m = fst (expire_pending_requests s now); s1 = snd (expire_pending_requests s now);
         request = request_approval w policy rule action (fp action) now s1 stored
     in case rposition (is_open_request (fp action) (ar_id rule)) (as_requests s1) of
          None \<Rightarrow> request
        | Some i \<Rightarrow>
            (let existing = as_requests s1 ! i in
             case aq_status existing of
               Approved \<Rightarrow> save_then w (s1\<lparr>as_requests := (as_requests s1)[i := existing\<lparr>aq_status := Consumed,
                   aq_consumed_at_ms := Some now\<rparr>]\<rparr>) stored Allowed
             | Pending \<Rightarrow> save_if m w s1 stored (Denied (aq_id existing) (aq_rule_id existing) ''approval_pending''
                   ''approval request is pending'')
             | Rejected \<Rightarrow> save_if m w s1 stored (Denied (aq_id existing) (aq_rule_id existing) ''approval_rejected''
                   (case aq_decision_reason existing of Some r \<Rightarrow> r | None \<Rightarrow> ''approval request was rejected''))
             | Expired \<Rightarrow> if \<not> ap_strict_mode policy then save_if m w s1 stored Allowed else request
             | Consumed \<Rightarrow> request))"
  unfolding evaluate_approval_gate_with_paths_def by (simp add: assms Let_def split_beta)









subsection \<open>What the gate decides\<close>

lemma rposition_last: "rposition P xs = Some i \<Longrightarrow> xs ! i = last (filter P xs)"
proof (induction xs arbitrary: i rule: rev_induct)
  case (snoc x xs)
  then show ?case
  proof (cases "P x")
    case False
    with snoc.prems have "rposition P xs = Some i"
      by (auto simp: rposition_def)
    moreover from this have "i < length xs" using rposition_Some by blast
    ultimately show ?thesis using snoc.IH False by (simp add: nth_append)
  qed (auto simp: rposition_def)
qed (simp add: rposition_def)

lemma gate_open_requests:
  "rposition (is_open_request f r) (as_requests (snd (expire_pending_requests s now))) = None \<longleftrightarrow>
   filter (is_open_request f r) (map (expire_request now) (as_requests s)) = []"
  by (simp add: rposition_None expire_pending_requests_def list_all_iff filter_empty_conv)

text \<open>The gate decides by the latest request that is not consumed: when the writes succeed, an action
  that matches a rule of an enabled policy passes if and only if, after overdue requests have expired,
  the last open request of its fingerprint and rule is approved, or is expired and the policy is not
  strict. Without a rule it passes; with an unreadable policy or store it does not.\<close>

theorem approval_gate_exact:
  "case load_approval_policy policy_file of
     Inl e \<Rightarrow> fst (evaluate_approval_gate_with_paths fp now True policy_file action stored) = Inl e
   | Inr policy \<Rightarrow>
       (if \<not> ap_enabled policy then fst (evaluate_approval_gate_with_paths fp now True policy_file action stored) = Inr Allowed
        else case match_approval_rule policy action of
          None \<Rightarrow> fst (evaluate_approval_gate_with_paths fp now True policy_file action stored) = Inr Allowed
        | Some rule \<Rightarrow>
            (case load_approval_store stored of
               Inl e \<Rightarrow> fst (evaluate_approval_gate_with_paths fp now True policy_file action stored) = Inl e
             | Inr s \<Rightarrow>
                 (fst (evaluate_approval_gate_with_paths fp now True policy_file action stored) = Inr Allowed \<longleftrightarrow>
                  (case rev (filter (is_open_request (fp action) (ar_id rule)) (map (expire_request now) (as_requests s))) of
                     [] \<Rightarrow> False
                   | latest # _ \<Rightarrow> aq_status latest = Approved
                       \<or> (aq_status latest = Expired \<and> \<not> ap_strict_mode policy)))))"
proof -
  have iff: "fst (evaluate_approval_gate_with_paths fp now True policy_file action stored) = Inr Allowed \<longleftrightarrow>
      (case rev (filter (is_open_request (fp action) (ar_id rule)) (map (expire_request now) (as_requests s))) of
         [] \<Rightarrow> False
       | latest # _ \<Rightarrow> aq_status latest = Approved \<or> (aq_status latest = Expired \<and> \<not> ap_strict_mode policy))"
    if p: "load_approval_policy policy_file = Inr policy" "ap_enabled policy"
      "match_approval_rule policy action = Some rule" and load: "load_approval_store stored = Inr s" for policy rule s
  proof -
    define s1 where "s1 = snd (expire_pending_requests s now)"
    define qs where "qs = filter (is_open_request (fp action) (ar_id rule)) (map (expire_request now) (as_requests s))"
    note gate = gate_matched [OF p load, of fp now True, folded s1_def, unfolded Let_def]
    have saved: "fst (save_then True st stored v) = Inr v" "fst (save_if m True st stored v) = Inr v"
      for m st and v :: ApprovalGateResult
      by (simp_all add: save_then_def save_if_def save_approval_store_def)
    show ?thesis
    proof (cases "rposition (is_open_request (fp action) (ar_id rule)) (as_requests s1)")
      case None
      then have "qs = []" using gate_open_requests by (simp add: s1_def qs_def)
      with None request_unused(2) [OF load] show ?thesis by (simp add: gate flip: qs_def)
    next
      case (Some i)
      have latest: "as_requests s1 ! i = last qs"
        using rposition_last [OF Some] by (simp add: qs_def s1_def expire_pending_requests_def)
      have "qs \<noteq> []" using Some gate_open_requests [of "fp action" "ar_id rule" s now] by (auto simp: s1_def qs_def)
      then obtain older q where qs: "qs = older @ [q]" by (cases qs rule: rev_cases) auto
      then have q: "as_requests s1 ! i = q" "is_open_request (fp action) (ar_id rule) q"
        using rposition_Some [OF Some] latest by simp_all
      show ?thesis
        unfolding qs_def [symmetric] qs
        using Some q(2) request_unused(2) [OF load]
        by (cases "aq_status q") (simp_all add: gate q(1) saved is_open_request_def)
    qed
  qed
  show ?thesis
    using iff
    by (auto simp: evaluate_approval_gate_with_paths_def split: sum.split option.split)
qed

end
