(* ===== verification/Json_Value.thy ===== *)
theory Json_Value
  imports Rust_Text
begin

text \<open>
  JSON values as the program inspects them (\<open>serde_json::Value\<close>): the datatype and the accessors
  \<open>as_str\<close>, \<open>as_bool\<close>, \<open>as_u64\<close>, \<open>as_array\<close>, \<open>as_object\<close>. Integers outside the range of \<open>u64\<close> and
  floats (as their bits) are kept apart.
\<close>

datatype json =
    JNull
  | JBool bool
  | JInt int
  | JFloat nat
  | JString string
  | JArray "json list"
  | JObject "(string \<times> json) list"

fun as_str :: "json \<Rightarrow> string option" where
  "as_str (JString s) = Some s"
| "as_str _ = None"

fun as_bool :: "json \<Rightarrow> bool option" where
  "as_bool (JBool b) = Some b"
| "as_bool _ = None"

fun as_u64 :: "json \<Rightarrow> nat option" where
  "as_u64 (JInt i) = (if 0 \<le> i \<and> nat i \<le> u64_max then Some (nat i) else None)"
| "as_u64 _ = None"

fun as_array :: "json \<Rightarrow> json list option" where
  "as_array (JArray xs) = Some xs"
| "as_array _ = None"

fun as_object :: "json \<Rightarrow> (string \<times> json) list option" where
  "as_object (JObject ps) = Some ps"
| "as_object _ = None"

text \<open>\<open>object.get(key).and_then(accessor)\<close>.\<close>

definition get_as :: "(json \<Rightarrow> 'a option) \<Rightarrow> string \<Rightarrow> (string \<times> json) list \<Rightarrow> 'a option" where
  "get_as accessor key object = Option.bind (map_of object key) accessor"

text \<open>\<open>map(str::trim).filter(|value| !value.is_empty())\<close>.\<close>

definition trimmed_text :: "string option \<Rightarrow> string option" where
  "trimmed_text v = (case v of None \<Rightarrow> None | Some s \<Rightarrow> if trim s = [] then None else Some (trim s))"

text \<open>A \<open>Map\<close> is a \<open>BTreeMap\<close>: the members of an object are in the order of their keys.\<close>

definition json_insert :: "string \<Rightarrow> json \<Rightarrow> (string \<times> json) list \<Rightarrow> (string \<times> json) list" where
  "json_insert key v object = insort_key fst (key, v) (AList.delete key object)"

definition json_object :: "(string \<times> json) list \<Rightarrow> json" where
  "json_object members = JObject (fold (\<lambda>(key, v). json_insert key v) members [])"

definition json_strings :: "string list \<Rightarrow> json" where
  "json_strings xs = JArray (map JString xs)"

lemma map_of_insort_key: "k \<notin> fst ` set m \<Longrightarrow> map_of (insort_key fst (k, v) m) = (map_of m)(k \<mapsto> v)"
  by (induction m) (auto simp: fun_upd_twist)

lemma map_of_json_insert [simp]: "map_of (json_insert key v members) = (map_of members)(key \<mapsto> v)"
proof -
  have "key \<notin> fst ` set (AList.delete key members)" by (auto simp: AList.delete_eq)
  then show ?thesis by (simp add: json_insert_def map_of_insort_key AList.delete_conv' fun_upd_def fun_eq_iff)
qed

lemma map_of_json_object: "as_object (json_object members) = Some fields \<Longrightarrow> map_of fields = map_of (rev members)"
proof -
  have "map_of (fold (\<lambda>(key, v). json_insert key v) members acc) = map_of acc ++ map_of (rev members)" for acc
    by (induction members arbitrary: acc) (auto simp: map_add_def fun_eq_iff split: option.split)
  from this [of "[]"] show "as_object (json_object members) = Some fields \<Longrightarrow> map_of fields = map_of (rev members)"
    by (auto simp: json_object_def)
qed

end
