(* ===== verification/Channel_Policy.thy ===== *)
theory Channel_Policy
  imports Json_File Json_Value
begin

text \<open>
  Events and policy of the multi-channel runtime (\<open>crates/tau-multi-channel/src\<close>): inbound events and
  their validation (\<open>multi_channel_contract.rs\<close>), the channel policy file, the choice of the policy of
  an event and its decision (\<open>multi_channel_policy.rs\<close>).
\<close>

subsection \<open>Events\<close>

abbreviation MULTI_CHANNEL_CONTRACT_SCHEMA_VERSION :: nat where "MULTI_CHANNEL_CONTRACT_SCHEMA_VERSION \<equiv> 1"

datatype MultiChannelTransport = Telegram | Discord | Whatsapp

fun transport_str :: "MultiChannelTransport \<Rightarrow> string" where
  "transport_str Telegram = ''telegram''"
| "transport_str Discord = ''discord''"
| "transport_str Whatsapp = ''whatsapp''"

datatype MultiChannelEventKind = MessageEvent | EditEvent | CommandEvent | SystemEvent

record MultiChannelAttachment =
  at_attachment_id :: string
  at_url :: string
  at_content_type :: string
  at_file_name :: string
  at_size_bytes :: nat

record MultiChannelInboundEvent =
  ev_schema_version :: nat
  ev_transport :: MultiChannelTransport
  ev_event_kind :: MultiChannelEventKind
  ev_event_id :: string
  ev_conversation_id :: string
  ev_thread_id :: string
  ev_actor_id :: string
  ev_actor_display :: string
  ev_timestamp_ms :: nat
  ev_text :: string
  ev_attachments :: "MultiChannelAttachment list"
  ev_metadata :: "(string, json) hash_map"

record MultiChannelContractFixture =
  fx_schema_version :: nat
  fx_name :: string
  fx_description :: string
  fx_events :: "MultiChannelInboundEvent list"

datatype ContractError =
    FixtureSchema nat
  | FixtureNameEmpty
  | FixtureNoEvents
  | FixtureDuplicateKey string
  | EventSchema nat
  | EventIdEmpty
  | ConversationIdEmpty
  | ActorIdEmpty
  | TimestampZero
  | ContentEmpty
  | MetadataKeyEmpty
  | AttachmentIdEmpty
  | AttachmentUrl string
  | AttachmentContentType string
  | AttachmentDuplicate string

definition event_contract_key :: "MultiChannelInboundEvent \<Rightarrow> string" where
  "event_contract_key event = transport_str (ev_transport event) @ '':'' @ trim (ev_event_id event)"

definition validate_attachment :: "MultiChannelAttachment \<Rightarrow> ContractError + unit" where
  "validate_attachment a =
     (if trim (at_attachment_id a) = [] then Inl AttachmentIdEmpty
      else if \<not> (prefix ''https://'' (trim (at_url a)) \<or> prefix ''http://localhost'' (trim (at_url a)))
        then Inl (AttachmentUrl (at_url a))
      else if trim (at_content_type a) \<noteq> [] \<and> CHR ''/'' \<notin> set (at_content_type a)
        then Inl (AttachmentContentType (at_content_type a))
      else Inr ())"

fun validate_attachments :: "string set \<Rightarrow> MultiChannelAttachment list \<Rightarrow> ContractError + unit" where
  "validate_attachments seen [] = Inr ()"
| "validate_attachments seen (a # as) =
     and_then (validate_attachment a) (\<lambda>_.
       if trim (at_attachment_id a) \<in> seen then Inl (AttachmentDuplicate (trim (at_attachment_id a)))
       else validate_attachments (insert (trim (at_attachment_id a)) seen) as)"

definition validate_multi_channel_inbound_event :: "MultiChannelInboundEvent \<Rightarrow> ContractError + unit" where
  "validate_multi_channel_inbound_event event =
     (if ev_schema_version event \<noteq> MULTI_CHANNEL_CONTRACT_SCHEMA_VERSION then Inl (EventSchema (ev_schema_version event))
      else if trim (ev_event_id event) = [] then Inl EventIdEmpty
      else if trim (ev_conversation_id event) = [] then Inl ConversationIdEmpty
      else if trim (ev_actor_id event) = [] then Inl ActorIdEmpty
      else if ev_timestamp_ms event = 0 then Inl TimestampZero
      else if trim (ev_text event) = [] \<and> ev_attachments event = [] then Inl ContentEmpty
      else if list_ex (\<lambda>(k, _). trim k = []) (ev_metadata event) then Inl MetadataKeyEmpty
      else validate_attachments {} (ev_attachments event))"

fun validate_fixture_events :: "string set \<Rightarrow> MultiChannelInboundEvent list \<Rightarrow> ContractError + unit" where
  "validate_fixture_events seen [] = Inr ()"
| "validate_fixture_events seen (e # es) =
     and_then (validate_multi_channel_inbound_event e) (\<lambda>_.
       if event_contract_key e \<in> seen then Inl (FixtureDuplicateKey (event_contract_key e))
       else validate_fixture_events (insert (event_contract_key e) seen) es)"

definition validate_multi_channel_contract_fixture :: "MultiChannelContractFixture \<Rightarrow> ContractError + unit" where
  "validate_multi_channel_contract_fixture fixture =
     (if fx_schema_version fixture \<noteq> MULTI_CHANNEL_CONTRACT_SCHEMA_VERSION then Inl (FixtureSchema (fx_schema_version fixture))
      else if trim (fx_name fixture) = [] then Inl FixtureNameEmpty
      else if fx_events fixture = [] then Inl FixtureNoEvents
      else validate_fixture_events {} (fx_events fixture))"

subsection \<open>The policy file\<close>

abbreviation MULTI_CHANNEL_POLICY_SCHEMA_VERSION :: nat where "MULTI_CHANNEL_POLICY_SCHEMA_VERSION \<equiv> 1"

datatype MultiChannelDmPolicy = DmAllow | DmDeny
datatype MultiChannelAllowFrom = AnyActor | AllowlistOrPairing | AllowlistOnly
datatype MultiChannelGroupPolicy = GroupAllow | GroupDeny
datatype MultiChannelSecureMessagingMode = SecureDisabled | SecurePreferred | SecureRequired

record MultiChannelSecureMessagingPolicy =
  sm_mode :: MultiChannelSecureMessagingMode
  sm_timestamp_skew_seconds :: nat
  sm_replay_window_seconds :: nat

definition default_secure_messaging :: MultiChannelSecureMessagingPolicy where
  "default_secure_messaging =
     \<lparr>sm_mode = SecurePreferred, sm_timestamp_skew_seconds = 300, sm_replay_window_seconds = 300\<rparr>"

record MultiChannelChannelPolicy =
  cp_dm_policy :: MultiChannelDmPolicy
  cp_allow_from :: MultiChannelAllowFrom
  cp_group_policy :: MultiChannelGroupPolicy
  cp_require_mention :: bool

definition default_channel_policy :: MultiChannelChannelPolicy where
  "default_channel_policy =
     \<lparr>cp_dm_policy = DmAllow, cp_allow_from = AllowlistOrPairing, cp_group_policy = GroupAllow, cp_require_mention = False\<rparr>"

definition is_open_dm_combo :: "MultiChannelChannelPolicy \<Rightarrow> bool" where
  "is_open_dm_combo p \<longleftrightarrow> cp_dm_policy p = DmAllow \<and> cp_allow_from p = AnyActor"

record MultiChannelPolicyFile =
  mp_schema_version :: nat
  mp_strict_mode :: bool
  mp_secure_messaging :: MultiChannelSecureMessagingPolicy
  mp_default_policy :: MultiChannelChannelPolicy
  mp_channels :: "(string, MultiChannelChannelPolicy) hash_map"

definition default_policy_file :: MultiChannelPolicyFile where
  "default_policy_file =
     \<lparr>mp_schema_version = MULTI_CHANNEL_POLICY_SCHEMA_VERSION, mp_strict_mode = False,
      mp_secure_messaging = default_secure_messaging, mp_default_policy = default_channel_policy, mp_channels = []\<rparr>"

datatype ChannelPolicyError =
    ChannelPolicyParse
  | ChannelPolicySchema nat
  | ChannelKeyEmpty

definition validate_multi_channel_policy :: "MultiChannelPolicyFile \<Rightarrow> ChannelPolicyError + unit" where
  "validate_multi_channel_policy policy =
     (if mp_schema_version policy \<noteq> MULTI_CHANNEL_POLICY_SCHEMA_VERSION then Inl (ChannelPolicySchema (mp_schema_version policy))
      else if list_ex (\<lambda>(key, _). trim key = []) (mp_channels policy) then Inl ChannelKeyEmpty
      else Inr ())"

definition load_multi_channel_policy_file :: "MultiChannelPolicyFile json_file \<Rightarrow> ChannelPolicyError + MultiChannelPolicyFile" where
  "load_multi_channel_policy_file file =
     (case file of
        NoFile \<Rightarrow> Inr default_policy_file
      | OtherFile \<Rightarrow> Inl ChannelPolicyParse
      | JsonFile parsed \<Rightarrow> and_then (validate_multi_channel_policy parsed) (\<lambda>_. Inr parsed))"

definition channel_policy_path_for_state_dir :: "path \<Rightarrow> path" where
  "channel_policy_path_for_state_dir state_dir = tau_root state_dir @ [''security'', ''channel-policy.json'']"

definition collect_open_dm_risk_channels :: "MultiChannelPolicyFile \<Rightarrow> string list" where
  "collect_open_dm_risk_channels policy_file =
     remdups_adj (sort
       ((if is_open_dm_combo (mp_default_policy policy_file) then [''default''] else [])
        @ map fst (filter (\<lambda>(_, p). is_open_dm_combo p) (mp_channels policy_file))))"

subsection \<open>The decision for an event\<close>

datatype MultiChannelConversationKind = Dm | Group

datatype MultiChannelPolicyDecision = PolicyAllow string | PolicyDeny string

record MultiChannelPolicyEvaluation =
  pe_policy_channel :: string
  pe_matched_policy_key :: string
  pe_policy :: MultiChannelChannelPolicy
  pe_conversation_kind :: MultiChannelConversationKind
  pe_mention_present :: bool
  pe_decision :: MultiChannelPolicyDecision

definition metadata_string_matches :: "MultiChannelInboundEvent \<Rightarrow> string \<Rightarrow> string list \<Rightarrow> bool" where
  "metadata_string_matches event key accepted =
     (case Option.bind (map_of (ev_metadata event) key) as_str of
        None \<Rightarrow> False
      | Some v \<Rightarrow> to_ascii_lowercase (trim v) \<in> set accepted)"

definition metadata_bool :: "MultiChannelInboundEvent \<Rightarrow> string \<Rightarrow> bool" where
  "metadata_bool event key = (Option.bind (map_of (ev_metadata event) key) as_bool = Some True)"

definition detect_conversation_kind :: "MultiChannelInboundEvent \<Rightarrow> MultiChannelConversationKind" where
  "detect_conversation_kind event =
     (if transport_str (ev_transport event) = ''whatsapp'' then Dm
      else if metadata_string_matches event ''conversation_mode'' [''dm''] then Dm
      else if metadata_string_matches event ''chat_type'' [''private'', ''dm'', ''direct''] then Dm
      else if metadata_string_matches event ''channel_type'' [''dm'', ''private'', ''direct''] then Dm
      else if metadata_bool event ''is_dm'' then Dm
      else if metadata_string_matches event ''conversation_mode'' [''group''] then Group
      else if metadata_string_matches event ''chat_type'' [''group'', ''supergroup'', ''channel''] then Group
      else if metadata_string_matches event ''channel_type''
          [''group'', ''guild'', ''public_thread'', ''private_thread'', ''text''] then Group
      else if (case Option.bind (map_of (ev_metadata event) ''guild_id'') as_str of
                 Some v \<Rightarrow> trim v \<noteq> [] | None \<Rightarrow> False) then Group
      else if trim (ev_thread_id event) \<noteq> [] then Group
      else Group)"

definition detect_mention_present :: "MultiChannelInboundEvent \<Rightarrow> bool" where
  "detect_mention_present event =
     (if ev_event_kind event = CommandEvent then True
      else if metadata_bool event ''mentions_bot'' \<or> metadata_bool event ''mentioned'' \<or> metadata_bool event ''mention'' then True
      else if (case Option.bind (map_of (ev_metadata event) ''mention_count'') as_u64 of
                 Some n \<Rightarrow> n > 0 | None \<Rightarrow> False) then True
      else if (case Option.bind (map_of (ev_metadata event) ''mentions'') as_array of
                 Some rows \<Rightarrow> rows \<noteq> [] | None \<Rightarrow> False) then True
      else
        (let text = to_ascii_lowercase (ev_text event) in
         contains text ''@tau'' \<or> contains text ''<@'' \<or> contains text ''/tau''))"

definition allow_decision_for_allow_from :: "MultiChannelAllowFrom \<Rightarrow> MultiChannelPolicyDecision" where
  "allow_decision_for_allow_from allow_from =
     PolicyAllow (case allow_from of
       AnyActor \<Rightarrow> ''allow_channel_policy_allow_from_any''
     | AllowlistOrPairing \<Rightarrow> ''allow_channel_policy_allow_from_allowlist_or_pairing''
     | AllowlistOnly \<Rightarrow> ''allow_channel_policy_allow_from_allowlist_only'')"

definition policy_channel_of :: "MultiChannelInboundEvent \<Rightarrow> string" where
  "policy_channel_of event = transport_str (ev_transport event) @ '':'' @ trim (ev_conversation_id event)"

definition select_channel_policy ::
  "MultiChannelPolicyFile \<Rightarrow> MultiChannelInboundEvent \<Rightarrow> string \<times> MultiChannelChannelPolicy" where
  "select_channel_policy policy_file event =
     (let policy_channel = policy_channel_of event;
          transport_wildcard = transport_str (ev_transport event) @ '':*''
      in case map_of (mp_channels policy_file) policy_channel of
           Some p \<Rightarrow> (policy_channel, p)
         | None \<Rightarrow>
             (case map_of (mp_channels policy_file) transport_wildcard of
                Some p \<Rightarrow> (transport_wildcard, p)
              | None \<Rightarrow>
                  (case map_of (mp_channels policy_file) ''*'' of
                     Some p \<Rightarrow> (''*'', p)
                   | None \<Rightarrow> (''default'', mp_default_policy policy_file))))"

definition evaluate_multi_channel_channel_policy ::
  "MultiChannelPolicyFile \<Rightarrow> MultiChannelInboundEvent \<Rightarrow> MultiChannelPolicyEvaluation" where
  "evaluate_multi_channel_channel_policy policy_file event =
     (let (matched_policy_key, policy) = select_channel_policy policy_file event;
          kind = detect_conversation_kind event;
          mention_present = detect_mention_present event;
          decision =
            (case kind of
               Dm \<Rightarrow>
                 if cp_dm_policy policy = DmDeny then PolicyDeny ''deny_channel_policy_dm''
                 else allow_decision_for_allow_from (cp_allow_from policy)
             | Group \<Rightarrow>
                 if cp_group_policy policy = GroupDeny then PolicyDeny ''deny_channel_policy_group''
                 else if cp_require_mention policy \<and> \<not> mention_present
                   then PolicyDeny ''deny_channel_policy_mention_required''
                 else allow_decision_for_allow_from (cp_allow_from policy))
      in \<lparr>pe_policy_channel = policy_channel_of event, pe_matched_policy_key = matched_policy_key, pe_policy = policy,
          pe_conversation_kind = kind, pe_mention_present = mention_present, pe_decision = decision\<rparr>)"

end
