(* ===== verification/Access_Identity.thy ===== *)
theory Access_Identity
  imports Rust_Text
begin

text \<open>
  KAMN decentralized identifiers (\<open>crates/tau-access/src/identity.rs\<close>): the parser, its accessors and
  the service endpoint of a channel. The canonical form reads back as the same identity.
\<close>

record KamnDid =
  kd_canonical :: string
  kd_canonical_base :: string
  kd_trust_root_id :: string
  kd_subject :: string
  kd_service_fragment :: "string option"

datatype DidError =
    DidEmpty
  | DidEmptyBase
  | DidShape string
  | DidScheme string
  | DidMethod string
  | DidEmptyTrustRoot string
  | DidEmptySubject string
  | DidTrustRootChars string
  | DidSubjectChars string
  | DidEmptyFragment string
  | DidFragmentChars string

definition component_char :: "bool \<Rightarrow> char \<Rightarrow> bool" where
  "component_char strict c \<longleftrightarrow>
     is_ascii_alphanumeric c \<or> c = CHR ''-'' \<or> c = CHR ''_'' \<or> c = CHR ''.'' \<or> (\<not> strict \<and> c = CHR '':'')"

definition is_valid_component :: "string \<Rightarrow> bool \<Rightarrow> bool" where
  "is_valid_component value strict = list_all (component_char strict) value"

definition parse_kamn_did :: "string \<Rightarrow> DidError + KamnDid" where
  "parse_kamn_did text =
     (let raw = trim text in
      if raw = [] then Inl DidEmpty
      else
        (let (base, fragment) =
           (case split_once CHR ''#'' raw of
              Some (b, f) \<Rightarrow> (trim b, Some (trim f))
            | None \<Rightarrow> (raw, None))
         in
         if base = [] then Inl DidEmptyBase
         else
           (let parts = split_on CHR '':'' base in
            if length parts < 4 then Inl (DidShape raw)
            else if \<not> eq_ignore_ascii_case (parts ! 0) ''did'' then Inl (DidScheme raw)
            else if \<not> eq_ignore_ascii_case (parts ! 1) ''kamn'' then Inl (DidMethod raw)
            else
              (let trust_root_id = trim (parts ! 2); subject = join '':'' (drop 3 parts) in
               if trust_root_id = [] then Inl (DidEmptyTrustRoot raw)
               else if trim subject = [] then Inl (DidEmptySubject raw)
               else if \<not> is_valid_component trust_root_id True then Inl (DidTrustRootChars raw)
               else if \<not> is_valid_component subject False then Inl (DidSubjectChars raw)
               else if fragment = Some [] then Inl (DidEmptyFragment raw)
               else if (case fragment of Some f \<Rightarrow> \<not> is_valid_component f False | None \<Rightarrow> False)
                 then Inl (DidFragmentChars raw)
               else
                 (let canonical_base = ''did:kamn:'' @ trust_root_id @ '':'' @ subject in
                  Inr \<lparr>kd_canonical = (case fragment of
                           Some f \<Rightarrow> canonical_base @ ''#'' @ f | None \<Rightarrow> canonical_base),
                       kd_canonical_base = canonical_base,
                       kd_trust_root_id = trust_root_id,
                       kd_subject = subject,
                       kd_service_fragment = fragment\<rparr>)))))"

text \<open>Each character of the channel outside the allowed set becomes one hyphen; continuation bytes
  belong to the character of their leading byte.\<close>

definition endpoint_byte :: "char \<Rightarrow> string" where
  "endpoint_byte c = (if component_char True c then [c] else if leading_byte c then ''-'' else [])"

definition service_endpoint_for_channel :: "KamnDid \<Rightarrow> string \<Rightarrow> string" where
  "service_endpoint_for_channel did channel =
     (let ch = trim channel;
          fragment = (if ch = [] then ''default'' else concat (map endpoint_byte ch))
      in kd_canonical_base did @ ''#'' @ fragment)"

subsection \<open>Canonical identities\<close>

definition did_wf :: "KamnDid \<Rightarrow> bool" where
  "did_wf did \<longleftrightarrow>
     kd_trust_root_id did \<noteq> [] \<and> is_valid_component (kd_trust_root_id did) True
     \<and> kd_subject did \<noteq> [] \<and> is_valid_component (kd_subject did) False
     \<and> (case kd_service_fragment did of None \<Rightarrow> True | Some f \<Rightarrow> f \<noteq> [] \<and> is_valid_component f False)
     \<and> kd_canonical_base did = ''did:kamn:'' @ kd_trust_root_id did @ '':'' @ kd_subject did
     \<and> kd_canonical did = kd_canonical_base did
          @ (case kd_service_fragment did of None \<Rightarrow> [] | Some f \<Rightarrow> ''#'' @ f)"

lemma component_char_byte: "component_char strict c \<Longrightarrow> (of_char c :: nat) \<in> {33..126}"
  by (auto simp: component_char_def is_ascii_alphanumeric_def Let_def)

lemma trim_component: "is_valid_component v strict \<Longrightarrow> trim v = v"
  by (cases "v = []")
    (auto simp: is_valid_component_def list_all_iff intro!: trim_visible dest: component_char_byte)

lemma parse_kamn_did_wf:
  assumes "parse_kamn_did text = Inr did"
  shows "did_wf did"
  using assms
  unfolding parse_kamn_did_def did_wf_def
  by (auto simp: Let_def split: if_splits option.splits prod.splits)

lemma no_separator:
  "is_valid_component v strict \<Longrightarrow> CHR ''#'' \<notin> set v" "is_valid_component v True \<Longrightarrow> CHR '':'' \<notin> set v"
  by (auto simp: is_valid_component_def list_all_iff component_char_def is_ascii_alphanumeric_def)

lemma split_canonical_base:
  assumes "is_valid_component root True"
  shows "split_on CHR '':'' (''did:kamn:'' @ root @ '':'' @ subject)
    = ''did'' # ''kamn'' # root # split_on CHR '':'' subject"
  using no_separator(2) [OF assms] by (simp add: split_on_append)

lemma trim_did:
  assumes "s \<noteq> []" "component_char False (last s)"
  shows "trim (CHR ''d'' # t @ s) = CHR ''d'' # t @ s"
  using assms component_char_byte [of False "last s"] by (intro trim_visible) auto

lemma split_fragment:
  assumes "did_wf did"
  shows "split_once CHR ''#'' (kd_canonical did) =
    (case kd_service_fragment did of None \<Rightarrow> None | Some f \<Rightarrow> Some (kd_canonical_base did, f))"
proof -
  have "CHR ''#'' \<notin> set (kd_canonical_base did)"
    using assms no_separator(1) by (auto simp: did_wf_def)
  then show ?thesis
    using assms split_once_append [of "CHR ''#''" "kd_canonical_base did"]
    by (auto simp: did_wf_def split_once_None split: option.splits)
qed

lemma did_wf_trims:
  assumes "did_wf did"
  shows "trim (kd_canonical did) = kd_canonical did" "trim (kd_canonical_base did) = kd_canonical_base did"
proof -
  have last: "component_char False (last v)" if "v \<noteq> []" "is_valid_component v False" for v
    using that by (simp add: is_valid_component_def list_all_iff)
  show base: "trim (kd_canonical_base did) = kd_canonical_base did"
    using assms last trim_did [of "kd_subject did" "''id:kamn:'' @ kd_trust_root_id did @ '':''"]
    by (simp add: did_wf_def)
  show "trim (kd_canonical did) = kd_canonical did"
  proof (cases "kd_service_fragment did")
    case None
    with assms base show ?thesis by (simp add: did_wf_def)
  next
    case (Some f)
    with assms last [of f]
      trim_did [of f "''id:kamn:'' @ kd_trust_root_id did @ '':'' @ kd_subject did @ ''#''"]
    show ?thesis by (simp add: did_wf_def)
  qed
qed

lemma parse_did_wf:
  assumes wf: "did_wf did"
  shows "parse_kamn_did (kd_canonical did) = Inr did"
proof -
  let ?r = "kd_trust_root_id did" and ?s = "kd_subject did"
  have parts: "split_on CHR '':'' (kd_canonical_base did) = ''did'' # ''kamn'' # ?r # split_on CHR '':'' ?s"
    using wf split_canonical_base [of ?r ?s] by (simp add: did_wf_def)
  have nonempty: "kd_canonical did \<noteq> []" "kd_canonical_base did \<noteq> []" "0 < length (split_on CHR '':'' ?s)"
    using wf by (auto simp: did_wf_def)
  have trims: "trim ?r = ?r" "trim ?s = ?s"
    using wf trim_component by (auto simp: did_wf_def)
  have frag: "trim f = f" if "kd_service_fragment did = Some f" for f
    using wf that trim_component by (auto simp: did_wf_def)
  have valid: "?r \<noteq> []" "?s \<noteq> []" "is_valid_component ?r True" "is_valid_component ?s False"
    "\<And>f. kd_service_fragment did = Some f \<Longrightarrow> f \<noteq> [] \<and> is_valid_component f False"
    using wf by (auto simp: did_wf_def)
  let ?base = "''did:kamn:'' @ ?r @ '':'' @ ?s"
  have "parse_kamn_did (kd_canonical did) =
    Inr \<lparr>kd_canonical = (case kd_service_fragment did of Some f \<Rightarrow> ?base @ ''#'' @ f | None \<Rightarrow> ?base),
      kd_canonical_base = ?base, kd_trust_root_id = ?r, kd_subject = ?s,
      kd_service_fragment = kd_service_fragment did\<rparr>"
  proof (cases "kd_service_fragment did")
    case None
    then have "kd_canonical did = kd_canonical_base did" "split_once CHR ''#'' (kd_canonical_base did) = None"
      using wf split_fragment [OF wf] by (simp_all add: did_wf_def)
    with None nonempty valid show ?thesis
      by (simp add: parse_kamn_did_def did_wf_trims [OF wf] parts trims join_split_on
          Let_def eq_ignore_ascii_case_def)
  next
    case (Some f)
    with nonempty valid show ?thesis
      by (simp add: parse_kamn_did_def did_wf_trims [OF wf] parts trims frag [OF Some]
          split_fragment [OF wf] join_split_on Let_def eq_ignore_ascii_case_def)
  qed
  also have "\<dots> = Inr did"
    using wf by (cases "kd_service_fragment did") (auto simp: did_wf_def intro!: KamnDid.equality)
  finally show ?thesis .
qed

definition with_fragment :: "KamnDid \<Rightarrow> string \<Rightarrow> KamnDid" where
  "with_fragment did f = did\<lparr>kd_canonical := kd_canonical_base did @ ''#'' @ f, kd_service_fragment := Some f\<rparr>"

lemma with_fragment_wf:
  "did_wf did \<Longrightarrow> f \<noteq> [] \<Longrightarrow> is_valid_component f False \<Longrightarrow> did_wf (with_fragment did f)"
  by (simp add: did_wf_def with_fragment_def)

lemma endpoint_bytes_valid: "is_valid_component (concat (map endpoint_byte s)) False"
  by (induction s) (auto simp: is_valid_component_def endpoint_byte_def component_char_def)

lemma endpoint_bytes_not_Nil: "s \<noteq> [] \<Longrightarrow> leading_byte (hd s) \<Longrightarrow> concat (map endpoint_byte s) \<noteq> []"
  by (cases s) (auto simp: endpoint_byte_def)

lemma endpoint_parses:
  assumes wf: "did_wf did" and utf8: "trim channel = [] \<or> leading_byte (hd (trim channel))"
  shows "\<exists>f. parse_kamn_did (service_endpoint_for_channel did channel) = Inr (with_fragment did f)"
proof -
  let ?f = "if trim channel = [] then ''default'' else concat (map endpoint_byte (trim channel))"
  have "?f \<noteq> []" using endpoint_bytes_not_Nil utf8 by auto
  moreover have "is_valid_component ''default'' False"
    by (simp add: is_valid_component_def component_char_def is_ascii_alphanumeric_def)
  then have "is_valid_component ?f False" using endpoint_bytes_valid by simp
  ultimately have "did_wf (with_fragment did ?f)" by (rule with_fragment_wf [OF wf])
  then have "parse_kamn_did (kd_canonical (with_fragment did ?f)) = Inr (with_fragment did ?f)"
    by (rule parse_did_wf)
  moreover have "kd_canonical (with_fragment did ?f) = service_endpoint_for_channel did channel"
    by (simp add: with_fragment_def service_endpoint_for_channel_def)
  ultimately show ?thesis by metis
qed

text \<open>Every identifier the parser accepts has a canonical form that parses back to the same
  identity, and its service endpoint for any channel (whose text starts with the first byte of a
  character) is again an identifier of the same subject under the same trust root.\<close>

theorem did_canonical_roundtrip:
  "case parse_kamn_did text of
     Inl _ \<Rightarrow> True
   | Inr did \<Rightarrow> parse_kamn_did (kd_canonical did) = Inr did
       \<and> (if trim channel = [] \<or> leading_byte (hd (trim channel)) then
            (case parse_kamn_did (service_endpoint_for_channel did channel) of
               Inl _ \<Rightarrow> False
             | Inr endpoint \<Rightarrow> kd_trust_root_id endpoint = kd_trust_root_id did
                 \<and> kd_subject endpoint = kd_subject did
                 \<and> kd_canonical_base endpoint = kd_canonical_base did)
          else True)"
proof (cases "parse_kamn_did text")
  case (Inr did)
  note wf = parse_kamn_did_wf [OF Inr]
  show ?thesis
    using Inr parse_did_wf [OF wf] endpoint_parses [OF wf, of channel]
    by (auto simp: with_fragment_def)
qed simp

end
