(* ===== verification/Access_Trust.thy ===== *)
theory Access_Trust
  imports Json_File Access_Identity
begin

text \<open>
  Trust roots (\<open>crates/tau-access/src/trust_roots.rs\<close>): the records, the specifications given on the
  command line, loading and saving, and the three mutation loops. A failing loop leaves the records
  as the earlier steps changed them, so the operation returns its result and the records. The records
  refine a finite map from key ids.
\<close>

record TrustedKey =
  tk_id :: string
  tk_public_key :: string

record TrustedRootRecord =
  tr_id :: string
  tr_public_key :: string
  tr_revoked :: bool
  tr_expires_unix :: "nat option"
  tr_rotated_from :: "string option"

datatype TrustedRootFileFormat =
    RootList "TrustedRootRecord list"
  | Wrapped "TrustedRootRecord list"
  | Keys "TrustedRootRecord list"

record TrustMutationReport =
  tm_added :: nat
  tm_updated :: nat
  tm_revoked :: nat
  tm_rotated :: nat

definition no_mutations :: TrustMutationReport where
  "no_mutations = \<lparr>tm_added = 0, tm_updated = 0, tm_revoked = 0, tm_rotated = 0\<rparr>"

datatype TrustError =
    TrustRootSpec string
  | TrustRotationSpec string
  | TrustParse
  | TrustWrite
  | TrustRevokeUnknown string
  | TrustRotateUnknown string

subsection \<open>Specifications and files\<close>

definition parse_trusted_root_spec :: "string \<Rightarrow> TrustError + TrustedKey" where
  "parse_trusted_root_spec raw =
     and_then (ok_or (split_once CHR ''='' raw) (TrustRootSpec raw)) (\<lambda>(i, k).
       if trim i = [] \<or> trim k = [] then Inl (TrustRootSpec raw)
       else Inr \<lparr>tk_id = trim i, tk_public_key = trim k\<rparr>)"

definition parse_trust_rotation_spec :: "string \<Rightarrow> TrustError + (string \<times> TrustedKey)" where
  "parse_trust_rotation_spec raw =
     and_then (ok_or (split_once CHR '':'' raw) (TrustRotationSpec raw)) (\<lambda>(old_id, new_spec).
       if trim old_id = [] then Inl (TrustRotationSpec raw)
       else and_then (parse_trusted_root_spec new_spec) (\<lambda>new_key. Inr (trim old_id, new_key)))"

definition load_trust_root_records :: "TrustedRootFileFormat json_file \<Rightarrow> TrustError + TrustedRootRecord list" where
  "load_trust_root_records file =
     (case file of
        NoFile \<Rightarrow> Inr []
      | OtherFile \<Rightarrow> Inl TrustParse
      | JsonFile parsed \<Rightarrow>
          Inr (case parsed of RootList items \<Rightarrow> items | Wrapped roots \<Rightarrow> roots | Keys keys \<Rightarrow> keys))"

definition save_trust_root_records ::
  "bool \<Rightarrow> TrustedRootRecord list \<Rightarrow> TrustedRootFileFormat json_file
     \<Rightarrow> (TrustError + unit) \<times> TrustedRootFileFormat json_file" where
  "save_trust_root_records written records file = save_json written TrustWrite (Wrapped records) file"

subsection \<open>Mutations\<close>

text \<open>\<open>iter_mut().find(..)\<close> followed by assignments to the record found.\<close>

fun modify_first :: "('a \<Rightarrow> bool) \<Rightarrow> ('a \<Rightarrow> 'a) \<Rightarrow> 'a list \<Rightarrow> 'a list option" where
  "modify_first P f [] = None"
| "modify_first P f (x # xs) =
     (if P x then Some (f x # xs) else map_option (\<lambda>ys. x # ys) (modify_first P f xs))"

type_synonym trust_state = "TrustedRootRecord list \<times> TrustMutationReport"

definition add_key :: "TrustedKey \<Rightarrow> string option \<Rightarrow> trust_state \<Rightarrow> trust_state" where
  "add_key key rotated_from = (\<lambda>(records, report).
     (case modify_first (\<lambda>r. tr_id r = tk_id key)
             (\<lambda>r. r\<lparr>tr_public_key := tk_public_key key, tr_revoked := False, tr_rotated_from := rotated_from\<rparr>)
             records of
        Some records' \<Rightarrow> (records', report\<lparr>tm_updated := tm_updated report + 1\<rparr>)
      | None \<Rightarrow>
          (records @ [\<lparr>tr_id = tk_id key, tr_public_key = tk_public_key key, tr_revoked = False,
                       tr_expires_unix = None, tr_rotated_from = rotated_from\<rparr>],
           report\<lparr>tm_added := tm_added report + 1\<rparr>)))"

definition apply_add_spec :: "string \<Rightarrow> trust_state \<Rightarrow> (TrustError + unit) \<times> trust_state" where
  "apply_add_spec spec st =
     (case parse_trusted_root_spec spec of
        Inl e \<Rightarrow> (Inl e, st)
      | Inr key \<Rightarrow> (Inr (), add_key key None st))"

definition apply_revoke_id :: "string \<Rightarrow> trust_state \<Rightarrow> (TrustError + unit) \<times> trust_state" where
  "apply_revoke_id raw st =
     (let i = trim raw; records = fst st; report = snd st in
      if i = [] then (Inr (), st)
      else case find (\<lambda>r. tr_id r = i) records of
        None \<Rightarrow> (Inl (TrustRevokeUnknown i), st)
      | Some r \<Rightarrow>
          if tr_revoked r then (Inr (), st)
          else (Inr (), (the (modify_first (\<lambda>r. tr_id r = i) (\<lambda>r. r\<lparr>tr_revoked := True\<rparr>) records),
                         report\<lparr>tm_revoked := tm_revoked report + 1\<rparr>)))"

definition apply_rotate_spec :: "string \<Rightarrow> trust_state \<Rightarrow> (TrustError + unit) \<times> trust_state" where
  "apply_rotate_spec spec st =
     (case parse_trust_rotation_spec spec of
        Inl e \<Rightarrow> (Inl e, st)
      | Inr (old_id, new_key) \<Rightarrow>
          (case modify_first (\<lambda>r. tr_id r = old_id) (\<lambda>r. r\<lparr>tr_revoked := True\<rparr>) (fst st) of
             None \<Rightarrow> (Inl (TrustRotateUnknown old_id), st)
           | Some records \<Rightarrow>
               (let (records', report) = add_key new_key (Some old_id) (records, snd st)
                in (Inr (), (records', report\<lparr>tm_rotated := tm_rotated report + 1\<rparr>)))))"

fun run_specs :: "('a \<Rightarrow> 's \<Rightarrow> ('e + unit) \<times> 's) \<Rightarrow> 'a list \<Rightarrow> 's \<Rightarrow> ('e + unit) \<times> 's" where
  "run_specs step [] st = (Inr (), st)"
| "run_specs step (x # xs) st =
     (case step x st of (Inl e, st') \<Rightarrow> (Inl e, st') | (Inr _, st') \<Rightarrow> run_specs step xs st')"

definition apply_trust_root_mutation_specs ::
  "TrustedRootRecord list \<Rightarrow> string list \<Rightarrow> string list \<Rightarrow> string list
     \<Rightarrow> (TrustError + TrustMutationReport) \<times> TrustedRootRecord list" where
  "apply_trust_root_mutation_specs records add_specs revoke_ids rotate_specs =
     (case run_specs apply_add_spec add_specs (records, no_mutations) of
        (Inl e, (rs, _)) \<Rightarrow> (Inl e, rs)
      | (Inr _, st) \<Rightarrow>
          (case run_specs apply_revoke_id revoke_ids st of
             (Inl e, (rs, _)) \<Rightarrow> (Inl e, rs)
           | (Inr _, st) \<Rightarrow>
               (case run_specs apply_rotate_spec rotate_specs st of
                  (Inl e, (rs, _)) \<Rightarrow> (Inl e, rs)
                | (Inr _, (rs, report)) \<Rightarrow> (Inr report, rs))))"

subsection \<open>The records as a map\<close>

type_synonym root_map = "string \<rightharpoonup> TrustedRootRecord"

definition root_map :: "TrustedRootRecord list \<Rightarrow> root_map" where
  "root_map records = map_of (map (\<lambda>r. (tr_id r, r)) records)"

definition spec_add :: "TrustedKey \<Rightarrow> string option \<Rightarrow> root_map \<times> TrustMutationReport \<Rightarrow> root_map \<times> TrustMutationReport" where
  "spec_add key rotated_from = (\<lambda>(m, report).
     (case m (tk_id key) of
        Some r \<Rightarrow>
          (m(tk_id key \<mapsto> r\<lparr>tr_public_key := tk_public_key key, tr_revoked := False,
                               tr_rotated_from := rotated_from\<rparr>),
           report\<lparr>tm_updated := tm_updated report + 1\<rparr>)
      | None \<Rightarrow>
          (m(tk_id key \<mapsto> \<lparr>tr_id = tk_id key, tr_public_key = tk_public_key key, tr_revoked = False,
                               tr_expires_unix = None, tr_rotated_from = rotated_from\<rparr>),
           report\<lparr>tm_added := tm_added report + 1\<rparr>)))"

definition spec_add_spec where
  "spec_add_spec spec st =
     (case parse_trusted_root_spec spec of
        Inl e \<Rightarrow> (Inl e, st)
      | Inr key \<Rightarrow> (Inr (), spec_add key None st))"

definition spec_revoke_id :: "string \<Rightarrow> root_map \<times> TrustMutationReport \<Rightarrow> (TrustError + unit) \<times> root_map \<times> TrustMutationReport" where
  "spec_revoke_id raw = (\<lambda>(m, report).
     (let i = trim raw in
      if i = [] then (Inr (), m, report)
      else case m i of
        None \<Rightarrow> (Inl (TrustRevokeUnknown i), m, report)
      | Some r \<Rightarrow> (Inr (), m(i \<mapsto> r\<lparr>tr_revoked := True\<rparr>),
                    if tr_revoked r then report else report\<lparr>tm_revoked := tm_revoked report + 1\<rparr>)))"

definition spec_rotate_spec :: "string \<Rightarrow> root_map \<times> TrustMutationReport \<Rightarrow> (TrustError + unit) \<times> root_map \<times> TrustMutationReport" where
  "spec_rotate_spec spec = (\<lambda>(m, report).
     (case parse_trust_rotation_spec spec of
        Inl e \<Rightarrow> (Inl e, m, report)
      | Inr (old_id, new_key) \<Rightarrow>
          (case m old_id of
             None \<Rightarrow> (Inl (TrustRotateUnknown old_id), m, report)
           | Some r \<Rightarrow>
               (let (m', report') = spec_add new_key (Some old_id) (m(old_id \<mapsto> r\<lparr>tr_revoked := True\<rparr>), report)
                in (Inr (), m', report'\<lparr>tm_rotated := tm_rotated report' + 1\<rparr>)))))"

definition spec_mutations where
  "spec_mutations m add_specs revoke_ids rotate_specs =
     (case run_specs spec_add_spec add_specs (m, no_mutations) of
        (Inl e, (m', _)) \<Rightarrow> (Inl e, m')
      | (Inr _, st) \<Rightarrow>
          (case run_specs spec_revoke_id revoke_ids st of
             (Inl e, (m', _)) \<Rightarrow> (Inl e, m')
           | (Inr _, st) \<Rightarrow>
               (case run_specs spec_rotate_spec rotate_specs st of
                  (Inl e, (m', _)) \<Rightarrow> (Inl e, m')
                | (Inr _, (m', report)) \<Rightarrow> (Inr report, m'))))"

text \<open>A loop refines an abstract loop when every step does, and keeps what every step keeps.\<close>

locale loop_refinement =
  fixes abs :: "'s \<Rightarrow> 'a"
    and step :: "'x \<Rightarrow> 's \<Rightarrow> ('e + unit) \<times> 's"
    and spec :: "'x \<Rightarrow> 'a \<Rightarrow> ('e + unit) \<times> 'a"
    and inv :: "'s \<Rightarrow> bool"
  assumes step_refines: "map_prod id abs (step x s) = spec x (abs s)"
    and step_keeps: "inv s \<Longrightarrow> inv (snd (step x s))"
begin

lemma run_refines: "run_specs spec xs (abs s) = map_prod id abs (run_specs step xs s)"
proof (induction xs arbitrary: s)
  case (Cons x xs)
  show ?case
    by (cases "step x s") (auto simp: Cons step_refines [of x s, symmetric] split: sum.split)
qed simp

lemma run_keeps: "inv s \<Longrightarrow> inv (snd (run_specs step xs s))"
proof (induction xs arbitrary: s)
  case (Cons x xs)
  then show ?case using step_keeps [of s x] by (cases "step x s") (auto split: sum.split)
qed simp

end

abbreviation abs_state :: "trust_state \<Rightarrow> root_map \<times> TrustMutationReport" where
  "abs_state \<equiv> map_prod root_map id"

abbreviation unique_ids :: "trust_state \<Rightarrow> bool" where
  "unique_ids st \<equiv> distinct (map tr_id (fst st))"

lemma modify_first_None: "modify_first P f xs = None \<longleftrightarrow> list_all (\<lambda>x. \<not> P x) xs"
  by (induction xs) auto

lemma root_map_modify:
  assumes "\<And>r. tr_id (f r) = tr_id r"
  shows "case modify_first (\<lambda>r. tr_id r = i) f rs of
      None \<Rightarrow> root_map rs i = None
    | Some rs' \<Rightarrow> (\<exists>r. root_map rs i = Some r \<and> root_map rs' = (root_map rs)(i \<mapsto> f r))
        \<and> map tr_id rs' = map tr_id rs"
  by (induction rs) (auto simp: root_map_def assms fun_eq_iff split: option.splits)

lemmas root_map_revoke = root_map_modify [where f = "\<lambda>r. r\<lparr>tr_revoked := True\<rparr>", simplified]

lemma root_map_find: "find (\<lambda>r. tr_id r = i) rs = root_map rs i"
  by (induction rs) (auto simp: root_map_def)

lemma root_map_append: "root_map rs (tr_id r) = None \<Longrightarrow> root_map (rs @ [r]) = (root_map rs)(tr_id r \<mapsto> r)"
  by (auto simp: root_map_def map_add_def fun_eq_iff split: option.split)

lemma root_map_None: "root_map rs i = None \<longleftrightarrow> i \<notin> set (map tr_id rs)"
  by (induction rs) (auto simp: root_map_def)

lemma add_key_refines: "abs_state (add_key key origin st) = spec_add key origin (abs_state st)"
  "unique_ids st \<Longrightarrow> unique_ids (add_key key origin st)"
proof -
  let ?f = "\<lambda>r. r\<lparr>tr_public_key := tk_public_key key, tr_revoked := False, tr_rotated_from := origin\<rparr>"
  have mod: "case modify_first (\<lambda>r. tr_id r = tk_id key) ?f (fst st) of
      None \<Rightarrow> root_map (fst st) (tk_id key) = None
    | Some rs' \<Rightarrow> (\<exists>r. root_map (fst st) (tk_id key) = Some r
          \<and> root_map rs' = (root_map (fst st))(tk_id key \<mapsto> ?f r)) \<and> map tr_id rs' = map tr_id (fst st)"
    by (rule root_map_modify) simp
  then show "abs_state (add_key key origin st) = spec_add key origin (abs_state st)"
    by (cases st) (auto simp: add_key_def spec_add_def root_map_append split: option.splits)
  show "unique_ids st \<Longrightarrow> unique_ids (add_key key origin st)"
    using mod by (cases st) (auto simp: add_key_def root_map_None split: option.splits)
qed

interpretation adding: loop_refinement abs_state apply_add_spec spec_add_spec unique_ids
  by unfold_locales
    (simp_all add: apply_add_spec_def spec_add_spec_def add_key_refines split: sum.split)

interpretation revoking: loop_refinement abs_state apply_revoke_id spec_revoke_id unique_ids
proof
  fix x :: string and st :: trust_state
  note mod = root_map_revoke [of "fst st" "trim x"]
  show "map_prod id abs_state (apply_revoke_id x st) = spec_revoke_id x (abs_state st)"
    using mod
    by (cases st) (auto simp: apply_revoke_id_def spec_revoke_id_def root_map_find Let_def fun_eq_iff
        split: option.splits)
  show "unique_ids st \<Longrightarrow> unique_ids (snd (apply_revoke_id x st))"
    using mod by (cases st) (auto simp: apply_revoke_id_def root_map_find Let_def split: option.splits)
qed

interpretation rotating: loop_refinement abs_state apply_rotate_spec spec_rotate_spec unique_ids
proof
  fix x :: string and st :: trust_state
  show "map_prod id abs_state (apply_rotate_spec x st) = spec_rotate_spec x (abs_state st)"
  proof (cases "parse_trust_rotation_spec x")
    case (Inr spec)
    obtain old_id new_key where spec: "spec = (old_id, new_key)" by fastforce
    show ?thesis
    proof (cases "modify_first (\<lambda>r. tr_id r = old_id) (\<lambda>r. r\<lparr>tr_revoked := True\<rparr>) (fst st)")
      case (Some rs)
      with root_map_revoke [of "fst st" old_id] obtain r where
        "root_map (fst st) old_id = Some r" "root_map rs = (root_map (fst st))(old_id \<mapsto> r\<lparr>tr_revoked := True\<rparr>)"
        by auto
      with Some Inr spec add_key_refines(1) [of new_key "Some old_id" "(rs, snd st)"] show ?thesis
        by (cases st) (auto simp: apply_rotate_spec_def spec_rotate_spec_def split: prod.splits)
    qed (use Inr spec root_map_revoke [of "fst st" old_id] in
          \<open>cases st, auto simp: apply_rotate_spec_def spec_rotate_spec_def\<close>)
  qed (cases st, simp add: apply_rotate_spec_def spec_rotate_spec_def)
  show "unique_ids st \<Longrightarrow> unique_ids (snd (apply_rotate_spec x st))"
  proof (cases "parse_trust_rotation_spec x")
    case (Inr spec)
    then show "unique_ids st \<Longrightarrow> unique_ids (snd (apply_rotate_spec x st))"
      using root_map_revoke [of "fst st" "fst spec"]
        add_key_refines(2) [of "(the (modify_first (\<lambda>r. tr_id r = fst spec) (\<lambda>r. r\<lparr>tr_revoked := True\<rparr>) (fst st)), snd st)"
          "snd spec" "Some (fst spec)"]
      by (cases spec) (auto simp: apply_rotate_spec_def split: option.splits prod.splits)
  qed (simp add: apply_rotate_spec_def)
qed

text \<open>The three mutation loops refine the same operations on a finite map from key ids to
  records: result, report and records agree with the map version, also when a specification is
  rejected half way; and the key ids stay unique.\<close>

theorem trust_mutations_refine_map:
  "spec_mutations (root_map records) add_specs revoke_ids rotate_specs
     = map_prod id root_map (apply_trust_root_mutation_specs records add_specs revoke_ids rotate_specs)
   \<and> (if distinct (map tr_id records) then
        distinct (map tr_id (snd (apply_trust_root_mutation_specs records add_specs revoke_ids rotate_specs)))
      else True)"
proof -
  define a where "a = run_specs apply_add_spec add_specs (records, no_mutations)"
  define b where "b = run_specs apply_revoke_id revoke_ids (snd a)"
  define c where "c = run_specs apply_rotate_spec rotate_specs (snd b)"
  have "run_specs spec_add_spec add_specs (root_map records, no_mutations) = map_prod id abs_state a"
    using adding.run_refines [of add_specs "(records, no_mutations)"] by (simp add: a_def)
  moreover have "run_specs spec_revoke_id revoke_ids (abs_state (snd a)) = map_prod id abs_state b"
    unfolding b_def by (rule revoking.run_refines)
  moreover have "run_specs spec_rotate_spec rotate_specs (abs_state (snd b)) = map_prod id abs_state c"
    unfolding c_def by (rule rotating.run_refines)
  moreover have "unique_ids (snd a) \<and> unique_ids (snd b) \<and> unique_ids (snd c)" if "distinct (map tr_id records)"
    unfolding a_def b_def c_def
    using that by (intro conjI adding.run_keeps revoking.run_keeps rotating.run_keeps) simp_all
  moreover have "apply_trust_root_mutation_specs records add_specs revoke_ids rotate_specs =
      (case fst a of Inl e \<Rightarrow> (Inl e, fst (snd a)) | Inr _ \<Rightarrow>
         (case fst b of Inl e \<Rightarrow> (Inl e, fst (snd b)) | Inr _ \<Rightarrow>
            (case fst c of Inl e \<Rightarrow> (Inl e, fst (snd c)) | Inr _ \<Rightarrow> (Inr (snd (snd c)), fst (snd c)))))"
    unfolding apply_trust_root_mutation_specs_def a_def b_def c_def
    by (auto split: prod.split sum.split)
  ultimately show ?thesis
    by (cases a; cases b; cases c) (auto simp: spec_mutations_def split: sum.splits)
qed

end
