(* ===== verification/Access_Pairing.thy ===== *)
theory Access_Pairing
  imports Access_Trust "HOL-Library.Product_Lexorder"
begin

text \<open>
  Actor pairing (\<open>crates/tau-access/src/pairing.rs\<close>): the registry of paired actors, the allowlist, the
  decision whether an actor may use a channel, and the \<open>/pair\<close> and \<open>/unpair\<close> commands. The registry,
  the allowlist and the trust roots are JSON files; the clock and the outcome of a write are
  arguments. The results of adding and removing are values, a status listing is its text.
\<close>

abbreviation PAIRING_SCHEMA_VERSION :: nat where "PAIRING_SCHEMA_VERSION \<equiv> 1"
abbreviation ALLOWLIST_SCHEMA_VERSION :: nat where "ALLOWLIST_SCHEMA_VERSION \<equiv> 1"

record PairingPolicyConfig =
  pc_registry_path :: path
  pc_allowlist_path :: path
  pc_trust_root_path :: path
  pc_strict_mode :: bool

record PairingRecord =
  pr_channel :: string
  pr_actor_id :: string
  pr_actor_did :: "string option"
  pr_legacy_actor_id :: "string option"
  pr_did_service_endpoint :: "string option"
  pr_paired_by :: string
  pr_issued_unix_ms :: nat
  pr_expires_unix_ms :: "nat option"

record PairingRegistryFile =
  pg_schema_version :: nat
  pg_pairings :: "PairingRecord list"

record PairingAllowlistFile =
  pa_schema_version :: nat
  pa_strict :: bool
  pa_channels :: "(string \<times> string list) list"

datatype PairingDecision = PairAllow string | PairDeny string

fun pairing_reason_code :: "PairingDecision \<Rightarrow> string" where
  "pairing_reason_code (PairAllow r) = r"
| "pairing_reason_code (PairDeny r) = r"

datatype PairCommand =
    PairAdd string string "nat option"
  | PairRemove string string
  | PairStatus "string option" "string option"

record PairingActorIdentity =
  pi_actor_id :: string
  pi_actor_did :: "KamnDid option"
  pi_legacy_actor_id :: "string option"
  pi_did_service_endpoint :: "string option"

datatype PairError =
    PairUsage
  | PairRemoveUsage
  | PairStatusUsage
  | PairListUsage
  | PairUnknownSubcommand string
  | PairAddUsage
  | PairTtlMissing
  | PairTtlInvalid string
  | PairTtlZero
  | PairUnknownFlag string
  | PairActorEmpty
  | PairActorDid DidError
  | PairTrustRoots TrustError
  | RegistryParse
  | RegistrySchema nat
  | RegistryWrite
  | AllowlistParse
  | AllowlistSchema nat
  | UnpairUsage

subsection \<open>Files\<close>

definition default_pairing_policy_config :: PairingPolicyConfig where
  "default_pairing_policy_config =
     \<lparr>pc_registry_path = [''.tau'', ''security'', ''pairings.json''],
      pc_allowlist_path = [''.tau'', ''security'', ''allowlist.json''],
      pc_trust_root_path = [''.tau'', ''trust-roots.json''],
      pc_strict_mode = False\<rparr>"

definition pairing_policy_for_state_dir :: "path \<Rightarrow> PairingPolicyConfig" where
  "pairing_policy_for_state_dir state_dir =
     (let security_dir = tau_root state_dir @ [''security''] in
      \<lparr>pc_registry_path = security_dir @ [''pairings.json''],
       pc_allowlist_path = security_dir @ [''allowlist.json''],
       pc_trust_root_path = tau_root state_dir @ [''trust-roots.json''],
       pc_strict_mode = False\<rparr>)"

definition load_pairing_registry :: "PairingRegistryFile json_file \<Rightarrow> PairError + PairingRegistryFile" where
  "load_pairing_registry file =
     (case file of
        NoFile \<Rightarrow> Inr \<lparr>pg_schema_version = PAIRING_SCHEMA_VERSION, pg_pairings = []\<rparr>
      | OtherFile \<Rightarrow> Inl RegistryParse
      | JsonFile parsed \<Rightarrow>
          if pg_schema_version parsed \<noteq> PAIRING_SCHEMA_VERSION then Inl (RegistrySchema (pg_schema_version parsed))
          else Inr parsed)"

definition save_pairing_registry ::
  "bool \<Rightarrow> PairingRegistryFile \<Rightarrow> PairingRegistryFile json_file \<Rightarrow> (PairError + unit) \<times> PairingRegistryFile json_file" where
  "save_pairing_registry written registry file = save_json written RegistryWrite registry file"

definition load_allowlist :: "PairingAllowlistFile json_file \<Rightarrow> PairError + PairingAllowlistFile" where
  "load_allowlist file =
     (case file of
        NoFile \<Rightarrow> Inr \<lparr>pa_schema_version = ALLOWLIST_SCHEMA_VERSION, pa_strict = False, pa_channels = []\<rparr>
      | OtherFile \<Rightarrow> Inl AllowlistParse
      | JsonFile parsed \<Rightarrow>
          if pa_schema_version parsed \<noteq> ALLOWLIST_SCHEMA_VERSION then Inl (AllowlistSchema (pa_schema_version parsed))
          else Inr parsed)"

subsection \<open>Matching actors and channels\<close>

definition parse_optional_actor_did :: "string \<Rightarrow> DidError + KamnDid option" where
  "parse_optional_actor_did raw =
     (let actor_id = trim raw in
      if \<not> prefix ''did:'' (to_ascii_lowercase actor_id) then Inr None
      else and_then (parse_kamn_did actor_id) (\<lambda>did. Inr (Some did)))"

definition push_unique_case_insensitive :: "string list \<Rightarrow> string \<Rightarrow> string list" where
  "push_unique_case_insensitive values candidate =
     (if list_ex (\<lambda>v. eq_ignore_ascii_case v candidate) values then values else values @ [candidate])"

definition actor_id_candidates :: "string \<Rightarrow> KamnDid option \<Rightarrow> string list" where
  "actor_id_candidates raw actor_did =
     (let actor_id = trim raw;
          candidates = (if actor_id = [] then [] else [actor_id])
      in case actor_did of
           None \<Rightarrow> candidates
         | Some did \<Rightarrow>
             push_unique_case_insensitive
               (push_unique_case_insensitive candidates (kd_canonical did)) (kd_subject did))"

definition channel_candidates :: "string \<Rightarrow> string list" where
  "channel_candidates channel =
     (let trimmed = trim channel in
      if trimmed = [] then [''*'']
      else [trimmed]
        @ (case split_once CHR '':'' trimmed of
             Some (p, _) \<Rightarrow> if p = [] then [] else [p]
           | None \<Rightarrow> [])
        @ [''*''])"

definition channel_has_pairing_rules ::
  "PairingAllowlistFile \<Rightarrow> PairingRegistryFile \<Rightarrow> string list \<Rightarrow> bool" where
  "channel_has_pairing_rules allowlist registry candidates \<longleftrightarrow>
     list_ex (\<lambda>c. case map_of (pa_channels allowlist) c of Some actors \<Rightarrow> actors \<noteq> [] | None \<Rightarrow> False) candidates
     \<or> list_ex (\<lambda>entry. pr_channel entry \<in> set candidates) (pg_pairings registry)"

definition allowlist_actor_allowed :: "PairingAllowlistFile \<Rightarrow> string list \<Rightarrow> string list \<Rightarrow> bool" where
  "allowlist_actor_allowed allowlist candidates actor_ids \<longleftrightarrow>
     list_ex (\<lambda>c. case map_of (pa_channels allowlist) c of
         Some actors \<Rightarrow> list_ex (\<lambda>actor. list_ex (\<lambda>a. eq_ignore_ascii_case (trim actor) a) actor_ids) actors
       | None \<Rightarrow> False) candidates"

definition opt_holds :: "'a option \<Rightarrow> ('a \<Rightarrow> bool) \<Rightarrow> bool" where
  "opt_holds v P = (case v of Some x \<Rightarrow> P x | None \<Rightarrow> False)"

definition pairing_entry_matches_actor :: "PairingRecord \<Rightarrow> string list \<Rightarrow> KamnDid option \<Rightarrow> bool" where
  "pairing_entry_matches_actor entry actor_ids actor_did \<longleftrightarrow>
     list_ex (\<lambda>candidate. eq_ignore_ascii_case (pr_actor_id entry) candidate
       \<or> opt_holds (pr_legacy_actor_id entry) (\<lambda>legacy. eq_ignore_ascii_case legacy candidate)
       \<or> opt_holds (pr_actor_did entry) (\<lambda>did. eq_ignore_ascii_case did candidate)) actor_ids
     \<or> opt_holds (pr_actor_did entry) (\<lambda>entry_did.
         case parse_kamn_did entry_did of
           Inr parsed \<Rightarrow>
             list_ex (\<lambda>candidate. eq_ignore_ascii_case (kd_subject parsed) candidate) actor_ids
             \<or> opt_holds actor_did (\<lambda>d. eq_ignore_ascii_case (kd_subject parsed) (kd_subject d))
         | Inl _ \<Rightarrow> False)"

definition is_pairing_expired :: "PairingRecord \<Rightarrow> nat \<Rightarrow> bool" where
  "is_pairing_expired entry now_unix_ms = opt_holds (pr_expires_unix_ms entry) (\<lambda>expires. expires \<le> now_unix_ms)"

definition pairing_actor_allowed ::
  "PairingRegistryFile \<Rightarrow> string list \<Rightarrow> string list \<Rightarrow> KamnDid option \<Rightarrow> nat \<Rightarrow> bool" where
  "pairing_actor_allowed registry candidates actor_ids actor_did now_unix_ms =
     list_ex (\<lambda>entry. pr_channel entry \<in> set candidates
       \<and> pairing_entry_matches_actor entry actor_ids actor_did
       \<and> \<not> is_pairing_expired entry now_unix_ms) (pg_pairings registry)"

definition is_trusted_kamn_did :: "KamnDid \<Rightarrow> TrustedRootRecord list \<Rightarrow> nat \<Rightarrow> bool" where
  "is_trusted_kamn_did did trust_roots now_unix_ms =
     list_ex (\<lambda>record. eq_ignore_ascii_case (tr_id record) (kd_trust_root_id did)
       \<and> \<not> tr_revoked record
       \<and> (case tr_expires_unix record of Some expires \<Rightarrow> now_unix_ms div 1000 < expires | None \<Rightarrow> True))
     trust_roots"

subsection \<open>The decision\<close>

record PairingFiles =
  pf_registry :: "PairingRegistryFile json_file"
  pf_allowlist :: "PairingAllowlistFile json_file"
  pf_trust :: "TrustedRootFileFormat json_file"

definition evaluate_pairing_access ::
  "PairingFiles \<Rightarrow> PairingPolicyConfig \<Rightarrow> string \<Rightarrow> string \<Rightarrow> nat \<Rightarrow> PairError + PairingDecision" where
  "evaluate_pairing_access files config channel raw_actor_id now_unix_ms =
     (let actor_id = trim raw_actor_id in
      case parse_optional_actor_did actor_id of
        Inl _ \<Rightarrow> Inr (PairDeny ''deny_actor_did_invalid'')
      | Inr actor_did \<Rightarrow>
          and_then
            (case actor_did of
               None \<Rightarrow> Inr True
             | Some did \<Rightarrow>
                 (case load_trust_root_records (pf_trust files) of
                    Inl e \<Rightarrow> Inl (PairTrustRoots e)
                  | Inr roots \<Rightarrow> Inr (is_trusted_kamn_did did roots now_unix_ms))) (\<lambda>trusted.
          if \<not> trusted then Inr (PairDeny ''deny_actor_did_untrusted'')
          else
            and_then (load_allowlist (pf_allowlist files)) (\<lambda>allowlist.
            and_then (load_pairing_registry (pf_registry files)) (\<lambda>registry.
              (let candidates = channel_candidates channel;
                   actor_candidates = actor_id_candidates actor_id actor_did;
                   strict_effective = (pc_strict_mode config \<or> pa_strict allowlist
                     \<or> channel_has_pairing_rules allowlist registry candidates)
               in
               if \<not> strict_effective then Inr (PairAllow ''allow_permissive_mode'')
               else if actor_id = [] then Inr (PairDeny ''deny_actor_id_missing'')
               else
                 (let allowed_by_allowlist = allowlist_actor_allowed allowlist candidates actor_candidates;
                      allowed_by_pairing =
                        pairing_actor_allowed registry candidates actor_candidates actor_did now_unix_ms
                  in
                  if allowed_by_allowlist \<and> allowed_by_pairing then Inr (PairAllow ''allow_allowlist_and_pairing'')
                  else if allowed_by_allowlist then Inr (PairAllow ''allow_allowlist'')
                  else if allowed_by_pairing then Inr (PairAllow ''allow_pairing'')
                  else Inr (PairDeny ''deny_actor_not_paired_or_allowlisted'')))))))"

subsection \<open>Commands\<close>

definition resolve_pairing_actor_identity :: "string \<Rightarrow> string \<Rightarrow> PairError + PairingActorIdentity" where
  "resolve_pairing_actor_identity raw channel =
     (let actor_id = trim raw in
      if actor_id = [] then Inl PairActorEmpty
      else case parse_optional_actor_did actor_id of
        Inl e \<Rightarrow> Inl (PairActorDid e)
      | Inr (Some did) \<Rightarrow>
          Inr \<lparr>pi_actor_id = kd_canonical did, pi_actor_did = Some did,
               pi_legacy_actor_id = Some (kd_subject did),
               pi_did_service_endpoint = Some (service_endpoint_for_channel did channel)\<rparr>
      | Inr None \<Rightarrow>
          Inr \<lparr>pi_actor_id = actor_id, pi_actor_did = None, pi_legacy_actor_id = None,
               pi_did_service_endpoint = None\<rparr>)"

definition parse_ttl :: "string \<Rightarrow> PairError + nat" where
  "parse_ttl value =
     and_then (ok_or (parse_u64 value) (PairTtlInvalid value)) (\<lambda>n.
       if n = 0 then Inl PairTtlZero else Inr n)"

fun parse_pair_add_flags :: "nat option \<Rightarrow> string list \<Rightarrow> PairError + nat option" where
  "parse_pair_add_flags ttl [] = Inr ttl"
| "parse_pair_add_flags ttl (token # rest) =
     (if token = ''--ttl-seconds'' then
        (case rest of
           [] \<Rightarrow> Inl PairTtlMissing
         | value # others \<Rightarrow> and_then (parse_ttl value) (\<lambda>n. parse_pair_add_flags (Some n) others))
      else if prefix ''--ttl-seconds='' token then
        and_then (parse_ttl (drop (length ''--ttl-seconds='') token)) (\<lambda>n. parse_pair_add_flags (Some n) rest)
      else Inl (PairUnknownFlag token))"

definition parse_pair_add_command :: "string list \<Rightarrow> PairError + PairCommand" where
  "parse_pair_add_command tokens =
     (if length tokens < 3 then Inl PairAddUsage
      else and_then (parse_pair_add_flags None (drop 3 tokens)) (\<lambda>ttl.
        Inr (PairAdd (tokens ! 1) (tokens ! 2) ttl)))"

definition get_token :: "string list \<Rightarrow> nat \<Rightarrow> string option" where
  "get_token tokens i = (if i < length tokens then Some (tokens ! i) else None)"

definition parse_pair_command :: "string \<Rightarrow> PairError + PairCommand" where
  "parse_pair_command command_args =
     (let tokens = split_whitespace command_args in
      if tokens = [] then Inl PairUsage
      else if hd tokens = ''add'' then parse_pair_add_command tokens
      else if hd tokens = ''remove'' then
        (if length tokens \<noteq> 3 then Inl PairRemoveUsage else Inr (PairRemove (tokens ! 1) (tokens ! 2)))
      else if hd tokens = ''status'' then
        (if length tokens > 3 then Inl PairStatusUsage
         else Inr (PairStatus (get_token tokens 1) (get_token tokens 2)))
      else if hd tokens = ''list'' then
        (if length tokens \<noteq> 1 then Inl PairListUsage else Inr (PairStatus None None))
      else Inl (PairUnknownSubcommand (hd tokens)))"

text \<open>What a command reports.\<close>

datatype PairOutput =
    PairFailed PairError
  | UnpairFailed PairError
  | PairAdded string string "nat option"
  | Unpaired string string nat
  | PairListing string

definition entry_key :: "PairingRecord \<Rightarrow> string \<times> string" where
  "entry_key entry = (pr_channel entry, pr_actor_id entry)"

definition filter_pair_row :: "string option \<Rightarrow> string option \<Rightarrow> string \<Rightarrow> string \<Rightarrow> bool" where
  "filter_pair_row channel_filter actor_filter channel actor \<longleftrightarrow>
     (case channel_filter of Some f \<Rightarrow> channel = f | None \<Rightarrow> True)
     \<and> (case actor_filter of Some f \<Rightarrow> actor = f | None \<Rightarrow> True)"

definition filter_pairing_row :: "string option \<Rightarrow> string option \<Rightarrow> PairingRecord \<Rightarrow> bool" where
  "filter_pairing_row channel_filter actor_filter entry =
     (if \<not> (case channel_filter of Some f \<Rightarrow> pr_channel entry = f | None \<Rightarrow> True) then False
      else case map_option trim actor_filter of
        None \<Rightarrow> True
      | Some actor \<Rightarrow>
          if actor = [] then True
          else
            (let actor_did = (case parse_optional_actor_did actor of Inr d \<Rightarrow> d | Inl _ \<Rightarrow> None)
             in pairing_entry_matches_actor entry (actor_id_candidates actor actor_did) actor_did))"

definition show_bool :: "bool \<Rightarrow> string" where
  "show_bool b = (if b then ''true'' else ''false'')"

definition or_none :: "string option \<Rightarrow> string" where
  "or_none v = (case v of Some s \<Rightarrow> s | None \<Rightarrow> ''none'')"

definition render_pairing :: "nat \<Rightarrow> PairingRecord \<Rightarrow> string" where
  "render_pairing now_unix_ms entry =
     ''pairing: channel='' @ pr_channel entry @ '' actor='' @ pr_actor_id entry
     @ '' actor_did='' @ or_none (pr_actor_did entry) @ '' legacy_actor='' @ or_none (pr_legacy_actor_id entry)
     @ '' did_service_endpoint='' @ or_none (pr_did_service_endpoint entry)
     @ '' status='' @ (if is_pairing_expired entry now_unix_ms then ''expired'' else ''active'')
     @ '' paired_by='' @ pr_paired_by entry @ '' issued_unix_ms='' @ show_nat (pr_issued_unix_ms entry)
     @ '' expires_unix_ms='' @ or_none (map_option show_nat (pr_expires_unix_ms entry))"

definition render_pair_status ::
  "PairingPolicyConfig \<Rightarrow> PairingAllowlistFile \<Rightarrow> PairingRegistryFile \<Rightarrow> string option \<Rightarrow> string option \<Rightarrow> nat
     \<Rightarrow> string" where
  "render_pair_status config allowlist registry channel_filter actor_filter now_unix_ms =
     (let allowlist_rows = sort (concat (map (\<lambda>(channel, actors).
            map (\<lambda>actor. (channel, actor))
              (filter (filter_pair_row channel_filter actor_filter channel) actors)) (pa_channels allowlist)));
          pairing_rows = sort_key entry_key
            (filter (filter_pairing_row channel_filter actor_filter) (pg_pairings registry))
      in join [char_of (10 :: nat)]
        ([''pair status: strict='' @ show_bool (pc_strict_mode config) @ '' strict_allowlist='' @ show_bool (pa_strict allowlist)
            @ '' registry='' @ join ''/'' (pc_registry_path config) @ '' allowlist='' @ join ''/'' (pc_allowlist_path config)]
         @ (if allowlist_rows = [] then [''allowlist: none'']
            else map (\<lambda>(channel, actor). ''allowlist: channel='' @ channel @ '' actor='' @ actor) allowlist_rows)
         @ (if pairing_rows = [] then [''pairings: none'']
            else map (render_pairing now_unix_ms) pairing_rows)))"

definition remove_pairings :: "string \<Rightarrow> string list \<Rightarrow> KamnDid option \<Rightarrow> PairingRecord list \<Rightarrow> PairingRecord list" where
  "remove_pairings channel actor_candidates actor_did pairings =
     filter (\<lambda>entry. \<not> (pr_channel entry = channel
       \<and> pairing_entry_matches_actor entry actor_candidates actor_did)) pairings"

definition execute_unpair_with_config ::
  "bool \<Rightarrow> PairingFiles \<Rightarrow> string \<Rightarrow> string \<Rightarrow> PairOutput \<times> PairingFiles" where
  "execute_unpair_with_config written files channel raw_actor_id =
     (let actor_id = trim raw_actor_id in
      case parse_optional_actor_did actor_id of
        Inl e \<Rightarrow> (UnpairFailed (PairActorDid e), files)
      | Inr actor_did \<Rightarrow>
          (case load_pairing_registry (pf_registry files) of
             Inl e \<Rightarrow> (UnpairFailed e, files)
           | Inr registry \<Rightarrow>
               (let kept = remove_pairings channel (actor_id_candidates actor_id actor_did) actor_did (pg_pairings registry);
                    removed = length (pg_pairings registry) - length kept
                in if removed > 0 then
                     (case save_pairing_registry written (registry\<lparr>pg_pairings := kept\<rparr>) (pf_registry files) of
                        (Inl e, f) \<Rightarrow> (UnpairFailed e, files\<lparr>pf_registry := f\<rparr>)
                      | (Inr _, f) \<Rightarrow> (Unpaired channel actor_id removed, files\<lparr>pf_registry := f\<rparr>))
                   else (Unpaired channel actor_id removed, files))))"

definition add_pairing ::
  "nat \<Rightarrow> string \<Rightarrow> string \<Rightarrow> nat option \<Rightarrow> PairingActorIdentity \<Rightarrow> PairingRecord list \<Rightarrow> PairingRecord list" where
  "add_pairing issued_unix_ms actor_source channel ttl_seconds identity pairings =
     sort_key entry_key
       (remove_pairings channel (actor_id_candidates (pi_actor_id identity) (pi_actor_did identity))
          (pi_actor_did identity) pairings
        @ [\<lparr>pr_channel = channel, pr_actor_id = pi_actor_id identity,
            pr_actor_did = map_option kd_canonical (pi_actor_did identity),
            pr_legacy_actor_id = pi_legacy_actor_id identity,
            pr_did_service_endpoint = pi_did_service_endpoint identity,
            pr_paired_by = actor_source, pr_issued_unix_ms = issued_unix_ms,
            pr_expires_unix_ms = map_option (\<lambda>seconds.
              u64_saturating_add issued_unix_ms (u64_saturating_mul seconds 1000)) ttl_seconds\<rparr>])"

definition execute_pair ::
  "nat \<Rightarrow> bool \<Rightarrow> PairingFiles \<Rightarrow> string \<Rightarrow> PairCommand \<Rightarrow> PairOutput \<times> PairingFiles" where
  "execute_pair now_ms written files actor_source command =
     (case command of
        PairAdd channel actor_id ttl_seconds \<Rightarrow>
          (case resolve_pairing_actor_identity actor_id channel of
             Inl e \<Rightarrow> (PairFailed e, files)
           | Inr identity \<Rightarrow>
               (case load_pairing_registry (pf_registry files) of
                  Inl e \<Rightarrow> (PairFailed e, files)
                | Inr registry \<Rightarrow>
                    (case save_pairing_registry written
                            (registry\<lparr>pg_pairings := add_pairing now_ms actor_source channel ttl_seconds identity
                               (pg_pairings registry)\<rparr>) (pf_registry files) of
                       (Inl e, f) \<Rightarrow> (PairFailed e, files\<lparr>pf_registry := f\<rparr>)
                     | (Inr _, f) \<Rightarrow>
                         (PairAdded channel (pi_actor_id identity) ttl_seconds, files\<lparr>pf_registry := f\<rparr>))))
      | PairRemove channel actor_id \<Rightarrow> execute_unpair_with_config written files channel actor_id
      | PairStatus channel actor_id \<Rightarrow>
          (case load_pairing_registry (pf_registry files) of
             Inl e \<Rightarrow> (PairFailed e, files)
           | Inr registry \<Rightarrow>
               (case load_allowlist (pf_allowlist files) of
                  Inl e \<Rightarrow> (PairFailed e, files)
                | Inr allowlist \<Rightarrow>
                    (PairListing
                       (render_pair_status default_pairing_policy_config allowlist registry channel actor_id now_ms),
                     files))))"

definition execute_pair_command ::
  "nat \<Rightarrow> bool \<Rightarrow> PairingFiles \<Rightarrow> string \<Rightarrow> string \<Rightarrow> PairOutput \<times> PairingFiles" where
  "execute_pair_command now_ms written files command_args actor_source =
     (case parse_pair_command command_args of
        Inl e \<Rightarrow> (PairFailed e, files)
      | Inr command \<Rightarrow> execute_pair now_ms written files actor_source command)"

definition execute_unpair_command :: "bool \<Rightarrow> PairingFiles \<Rightarrow> string \<Rightarrow> PairOutput \<times> PairingFiles" where
  "execute_unpair_command written files command_args =
     (let tokens = split_whitespace command_args in
      if length tokens \<noteq> 2 then (UnpairFailed UnpairUsage, files)
      else execute_unpair_with_config written files (tokens ! 0) (tokens ! 1))"

subsection \<open>The stored registry\<close>

definition registry_valid :: "PairingRegistryFile \<Rightarrow> bool" where
  "registry_valid registry \<longleftrightarrow> pg_schema_version registry = PAIRING_SCHEMA_VERSION"

interpretation registry: json_store load_pairing_registry registry_valid
  by unfold_locales
    (auto simp: load_pairing_registry_def registry_valid_def split: json_file.splits if_splits)

interpretation allowlist: json_store load_allowlist "\<lambda>a. pa_schema_version a = ALLOWLIST_SCHEMA_VERSION"
  by unfold_locales (auto simp: load_allowlist_def split: json_file.splits if_splits)

subsection \<open>Who may use a channel\<close>

text \<open>The specification: an identity that claims to be a DID must parse and be rooted in a live trust
  root; a channel without any rule is open; otherwise the actor must be on the allowlist or hold a
  pairing that has not expired.\<close>

definition identity_ok :: "string \<Rightarrow> TrustedRootRecord list \<Rightarrow> nat \<Rightarrow> bool" where
  "identity_ok actor roots now =
     (case parse_optional_actor_did actor of
        Inl _ \<Rightarrow> False | Inr None \<Rightarrow> True | Inr (Some did) \<Rightarrow> is_trusted_kamn_did did roots now)"

definition did_of :: "string \<Rightarrow> KamnDid option" where
  "did_of actor = (case parse_optional_actor_did actor of Inr d \<Rightarrow> d | Inl _ \<Rightarrow> None)"

definition channel_open :: "PairingPolicyConfig \<Rightarrow> PairingAllowlistFile \<Rightarrow> PairingRegistryFile \<Rightarrow> string \<Rightarrow> bool" where
  "channel_open config allowlist registry channel \<longleftrightarrow>
     \<not> pc_strict_mode config \<and> \<not> pa_strict allowlist
     \<and> \<not> channel_has_pairing_rules allowlist registry (channel_candidates channel)"

definition allowlisted :: "PairingAllowlistFile \<Rightarrow> string \<Rightarrow> string \<Rightarrow> bool" where
  "allowlisted allowlist channel actor =
     allowlist_actor_allowed allowlist (channel_candidates channel) (actor_id_candidates actor (did_of actor))"

definition paired :: "PairingRegistryFile \<Rightarrow> string \<Rightarrow> string \<Rightarrow> nat \<Rightarrow> bool" where
  "paired registry channel actor now =
     pairing_actor_allowed registry (channel_candidates channel) (actor_id_candidates actor (did_of actor))
       (did_of actor) now"

fun is_pair_allow :: "PairingDecision \<Rightarrow> bool" where
  "is_pair_allow (PairAllow _) = True"
| "is_pair_allow (PairDeny _) = False"

lemma parse_optional_actor_did_trim [simp]: "parse_optional_actor_did (trim a) = parse_optional_actor_did a"
  by (simp add: parse_optional_actor_did_def)

lemma actor_id_candidates_trim [simp]: "actor_id_candidates (trim a) d = actor_id_candidates a d"
  by (simp add: actor_id_candidates_def)

lemma evaluate_decides:
  assumes "load_allowlist (pf_allowlist files) = Inr allowlist"
    and "load_pairing_registry (pf_registry files) = Inr registry"
    and "load_trust_root_records (pf_trust files) = Inr roots"
  shows "\<exists>d. evaluate_pairing_access files config channel actor now = Inr d
    \<and> (is_pair_allow d \<longleftrightarrow> identity_ok actor roots now
         \<and> (channel_open config allowlist registry channel
            \<or> (trim actor \<noteq> [] \<and> (allowlisted allowlist channel actor \<or> paired registry channel actor now))))"
proof -
  consider (invalid) e where "parse_optional_actor_did actor = Inl e"
    | (plain) "parse_optional_actor_did actor = Inr None"
    | (did) did where "parse_optional_actor_did actor = Inr (Some did)"
    by (metis option.exhaust sum.exhaust)
  then show ?thesis
    by cases (auto simp: evaluate_pairing_access_def assms identity_ok_def did_of_def channel_open_def
        allowlisted_def paired_def Let_def)
qed

lemma evaluate_reason_open:
  assumes "load_allowlist (pf_allowlist files) = Inr allowlist"
    and "load_pairing_registry (pf_registry files) = Inr registry"
    and "parse_optional_actor_did actor = Inr None" and "channel_open config allowlist registry channel"
  shows "evaluate_pairing_access files config channel actor now = Inr (PairAllow ''allow_permissive_mode'')"
  using assms by (auto simp: evaluate_pairing_access_def channel_open_def Let_def)


subsection \<open>Pairing and unpairing\<close>

lemma push_unique_mono: "list_ex P vs \<Longrightarrow> list_ex P (push_unique_case_insensitive vs c)"
  by (auto simp: push_unique_case_insensitive_def)

lemma push_unique_has: "list_ex (\<lambda>v. eq_ignore_ascii_case c v) (push_unique_case_insensitive vs c)"
  by (auto simp: push_unique_case_insensitive_def eq_ignore_ascii_case_sym list_ex_iff)

lemma candidates_have_identity:
  assumes "resolve_pairing_actor_identity actor channel = Inr identity"
  shows "list_ex (\<lambda>c. eq_ignore_ascii_case (pi_actor_id identity) c) (actor_id_candidates actor (did_of actor))"
    "did_of actor = pi_actor_did identity"
  using assms push_unique_has push_unique_mono
  by (auto simp: resolve_pairing_actor_identity_def did_of_def actor_id_candidates_def Let_def
      split: if_splits sum.splits option.splits)

lemma channel_candidates_self: "trim channel = channel \<Longrightarrow> channel \<noteq> [] \<Longrightarrow> channel \<in> set (channel_candidates channel)"
  by (simp add: channel_candidates_def)

lemma entry_matches_own_id:
  "list_ex (\<lambda>c. eq_ignore_ascii_case (pr_actor_id entry) c) ids \<Longrightarrow> pairing_entry_matches_actor entry ids d"
  unfolding pairing_entry_matches_actor_def by (auto simp: list_ex_iff)

lemma add_pairing_grants:
  assumes identity: "resolve_pairing_actor_identity actor channel = Inr identity"
    and channel: "trim channel = channel" "channel \<noteq> []"
    and live: "case ttl of None \<Rightarrow> True | Some t \<Rightarrow> now < u64_saturating_add issued (u64_saturating_mul t 1000)"
  shows "paired (registry\<lparr>pg_pairings := add_pairing issued source channel ttl identity ps\<rparr>) channel actor now"
proof -
  define entry where "entry = last (remove_pairings channel
      (actor_id_candidates (pi_actor_id identity) (pi_actor_did identity)) (pi_actor_did identity) ps
    @ [\<lparr>pr_channel = channel, pr_actor_id = pi_actor_id identity,
            pr_actor_did = map_option kd_canonical (pi_actor_did identity),
            pr_legacy_actor_id = pi_legacy_actor_id identity,
            pr_did_service_endpoint = pi_did_service_endpoint identity,
            pr_paired_by = source, pr_issued_unix_ms = issued,
            pr_expires_unix_ms = map_option (\<lambda>seconds.
              u64_saturating_add issued (u64_saturating_mul seconds 1000)) ttl\<rparr>])"
  have "entry \<in> set (add_pairing issued source channel ttl identity ps)"
    by (simp add: add_pairing_def entry_def)
  moreover have "pairing_entry_matches_actor entry (actor_id_candidates actor (did_of actor)) (did_of actor)"
    by (rule entry_matches_own_id) (use candidates_have_identity(1) [OF identity] in \<open>simp add: entry_def\<close>)
  moreover have "\<not> is_pairing_expired entry now"
    using live by (auto simp: entry_def is_pairing_expired_def opt_holds_def split: option.splits)
  moreover have "pr_channel entry = channel" by (simp add: entry_def)
  ultimately show ?thesis
    using channel_candidates_self [OF channel]
    by (auto simp: paired_def pairing_actor_allowed_def list_ex_iff)
qed

lemma execute_pair_add_Added:
  assumes "execute_pair issued written files source (PairAdd channel actor ttl) = (PairAdded c a t, files')"
  obtains identity registry where "resolve_pairing_actor_identity actor channel = Inr identity"
    "load_pairing_registry (pf_registry files) = Inr registry"
    "load_pairing_registry (pf_registry files')
       = Inr (registry\<lparr>pg_pairings := add_pairing issued source channel ttl identity (pg_pairings registry)\<rparr>)"
    "pf_allowlist files' = pf_allowlist files" "pf_trust files' = pf_trust files"
proof -
  from assms obtain identity registry where ok: "resolve_pairing_actor_identity actor channel = Inr identity"
    "load_pairing_registry (pf_registry files) = Inr registry"
    by (auto simp: execute_pair_def split: sum.splits)
  let ?new = "registry\<lparr>pg_pairings := add_pairing issued source channel ttl identity (pg_pairings registry)\<rparr>"
  from assms ok have w: written "files' = files\<lparr>pf_registry := JsonFile ?new\<rparr>"
    by (cases written; auto simp: execute_pair_def save_pairing_registry_def)+
  have "registry_valid ?new" using registry.load_valid [OF ok(2)] by (simp add: registry_valid_def)
  then have "load_pairing_registry (JsonFile ?new) = Inr ?new" by (rule registry.load_stored)
  with ok w show thesis by (intro that) simp_all
qed

text \<open>A successful \<open>/pair add\<close> admits the actor on that channel until the pairing expires: with the
  files it leaves behind, the decision for the same actor is to allow at every time before issue plus
  time-to-live (at any time without one), provided a DID actor is rooted in a live trust root.\<close>

theorem pair_add_grants_access:
  assumes "execute_pair issued written files source (PairAdd channel actor ttl) = (PairAdded c a t, files')"
    and "load_allowlist (pf_allowlist files) = Inr allowlist" "load_trust_root_records (pf_trust files) = Inr roots"
    and "identity_ok actor roots now" "trim channel = channel" "channel \<noteq> []"
    and "case ttl of None \<Rightarrow> True | Some t \<Rightarrow> now < u64_saturating_add issued (u64_saturating_mul t 1000)"
  shows "\<exists>reason. evaluate_pairing_access files' config channel actor now = Inr (PairAllow reason)"
proof -
  from assms(1) obtain identity registry where r: "resolve_pairing_actor_identity actor channel = Inr identity"
    "load_pairing_registry (pf_registry files')
       = Inr (registry\<lparr>pg_pairings := add_pairing issued source channel ttl identity (pg_pairings registry)\<rparr>)"
    "pf_allowlist files' = pf_allowlist files" "pf_trust files' = pf_trust files"
    by (rule execute_pair_add_Added)
  have "trim actor \<noteq> []"
    using r(1) by (auto simp: resolve_pairing_actor_identity_def Let_def split: if_splits)
  moreover note add_pairing_grants [OF r(1) assms(5,6,7), where registry = registry and source = source]
  ultimately show ?thesis
    using evaluate_decides [of files' allowlist _ roots config channel actor now] r(2-4) assms(2-4)
    by (metis is_pair_allow.elims(2))
qed

definition no_pairing_files :: PairingFiles where
  "no_pairing_files = \<lparr>pf_registry = NoFile, pf_allowlist = NoFile, pf_trust = NoFile\<rparr>"

lemma alice_plain: "trim ''alice'' = ''alice''" "parse_optional_actor_did ''alice'' = Inr None"
proof -
  show "trim ''alice'' = ''alice''" by (rule trim_visible) simp_all
  then show "parse_optional_actor_did ''alice'' = Inr None"
    by (simp add: parse_optional_actor_did_def to_ascii_lowercase_def ascii_lower_def)
qed

theorem pair_add_grants_access_witness:
  "\<exists>reason. evaluate_pairing_access
     (snd (execute_pair 1000 True no_pairing_files ''op'' (PairAdd ''slack'' ''alice'' (Some 60))))
     default_pairing_policy_config ''slack'' ''alice'' 60999 = Inr (PairAllow reason)"
proof -
  let ?run = "execute_pair 1000 True no_pairing_files ''op'' (PairAdd ''slack'' ''alice'' (Some 60))"
  have run: "?run = (PairAdded ''slack'' ''alice'' (Some 60), snd ?run)"
    by (simp add: prod_eq_iff execute_pair_def no_pairing_files_def resolve_pairing_actor_identity_def
        alice_plain load_pairing_registry_def save_pairing_registry_def)
  have files: "load_allowlist (pf_allowlist no_pairing_files)
      = Inr \<lparr>pa_schema_version = 1, pa_strict = False, pa_channels = []\<rparr>"
    "load_trust_root_records (pf_trust no_pairing_files) = Inr []"
    by (simp_all add: no_pairing_files_def load_allowlist_def load_trust_root_records_def)
  have alice: "identity_ok ''alice'' [] 60999" by (simp add: identity_ok_def alice_plain)
  have slack: "trim ''slack'' = ''slack''" by (rule trim_visible) simp_all
  have ttl: "case Some 60 of None \<Rightarrow> True
      | Some t \<Rightarrow> 60999 < u64_saturating_add 1000 (u64_saturating_mul t 1000)"
    by (simp add: u64_saturating_add_def u64_saturating_mul_def)
  show ?thesis
    by (rule pair_add_grants_access [OF run files alice slack _ ttl]) simp
qed

lemma remove_pairings_unmatched:
  "\<not> list_ex (\<lambda>entry. pr_channel entry = channel \<and> pairing_entry_matches_actor entry ids d)
     (remove_pairings channel ids d ps)"
  by (auto simp: remove_pairings_def list_ex_iff)

text \<open>After a successful \<open>/unpair\<close> no pairing of exactly that channel matches the actor, every other
  pairing is kept in order, and the count reported is the number of pairings removed.\<close>

theorem unpair_removes_exactly:
  "case execute_unpair_with_config written files channel actor of
     (Unpaired c a n, files') \<Rightarrow>
       (case (load_pairing_registry (pf_registry files), load_pairing_registry (pf_registry files')) of
          (Inr before, Inr after) \<Rightarrow>
            pg_pairings after = filter (\<lambda>e. \<not> (pr_channel e = channel
              \<and> pairing_entry_matches_actor e (actor_id_candidates actor (did_of actor)) (did_of actor)))
              (pg_pairings before)
            \<and> length (pg_pairings before) = n + length (pg_pairings after)
        | _ \<Rightarrow> False)
   | (UnpairFailed _, files') \<Rightarrow> files' = files
   | _ \<Rightarrow> False"
proof (cases "parse_optional_actor_did actor")
  case (Inr d)
  then have d: "did_of actor = d" by (simp add: did_of_def)
  show ?thesis
  proof (cases "load_pairing_registry (pf_registry files)")
    case loaded: (Inr before)
    let ?kept = "remove_pairings channel (actor_id_candidates actor d) d (pg_pairings before)"
    have "registry_valid (before\<lparr>pg_pairings := ?kept\<rparr>)"
      using registry.load_valid [OF loaded] by (simp add: registry_valid_def)
    then have stored: "load_pairing_registry (JsonFile (before\<lparr>pg_pairings := ?kept\<rparr>)) = Inr (before\<lparr>pg_pairings := ?kept\<rparr>)"
      by (rule registry.load_stored)
    have le: "length ?kept \<le> length (pg_pairings before)" by (simp add: remove_pairings_def)
    have same: "?kept = pg_pairings before" if "\<not> length ?kept < length (pg_pairings before)"
      using that unfolding remove_pairings_def by (metis (mono_tags, lifting) filter_True less_irrefl length_filter_less)
    show ?thesis
      using Inr loaded stored le same d
      by (cases written) (auto simp: execute_unpair_with_config_def save_pairing_registry_def
          remove_pairings_def Let_def)
  qed (use Inr in \<open>simp add: execute_unpair_with_config_def\<close>)
qed (simp add: execute_unpair_with_config_def)

text \<open>Nothing of the registry is left for the channel once its last pairing goes, and a channel without
  rules is open.\<close>

text \<open>Unpairing the only actor of a channel opens it: with non-strict files, before \<open>/unpair\<close> an actor
  the pairing does not match is denied; after it every actor that claims no DID is allowed, the unpaired
  one included.\<close>

theorem unpair_last_actor_opens_channel:
  assumes registry: "load_pairing_registry (pf_registry files) = Inr registry" "pg_pairings registry = [entry]"
    and allowlist: "pf_allowlist files = NoFile" and config: "\<not> pc_strict_mode config"
    and channel: "pr_channel entry = channel" "trim channel = channel" "channel \<noteq> []"
    and actor: "parse_optional_actor_did actor = Inr None"
      "pairing_entry_matches_actor entry (actor_id_candidates actor None) None"
    and other: "parse_optional_actor_did other = Inr None" "trim other \<noteq> []"
      "\<not> pairing_entry_matches_actor entry (actor_id_candidates other None) None"
    and trust: "pf_trust files = NoFile"
  shows "evaluate_pairing_access files config channel other now
           = Inr (PairDeny ''deny_actor_not_paired_or_allowlisted'')
    \<and> evaluate_pairing_access (snd (execute_unpair_with_config True files channel actor)) config channel other now
           = Inr (PairAllow ''allow_permissive_mode'')
    \<and> evaluate_pairing_access (snd (execute_unpair_with_config True files channel actor)) config channel actor now
           = Inr (PairAllow ''allow_permissive_mode'')"
proof -
  let ?none = "\<lparr>pa_schema_version = ALLOWLIST_SCHEMA_VERSION, pa_strict = False, pa_channels = []\<rparr>"
  let ?files = "snd (execute_unpair_with_config True files channel actor)"
  have al: "load_allowlist (pf_allowlist files) = Inr ?none" by (simp add: allowlist load_allowlist_def)
  have "channel \<in> set (channel_candidates channel)" using channel by (intro channel_candidates_self)
  then have before: "evaluate_pairing_access files config channel other now
      = Inr (PairDeny ''deny_actor_not_paired_or_allowlisted'')"
    using registry channel config other
    by (auto simp: evaluate_pairing_access_def al channel_has_pairing_rules_def allowlist_actor_allowed_def
        pairing_actor_allowed_def Let_def list_ex_iff)
  have v: "registry_valid (registry\<lparr>pg_pairings := []\<rparr>)"
    using registry.load_valid [OF registry(1)] by (simp add: registry_valid_def)
  have "?files = files\<lparr>pf_registry := JsonFile (registry\<lparr>pg_pairings := []\<rparr>)\<rparr>"
    using registry channel actor
    by (simp add: execute_unpair_with_config_def remove_pairings_def save_pairing_registry_def Let_def)
  then have reg: "load_pairing_registry (pf_registry ?files) = Inr (registry\<lparr>pg_pairings := []\<rparr>)"
    "load_allowlist (pf_allowlist ?files) = Inr ?none"
    using registry.load_stored [OF v] al by simp_all
  have "channel_open config ?none (registry\<lparr>pg_pairings := []\<rparr>) channel"
    using config by (simp add: channel_open_def channel_has_pairing_rules_def list_ex_iff)
  from evaluate_reason_open [OF reg(2,1) other(1) this] evaluate_reason_open [OF reg(2,1) actor(1) this] before
  show ?thesis by simp
qed

definition alice_entry :: PairingRecord where
  "alice_entry = \<lparr>pr_channel = ''slack'', pr_actor_id = ''alice'', pr_actor_did = None,
     pr_legacy_actor_id = None, pr_did_service_endpoint = None, pr_paired_by = ''op'',
     pr_issued_unix_ms = 1000, pr_expires_unix_ms = None\<rparr>"

lemma mallory_plain: "trim ''mallory'' = ''mallory''" "parse_optional_actor_did ''mallory'' = Inr None"
proof -
  show "trim ''mallory'' = ''mallory''" by (rule trim_visible) simp_all
  then show "parse_optional_actor_did ''mallory'' = Inr None"
    by (simp add: parse_optional_actor_did_def to_ascii_lowercase_def ascii_lower_def)
qed

theorem unpair_last_actor_opens_channel_witness:
  "evaluate_pairing_access
     (snd (execute_unpair_with_config True
        (no_pairing_files\<lparr>pf_registry := JsonFile \<lparr>pg_schema_version = 1, pg_pairings = [alice_entry]\<rparr>\<rparr>)
        ''slack'' ''alice''))
     default_pairing_policy_config ''slack'' ''mallory'' 5000 = Inr (PairAllow ''allow_permissive_mode'')"
proof -
  have slack: "trim ''slack'' = ''slack''" by (rule trim_visible) simp_all
  show ?thesis
    using unpair_last_actor_opens_channel [of
        "no_pairing_files\<lparr>pf_registry := JsonFile \<lparr>pg_schema_version = 1, pg_pairings = [alice_entry]\<rparr>\<rparr>"
        "\<lparr>pg_schema_version = 1, pg_pairings = [alice_entry]\<rparr>" alice_entry default_pairing_policy_config
        "''slack''" "''alice''" "''mallory''" 5000]
    by (simp add: no_pairing_files_def load_pairing_registry_def default_pairing_policy_config_def
        alice_entry_def slack alice_plain mallory_plain pairing_entry_matches_actor_def
        actor_id_candidates_def opt_holds_def eq_ignore_ascii_case_def to_ascii_lowercase_def ascii_lower_def)
qed

text \<open>Pairings are matched by the subject alone: once a DID is paired on a channel, every DID with
  the same subject under any other trust root holds that pairing too.\<close>

theorem pairing_ignores_trust_root:
  "case (parse_kamn_did text, parse_kamn_did text') of
     (Inr did, Inr did') \<Rightarrow>
       if kd_subject did' = kd_subject did \<and> pr_actor_did entry = Some (kd_canonical did)
       then pairing_entry_matches_actor entry actor_ids (Some did') else True
   | _ \<Rightarrow> True"
  using parse_did_wf [OF parse_kamn_did_wf]
  by (auto simp: pairing_entry_matches_actor_def opt_holds_def split: sum.split)

subsection \<open>Revocation\<close>









end
