(* ===== verification/Access_Envelope.thy ===== *)
theory Access_Envelope
  imports Access_Trust
begin

text \<open>
  Signed envelopes (\<open>crates/tau-access/src/signed_envelope.rs\<close>): the message that is signed, the checks
  an envelope has to pass and the replay guard with its state file. The cryptographic crates (SHA-256,
  Base64, Ed25519) and the conversion of a JSON value to an envelope are arguments, as are the clock
  and the outcome of the write.
\<close>

abbreviation SIGNED_ENVELOPE_SCHEMA_VERSION :: nat where "SIGNED_ENVELOPE_SCHEMA_VERSION \<equiv> 1"
abbreviation SIGNED_ENVELOPE_REPLAY_SCHEMA_VERSION :: nat where "SIGNED_ENVELOPE_REPLAY_SCHEMA_VERSION \<equiv> 1"
abbreviation DEFAULT_TIMESTAMP_SKEW_SECONDS :: nat where "DEFAULT_TIMESTAMP_SKEW_SECONDS \<equiv> 300"
abbreviation DEFAULT_REPLAY_WINDOW_SECONDS :: nat where "DEFAULT_REPLAY_WINDOW_SECONDS \<equiv> 300"

record SignedEnvelopePolicyConfig =
  sc_trust_root_path :: path
  sc_replay_guard_path :: path
  sc_timestamp_skew_seconds :: nat
  sc_replay_window_seconds :: nat

record SignedEnvelope =
  se_schema_version :: nat
  se_key_id :: string
  se_nonce :: string
  se_timestamp_ms :: nat
  se_channel :: string
  se_actor_id :: string
  se_event_id :: string
  se_signature :: string

record 'v SignedEnvelopeContext =
  cx_policy_channel :: string
  cx_actor_id :: string
  cx_event_id :: string
  cx_event_timestamp_ms :: nat
  cx_text :: string
  cx_metadata :: "(string \<times> 'v) list"
  cx_now_unix_ms :: nat

datatype SignedEnvelopeDecision =
    EnvelopeAllow string string string
  | EnvelopeMissing string
  | EnvelopeDeny string

fun envelope_reason_code :: "SignedEnvelopeDecision \<Rightarrow> string" where
  "envelope_reason_code (EnvelopeAllow r _ _) = r"
| "envelope_reason_code (EnvelopeMissing r) = r"
| "envelope_reason_code (EnvelopeDeny r) = r"

fun envelope_status :: "SignedEnvelopeDecision \<Rightarrow> string" where
  "envelope_status (EnvelopeAllow _ _ _) = ''allow''"
| "envelope_status (EnvelopeMissing _) = ''missing''"
| "envelope_status (EnvelopeDeny _) = ''deny''"

record SignedEnvelopeReplayGuardState =
  rg_schema_version :: nat
  rg_nonce_last_seen_unix_ms :: "(string, nat) hash_map"

definition default_replay_state :: SignedEnvelopeReplayGuardState where
  "default_replay_state =
     \<lparr>rg_schema_version = SIGNED_ENVELOPE_REPLAY_SCHEMA_VERSION, rg_nonce_last_seen_unix_ms = []\<rparr>"

datatype ReplayGuardOutcome = Accepted | ReplayDetected

datatype EnvelopeError =
    ReplayParse
  | ReplaySchema nat
  | ReplayWrite
  | Base64Invalid
  | DecodedLength nat
  | PublicKeyInvalid
  | SignatureInvalid

text \<open>The cryptographic crates.\<close>

record 'k crypto =
  cr_sha256_hex :: "string \<Rightarrow> string"
  cr_base64_decode :: "string \<Rightarrow> string option"
  cr_verifying_key :: "string \<Rightarrow> 'k option"
  cr_verify_strict :: "'k \<Rightarrow> string \<Rightarrow> string \<Rightarrow> bool"

definition default_signed_envelope_policy_config :: SignedEnvelopePolicyConfig where
  "default_signed_envelope_policy_config =
     \<lparr>sc_trust_root_path = [''.tau'', ''security'', ''trust-roots.json''],
      sc_replay_guard_path = [''.tau'', ''security'', ''signed-envelope-replay.json''],
      sc_timestamp_skew_seconds = DEFAULT_TIMESTAMP_SKEW_SECONDS,
      sc_replay_window_seconds = DEFAULT_REPLAY_WINDOW_SECONDS\<rparr>"

definition signed_envelope_policy_for_state_dir :: "path \<Rightarrow> SignedEnvelopePolicyConfig" where
  "signed_envelope_policy_for_state_dir state_dir =
     (let security_root = tau_root state_dir @ [''security''] in
      \<lparr>sc_trust_root_path = security_root @ [''trust-roots.json''],
       sc_replay_guard_path = security_root @ [''signed-envelope-replay.json''],
       sc_timestamp_skew_seconds = DEFAULT_TIMESTAMP_SKEW_SECONDS,
       sc_replay_window_seconds = DEFAULT_REPLAY_WINDOW_SECONDS\<rparr>)"

definition line_feed :: char where
  "line_feed = char_of (10 :: nat)"

abbreviation newline :: string where
  "newline \<equiv> [line_feed]"

definition signed_envelope_message_bytes ::
  "'k crypto \<Rightarrow> string \<Rightarrow> string \<Rightarrow> string \<Rightarrow> nat \<Rightarrow> string \<Rightarrow> string \<Rightarrow> string" where
  "signed_envelope_message_bytes cr policy_channel actor_id event_id timestamp_ms nonce text =
     ''v1'' @ newline @ ''channel='' @ trim policy_channel
     @ newline @ ''actor_id='' @ trim actor_id
     @ newline @ ''event_id='' @ trim event_id
     @ newline @ ''timestamp_ms='' @ show_nat timestamp_ms
     @ newline @ ''nonce='' @ trim nonce
     @ newline @ ''text_sha256='' @ cr_sha256_hex cr text"

definition decode_base64_fixed :: "'k crypto \<Rightarrow> nat \<Rightarrow> string \<Rightarrow> EnvelopeError + string" where
  "decode_base64_fixed cr n raw =
     and_then (ok_or (cr_base64_decode cr (trim raw)) Base64Invalid) (\<lambda>decoded.
       if length decoded \<noteq> n then Inl (DecodedLength (length decoded)) else Inr decoded)"

definition verify_ed25519_signature :: "'k crypto \<Rightarrow> string \<Rightarrow> string \<Rightarrow> string \<Rightarrow> EnvelopeError + unit" where
  "verify_ed25519_signature cr message signature_base64 public_key_base64 =
     and_then (decode_base64_fixed cr 64 signature_base64) (\<lambda>signature_bytes.
     and_then (decode_base64_fixed cr 32 public_key_base64) (\<lambda>public_key_bytes.
     and_then (ok_or (cr_verifying_key cr public_key_bytes) PublicKeyInvalid) (\<lambda>verifying_key.
       if cr_verify_strict cr verifying_key message signature_bytes then Inr () else Inl SignatureInvalid)))"

definition load_signed_envelope_replay_guard_state ::
  "SignedEnvelopeReplayGuardState json_file \<Rightarrow> EnvelopeError + SignedEnvelopeReplayGuardState" where
  "load_signed_envelope_replay_guard_state file =
     (case file of
        NoFile \<Rightarrow> Inr default_replay_state
      | OtherFile \<Rightarrow> Inl ReplayParse
      | JsonFile st \<Rightarrow>
          if rg_schema_version st \<noteq> SIGNED_ENVELOPE_REPLAY_SCHEMA_VERSION
          then Inl (ReplaySchema (rg_schema_version st)) else Inr st)"

definition save_signed_envelope_replay_guard_state ::
  "bool \<Rightarrow> SignedEnvelopeReplayGuardState \<Rightarrow> SignedEnvelopeReplayGuardState json_file
     \<Rightarrow> (EnvelopeError + unit) \<times> SignedEnvelopeReplayGuardState json_file" where
  "save_signed_envelope_replay_guard_state written st file = save_json written ReplayWrite st file"

definition replay_window_ms :: "SignedEnvelopePolicyConfig \<Rightarrow> nat" where
  "replay_window_ms config = u64_saturating_mul (max (sc_replay_window_seconds config) 1) 1000"

definition replay_key :: "string \<Rightarrow> string \<Rightarrow> string" where
  "replay_key key_id nonce = to_ascii_lowercase (trim key_id) @ '':'' @ to_ascii_lowercase (trim nonce)"

definition enforce_signed_envelope_replay_guard ::
  "bool \<Rightarrow> SignedEnvelopePolicyConfig \<Rightarrow> string \<Rightarrow> string \<Rightarrow> nat \<Rightarrow> SignedEnvelopeReplayGuardState json_file
     \<Rightarrow> (EnvelopeError + ReplayGuardOutcome) \<times> SignedEnvelopeReplayGuardState json_file" where
  "enforce_signed_envelope_replay_guard written config key_id nonce now_unix_ms file =
     (case load_signed_envelope_replay_guard_state file of
        Inl e \<Rightarrow> (Inl e, file)
      | Inr st \<Rightarrow>
          (let window = replay_window_ms config;
               retain_window = u64_saturating_mul window 3;
               seen = filter (\<lambda>(_, at). now_unix_ms - at \<le> retain_window) (rg_nonce_last_seen_unix_ms st);
               key = replay_key key_id nonce
           in if (case map_of seen key of Some last_seen \<Rightarrow> now_unix_ms - last_seen \<le> window | None \<Rightarrow> False) then (Inr ReplayDetected, file)
              else
                (case save_signed_envelope_replay_guard_state written
                        (st\<lparr>rg_nonce_last_seen_unix_ms := AList.update key now_unix_ms seen\<rparr>) file of
                   (Inl e, f) \<Rightarrow> (Inl e, f)
                 | (Inr _, f) \<Rightarrow> (Inr Accepted, f))))"

definition evaluate_signed_envelope_access ::
  "'k crypto \<Rightarrow> ('v \<Rightarrow> SignedEnvelope option) \<Rightarrow> TrustedRootFileFormat json_file \<Rightarrow> bool
     \<Rightarrow> SignedEnvelopePolicyConfig \<Rightarrow> 'v SignedEnvelopeContext \<Rightarrow> SignedEnvelopeReplayGuardState json_file
     \<Rightarrow> SignedEnvelopeDecision \<times> SignedEnvelopeReplayGuardState json_file" where
  "evaluate_signed_envelope_access cr from_value trust written config cx file =
     (case map_of (cx_metadata cx) ''signed_envelope'' of
        None \<Rightarrow> (EnvelopeMissing ''signed_envelope_missing'', file)
      | Some raw_envelope \<Rightarrow>
          (case from_value raw_envelope of
             None \<Rightarrow> (EnvelopeDeny ''deny_signed_envelope_invalid_metadata'', file)
           | Some envelope \<Rightarrow>
               (let channel = trim (se_channel envelope);
                    actor = trim (se_actor_id envelope);
                    event = trim (se_event_id envelope);
                    key_id = trim (se_key_id envelope);
                    nonce = trim (se_nonce envelope);
                    signature = trim (se_signature envelope);
                    expected_actor = trim (cx_actor_id cx);
                    expected_event = trim (cx_event_id cx);
                    expected_channel = trim (cx_policy_channel cx);
                    window_ms = u64_saturating_mul (sc_timestamp_skew_seconds config) 1000;
                    now = cx_now_unix_ms cx
                in
                if se_schema_version envelope \<noteq> SIGNED_ENVELOPE_SCHEMA_VERSION then
                  (EnvelopeDeny ''deny_signed_envelope_unsupported_schema'', file)
                else if channel = [] \<or> actor = [] \<or> event = [] \<or> key_id = [] \<or> nonce = []
                    \<or> signature = [] \<or> se_timestamp_ms envelope = 0 then
                  (EnvelopeDeny ''deny_signed_envelope_invalid_metadata'', file)
                else if channel \<noteq> expected_channel then
                  (EnvelopeDeny ''deny_signed_envelope_channel_mismatch'', file)
                else if \<not> eq_ignore_ascii_case actor expected_actor then
                  (EnvelopeDeny ''deny_signed_envelope_actor_mismatch'', file)
                else if event \<noteq> expected_event then
                  (EnvelopeDeny ''deny_signed_envelope_event_mismatch'', file)
                else if se_timestamp_ms envelope \<noteq> cx_event_timestamp_ms cx then
                  (EnvelopeDeny ''deny_signed_envelope_timestamp_mismatch'', file)
                else if sc_timestamp_skew_seconds config > 0
                    \<and> (se_timestamp_ms envelope > u64_saturating_add now window_ms
                       \<or> now > u64_saturating_add (se_timestamp_ms envelope) window_ms) then
                  (EnvelopeDeny ''deny_signed_envelope_timestamp_out_of_window'', file)
                else
                  (case load_trust_root_records trust of
                     Inl _ \<Rightarrow> (EnvelopeDeny ''deny_signed_envelope_trust_store_error'', file)
                   | Inr trust_roots \<Rightarrow>
                       (case find (\<lambda>record. eq_ignore_ascii_case (trim (tr_id record)) key_id) trust_roots of
                          None \<Rightarrow> (EnvelopeDeny ''deny_signed_envelope_untrusted_key'', file)
                        | Some trusted_root \<Rightarrow>
                            if tr_revoked trusted_root then
                              (EnvelopeDeny ''deny_signed_envelope_revoked_key'', file)
                            else if (case tr_expires_unix trusted_root of
                                Some expires \<Rightarrow> expires \<le> now div 1000 | None \<Rightarrow> False) then
                              (EnvelopeDeny ''deny_signed_envelope_expired_key'', file)
                            else if \<not> is_ok (verify_ed25519_signature cr
                                (signed_envelope_message_bytes cr expected_channel expected_actor expected_event
                                   (se_timestamp_ms envelope) nonce (cx_text cx))
                                signature (trim (tr_public_key trusted_root))) then
                              (EnvelopeDeny ''deny_signed_envelope_invalid_signature'', file)
                            else
                              (case enforce_signed_envelope_replay_guard written config key_id nonce now file of
                                 (Inr ReplayDetected, f) \<Rightarrow> (EnvelopeDeny ''deny_signed_envelope_replay'', f)
                               | (Inr Accepted, f) \<Rightarrow>
                                   (EnvelopeAllow ''allow_signed_envelope_verified'' key_id nonce, f)
                               | (Inl _, f) \<Rightarrow> (EnvelopeDeny ''deny_signed_envelope_replay_guard_error'', f)))))))"

subsection \<open>What acceptance means\<close>

fun is_envelope_allow :: "SignedEnvelopeDecision \<Rightarrow> bool" where
  "is_envelope_allow (EnvelopeAllow _ _ _) = True"
| "is_envelope_allow _ = False"

definition in_skew :: "SignedEnvelopePolicyConfig \<Rightarrow> nat \<Rightarrow> nat \<Rightarrow> bool" where
  "in_skew config timestamp now \<longleftrightarrow>
     sc_timestamp_skew_seconds config = 0
     \<or> (timestamp \<le> u64_saturating_add now (u64_saturating_mul (sc_timestamp_skew_seconds config) 1000)
        \<and> now \<le> u64_saturating_add timestamp (u64_saturating_mul (sc_timestamp_skew_seconds config) 1000))"

text \<open>The envelope and the trust root pass every check but the replay guard.\<close>

definition authentic ::
  "'k crypto \<Rightarrow> TrustedRootFileFormat json_file \<Rightarrow> SignedEnvelopePolicyConfig \<Rightarrow> 'v SignedEnvelopeContext
     \<Rightarrow> SignedEnvelope \<Rightarrow> bool" where
  "authentic cr trust config cx envelope \<longleftrightarrow>
     se_schema_version envelope = SIGNED_ENVELOPE_SCHEMA_VERSION
     \<and> trim (se_channel envelope) = trim (cx_policy_channel cx) \<and> trim (cx_policy_channel cx) \<noteq> []
     \<and> eq_ignore_ascii_case (trim (se_actor_id envelope)) (trim (cx_actor_id cx)) \<and> trim (se_actor_id envelope) \<noteq> []
     \<and> trim (se_event_id envelope) = trim (cx_event_id cx) \<and> trim (cx_event_id cx) \<noteq> []
     \<and> se_timestamp_ms envelope = cx_event_timestamp_ms cx \<and> se_timestamp_ms envelope \<noteq> 0
     \<and> trim (se_key_id envelope) \<noteq> [] \<and> trim (se_nonce envelope) \<noteq> [] \<and> trim (se_signature envelope) \<noteq> []
     \<and> in_skew config (se_timestamp_ms envelope) (cx_now_unix_ms cx)
     \<and> (\<exists>roots root. load_trust_root_records trust = Inr roots
          \<and> find (\<lambda>r. eq_ignore_ascii_case (trim (tr_id r)) (trim (se_key_id envelope))) roots = Some root
          \<and> \<not> tr_revoked root
          \<and> \<not> (case tr_expires_unix root of Some expires \<Rightarrow> expires \<le> cx_now_unix_ms cx div 1000 | None \<Rightarrow> False)
          \<and> is_ok (verify_ed25519_signature cr
               (signed_envelope_message_bytes cr (trim (cx_policy_channel cx)) (trim (cx_actor_id cx))
                  (trim (cx_event_id cx)) (se_timestamp_ms envelope) (trim (se_nonce envelope)) (cx_text cx))
               (trim (se_signature envelope)) (trim (tr_public_key root))))"

lemma evaluate_authentic:
  assumes "map_of (cx_metadata cx) ''signed_envelope'' = Some raw" "from_value raw = Some envelope"
    "authentic cr trust config cx envelope"
  shows "evaluate_signed_envelope_access cr from_value trust written config cx file =
    (case enforce_signed_envelope_replay_guard written config (trim (se_key_id envelope)) (trim (se_nonce envelope))
            (cx_now_unix_ms cx) file of
       (Inr ReplayDetected, f) \<Rightarrow> (EnvelopeDeny ''deny_signed_envelope_replay'', f)
     | (Inr Accepted, f) \<Rightarrow>
         (EnvelopeAllow ''allow_signed_envelope_verified'' (trim (se_key_id envelope)) (trim (se_nonce envelope)), f)
     | (Inl _, f) \<Rightarrow> (EnvelopeDeny ''deny_signed_envelope_replay_guard_error'', f))"
proof -
  from assms(3) obtain roots root where r: "load_trust_root_records trust = Inr roots"
    "find (\<lambda>r. eq_ignore_ascii_case (trim (tr_id r)) (trim (se_key_id envelope))) roots = Some root"
    "\<not> tr_revoked root" "\<not> (case tr_expires_unix root of Some expires \<Rightarrow> expires \<le> cx_now_unix_ms cx div 1000 | None \<Rightarrow> False)"
    "is_ok (verify_ed25519_signature cr
       (signed_envelope_message_bytes cr (trim (cx_policy_channel cx)) (trim (cx_actor_id cx))
          (trim (cx_event_id cx)) (se_timestamp_ms envelope) (trim (se_nonce envelope)) (cx_text cx))
       (trim (se_signature envelope)) (trim (tr_public_key root)))"
    unfolding authentic_def by blast
  then show ?thesis
    using assms
    by (auto simp: evaluate_signed_envelope_access_def authentic_def in_skew_def Let_def)
qed

lemma evaluate_not_authentic:
  assumes "snd (evaluate_signed_envelope_access cr from_value trust written config cx file) \<noteq> file
    \<or> is_envelope_allow (fst (evaluate_signed_envelope_access cr from_value trust written config cx file))"
  obtains raw envelope where "map_of (cx_metadata cx) ''signed_envelope'' = Some raw"
    "from_value raw = Some envelope" "authentic cr trust config cx envelope"
proof -
  from assms obtain raw where raw: "map_of (cx_metadata cx) ''signed_envelope'' = Some raw"
    by (cases "map_of (cx_metadata cx) ''signed_envelope''")
      (auto simp: evaluate_signed_envelope_access_def)
  with assms obtain envelope where envelope: "from_value raw = Some envelope"
    by (cases "from_value raw") (auto simp: evaluate_signed_envelope_access_def)
  from assms raw envelope have "authentic cr trust config cx envelope"
    unfolding authentic_def in_skew_def
    by (auto simp: evaluate_signed_envelope_access_def Let_def split: if_splits sum.splits option.splits)
  with raw envelope show thesis by (rule that)
qed


subsection \<open>The replay guard\<close>

definition replay_state_valid :: "SignedEnvelopeReplayGuardState \<Rightarrow> bool" where
  "replay_state_valid st \<longleftrightarrow> rg_schema_version st = SIGNED_ENVELOPE_REPLAY_SCHEMA_VERSION"

interpretation replay: json_store load_signed_envelope_replay_guard_state replay_state_valid
  by unfold_locales (auto simp: load_signed_envelope_replay_guard_state_def replay_state_valid_def
      default_replay_state_def split: json_file.splits if_splits)

definition last_seen :: "SignedEnvelopeReplayGuardState json_file \<Rightarrow> string \<Rightarrow> nat option" where
  "last_seen file key =
     (case load_signed_envelope_replay_guard_state file of
        Inr st \<Rightarrow> map_of (rg_nonce_last_seen_unix_ms st) key | Inl _ \<Rightarrow> None)"

lemma map_of_filter_kept: "map_of m k = Some v \<Longrightarrow> P (k, v) \<Longrightarrow> map_of (filter P m) k = Some v"
  by (induction m) (auto split: if_splits)

lemma window_le_retain: "replay_window_ms config \<le> u64_saturating_mul (replay_window_ms config) 3"
  by (simp add: replay_window_ms_def u64_saturating_mul_def)

lemma guard_accepts:
  assumes "enforce_signed_envelope_replay_guard written config k n now file = (Inr Accepted, f)"
  shows "last_seen f (replay_key k n) = Some now"
    and "last_seen file (replay_key k n) = Some s \<Longrightarrow> replay_window_ms config < now - s"
    and "other \<noteq> replay_key k n \<Longrightarrow> last_seen file other = Some s \<Longrightarrow> now - s \<le> replay_window_ms config
      \<Longrightarrow> last_seen f other = Some s"
proof -
  let ?keep = "\<lambda>(_ :: string, at). now - at \<le> u64_saturating_mul (replay_window_ms config) 3"
  from assms obtain st where st: "load_signed_envelope_replay_guard_state file = Inr st"
    by (auto simp: enforce_signed_envelope_replay_guard_def split: sum.splits)
  let ?seen = "filter ?keep (rg_nonce_last_seen_unix_ms st)"
  let ?new = "st\<lparr>rg_nonce_last_seen_unix_ms := AList.update (replay_key k n) now ?seen\<rparr>"
  have f: "f = JsonFile ?new" "\<not> (case map_of ?seen (replay_key k n) of Some at \<Rightarrow> now - at \<le> replay_window_ms config | None \<Rightarrow> False)"
    using assms st
    by (cases written; auto simp: enforce_signed_envelope_replay_guard_def Let_def
        save_signed_envelope_replay_guard_state_def split: if_splits)+
  have "replay_state_valid ?new" using replay.load_valid [OF st] by (simp add: replay_state_valid_def)
  then have load: "load_signed_envelope_replay_guard_state f = Inr ?new"
    using replay.load_stored f(1) by simp
  show "last_seen f (replay_key k n) = Some now"
    using load by (simp add: last_seen_def update_conv')
  show "replay_window_ms config < now - s" if "last_seen file (replay_key k n) = Some s"
  proof (rule ccontr)
    assume small: "\<not> ?thesis"
    then have "?keep (replay_key k n, s)" using window_le_retain [of config] by auto
    with that st have "map_of ?seen (replay_key k n) = Some s"
      by (intro map_of_filter_kept) (simp_all add: last_seen_def)
    with small f(2) show False by simp
  qed
  show "last_seen f other = Some s" if "other \<noteq> replay_key k n" "last_seen file other = Some s" "now - s \<le> replay_window_ms config"
  proof -
    have "?keep (other, s)" using that(3) window_le_retain [of config] by auto
    with that(2) st have "map_of ?seen other = Some s"
      by (intro map_of_filter_kept) (simp_all add: last_seen_def)
    with load that(1) show ?thesis by (simp add: last_seen_def update_conv')
  qed
qed

lemma guard_keeps_file:
  assumes "enforce_signed_envelope_replay_guard written config k n now file = (r, f)" "r \<noteq> Inr Accepted"
  shows "f = file"
  using assms
  by (cases written) (auto simp: enforce_signed_envelope_replay_guard_def Let_def
      save_signed_envelope_replay_guard_state_def split: sum.splits if_splits)

lemma evaluate_allow_guard:
  assumes "evaluate_signed_envelope_access cr from_value trust written config cx file = (EnvelopeAllow r k n, f)"
  shows "enforce_signed_envelope_replay_guard written config k n (cx_now_unix_ms cx) file = (Inr Accepted, f)"
proof -
  have "is_envelope_allow (fst (evaluate_signed_envelope_access cr from_value trust written config cx file))"
    using assms by simp
  then obtain raw envelope where e: "map_of (cx_metadata cx) ''signed_envelope'' = Some raw"
    "from_value raw = Some envelope" "authentic cr trust config cx envelope"
    by (metis evaluate_not_authentic)
  show ?thesis
    using assms unfolding evaluate_authentic [where from_value = from_value, OF e]
    by (auto split: prod.splits sum.splits ReplayGuardOutcome.splits)
qed

lemma evaluate_file_cases:
  obtains "snd (evaluate_signed_envelope_access cr from_value trust written config cx file) = file"
  | r k n f where "evaluate_signed_envelope_access cr from_value trust written config cx file = (EnvelopeAllow r k n, f)"
proof (cases "snd (evaluate_signed_envelope_access cr from_value trust written config cx file) = file")
  case False
  then obtain raw envelope where e: "map_of (cx_metadata cx) ''signed_envelope'' = Some raw"
    "from_value raw = Some envelope" "authentic cr trust config cx envelope"
    by (metis evaluate_not_authentic)
  obtain g f where g: "enforce_signed_envelope_replay_guard written config (trim (se_key_id envelope))
      (trim (se_nonce envelope)) (cx_now_unix_ms cx) file = (g, f)" by fastforce
  with False e have "g = Inr Accepted"
    using guard_keeps_file [OF g]
    by (auto simp: evaluate_authentic split: sum.splits ReplayGuardOutcome.splits)
  with g e that(2) show thesis by (simp add: evaluate_authentic)
qed (rule that(1))

text \<open>A run of requests under one configuration; trust roots, the outcome of the write and the clock
  may differ from request to request.\<close>

fun run_envelopes ::
  "'k crypto \<Rightarrow> ('v \<Rightarrow> SignedEnvelope option) \<Rightarrow> SignedEnvelopePolicyConfig
     \<Rightarrow> (TrustedRootFileFormat json_file \<times> bool \<times> 'v SignedEnvelopeContext) list
     \<Rightarrow> SignedEnvelopeReplayGuardState json_file \<Rightarrow> SignedEnvelopeReplayGuardState json_file" where
  "run_envelopes cr from_value config [] file = file"
| "run_envelopes cr from_value config ((trust, written, cx) # rs) file =
     run_envelopes cr from_value config rs
       (snd (evaluate_signed_envelope_access cr from_value trust written config cx file))"

lemma run_envelopes_remembers:
  assumes "\<exists>s. last_seen stored key = Some s \<and> t1 \<le> s"
    and "list_all (\<lambda>(_, _, cx). t1 \<le> cx_now_unix_ms cx \<and> cx_now_unix_ms cx - t1 \<le> replay_window_ms config) rs"
  shows "\<exists>s. last_seen (run_envelopes cr from_value config rs stored) key = Some s \<and> t1 \<le> s"
  using assms
proof (induction rs arbitrary: stored)
  case (Cons r rs)
  obtain trust written cx where r: "r = (trust, written, cx)" by (cases r)
  from Cons.prems r have t: "t1 \<le> cx_now_unix_ms cx" "cx_now_unix_ms cx - t1 \<le> replay_window_ms config" by auto
  from Cons.prems(1) obtain s where s: "last_seen stored key = Some s" "t1 \<le> s" by blast
  have "\<exists>s. last_seen (snd (evaluate_signed_envelope_access cr from_value trust written config cx stored)) key = Some s \<and> t1 \<le> s"
  proof (cases rule: evaluate_file_cases [of cr from_value trust written config cx stored])
    case (2 rsn k n f)
    note g = guard_accepts [OF evaluate_allow_guard [OF 2]]
    show ?thesis
    proof (cases "key = replay_key k n")
      case True
      with g(1) t 2 show ?thesis by auto
    next
      case False
      with g(3) [OF False s(1)] s t 2 show ?thesis by auto
    qed
  qed (use s in auto)
  with Cons r show ?case by simp
qed simp

lemma replay_key_differs:
  assumes "evaluate_signed_envelope_access cr from_value trust written config cx file = (EnvelopeAllow r key nonce, f1)"
    and "list_all (\<lambda>(_, _, c). cx_now_unix_ms cx \<le> cx_now_unix_ms c
           \<and> cx_now_unix_ms c - cx_now_unix_ms cx \<le> replay_window_ms config) rs"
    and "cx_now_unix_ms cx \<le> cx_now_unix_ms cx2" "cx_now_unix_ms cx2 - cx_now_unix_ms cx \<le> replay_window_ms config"
    and "evaluate_signed_envelope_access cr from_value trust2 written2 config cx2 (run_envelopes cr from_value config rs f1)
           = (EnvelopeAllow r2 key2 nonce2, f2)"
  shows "replay_key key2 nonce2 \<noteq> replay_key key nonce"
proof
  assume same: "replay_key key2 nonce2 = replay_key key nonce"
  have "last_seen f1 (replay_key key nonce) = Some (cx_now_unix_ms cx)"
    by (rule guard_accepts(1) [OF evaluate_allow_guard [OF assms(1)]])
  then obtain s where s: "last_seen (run_envelopes cr from_value config rs f1) (replay_key key nonce) = Some s"
    "cx_now_unix_ms cx \<le> s"
    using run_envelopes_remembers [OF _ assms(2)] by blast
  from guard_accepts(2) [OF evaluate_allow_guard [OF assms(5)], of s] s same
  have "replay_window_ms config < cx_now_unix_ms cx2 - s" by simp
  with s(2) assms(4) show False by linarith
qed

subsection \<open>A sample request\<close>

text \<open>Trivial cryptography for evaluation: every signature of the right length verifies.\<close>

definition sample_crypto :: "unit crypto" where
  "sample_crypto = \<lparr>cr_sha256_hex = (\<lambda>_. ''00''),
     cr_base64_decode = (\<lambda>s. Some (replicate (if s = ''sig'' then 64 else 32) CHR ''x'')),
     cr_verifying_key = (\<lambda>_. Some ()), cr_verify_strict = (\<lambda>_ _ _. True)\<rparr>"

definition sample_envelope :: "string \<Rightarrow> SignedEnvelope" where
  "sample_envelope nonce = \<lparr>se_schema_version = 1, se_key_id = ''root'', se_nonce = nonce, se_timestamp_ms = 1000000,
     se_channel = ''slack'', se_actor_id = ''bob'', se_event_id = ''e1'', se_signature = ''sig''\<rparr>"

definition sample_context :: "string \<Rightarrow> nat \<Rightarrow> SignedEnvelope SignedEnvelopeContext" where
  "sample_context nonce now = \<lparr>cx_policy_channel = ''slack'', cx_actor_id = ''bob'', cx_event_id = ''e1'',
     cx_event_timestamp_ms = 1000000, cx_text = ''hi'', cx_metadata = [(''signed_envelope'', sample_envelope nonce)],
     cx_now_unix_ms = now\<rparr>"

definition sample_trust :: "TrustedRootFileFormat json_file" where
  "sample_trust = JsonFile (Wrapped [\<lparr>tr_id = ''root'', tr_public_key = ''key'', tr_revoked = False,
     tr_expires_unix = None, tr_rotated_from = None\<rparr>])"

definition sample_store :: "(string \<times> nat) list \<Rightarrow> SignedEnvelopeReplayGuardState json_file" where
  "sample_store seen = JsonFile \<lparr>rg_schema_version = 1, rg_nonce_last_seen_unix_ms = seen\<rparr>"

lemma sample_trims:
  "trim ''root'' = ''root''" "trim ''n1'' = ''n1''" "trim ''n2'' = ''n2''" "trim ''slack'' = ''slack''"
  "trim ''bob'' = ''bob''" "trim ''e1'' = ''e1''" "trim ''sig'' = ''sig''" "trim ''key'' = ''key''"
  by (rule trim_visible; simp)+

lemma sample_context_simps [simp]:
  "cx_policy_channel (sample_context nonce now) = ''slack''" "cx_actor_id (sample_context nonce now) = ''bob''"
  "cx_event_id (sample_context nonce now) = ''e1''" "cx_event_timestamp_ms (sample_context nonce now) = 1000000"
  "cx_metadata (sample_context nonce now) = [(''signed_envelope'', sample_envelope nonce)]"
  "cx_now_unix_ms (sample_context nonce now) = now"
  by (simp_all add: sample_context_def)

lemma sample_authentic:
  "in_skew config 1000000 now \<Longrightarrow> trim nonce = nonce \<Longrightarrow> nonce \<noteq> [] \<Longrightarrow>
   authentic sample_crypto sample_trust config (sample_context nonce now) (sample_envelope nonce)"
  by (simp add: authentic_def sample_envelope_def sample_trust_def load_trust_root_records_def sample_trims
      verify_ed25519_signature_def decode_base64_fixed_def sample_crypto_def)

lemma sample_replay_key: "replay_key ''root'' ''n1'' = ''root:n1''" "replay_key ''root'' ''n2'' = ''root:n2''"
  by (simp_all add: replay_key_def sample_trims to_ascii_lowercase_def ascii_lower_def)

lemma default_windows [simp]:
  "sc_timestamp_skew_seconds default_signed_envelope_policy_config = 300"
  "replay_window_ms default_signed_envelope_policy_config = 300000"
  by (simp_all add: default_signed_envelope_policy_config_def replay_window_ms_def u64_saturating_mul_def)

text \<open>The guard lets a nonce pass when it was never seen or was seen before the window.\<close>

lemma sample_evaluates:
  assumes skew: "in_skew config 1000000 now" and nonce: "trim nonce = nonce" "nonce \<noteq> []"
    and seen: "list_all (\<lambda>(k, at). k \<noteq> replay_key ''root'' nonce \<or> replay_window_ms config < now - at) seen"
  shows "evaluate_signed_envelope_access sample_crypto Some sample_trust True config (sample_context nonce now) (sample_store seen)
    = (EnvelopeAllow ''allow_signed_envelope_verified'' ''root'' nonce,
       sample_store (AList.update (replay_key ''root'' nonce) now
         (filter (\<lambda>(_, at). now - at \<le> u64_saturating_mul (replay_window_ms config) 3) seen)))"
proof -
  let ?kept = "filter (\<lambda>(_, at). now - at \<le> u64_saturating_mul (replay_window_ms config) 3) seen"
  have "replay_window_ms config < now - at" if "map_of ?kept (replay_key ''root'' nonce) = Some at" for at
    using map_of_SomeD [OF that] seen unfolding list_all_iff by fastforce
  then have "\<not> (case map_of ?kept (replay_key ''root'' nonce) of
      Some at \<Rightarrow> now - at \<le> replay_window_ms config | None \<Rightarrow> False)"
    by (auto split: option.split)
  then have "enforce_signed_envelope_replay_guard True config ''root'' nonce now (sample_store seen) =
      (Inr Accepted, sample_store (AList.update (replay_key ''root'' nonce) now ?kept))"
    by (simp add: enforce_signed_envelope_replay_guard_def load_signed_envelope_replay_guard_state_def
        save_signed_envelope_replay_guard_state_def sample_store_def Let_def)
  then show ?thesis
    using evaluate_authentic [where from_value = Some and cx = "sample_context nonce now", OF _ _ sample_authentic [OF skew nonce]] nonce
    by (simp add: sample_envelope_def sample_trims)
qed

lemma sample_in_skew:
  "in_skew default_signed_envelope_policy_config 1000000 now \<longleftrightarrow> 700000 \<le> now \<and> now \<le> 1300000"
  by (auto simp: in_skew_def u64_saturating_add_def u64_saturating_mul_def)

text \<open>C27. Within the replay window a nonce is accepted once: after an envelope has been accepted and any
  further requests, in whatever order and under whatever trust roots, have been evaluated at times
  within the window, no envelope with the same key id and nonce (ignoring letter case) is accepted.\<close>

theorem envelope_replay_rejected:
  assumes "evaluate_signed_envelope_access cr from_value trust written config cx file = (EnvelopeAllow r key nonce, f1)"
    and "list_all (\<lambda>(_, _, c). cx_now_unix_ms cx \<le> cx_now_unix_ms c
           \<and> cx_now_unix_ms c - cx_now_unix_ms cx \<le> replay_window_ms config) rs"
    and "cx_now_unix_ms cx \<le> cx_now_unix_ms cx2" "cx_now_unix_ms cx2 - cx_now_unix_ms cx \<le> replay_window_ms config"
    and "evaluate_signed_envelope_access cr from_value trust2 written2 config cx2 (run_envelopes cr from_value config rs f1)
           = (EnvelopeAllow r2 key2 nonce2, f2)"
  shows "replay_key key2 nonce2 \<noteq> replay_key key nonce"
  using assms by (rule replay_key_differs)

theorem envelope_replay_rejected_witness:
  "replay_key ''root'' ''n2'' \<noteq> replay_key ''root'' ''n1''"
proof -
  let ?c = default_signed_envelope_policy_config
  have first: "evaluate_signed_envelope_access sample_crypto Some sample_trust True ?c (sample_context ''n1'' 1000000) (sample_store [])
      = (EnvelopeAllow ''allow_signed_envelope_verified'' ''root'' ''n1'', sample_store [(''root:n1'', 1000000)])"
    by (subst sample_evaluates) (simp_all add: sample_in_skew sample_trims sample_replay_key)
  have second: "evaluate_signed_envelope_access sample_crypto Some sample_trust True ?c (sample_context ''n2'' 1000001)
        (run_envelopes sample_crypto Some ?c [] (sample_store [(''root:n1'', 1000000)]))
      = (EnvelopeAllow ''allow_signed_envelope_verified'' ''root'' ''n2'',
         sample_store [(''root:n1'', 1000000), (''root:n2'', 1000001)])"
    unfolding run_envelopes.simps
    by (subst sample_evaluates)
      (simp_all add: sample_in_skew sample_trims sample_replay_key u64_saturating_mul_def)
  show ?thesis by (rule envelope_replay_rejected [OF first _ _ _ second]) simp_all
qed

lemma allow_in_skew:
  assumes "evaluate_signed_envelope_access cr from_value trust written config cx stored = (EnvelopeAllow r k n, f)"
  shows "in_skew config (cx_event_timestamp_ms cx) (cx_now_unix_ms cx)"
proof -
  have "is_envelope_allow (fst (evaluate_signed_envelope_access cr from_value trust written config cx stored))"
    using assms by simp
  then obtain envelope where "authentic cr trust config cx envelope" by (metis evaluate_not_authentic)
  then show ?thesis by (auto simp: authentic_def)
qed

lemma skew_distance:
  assumes "in_skew config t now1" "in_skew config t now2" "0 < sc_timestamp_skew_seconds config"
  shows "now2 - now1 \<le> 2 * (sc_timestamp_skew_seconds config * 1000)"
  using assms by (auto simp: in_skew_def u64_saturating_add_def u64_saturating_mul_def)

text \<open>Where the replay window is at least twice the timestamp skew, an envelope is accepted at most
  once for ever: two requests with the same event timestamp that are both accepted, the later one after
  any requests in between, differ in key id or nonce.\<close>

theorem envelope_accepted_once:
  assumes "evaluate_signed_envelope_access cr from_value trust written config cx stored = (EnvelopeAllow r key nonce, f1)"
    and "list_all (\<lambda>(_, _, c). cx_now_unix_ms cx \<le> cx_now_unix_ms c \<and> cx_now_unix_ms c \<le> cx_now_unix_ms cx2) rs"
    and "cx_now_unix_ms cx \<le> cx_now_unix_ms cx2" "cx_event_timestamp_ms cx2 = cx_event_timestamp_ms cx"
    and "evaluate_signed_envelope_access cr from_value trust2 written2 config cx2 (run_envelopes cr from_value config rs f1)
           = (EnvelopeAllow r2 key2 nonce2, f2)"
    and "0 < sc_timestamp_skew_seconds config"
      "2 * sc_timestamp_skew_seconds config \<le> sc_replay_window_seconds config"
      "sc_replay_window_seconds config * 1000 \<le> u64_max"
  shows "replay_key key2 nonce2 \<noteq> replay_key key nonce"
proof -
  have "cx_now_unix_ms cx2 - cx_now_unix_ms cx \<le> 2 * (sc_timestamp_skew_seconds config * 1000)"
    by (rule skew_distance [of config "cx_event_timestamp_ms cx"])
      (use allow_in_skew [OF assms(1)] allow_in_skew [OF assms(5)] assms(4,6) in simp_all)
  moreover have "replay_window_ms config = sc_replay_window_seconds config * 1000"
    using assms(6-8) by (simp add: replay_window_ms_def u64_saturating_mul_def max_def)
  ultimately have window: "cx_now_unix_ms cx2 - cx_now_unix_ms cx \<le> replay_window_ms config"
    using assms(7) by linarith
  have "list_all (\<lambda>(_, _, c). cx_now_unix_ms cx \<le> cx_now_unix_ms c
      \<and> cx_now_unix_ms c - cx_now_unix_ms cx \<le> replay_window_ms config) rs"
    using assms(2) by (rule list.pred_mono_strong) (use window in auto)
  then show ?thesis using replay_key_differs [OF assms(1) _ assms(3) window assms(5)] by blast
qed

definition wide_config :: SignedEnvelopePolicyConfig where
  "wide_config = default_signed_envelope_policy_config\<lparr>sc_replay_window_seconds := 600\<rparr>"

lemma wide_windows [simp]:
  "sc_timestamp_skew_seconds wide_config = 300" "sc_replay_window_seconds wide_config = 600"
  "replay_window_ms wide_config = 600000"
  by (simp_all add: wide_config_def default_signed_envelope_policy_config_def replay_window_ms_def
      u64_saturating_mul_def)

theorem envelope_accepted_once_witness:
  "replay_key ''root'' ''n2'' \<noteq> replay_key ''root'' ''n1''"
proof -
  have skew: "in_skew wide_config 1000000 1000000" "in_skew wide_config 1000000 1000001"
    by (simp_all add: in_skew_def u64_saturating_add_def u64_saturating_mul_def)
  have first: "evaluate_signed_envelope_access sample_crypto Some sample_trust True wide_config
        (sample_context ''n1'' 1000000) (sample_store [])
      = (EnvelopeAllow ''allow_signed_envelope_verified'' ''root'' ''n1'', sample_store [(''root:n1'', 1000000)])"
    by (subst sample_evaluates) (simp_all add: skew sample_trims sample_replay_key)
  have second: "evaluate_signed_envelope_access sample_crypto Some sample_trust True wide_config
        (sample_context ''n2'' 1000001)
        (run_envelopes sample_crypto Some wide_config [] (sample_store [(''root:n1'', 1000000)]))
      = (EnvelopeAllow ''allow_signed_envelope_verified'' ''root'' ''n2'',
         sample_store [(''root:n1'', 1000000), (''root:n2'', 1000001)])"
    unfolding run_envelopes.simps
    by (subst sample_evaluates) (simp_all add: skew sample_trims sample_replay_key u64_saturating_mul_def)
  show ?thesis
    by (rule envelope_accepted_once [OF first _ _ _ second]) simp_all
qed

text \<open>The default windows are too short to exclude a replay: the skew and the replay window are both
  300 seconds, so an envelope dated 300 seconds ahead of the clock is accepted and, more than 300
  seconds later, when the guard has forgotten the nonce but the timestamp is still within the skew,
  accepted again.\<close>

theorem default_windows_admit_replay:
  "case evaluate_signed_envelope_access sample_crypto Some sample_trust True default_signed_envelope_policy_config
          (sample_context ''n1'' 700000) NoFile of
     (first, stored) \<Rightarrow>
       is_envelope_allow first
       \<and> is_envelope_allow (fst (evaluate_signed_envelope_access sample_crypto Some sample_trust True
            default_signed_envelope_policy_config (sample_context ''n1'' 1000001) stored))"
proof -
  let ?c = default_signed_envelope_policy_config
  have "enforce_signed_envelope_replay_guard True ?c k n now NoFile
      = enforce_signed_envelope_replay_guard True ?c k n now (sample_store [])" for k n now
    by (simp add: enforce_signed_envelope_replay_guard_def sample_store_def default_replay_state_def
        load_signed_envelope_replay_guard_state_def save_signed_envelope_replay_guard_state_def Let_def)
  then have "evaluate_signed_envelope_access sample_crypto Some sample_trust True ?c (sample_context ''n1'' 700000) NoFile
    = evaluate_signed_envelope_access sample_crypto Some sample_trust True ?c (sample_context ''n1'' 700000) (sample_store [])"
    using evaluate_authentic [where from_value = Some and cx = "sample_context ''n1'' 700000", OF _ _ sample_authentic]
    by (simp add: sample_in_skew sample_trims)
  also have "\<dots> = (EnvelopeAllow ''allow_signed_envelope_verified'' ''root'' ''n1'', sample_store [(''root:n1'', 700000)])"
    by (subst sample_evaluates) (simp_all add: sample_in_skew sample_trims sample_replay_key)
  finally show ?thesis
    by (simp add: sample_evaluates sample_in_skew sample_trims sample_replay_key)
qed

subsection \<open>The signed message\<close>

definition one_line :: "string \<Rightarrow> bool" where
  "one_line s \<longleftrightarrow> line_feed \<notin> set s"

lemma one_line_append [simp]: "one_line (a @ b) \<longleftrightarrow> one_line a \<and> one_line b"
  by (auto simp: one_line_def)

lemma line_inject:
  assumes "one_line a" "one_line a'"
  shows "a @ newline @ b = a' @ newline @ b' \<longleftrightarrow> a = a' \<and> b = b'"
proof
  assume eq: "a @ newline @ b = a' @ newline @ b'"
  have "split_once line_feed (a @ newline @ b) = Some (a, b)" "split_once line_feed (a' @ newline @ b') = Some (a', b')"
    using assms split_once_append [of line_feed] by (simp_all add: one_line_def)
  with eq show "a = a' \<and> b = b'" by simp
qed simp

lemma line_feed_code: "(of_char line_feed :: nat) = 10"
  by (simp add: line_feed_def of_char_of take_bit_nat_eq_self)

lemma show_nat_one_line: "one_line (show_nat n)"
  using show_nat_bytes [of line_feed n] line_feed_code by (auto simp: one_line_def)

lemma labels_one_line:
  "one_line ''v1''" "one_line ''channel=''" "one_line ''actor_id=''" "one_line ''event_id=''"
  "one_line ''timestamp_ms=''" "one_line ''nonce=''"
proof -
  have "line_feed \<noteq> c" if "(of_char c :: nat) \<noteq> 10" for c using that line_feed_code by auto
  then show "one_line ''v1''" "one_line ''channel=''" "one_line ''actor_id=''" "one_line ''event_id=''"
    "one_line ''timestamp_ms=''" "one_line ''nonce=''"
    by (auto simp: one_line_def)
qed

text \<open>The signed message determines what it speaks about, as long as the fields are single lines: two
  requests with the same message agree on channel, actor, event, timestamp, nonce and text hash.\<close>

theorem envelope_message_injective:
  assumes "one_line (trim channel)" "one_line (trim actor)" "one_line (trim event)" "one_line (trim nonce)"
    and "one_line (trim channel')" "one_line (trim actor')" "one_line (trim event')" "one_line (trim nonce')"
    and "signed_envelope_message_bytes cr channel actor event ts nonce text
       = signed_envelope_message_bytes cr channel' actor' event' ts' nonce' text'"
  shows "trim channel = trim channel' \<and> trim actor = trim actor' \<and> trim event = trim event' \<and> ts = ts'
    \<and> trim nonce = trim nonce' \<and> cr_sha256_hex cr text = cr_sha256_hex cr text'"
proof -
  define m where "m c a e t n h = ''v1'' @ newline @ (''channel='' @ c) @ newline @ (''actor_id='' @ a)
     @ newline @ (''event_id='' @ e) @ newline @ (''timestamp_ms='' @ show_nat t)
     @ newline @ (''nonce='' @ n) @ newline @ ''text_sha256='' @ h" for c a e t n h
  have "m (trim channel) (trim actor) (trim event) ts (trim nonce) (cr_sha256_hex cr text)
      = m (trim channel') (trim actor') (trim event') ts' (trim nonce') (cr_sha256_hex cr text')"
    using assms(9) by (simp add: signed_envelope_message_bytes_def m_def)
  then show ?thesis
    unfolding m_def
    by (simp only: line_inject one_line_append labels_one_line show_nat_one_line assms(1-8) simp_thms
        same_append_eq show_nat_inject)
qed

theorem envelope_message_injective_witness:
  "trim ''slack'' = trim ''slack'' \<and> trim ''bob'' = trim ''bob'' \<and> trim ''e1'' = trim ''e1'' \<and> (7 :: nat) = 7
    \<and> trim ''n1'' = trim ''n1'' \<and> cr_sha256_hex sample_crypto ''hi'' = cr_sha256_hex sample_crypto ''ho''"
proof -
  have "line_feed \<noteq> c" if "(of_char c :: nat) \<noteq> 10" for c using that line_feed_code by auto
  then have "one_line (trim ''slack'')" "one_line (trim ''bob'')" "one_line (trim ''e1'')" "one_line (trim ''n1'')"
    by (auto simp: one_line_def sample_trims)
  moreover have "signed_envelope_message_bytes sample_crypto ''slack'' ''bob'' ''e1'' 7 ''n1'' ''hi''
      = signed_envelope_message_bytes sample_crypto ''slack'' ''bob'' ''e1'' 7 ''n1'' ''ho''"
    by (simp add: signed_envelope_message_bytes_def sample_crypto_def)
  ultimately show ?thesis by (intro envelope_message_injective)
qed

text \<open>A field with a line break makes the message ambiguous: two requests that differ in actor and
  event have the same signed message, so a signature made for one is valid for the other.\<close>

theorem envelope_message_collision:
  "signed_envelope_message_bytes cr channel ''bob'' (''e1'' @ newline @ ''event_id=e2'') ts nonce text
     = signed_envelope_message_bytes cr channel (''bob'' @ newline @ ''event_id=e1'') ''e2'' ts nonce text"
proof -
  have "trim ''bob'' = ''bob''" "trim ''e2'' = ''e2''"
    "trim (''e1'' @ newline @ ''event_id=e2'') = ''e1'' @ newline @ ''event_id=e2''"
    "trim (''bob'' @ newline @ ''event_id=e1'') = ''bob'' @ newline @ ''event_id=e1''"
    by (rule trim_visible; simp)+
  then show ?thesis unfolding signed_envelope_message_bytes_def by simp
qed

end
