(* ===== verification/Channel_Access.thy ===== *)
theory Channel_Access
  imports Channel_Policy Access_Pairing Access_Envelope
begin

text \<open>
  The access decision of the multi-channel runtime (\<open>evaluate_access_decision\<close> and its helpers in
  \<open>crates/tau-multi-channel/src/multi_channel_runtime.rs\<close>): channel policy, signed envelopes and pairing
  composed for one inbound event. The pairing evaluator is a trait object in the code; it is an argument
  here, with its contract as a locale that the adapter over the pairing files
  (\<open>crates/tau-startup/src/startup_multi_channel_adapters.rs\<close>) satisfies.
\<close>

datatype MultiChannelPairingDecision = ChannelAllow string | ChannelDeny string

fun channel_reason_code :: "MultiChannelPairingDecision \<Rightarrow> string" where
  "channel_reason_code (ChannelAllow r) = r"
| "channel_reason_code (ChannelDeny r) = r"

record MultiChannelSecureMessagingDecision =
  sd_mode :: MultiChannelSecureMessagingMode
  sd_status :: string
  sd_reason_code :: string
  sd_key_id :: "string option"
  sd_nonce :: "string option"
  sd_checked :: bool
  sd_required :: bool
  sd_legacy_fallback :: bool

record MultiChannelAccessDecision =
  ad_policy_channel :: string
  ad_channel_policy :: MultiChannelPolicyEvaluation
  ad_secure_messaging :: MultiChannelSecureMessagingDecision
  ad_pairing_decision :: MultiChannelPairingDecision
  ad_final_decision :: MultiChannelPairingDecision
  ad_pairing_checked :: bool
  ad_policy_enforced :: bool

type_synonym 'e pairing_evaluate = "string \<Rightarrow> string \<Rightarrow> nat \<Rightarrow> 'e + MultiChannelPairingDecision"

type_synonym replay_file = "SignedEnvelopeReplayGuardState json_file"

text \<open>What the envelope check needs from outside: the cryptographic crates, the conversion of a JSON
  value, the trust root file, the outcome of the write, and the state directory.\<close>

record 'k secure_env =
  en_crypto :: "'k crypto"
  en_from_value :: "json \<Rightarrow> SignedEnvelope option"
  en_trust :: "TrustedRootFileFormat json_file"
  en_written :: bool
  en_state_dir :: path

definition envelope_context :: "MultiChannelInboundEvent \<Rightarrow> string \<Rightarrow> nat \<Rightarrow> json SignedEnvelopeContext" where
  "envelope_context event policy_channel now_unix_ms =
     \<lparr>cx_policy_channel = policy_channel, cx_actor_id = ev_actor_id event, cx_event_id = ev_event_id event,
      cx_event_timestamp_ms = ev_timestamp_ms event, cx_text = ev_text event, cx_metadata = ev_metadata event,
      cx_now_unix_ms = now_unix_ms\<rparr>"

definition secure_config :: "path \<Rightarrow> MultiChannelSecureMessagingPolicy \<Rightarrow> SignedEnvelopePolicyConfig" where
  "secure_config state_dir policy =
     (signed_envelope_policy_for_state_dir state_dir)
       \<lparr>sc_timestamp_skew_seconds := sm_timestamp_skew_seconds policy,
        sc_replay_window_seconds := sm_replay_window_seconds policy\<rparr>"

definition secure_policy_of :: "MultiChannelPolicyFile option \<Rightarrow> MultiChannelSecureMessagingPolicy" where
  "secure_policy_of channel_policy_file =
     (case channel_policy_file of Some f \<Rightarrow> mp_secure_messaging f | None \<Rightarrow> default_secure_messaging)"

definition evaluate_secure_messaging_decision ::
  "'k secure_env \<Rightarrow> MultiChannelInboundEvent \<Rightarrow> string \<Rightarrow> nat \<Rightarrow> MultiChannelPolicyFile option \<Rightarrow> replay_file
     \<Rightarrow> MultiChannelSecureMessagingDecision \<times> replay_file" where
  "evaluate_secure_messaging_decision env event policy_channel now_unix_ms channel_policy_file stored =
     (let policy = secure_policy_of channel_policy_file; mode = sm_mode policy in
      if mode = SecureDisabled then
        (\<lparr>sd_mode = mode, sd_status = ''disabled'', sd_reason_code = ''secure_messaging_disabled'', sd_key_id = None,
          sd_nonce = None, sd_checked = False, sd_required = False, sd_legacy_fallback = False\<rparr>, stored)
      else
        (let (decision, stored') = evaluate_signed_envelope_access (en_crypto env) (en_from_value env) (en_trust env)
               (en_written env) (secure_config (en_state_dir env) policy)
               (envelope_context event policy_channel now_unix_ms) stored
         in (case decision of
               EnvelopeAllow reason_code key_id nonce \<Rightarrow>
                 \<lparr>sd_mode = mode, sd_status = ''allow'', sd_reason_code = reason_code, sd_key_id = Some key_id,
                  sd_nonce = Some nonce, sd_checked = True, sd_required = (mode = SecureRequired),
                  sd_legacy_fallback = False\<rparr>
             | EnvelopeMissing reason_code \<Rightarrow>
                 (if mode = SecureRequired then
                    \<lparr>sd_mode = mode, sd_status = ''deny'', sd_reason_code = ''deny_signed_envelope_missing'',
                     sd_key_id = None, sd_nonce = None, sd_checked = True, sd_required = True, sd_legacy_fallback = False\<rparr>
                  else
                    \<lparr>sd_mode = mode, sd_status = ''missing'', sd_reason_code = reason_code,
                     sd_key_id = None, sd_nonce = None, sd_checked = True, sd_required = False, sd_legacy_fallback = True\<rparr>)
             | EnvelopeDeny reason_code \<Rightarrow>
                 \<lparr>sd_mode = mode, sd_status = ''deny'', sd_reason_code = reason_code, sd_key_id = None,
                  sd_nonce = None, sd_checked = True, sd_required = (mode = SecureRequired), sd_legacy_fallback = False\<rparr>,
             stored')))"

definition evaluate_pairing_decision ::
  "'e pairing_evaluate \<Rightarrow> MultiChannelInboundEvent \<Rightarrow> string \<Rightarrow> nat \<Rightarrow> MultiChannelPairingDecision" where
  "evaluate_pairing_decision evaluate_pairing event policy_channel now_unix_ms =
     (case evaluate_pairing policy_channel (ev_actor_id event) now_unix_ms of
        Inr decision \<Rightarrow> decision
      | Inl _ \<Rightarrow> ChannelDeny ''deny_policy_evaluation_error'')"

definition pairing_decision_is_enforced :: "MultiChannelPairingDecision \<Rightarrow> bool" where
  "pairing_decision_is_enforced decision \<longleftrightarrow> channel_reason_code decision \<noteq> ''allow_permissive_mode''"

definition channel_policy_evaluation ::
  "MultiChannelInboundEvent \<Rightarrow> MultiChannelPolicyFile option \<Rightarrow> MultiChannelPolicyEvaluation" where
  "channel_policy_evaluation event channel_policy_file =
     (case channel_policy_file of
        Some policy_file \<Rightarrow> evaluate_multi_channel_channel_policy policy_file event
      | None \<Rightarrow>
          (evaluate_multi_channel_channel_policy default_policy_file event)
            \<lparr>pe_matched_policy_key := ''policy_load_error'',
             pe_decision := PolicyDeny ''deny_channel_policy_load_error''\<rparr>)"

definition allowlist_only_decision :: "MultiChannelPairingDecision \<Rightarrow> MultiChannelPairingDecision" where
  "allowlist_only_decision pairing_decision =
     (case pairing_decision of
        ChannelAllow r \<Rightarrow>
          if r = ''allow_allowlist'' \<or> r = ''allow_allowlist_and_pairing'' then ChannelAllow r
          else ChannelDeny ''deny_channel_policy_allow_from_allowlist_only''
      | ChannelDeny r \<Rightarrow> ChannelDeny r)"

definition evaluate_access_decision ::
  "'k secure_env \<Rightarrow> 'e pairing_evaluate \<Rightarrow> MultiChannelInboundEvent \<Rightarrow> nat \<Rightarrow> MultiChannelPolicyFile option
     \<Rightarrow> replay_file \<Rightarrow> MultiChannelAccessDecision \<times> replay_file" where
  "evaluate_access_decision env evaluate_pairing event now_unix_ms channel_policy_file stored =
     (let policy_channel = policy_channel_of event;
          channel_policy = channel_policy_evaluation event channel_policy_file
      in case pe_decision channel_policy of
           PolicyDeny reason_code \<Rightarrow>
             (let denied = ChannelDeny reason_code;
                  secure_mode = (case channel_policy_file of
                    Some f \<Rightarrow> sm_mode (mp_secure_messaging f) | None \<Rightarrow> SecurePreferred)
              in (\<lparr>ad_policy_channel = policy_channel, ad_channel_policy = channel_policy,
                   ad_secure_messaging = \<lparr>sd_mode = secure_mode, sd_status = ''skipped'',
                     sd_reason_code = ''secure_messaging_skipped_channel_policy_deny'', sd_key_id = None, sd_nonce = None,
                     sd_checked = False, sd_required = (secure_mode = SecureRequired), sd_legacy_fallback = False\<rparr>,
                   ad_pairing_decision = denied, ad_final_decision = denied, ad_pairing_checked = False,
                   ad_policy_enforced = True\<rparr>, stored))
         | PolicyAllow reason_code \<Rightarrow>
             (let (secure, stored') = evaluate_secure_messaging_decision env event policy_channel now_unix_ms
                    channel_policy_file stored;
                  decide = (\<lambda>pairing final checked enforced.
                    \<lparr>ad_policy_channel = policy_channel, ad_channel_policy = channel_policy, ad_secure_messaging = secure,
                     ad_pairing_decision = pairing, ad_final_decision = final, ad_pairing_checked = checked,
                     ad_policy_enforced = enforced\<rparr>)
              in if sd_status secure = ''deny'' then
                   (decide (ChannelDeny (sd_reason_code secure)) (ChannelDeny (sd_reason_code secure)) False True, stored')
                 else if sd_status secure = ''allow'' then
                   (decide (ChannelAllow (sd_reason_code secure)) (ChannelAllow (sd_reason_code secure)) False True, stored')
                 else
                   (case cp_allow_from (pe_policy channel_policy) of
                      AnyActor \<Rightarrow>
                        (decide (ChannelAllow reason_code) (ChannelAllow reason_code) False
                           (cp_require_mention (pe_policy channel_policy)), stored')
                    | AllowlistOrPairing \<Rightarrow>
                        (let pairing = evaluate_pairing_decision evaluate_pairing event policy_channel now_unix_ms
                         in (decide pairing pairing True
                               (cp_require_mention (pe_policy channel_policy) \<or> pairing_decision_is_enforced pairing), stored'))
                    | AllowlistOnly \<Rightarrow>
                        (let pairing = evaluate_pairing_decision evaluate_pairing event policy_channel now_unix_ms
                         in (decide pairing (allowlist_only_decision pairing) True True, stored')))))"

definition multi_channel_command_operator_allowed :: "MultiChannelAccessDecision \<Rightarrow> bool" where
  "multi_channel_command_operator_allowed access_decision \<longleftrightarrow>
     channel_reason_code (ad_final_decision access_decision) \<in> {''allow_allowlist'', ''allow_allowlist_and_pairing''}"

text \<open>The adapter that provides the pairing evaluator.\<close>

fun pairing_to_channel :: "PairingDecision \<Rightarrow> MultiChannelPairingDecision" where
  "pairing_to_channel (PairAllow r) = ChannelAllow r"
| "pairing_to_channel (PairDeny r) = ChannelDeny r"

definition adapter_evaluate_pairing :: "PairingFiles \<Rightarrow> path \<Rightarrow> PairError pairing_evaluate" where
  "adapter_evaluate_pairing files state_dir policy_channel actor_id now_unix_ms =
     and_then (evaluate_pairing_access files (pairing_policy_for_state_dir state_dir) policy_channel actor_id now_unix_ms)
       (\<lambda>decision. Inr (pairing_to_channel decision))"

subsection \<open>The contract of a pairing evaluator\<close>

text \<open>A client of the evaluator needs two things: who is admitted to a channel, and that the reason
  codes of the allowlist are given to allowlisted actors only.\<close>

fun is_channel_allow :: "MultiChannelPairingDecision \<Rightarrow> bool" where
  "is_channel_allow (ChannelAllow _) = True"
| "is_channel_allow (ChannelDeny _) = False"

definition names_allowlist :: "string \<Rightarrow> bool" where
  "names_allowlist r \<longleftrightarrow> r \<in> {''allow_allowlist'', ''allow_allowlist_and_pairing''}"

locale pairing_evaluator =
  fixes evaluate :: "'e pairing_evaluate"
    and admits listed :: "string \<Rightarrow> string \<Rightarrow> nat \<Rightarrow> bool"
  assumes allow_iff: "(\<exists>r. evaluate channel actor now = Inr (ChannelAllow r)) \<longleftrightarrow> admits channel actor now"
    and allow_listed: "evaluate channel actor now = Inr (ChannelAllow r) \<Longrightarrow> names_allowlist r \<longleftrightarrow> listed channel actor now"
    and listed_admits: "listed channel actor now \<Longrightarrow> admits channel actor now"
    and deny_reason: "evaluate channel actor now = Inr (ChannelDeny r) \<Longrightarrow> \<not> names_allowlist r"
begin

lemma pairing_decision_allow:
  "is_channel_allow (evaluate_pairing_decision evaluate event channel now) \<longleftrightarrow> admits channel (ev_actor_id event) now"
  using allow_iff [of channel "ev_actor_id event" now]
  by (auto simp: evaluate_pairing_decision_def split: sum.split elim!: is_channel_allow.elims)

lemma pairing_decision_listed:
  "names_allowlist (channel_reason_code (evaluate_pairing_decision evaluate event channel now))
     \<longleftrightarrow> listed channel (ev_actor_id event) now"
proof (cases "evaluate channel (ev_actor_id event) now")
  case (Inl e)
  then have "\<not> admits channel (ev_actor_id event) now"
    using allow_iff [of channel "ev_actor_id event" now] by simp
  with Inl listed_admits show ?thesis
    by (auto simp: evaluate_pairing_decision_def names_allowlist_def)
next
  case (Inr d)
  then show ?thesis
    using allow_listed deny_reason allow_iff [of channel "ev_actor_id event" now] listed_admits
    by (cases d) (auto simp: evaluate_pairing_decision_def)
qed

lemma allowlist_only_allow:
  "is_channel_allow (allowlist_only_decision (evaluate_pairing_decision evaluate event channel now))
     \<longleftrightarrow> listed channel (ev_actor_id event) now"
  using pairing_decision_listed [of event channel now] pairing_decision_allow [of event channel now] listed_admits
  by (cases "evaluate_pairing_decision evaluate event channel now")
    (auto simp: allowlist_only_decision_def names_allowlist_def)

lemma allowlist_only_reason:
  "names_allowlist (channel_reason_code (allowlist_only_decision (evaluate_pairing_decision evaluate event channel now)))
     \<longleftrightarrow> listed channel (ev_actor_id event) now"
  using pairing_decision_listed [of event channel now]
  by (cases "evaluate_pairing_decision evaluate event channel now")
    (auto simp: allowlist_only_decision_def names_allowlist_def)

end

text \<open>The pairing files satisfy it.\<close>

definition identity_trusted :: "PairingFiles \<Rightarrow> string \<Rightarrow> nat \<Rightarrow> bool" where
  "identity_trusted files actor now =
     (case parse_optional_actor_did actor of
        Inl _ \<Rightarrow> False
      | Inr None \<Rightarrow> True
      | Inr (Some did) \<Rightarrow>
          (case load_trust_root_records (pf_trust files) of
             Inl _ \<Rightarrow> False | Inr roots \<Rightarrow> is_trusted_kamn_did did roots now))"

definition pairing_admits :: "PairingFiles \<Rightarrow> PairingPolicyConfig \<Rightarrow> string \<Rightarrow> string \<Rightarrow> nat \<Rightarrow> bool" where
  "pairing_admits files config channel actor now =
     (case (load_allowlist (pf_allowlist files), load_pairing_registry (pf_registry files)) of
        (Inr allowlist, Inr registry) \<Rightarrow>
          identity_trusted files actor now
          \<and> (channel_open config allowlist registry channel
             \<or> (trim actor \<noteq> [] \<and> (allowlisted allowlist channel actor \<or> paired registry channel actor now)))
      | _ \<Rightarrow> False)"

definition pairing_listed :: "PairingFiles \<Rightarrow> PairingPolicyConfig \<Rightarrow> string \<Rightarrow> string \<Rightarrow> nat \<Rightarrow> bool" where
  "pairing_listed files config channel actor now =
     (case (load_allowlist (pf_allowlist files), load_pairing_registry (pf_registry files)) of
        (Inr allowlist, Inr registry) \<Rightarrow>
          identity_trusted files actor now \<and> \<not> channel_open config allowlist registry channel
          \<and> trim actor \<noteq> [] \<and> allowlisted allowlist channel actor
      | _ \<Rightarrow> False)"

lemmas pairing_spec_defs = pairing_admits_def pairing_listed_def identity_trusted_def adapter_evaluate_pairing_def
  evaluate_pairing_access_def did_of_def channel_open_def allowlisted_def paired_def Let_def names_allowlist_def

lemma adapter_cases:
  "case adapter_evaluate_pairing files dir channel actor now of
     Inr (ChannelAllow r) \<Rightarrow> pairing_admits files (pairing_policy_for_state_dir dir) channel actor now
       \<and> (names_allowlist r \<longleftrightarrow> pairing_listed files (pairing_policy_for_state_dir dir) channel actor now)
   | Inr (ChannelDeny r) \<Rightarrow> \<not> pairing_admits files (pairing_policy_for_state_dir dir) channel actor now
       \<and> \<not> names_allowlist r
   | Inl _ \<Rightarrow> \<not> pairing_admits files (pairing_policy_for_state_dir dir) channel actor now"
proof (cases "parse_optional_actor_did actor")
  case (Inl e)
  then show ?thesis by (auto simp: pairing_spec_defs split: sum.split)
next
  case (Inr d)
  show ?thesis
  proof (cases d)
    case None
    with Inr show ?thesis
      by (cases "load_allowlist (pf_allowlist files)"; cases "load_pairing_registry (pf_registry files)")
        (auto simp: pairing_spec_defs)
  next
    case (Some did)
    with Inr show ?thesis
      by (cases "load_trust_root_records (pf_trust files)"; cases "load_allowlist (pf_allowlist files)";
          cases "load_pairing_registry (pf_registry files)")
        (auto simp: pairing_spec_defs)
  qed
qed

interpretation paired_files: pairing_evaluator "adapter_evaluate_pairing files dir"
  "pairing_admits files (pairing_policy_for_state_dir dir)" "pairing_listed files (pairing_policy_for_state_dir dir)"
  for files dir
proof
  fix channel actor now r
  note c = adapter_cases [of files dir channel actor now]
  show "(\<exists>r. adapter_evaluate_pairing files dir channel actor now = Inr (ChannelAllow r))
      \<longleftrightarrow> pairing_admits files (pairing_policy_for_state_dir dir) channel actor now"
    using c by (auto split: sum.splits MultiChannelPairingDecision.splits)
  show "adapter_evaluate_pairing files dir channel actor now = Inr (ChannelAllow r) \<Longrightarrow>
      names_allowlist r \<longleftrightarrow> pairing_listed files (pairing_policy_for_state_dir dir) channel actor now"
    using c by simp
  show "adapter_evaluate_pairing files dir channel actor now = Inr (ChannelDeny r) \<Longrightarrow> \<not> names_allowlist r"
    using c by simp
  show "pairing_listed files (pairing_policy_for_state_dir dir) channel actor now \<Longrightarrow>
      pairing_admits files (pairing_policy_for_state_dir dir) channel actor now"
    by (auto simp: pairing_listed_def pairing_admits_def split: sum.splits)
qed

subsection \<open>Who may speak on a channel\<close>

text \<open>The policy admits an event by its conversation kind; the envelope of an event, if it is looked at,
  is accepted or not. \<open>None\<close> is the case where no envelope decides.\<close>

definition policy_admits :: "MultiChannelPolicyFile \<Rightarrow> MultiChannelInboundEvent \<Rightarrow> bool" where
  "policy_admits f event =
     (let policy = snd (select_channel_policy f event) in
      case detect_conversation_kind event of
        Dm \<Rightarrow> cp_dm_policy policy = DmAllow
      | Group \<Rightarrow> cp_group_policy policy = GroupAllow \<and> (\<not> cp_require_mention policy \<or> detect_mention_present event))"

definition envelope_verdict ::
  "'k secure_env \<Rightarrow> MultiChannelInboundEvent \<Rightarrow> nat \<Rightarrow> MultiChannelPolicyFile \<Rightarrow> replay_file \<Rightarrow> bool option" where
  "envelope_verdict env event now f stored =
     (let policy = mp_secure_messaging f; config = secure_config (en_state_dir env) policy;
          cx = envelope_context event (policy_channel_of event) now
      in if sm_mode policy = SecureDisabled then None
         else case map_of (ev_metadata event) ''signed_envelope'' of
                None \<Rightarrow> if sm_mode policy = SecureRequired then Some False else None
              | Some raw \<Rightarrow> Some (case en_from_value env raw of
                  None \<Rightarrow> False
                | Some envelope \<Rightarrow> authentic (en_crypto env) (en_trust env) config cx envelope
                    \<and> fst (enforce_signed_envelope_replay_guard (en_written env) config (trim (se_key_id envelope))
                             (trim (se_nonce envelope)) now stored) = Inr Accepted))"

lemma envelope_context_simps [simp]:
  "cx_metadata (envelope_context event ch now) = ev_metadata event"
  "cx_now_unix_ms (envelope_context event ch now) = now"
  by (simp_all add: envelope_context_def)

lemma evaluate_envelope_missing:
  "(\<exists>r. fst (evaluate_signed_envelope_access cr fv trust written config cx stored) = EnvelopeMissing r)
     \<longleftrightarrow> map_of (cx_metadata cx) ''signed_envelope'' = None"
  by (auto simp: evaluate_signed_envelope_access_def Let_def
      split: option.splits sum.splits if_splits prod.splits ReplayGuardOutcome.splits)

lemma evaluate_envelope_allow:
  "is_envelope_allow (fst (evaluate_signed_envelope_access cr fv trust written config cx stored))
     \<longleftrightarrow> (case Option.bind (map_of (cx_metadata cx) ''signed_envelope'') fv of
            None \<Rightarrow> False
          | Some envelope \<Rightarrow> authentic cr trust config cx envelope
              \<and> fst (enforce_signed_envelope_replay_guard written config (trim (se_key_id envelope))
                       (trim (se_nonce envelope)) (cx_now_unix_ms cx) stored) = Inr Accepted)"
  (is "?allow \<longleftrightarrow> ?spec")
proof
  assume allow: ?allow
  from allow obtain raw envelope where "map_of (cx_metadata cx) ''signed_envelope'' = Some raw" "fv raw = Some envelope"
    "authentic cr trust config cx envelope"
    by (blast intro: evaluate_not_authentic)
  with allow evaluate_authentic [of cx raw fv envelope cr trust config written stored] show ?spec
    by (auto split: prod.splits sum.splits ReplayGuardOutcome.splits)
next
  assume ?spec
  then obtain raw envelope where e: "map_of (cx_metadata cx) ''signed_envelope'' = Some raw" "fv raw = Some envelope"
    "authentic cr trust config cx envelope"
    and g: "fst (enforce_signed_envelope_replay_guard written config (trim (se_key_id envelope))
              (trim (se_nonce envelope)) (cx_now_unix_ms cx) stored) = Inr Accepted"
    by (auto split: option.splits simp: bind_eq_Some_conv)
  then show ?allow
    using evaluate_authentic [of cx raw fv envelope cr trust config written stored] by (auto split: prod.splits)
qed

lemma secure_status:
  "sd_status (fst (evaluate_secure_messaging_decision env event (policy_channel_of event) now (Some f) stored)) =
     (case envelope_verdict env event now f stored of
        None \<Rightarrow> if sm_mode (mp_secure_messaging f) = SecureDisabled then ''disabled'' else ''missing''
      | Some True \<Rightarrow> ''allow'' | Some False \<Rightarrow> ''deny'')"
proof (cases "sm_mode (mp_secure_messaging f) = SecureDisabled")
  case True
  then show ?thesis by (simp add: evaluate_secure_messaging_decision_def envelope_verdict_def secure_policy_of_def)
next
  case False
  let ?v = "fst (evaluate_signed_envelope_access (en_crypto env) (en_from_value env) (en_trust env)
    (en_written env) (secure_config (en_state_dir env) (mp_secure_messaging f))
    (envelope_context event (policy_channel_of event) now) stored)"
  have "sd_status (fst (evaluate_secure_messaging_decision env event (policy_channel_of event) now (Some f) stored)) =
      (case ?v of EnvelopeAllow _ _ _ \<Rightarrow> ''allow'' | EnvelopeDeny _ \<Rightarrow> ''deny''
       | EnvelopeMissing _ \<Rightarrow> if sm_mode (mp_secure_messaging f) = SecureRequired then ''deny'' else ''missing'')"
    using False by (simp add: evaluate_secure_messaging_decision_def secure_policy_of_def Let_def split_beta
        split: SignedEnvelopeDecision.split)
  moreover have "envelope_verdict env event now f stored =
      (case ?v of EnvelopeAllow _ _ _ \<Rightarrow> Some True | EnvelopeDeny _ \<Rightarrow> Some False
       | EnvelopeMissing _ \<Rightarrow> if sm_mode (mp_secure_messaging f) = SecureRequired then Some False else None)"
    using False evaluate_envelope_missing [of "en_crypto env" "en_from_value env" "en_trust env" "en_written env"
        "secure_config (en_state_dir env) (mp_secure_messaging f)" "envelope_context event (policy_channel_of event) now" stored]
      evaluate_envelope_allow [of "en_crypto env" "en_from_value env" "en_trust env" "en_written env"
        "secure_config (en_state_dir env) (mp_secure_messaging f)" "envelope_context event (policy_channel_of event) now" stored]
    by (cases ?v) (auto simp: envelope_verdict_def Let_def split: option.splits)
  ultimately show ?thesis
    using False by (auto split: SignedEnvelopeDecision.split)
qed

lemma policy_evaluation:
  "pe_policy (evaluate_multi_channel_channel_policy f event) = snd (select_channel_policy f event)"
  "(\<exists>r. pe_decision (evaluate_multi_channel_channel_policy f event) = PolicyAllow r) \<longleftrightarrow> policy_admits f event"
  by (auto simp: evaluate_multi_channel_channel_policy_def policy_admits_def allow_decision_for_allow_from_def Let_def
      split_beta split: MultiChannelConversationKind.splits if_splits)
    (metis MultiChannelDmPolicy.exhaust MultiChannelGroupPolicy.exhaust)+

definition final_of ::
  "MultiChannelSecureMessagingDecision \<Rightarrow> MultiChannelAllowFrom \<Rightarrow> string \<Rightarrow> MultiChannelPairingDecision
     \<Rightarrow> MultiChannelPairingDecision" where
  "final_of secure allow_from reason_code pairing =
     (if sd_status secure = ''deny'' then ChannelDeny (sd_reason_code secure)
      else if sd_status secure = ''allow'' then ChannelAllow (sd_reason_code secure)
      else case allow_from of
             AnyActor \<Rightarrow> ChannelAllow reason_code
           | AllowlistOrPairing \<Rightarrow> pairing
           | AllowlistOnly \<Rightarrow> allowlist_only_decision pairing)"

lemma access_of_admitted:
  assumes "policy_admits f event"
  obtains reason_code where
    "ad_final_decision (fst (evaluate_access_decision env evaluate event now (Some f) stored)) =
       final_of (fst (evaluate_secure_messaging_decision env event (policy_channel_of event) now (Some f) stored))
         (cp_allow_from (snd (select_channel_policy f event))) reason_code
         (evaluate_pairing_decision evaluate event (policy_channel_of event) now)"
    "\<not> names_allowlist reason_code"
proof -
  have "\<exists>r. pe_decision (evaluate_multi_channel_channel_policy f event) = PolicyAllow r \<and> \<not> names_allowlist r"
    using assms(1) policy_evaluation(2) [of f event]
    by (auto simp: evaluate_multi_channel_channel_policy_def Let_def split_beta allow_decision_for_allow_from_def
        names_allowlist_def split: MultiChannelConversationKind.splits if_splits MultiChannelAllowFrom.splits)
  then obtain r where r: "pe_decision (evaluate_multi_channel_channel_policy f event) = PolicyAllow r" "\<not> names_allowlist r"
    by blast
  show thesis
    by (rule that [of r]) (use r in \<open>simp_all add: evaluate_access_decision_def channel_policy_evaluation_def
        final_of_def policy_evaluation(1) Let_def split_beta split: MultiChannelAllowFrom.split\<close>)
qed

lemma access_denied_by_policy:
  assumes "case pol of None \<Rightarrow> True | Some f \<Rightarrow> \<not> policy_admits f event"
  shows "\<exists>r. ad_final_decision (fst (evaluate_access_decision env evaluate event now pol stored)) = ChannelDeny r
     \<and> \<not> names_allowlist r"
    "snd (evaluate_access_decision env evaluate event now pol stored) = stored"
proof -
  obtain r where r: "pe_decision (channel_policy_evaluation event pol) = PolicyDeny r" "\<not> names_allowlist r"
  proof (cases pol)
    case None
    then show ?thesis
      by (intro that [of "''deny_channel_policy_load_error''"]) (simp_all add: channel_policy_evaluation_def names_allowlist_def)
  next
    case (Some f)
    with assms have "\<not> policy_admits f event" by simp
    then have "\<exists>r. pe_decision (evaluate_multi_channel_channel_policy f event) = PolicyDeny r \<and> \<not> names_allowlist r"
      using policy_evaluation(2) [of f event]
      by (auto simp: evaluate_multi_channel_channel_policy_def Let_def split_beta allow_decision_for_allow_from_def
        names_allowlist_def split: MultiChannelConversationKind.splits if_splits)
    with Some that show ?thesis by (auto simp: channel_policy_evaluation_def)
  qed
  then show "\<exists>r. ad_final_decision (fst (evaluate_access_decision env evaluate event now pol stored)) = ChannelDeny r
      \<and> \<not> names_allowlist r"
    "snd (evaluate_access_decision env evaluate event now pol stored) = stored"
    by (simp_all add: evaluate_access_decision_def Let_def)
qed

lemma secure_reason_not_allowlist:
  assumes "sd_status (fst (evaluate_secure_messaging_decision env event ch now pol stored)) \<in> {''allow'', ''deny''}"
  shows "\<not> names_allowlist (sd_reason_code (fst (evaluate_secure_messaging_decision env event ch now pol stored)))"
  using assms
  by (auto simp: evaluate_secure_messaging_decision_def evaluate_signed_envelope_access_def Let_def names_allowlist_def
      split: if_splits prod.splits option.splits sum.splits ReplayGuardOutcome.splits)

context pairing_evaluator
begin

lemma access_exact:
  "is_channel_allow (ad_final_decision (fst (evaluate_access_decision env evaluate event now pol stored)))
   \<longleftrightarrow> (case pol of
          None \<Rightarrow> False
        | Some f \<Rightarrow> policy_admits f event
            \<and> (case envelope_verdict env event now f stored of
                 Some accepted \<Rightarrow> accepted
               | None \<Rightarrow>
                   (case cp_allow_from (snd (select_channel_policy f event)) of
                      AnyActor \<Rightarrow> True
                    | AllowlistOrPairing \<Rightarrow> admits (policy_channel_of event) (ev_actor_id event) now
                    | AllowlistOnly \<Rightarrow> listed (policy_channel_of event) (ev_actor_id event) now)))"
proof (cases "case pol of None \<Rightarrow> True | Some f \<Rightarrow> \<not> policy_admits f event")
  case True
  from access_denied_by_policy(1) [OF True, of env evaluate now stored] True show ?thesis
    by (auto split: option.splits)
next
  case False
  then obtain f where f: "pol = Some f" "policy_admits f event" by (auto split: option.splits)
  obtain r where "ad_final_decision (fst (evaluate_access_decision env evaluate event now (Some f) stored)) =
      final_of (fst (evaluate_secure_messaging_decision env event (policy_channel_of event) now (Some f) stored))
        (cp_allow_from (snd (select_channel_policy f event))) r
        (evaluate_pairing_decision evaluate event (policy_channel_of event) now)"
    by (rule access_of_admitted [OF f(2), of env evaluate now stored])
  then show ?thesis
    using f by (auto simp: final_of_def secure_status pairing_decision_allow allowlist_only_allow
        split: option.splits MultiChannelAllowFrom.splits bool.splits if_splits)
qed

lemma operator_exact:
  "multi_channel_command_operator_allowed (fst (evaluate_access_decision env evaluate event now pol stored))
   \<longleftrightarrow> (case pol of
          None \<Rightarrow> False
        | Some f \<Rightarrow> policy_admits f event \<and> envelope_verdict env event now f stored = None
            \<and> cp_allow_from (snd (select_channel_policy f event)) \<noteq> AnyActor
            \<and> listed (policy_channel_of event) (ev_actor_id event) now)"
  (is "?operator \<longleftrightarrow> ?spec")
proof (cases "case pol of None \<Rightarrow> True | Some f \<Rightarrow> \<not> policy_admits f event")
  case True
  from access_denied_by_policy(1) [OF True, of env evaluate now stored] True show ?thesis
    by (auto simp: multi_channel_command_operator_allowed_def names_allowlist_def split: option.splits)
next
  case False
  then obtain f where f: "pol = Some f" "policy_admits f event" by (auto split: option.splits)
  have op: "?operator \<longleftrightarrow> names_allowlist (channel_reason_code
      (ad_final_decision (fst (evaluate_access_decision env evaluate event now (Some f) stored))))"
    using f by (simp add: multi_channel_command_operator_allowed_def names_allowlist_def)
  obtain r where r: "ad_final_decision (fst (evaluate_access_decision env evaluate event now (Some f) stored)) =
      final_of (fst (evaluate_secure_messaging_decision env event (policy_channel_of event) now (Some f) stored))
        (cp_allow_from (snd (select_channel_policy f event))) r
        (evaluate_pairing_decision evaluate event (policy_channel_of event) now)"
    "\<not> names_allowlist r"
    by (rule access_of_admitted [OF f(2), of env evaluate now stored])
  note plain = secure_reason_not_allowlist [of env event "policy_channel_of event" now "Some f" stored]
  show ?thesis
    unfolding op r(1) using f r(2) plain
    by (auto simp: final_of_def secure_status pairing_decision_listed allowlist_only_reason
        split: option.splits MultiChannelAllowFrom.splits bool.splits)
qed

end

text \<open>C6. Who may speak: the runtime lets an event through if and only if the policy file loaded and admits
  the conversation, and either the event carries a signed envelope that is authentic and not replayed, or
  no envelope decides (secure messaging is off, or no envelope is given and none is required) and the
  rule of the channel admits the actor: anyone, anyone the pairing files admit, or allowlisted actors only.\<close>

theorem channel_access_exact:
  "is_channel_allow (ad_final_decision
     (fst (evaluate_access_decision env (adapter_evaluate_pairing files dir) event now pol stored)))
   \<longleftrightarrow> (case pol of
          None \<Rightarrow> False
        | Some f \<Rightarrow> policy_admits f event
            \<and> (case envelope_verdict env event now f stored of
                 Some accepted \<Rightarrow> accepted
               | None \<Rightarrow>
                   (case cp_allow_from (snd (select_channel_policy f event)) of
                      AnyActor \<Rightarrow> True
                    | AllowlistOrPairing \<Rightarrow> pairing_admits files (pairing_policy_for_state_dir dir)
                        (policy_channel_of event) (ev_actor_id event) now
                    | AllowlistOnly \<Rightarrow> pairing_listed files (pairing_policy_for_state_dir dir)
                        (policy_channel_of event) (ev_actor_id event) now)))"
  by (rule paired_files.access_exact)

text \<open>Operator commands are for allowlisted actors: the operator scope is granted if and only if the
  event was let through by the allowlist entry of its actor on a channel with rules. An event let through
  by its signature has no operator scope, even when its actor is on the allowlist.\<close>

theorem operator_scope_exact:
  "multi_channel_command_operator_allowed
     (fst (evaluate_access_decision env (adapter_evaluate_pairing files dir) event now pol stored))
   \<longleftrightarrow> (case pol of
          None \<Rightarrow> False
        | Some f \<Rightarrow> policy_admits f event \<and> envelope_verdict env event now f stored = None
            \<and> cp_allow_from (snd (select_channel_policy f event)) \<noteq> AnyActor
            \<and> pairing_listed files (pairing_policy_for_state_dir dir) (policy_channel_of event) (ev_actor_id event) now)"
  by (rule paired_files.operator_exact)

end
