(* ===== verification/Channel_Cycle.thy ===== *)
theory Channel_Cycle
  imports Channel_Access "HOL-Library.Product_Lexorder"
begin

text \<open>
  One cycle of the multi-channel runtime (\<open>run_once_events\<close> in
  \<open>crates/tau-multi-channel/src/multi_channel_runtime.rs\<close>): queueing, coalescing, duplicate suppression,
  the access decision, the bounded retries, the list of processed keys and the health snapshot
  (\<open>multi_channel_runtime/ingress.rs\<close>, \<open>routing.rs\<close>, \<open>outbound.rs\<close>, \<open>tau-runtime/src/transport_health.rs\<close>).
  The state that \<open>persist_event\<close> changes (channel logs, delivery, telemetry) is the world, a type
  parameter; the clock, the security files and the outcome of one persistence attempt are read from it.
\<close>

subsection \<open>Coalescing\<close>

record CoalescedInboundEvent =
  co_event :: MultiChannelInboundEvent
  co_source_event_keys :: "string list"
  co_source_event_ids :: "string list"

definition should_coalesce_events :: "MultiChannelInboundEvent \<Rightarrow> MultiChannelInboundEvent \<Rightarrow> nat \<Rightarrow> bool" where
  "should_coalesce_events previous current coalescing_window_ms =
     (if coalescing_window_ms = 0 then False
      else if ev_transport previous \<noteq> ev_transport current then False
      else if trim (ev_conversation_id previous) \<noteq> trim (ev_conversation_id current) then False
      else if trim (ev_actor_id previous) \<noteq> trim (ev_actor_id current) then False
      else if ev_timestamp_ms current < ev_timestamp_ms previous then False
      else ev_timestamp_ms current - ev_timestamp_ms previous \<le> coalescing_window_ms)"

definition annotate_coalesced_event_metadata :: "nat \<Rightarrow> CoalescedInboundEvent \<Rightarrow> CoalescedInboundEvent" where
  "annotate_coalesced_event_metadata coalescing_window_ms batch =
     (let metadata = ev_metadata (co_event batch); count = length (co_source_event_ids batch);
          metadata' =
            (if count \<le> 1 then
               AList.delete ''coalesced_source_event_ids''
                 (AList.delete ''coalescing_window_ms'' (AList.delete ''coalesced_batch_size'' metadata))
             else
               AList.update ''telemetry_force_typing_presence'' (JBool True)
                 (AList.update ''coalesced_source_event_ids'' (JArray (map JString (co_source_event_ids batch)))
                   (AList.update ''coalescing_window_ms'' (JInt (int coalescing_window_ms))
                     (AList.update ''coalesced_batch_size'' (JInt (int (min count u64_max))) metadata))))
      in batch\<lparr>co_event := (co_event batch)\<lparr>ev_metadata := metadata'\<rparr>\<rparr>)"

definition merge_event :: "MultiChannelInboundEvent \<Rightarrow> MultiChannelInboundEvent \<Rightarrow> MultiChannelInboundEvent" where
  "merge_event previous source_event =
     previous\<lparr>ev_text :=
            (if trim (ev_text source_event) \<noteq> [] then
               (if ev_text previous \<noteq> [] then ev_text previous @ [line_feed] else ev_text previous) @ ev_text source_event
             else ev_text previous),
          ev_attachments := ev_attachments previous @ ev_attachments source_event,
          ev_timestamp_ms := ev_timestamp_ms source_event\<rparr>"

definition new_batch :: "nat \<Rightarrow> MultiChannelInboundEvent \<Rightarrow> CoalescedInboundEvent" where
  "new_batch coalescing_window_ms source_event =
     annotate_coalesced_event_metadata coalescing_window_ms
       \<lparr>co_event = source_event, co_source_event_keys = [event_contract_key source_event],
        co_source_event_ids = [trim (ev_event_id source_event)]\<rparr>"

definition extend_batch :: "nat \<Rightarrow> CoalescedInboundEvent \<Rightarrow> MultiChannelInboundEvent \<Rightarrow> CoalescedInboundEvent" where
  "extend_batch coalescing_window_ms batch source_event =
     annotate_coalesced_event_metadata coalescing_window_ms
       (batch\<lparr>co_event := merge_event (co_event batch) source_event,
              co_source_event_keys := co_source_event_keys batch @ [event_contract_key source_event],
              co_source_event_ids := co_source_event_ids batch @ [trim (ev_event_id source_event)]\<rparr>)"

text \<open>The loop keeps the batches it has closed and the one it may still extend.\<close>

fun coalesce_loop :: "nat \<Rightarrow> CoalescedInboundEvent \<Rightarrow> MultiChannelInboundEvent list \<Rightarrow> CoalescedInboundEvent list" where
  "coalesce_loop w open_batch [] = [open_batch]"
| "coalesce_loop w open_batch (source_event # rest) =
     (if should_coalesce_events (co_event open_batch) source_event w
      then coalesce_loop w (extend_batch w open_batch source_event) rest
      else open_batch # coalesce_loop w (new_batch w source_event) rest)"

fun coalesce_inbound_events :: "MultiChannelInboundEvent list \<Rightarrow> nat \<Rightarrow> CoalescedInboundEvent list" where
  "coalesce_inbound_events [] w = []"
| "coalesce_inbound_events (source_event # rest) w = coalesce_loop w (new_batch w source_event) rest"

subsection \<open>Configuration, summary and health\<close>

record MultiChannelRuntimeConfig =
  rc_queue_limit :: nat
  rc_processed_event_cap :: nat
  rc_retry_max_attempts :: nat
  rc_retry_base_delay_ms :: nat
  rc_retry_jitter_ms :: nat
  rc_coalescing_window_ms :: nat

record PersistEventOutcome =
  po_typing_events_emitted :: nat
  po_presence_events_emitted :: nat
  po_usage_summary_records :: nat
  po_usage_response_chars :: nat
  po_usage_chunks :: nat
  po_usage_estimated_cost_micros :: nat

record MultiChannelRuntimeSummary =
  su_discovered_events :: nat
  su_queued_events :: nat
  su_completed_events :: nat
  su_duplicate_skips :: nat
  su_transient_failures :: nat
  su_retry_attempts :: nat
  su_failed_events :: nat
  su_policy_checked_events :: nat
  su_policy_enforced_events :: nat
  su_policy_allowed_events :: nat
  su_policy_denied_events :: nat
  su_typing_events_emitted :: nat
  su_presence_events_emitted :: nat
  su_usage_summary_records :: nat
  su_usage_response_chars :: nat
  su_usage_chunks :: nat
  su_usage_estimated_cost_micros :: nat

definition empty_summary :: MultiChannelRuntimeSummary where
  "empty_summary =
     \<lparr>su_discovered_events = 0, su_queued_events = 0, su_completed_events = 0, su_duplicate_skips = 0,
      su_transient_failures = 0, su_retry_attempts = 0, su_failed_events = 0, su_policy_checked_events = 0,
      su_policy_enforced_events = 0, su_policy_allowed_events = 0, su_policy_denied_events = 0,
      su_typing_events_emitted = 0, su_presence_events_emitted = 0, su_usage_summary_records = 0,
      su_usage_response_chars = 0, su_usage_chunks = 0, su_usage_estimated_cost_micros = 0\<rparr>"

record TransportHealthSnapshot =
  th_updated_unix_ms :: nat
  th_cycle_duration_ms :: nat
  th_queue_depth :: nat
  th_active_runs :: nat
  th_failure_streak :: nat
  th_last_cycle_discovered :: nat
  th_last_cycle_processed :: nat
  th_last_cycle_completed :: nat
  th_last_cycle_failed :: nat
  th_last_cycle_duplicates :: nat

definition default_health :: TransportHealthSnapshot where
  "default_health =
     \<lparr>th_updated_unix_ms = 0, th_cycle_duration_ms = 0, th_queue_depth = 0, th_active_runs = 0, th_failure_streak = 0,
      th_last_cycle_discovered = 0, th_last_cycle_processed = 0, th_last_cycle_completed = 0,
      th_last_cycle_failed = 0, th_last_cycle_duplicates = 0\<rparr>"

datatype TransportHealthState = Healthy | Degraded | Failing

definition classify :: "TransportHealthSnapshot \<Rightarrow> TransportHealthState" where
  "classify h =
     (if th_failure_streak h \<ge> 3 then Failing
      else if th_failure_streak h > 0 \<or> th_last_cycle_failed h > 0 then Degraded
      else Healthy)"

definition build_transport_health_snapshot :: "nat \<Rightarrow> MultiChannelRuntimeSummary \<Rightarrow> nat \<Rightarrow> nat \<Rightarrow> TransportHealthSnapshot" where
  "build_transport_health_snapshot now summary cycle_duration_ms previous_failure_streak =
     \<lparr>th_updated_unix_ms = now, th_cycle_duration_ms = cycle_duration_ms,
      th_queue_depth = su_discovered_events summary - su_queued_events summary, th_active_runs = 0,
      th_failure_streak = (if su_failed_events summary > 0 then u64_saturating_add previous_failure_streak 1 else 0),
      th_last_cycle_discovered = su_discovered_events summary,
      th_last_cycle_processed = u64_saturating_add
        (u64_saturating_add (su_completed_events summary) (su_failed_events summary)) (su_duplicate_skips summary),
      th_last_cycle_completed = su_completed_events summary, th_last_cycle_failed = su_failed_events summary,
      th_last_cycle_duplicates = su_duplicate_skips summary\<rparr>"

definition cycle_reason_codes :: "MultiChannelRuntimeSummary \<Rightarrow> string list" where
  "cycle_reason_codes s =
     (let issues =
        (if su_discovered_events s > su_queued_events s then [''queue_backpressure_applied''] else [])
        @ (if su_duplicate_skips s > 0 then [''duplicate_events_skipped''] else [])
        @ (if su_retry_attempts s > 0 then [''retry_attempted''] else [])
        @ (if su_transient_failures s > 0 then [''transient_failures_observed''] else [])
        @ (if su_failed_events s > 0 then [''event_processing_failed''] else [])
      in (if issues = [] then [''healthy_cycle''] else issues)
        @ (if su_policy_checked_events s > 0 then
             (if su_policy_enforced_events s > 0 then [''pairing_policy_enforced''] else [''pairing_policy_permissive''])
           else [])
        @ (if su_policy_denied_events s > 0 then [''pairing_policy_denied_events''] else [])
        @ (if su_typing_events_emitted s > 0 \<or> su_presence_events_emitted s > 0 then [''telemetry_lifecycle_emitted''] else [])
        @ (if su_usage_summary_records s > 0 then [''telemetry_usage_summary_emitted''] else []))"

subsection \<open>The runtime\<close>

record 'w MultiChannelRuntime =
  rt_processed_event_keys :: "string list"
  rt_seen_event_keys :: "string set"
  rt_health :: TransportHealthSnapshot
  rt_replay :: replay_file
  rt_world :: 'w

text \<open>What the runtime reads from the world, and one attempt of \<open>persist_event\<close>.\<close>

record ('w, 'k, 'e) cycle_env =
  ce_secure :: "'w \<Rightarrow> 'k secure_env"
  ce_pairing :: "'w \<Rightarrow> 'e pairing_evaluate"
  ce_policy :: "'w \<Rightarrow> MultiChannelPolicyFile json_file"
  ce_now :: "'w \<Rightarrow> nat"
  ce_persist :: "MultiChannelInboundEvent \<Rightarrow> string \<Rightarrow> MultiChannelAccessDecision \<Rightarrow> 'w \<Rightarrow> (string + PersistEventOutcome) \<times> 'w"

text \<open>The state file holds the keys and the health; a missing file, one that does not parse and one of
  another schema version all start afresh.\<close>

abbreviation MULTI_CHANNEL_RUNTIME_STATE_SCHEMA_VERSION :: nat where
  "MULTI_CHANNEL_RUNTIME_STATE_SCHEMA_VERSION \<equiv> 1"

record MultiChannelRuntimeState =
  ms_schema_version :: nat
  ms_processed_event_keys :: "string list"
  ms_health :: TransportHealthSnapshot

definition default_runtime_state :: MultiChannelRuntimeState where
  "default_runtime_state =
     \<lparr>ms_schema_version = MULTI_CHANNEL_RUNTIME_STATE_SCHEMA_VERSION, ms_processed_event_keys = [], ms_health = default_health\<rparr>"

definition load_multi_channel_runtime_state :: "MultiChannelRuntimeState json_file \<Rightarrow> MultiChannelRuntimeState" where
  "load_multi_channel_runtime_state stored =
     (case stored of
        NoFile \<Rightarrow> default_runtime_state
      | OtherFile \<Rightarrow> default_runtime_state
      | JsonFile parsed \<Rightarrow>
          if ms_schema_version parsed \<noteq> MULTI_CHANNEL_RUNTIME_STATE_SCHEMA_VERSION then default_runtime_state else parsed)"

text \<open>\<open>HashSet::insert\<close> tells whether the key is new.\<close>

fun first_seen :: "string set \<Rightarrow> string list \<Rightarrow> string list" where
  "first_seen seen [] = []"
| "first_seen seen (key # rest) =
     (if trim key = [] \<or> trim key \<in> seen then first_seen seen rest
      else trim key # first_seen (insert (trim key) seen) rest)"

definition normalize_processed_keys :: "string list \<Rightarrow> nat \<Rightarrow> string list" where
  "normalize_processed_keys raw cap =
     (let normalized = first_seen {} raw in
      if cap = 0 then [] else if length normalized > cap then drop (length normalized - cap) normalized else normalized)"

definition new_runtime :: "MultiChannelRuntimeConfig \<Rightarrow> MultiChannelRuntimeState json_file \<Rightarrow> replay_file \<Rightarrow> 'w \<Rightarrow> 'w MultiChannelRuntime" where
  "new_runtime config stored replay world =
     (let state = load_multi_channel_runtime_state stored;
          keys = normalize_processed_keys (ms_processed_event_keys state) (rc_processed_event_cap config)
      in \<lparr>rt_processed_event_keys = keys, rt_seen_event_keys = set keys, rt_health = ms_health state,
          rt_replay = replay, rt_world = world\<rparr>)"

definition record_processed_event :: "nat \<Rightarrow> string \<Rightarrow> 'w MultiChannelRuntime \<Rightarrow> 'w MultiChannelRuntime" where
  "record_processed_event cap event_key rt =
     (if event_key \<in> rt_seen_event_keys rt then rt
      else
        (let keys = rt_processed_event_keys rt @ [event_key];
             seen = insert event_key (rt_seen_event_keys rt)
         in if length keys > cap then
              (let overflow = length keys - cap in
               rt\<lparr>rt_processed_event_keys := drop overflow keys, rt_seen_event_keys := seen - set (take overflow keys)\<rparr>)
            else rt\<lparr>rt_processed_event_keys := keys, rt_seen_event_keys := seen\<rparr>))"

definition simulated_transient_failures :: "MultiChannelInboundEvent \<Rightarrow> nat" where
  "simulated_transient_failures event =
     (case Option.bind (map_of (ev_metadata event) ''simulate_transient_failures'') as_u64 of Some n \<Rightarrow> n | None \<Rightarrow> 0)"

text \<open>The delay before a retry; the hash of the seed and the attempt is an argument.\<close>

definition retry_delay_ms :: "(string \<Rightarrow> nat \<Rightarrow> nat) \<Rightarrow> nat \<Rightarrow> nat \<Rightarrow> nat \<Rightarrow> string \<Rightarrow> nat" where
  "retry_delay_ms digest base_delay_ms jitter_ms attempt jitter_seed =
     (if base_delay_ms = 0 then 0
      else
        (let base_delay = u64_saturating_mul base_delay_ms (2 ^ min (attempt - 1) 10) in
         if jitter_ms = 0 then base_delay
         else u64_saturating_add base_delay (digest jitter_seed attempt mod u64_saturating_add jitter_ms 1)))"

definition bump :: "nat \<Rightarrow> nat" where
  "bump n = u64_saturating_add n 1"

definition count_outcome ::
  "PersistEventOutcome \<Rightarrow> MultiChannelAccessDecision \<Rightarrow> MultiChannelRuntimeSummary \<Rightarrow> MultiChannelRuntimeSummary" where
  "count_outcome outcome access s =
     (let t = s\<lparr>su_completed_events := bump (su_completed_events s),
                su_typing_events_emitted := u64_saturating_add (su_typing_events_emitted s) (po_typing_events_emitted outcome),
                su_presence_events_emitted := u64_saturating_add (su_presence_events_emitted s) (po_presence_events_emitted outcome),
                su_usage_summary_records := u64_saturating_add (su_usage_summary_records s) (po_usage_summary_records outcome),
                su_usage_response_chars := u64_saturating_add (su_usage_response_chars s) (po_usage_response_chars outcome),
                su_usage_chunks := u64_saturating_add (su_usage_chunks s) (po_usage_chunks outcome),
                su_usage_estimated_cost_micros :=
                  u64_saturating_add (su_usage_estimated_cost_micros s) (po_usage_estimated_cost_micros outcome)\<rparr>
      in case ad_final_decision access of
           ChannelAllow _ \<Rightarrow> t\<lparr>su_policy_allowed_events := bump (su_policy_allowed_events t)\<rparr>
         | ChannelDeny _ \<Rightarrow> t\<lparr>su_policy_denied_events := bump (su_policy_denied_events t)\<rparr>)"

definition count_failed :: "MultiChannelRuntimeSummary \<Rightarrow> MultiChannelRuntimeSummary" where
  "count_failed s = s\<lparr>su_failed_events := bump (su_failed_events s)\<rparr>"

definition count_transient :: "MultiChannelRuntimeSummary \<Rightarrow> MultiChannelRuntimeSummary" where
  "count_transient s = s\<lparr>su_transient_failures := bump (su_transient_failures s)\<rparr>"

definition count_retry :: "MultiChannelRuntimeSummary \<Rightarrow> MultiChannelRuntimeSummary" where
  "count_retry s = s\<lparr>su_retry_attempts := bump (su_retry_attempts s)\<rparr>"

text \<open>The attempts for one batch. The result tells whether the event was persisted.\<close>

function attempt_loop ::
  "MultiChannelRuntimeConfig \<Rightarrow> ('w \<Rightarrow> (string + PersistEventOutcome) \<times> 'w) \<Rightarrow> MultiChannelAccessDecision \<Rightarrow> nat \<Rightarrow> nat
     \<Rightarrow> MultiChannelRuntimeSummary \<Rightarrow> 'w \<Rightarrow> bool \<times> MultiChannelRuntimeSummary \<times> 'w" where
  "attempt_loop config persist access simulated attempt summary world =
     (if attempt \<le> simulated then
        (let s = count_transient summary in
         if attempt \<ge> rc_retry_max_attempts config then (False, count_failed s, world)
         else attempt_loop config persist access simulated (attempt + 1) (count_retry s) world)
      else
        (case persist world of
           (Inr outcome, world') \<Rightarrow> (True, count_outcome outcome access summary, world')
         | (Inl _, world') \<Rightarrow>
             if attempt \<ge> rc_retry_max_attempts config then (False, count_failed summary, world')
             else attempt_loop config persist access simulated (attempt + 1) (count_retry (count_transient summary)) world'))"
  by pat_completeness auto
termination
  by (relation "measure (\<lambda>(config, _, _, _, attempt, _, _). rc_retry_max_attempts config - attempt)") auto

declare attempt_loop.simps [simp del]

definition batch_key :: "CoalescedInboundEvent \<Rightarrow> string" where
  "batch_key batch =
     (case co_source_event_keys batch of [] \<Rightarrow> event_contract_key (co_event batch) | k # _ \<Rightarrow> k)"

definition handle_batch ::
  "('w, 'k, 'e) cycle_env \<Rightarrow> MultiChannelRuntimeConfig \<Rightarrow> MultiChannelPolicyFile option \<Rightarrow> CoalescedInboundEvent
     \<Rightarrow> MultiChannelRuntimeSummary \<Rightarrow> 'w MultiChannelRuntime \<Rightarrow> MultiChannelRuntimeSummary \<times> 'w MultiChannelRuntime" where
  "handle_batch env config policy batch summary rt =
     (let event = co_event batch; world = rt_world rt;
          (access, replay) = evaluate_access_decision (ce_secure env world) (ce_pairing env world) event
             (ce_now env world) policy (rt_replay rt);
          checked = summary\<lparr>su_policy_checked_events := bump (su_policy_checked_events summary)\<rparr>;
          enforced = (if ad_policy_enforced access
            then checked\<lparr>su_policy_enforced_events := bump (su_policy_enforced_events checked)\<rparr> else checked);
          (persisted, summary', world') = attempt_loop config (ce_persist env event (batch_key batch) access) access
             (simulated_transient_failures event) 1 enforced world;
          rt' = rt\<lparr>rt_replay := replay, rt_world := world'\<rparr>
      in (summary', if persisted
                    then fold (record_processed_event (rc_processed_event_cap config)) (co_source_event_keys batch) rt'
                    else rt'))"

definition process_batch ::
  "('w, 'k, 'e) cycle_env \<Rightarrow> MultiChannelRuntimeConfig \<Rightarrow> MultiChannelPolicyFile option \<Rightarrow> CoalescedInboundEvent
     \<Rightarrow> MultiChannelRuntimeSummary \<times> 'w MultiChannelRuntime \<Rightarrow> MultiChannelRuntimeSummary \<times> 'w MultiChannelRuntime" where
  "process_batch env config policy batch acc =
     (let (summary, rt) = acc; keys = co_source_event_keys batch in
      if list_all (\<lambda>k. k \<in> rt_seen_event_keys rt) keys then
        (summary\<lparr>su_duplicate_skips := u64_saturating_add (su_duplicate_skips summary) (length keys)\<rparr>, rt)
      else handle_batch env config policy batch summary rt)"

definition queue_events :: "MultiChannelRuntimeConfig \<Rightarrow> MultiChannelInboundEvent list \<Rightarrow> MultiChannelInboundEvent list" where
  "queue_events config source_events =
     take (rc_queue_limit config) (sort_key (\<lambda>e. (ev_timestamp_ms e, event_contract_key e)) source_events)"

definition run_batches ::
  "('w, 'k, 'e) cycle_env \<Rightarrow> MultiChannelRuntimeConfig \<Rightarrow> MultiChannelPolicyFile option \<Rightarrow> CoalescedInboundEvent list
     \<Rightarrow> MultiChannelRuntimeSummary \<times> 'w MultiChannelRuntime \<Rightarrow> MultiChannelRuntimeSummary \<times> 'w MultiChannelRuntime" where
  "run_batches env config policy batches acc = fold (process_batch env config policy) batches acc"

definition run_once_events ::
  "('w, 'k, 'e) cycle_env \<Rightarrow> MultiChannelRuntimeConfig \<Rightarrow> nat \<Rightarrow> MultiChannelInboundEvent list \<Rightarrow> 'w MultiChannelRuntime
     \<Rightarrow> MultiChannelRuntimeSummary \<times> 'w MultiChannelRuntime" where
  "run_once_events env config cycle_duration_ms source_events rt =
     (let queued = queue_events config source_events;
          summary = empty_summary\<lparr>su_discovered_events := length source_events, su_queued_events := length queued\<rparr>;
          policy = (case load_multi_channel_policy_file (ce_policy env (rt_world rt)) of Inr f \<Rightarrow> Some f | Inl _ \<Rightarrow> None);
          (summary', rt') = run_batches env config policy
             (coalesce_inbound_events queued (rc_coalescing_window_ms config)) (summary, rt);
          health = build_transport_health_snapshot (ce_now env (rt_world rt')) summary' cycle_duration_ms
             (th_failure_streak (rt_health rt'))
      in (summary', rt'\<lparr>rt_health := health\<rparr>))"

definition runtime_state_of :: "'w MultiChannelRuntime \<Rightarrow> MultiChannelRuntimeState" where
  "runtime_state_of rt =
     \<lparr>ms_schema_version = MULTI_CHANNEL_RUNTIME_STATE_SCHEMA_VERSION,
      ms_processed_event_keys = rt_processed_event_keys rt, ms_health = rt_health rt\<rparr>"

subsection \<open>Coalescing loses and repeats nothing\<close>

text \<open>What a batch says of the events it was built from.\<close>

definition chained :: "nat \<Rightarrow> MultiChannelInboundEvent \<Rightarrow> MultiChannelInboundEvent \<Rightarrow> bool" where
  "chained w a b \<longleftrightarrow> w > 0 \<and> ev_transport a = ev_transport b
     \<and> trim (ev_conversation_id a) = trim (ev_conversation_id b) \<and> trim (ev_actor_id a) = trim (ev_actor_id b)
     \<and> ev_timestamp_ms a \<le> ev_timestamp_ms b \<and> ev_timestamp_ms b \<le> ev_timestamp_ms a + w"

definition covers :: "nat \<Rightarrow> CoalescedInboundEvent \<Rightarrow> MultiChannelInboundEvent list \<Rightarrow> bool" where
  "covers w batch part \<longleftrightarrow> part \<noteq> [] \<and> successively (chained w) part
     \<and> co_source_event_keys batch = map event_contract_key part
     \<and> co_source_event_ids batch = map (\<lambda>e. trim (ev_event_id e)) part
     \<and> ev_attachments (co_event batch) = concat (map ev_attachments part)
     \<and> ev_timestamp_ms (co_event batch) = ev_timestamp_ms (last part)
     \<and> ev_event_id (co_event batch) = ev_event_id (hd part)
     \<and> ev_event_kind (co_event batch) = ev_event_kind (hd part)
     \<and> ev_transport (co_event batch) = ev_transport (last part)
     \<and> trim (ev_conversation_id (co_event batch)) = trim (ev_conversation_id (last part))
     \<and> trim (ev_actor_id (co_event batch)) = trim (ev_actor_id (last part))"

lemma annotate_simps [simp]:
  "co_source_event_keys (annotate_coalesced_event_metadata w b) = co_source_event_keys b"
  "co_source_event_ids (annotate_coalesced_event_metadata w b) = co_source_event_ids b"
  "ev_transport (co_event (annotate_coalesced_event_metadata w b)) = ev_transport (co_event b)"
  "ev_event_kind (co_event (annotate_coalesced_event_metadata w b)) = ev_event_kind (co_event b)"
  "ev_event_id (co_event (annotate_coalesced_event_metadata w b)) = ev_event_id (co_event b)"
  "ev_conversation_id (co_event (annotate_coalesced_event_metadata w b)) = ev_conversation_id (co_event b)"
  "ev_actor_id (co_event (annotate_coalesced_event_metadata w b)) = ev_actor_id (co_event b)"
  "ev_timestamp_ms (co_event (annotate_coalesced_event_metadata w b)) = ev_timestamp_ms (co_event b)"
  "ev_text (co_event (annotate_coalesced_event_metadata w b)) = ev_text (co_event b)"
  "ev_attachments (co_event (annotate_coalesced_event_metadata w b)) = ev_attachments (co_event b)"
  by (simp_all add: annotate_coalesced_event_metadata_def Let_def)

lemma new_batch_covers: "covers w (new_batch w e) [e]"
  by (simp add: new_batch_def covers_def)

lemma extend_batch_covers:
  assumes "covers w b part" "should_coalesce_events (co_event b) e w"
  shows "covers w (extend_batch w b e) (part @ [e])"
  using assms
  by (auto simp: extend_batch_def covers_def merge_event_def should_coalesce_events_def chained_def
      successively_append_iff split: if_splits)

lemma coalesce_loop_covers:
  assumes "covers w b part"
  shows "\<exists>parts. concat parts = part @ es \<and> list_all2 (covers w) (coalesce_loop w b es) parts"
  using assms
proof (induction w b es arbitrary: part rule: coalesce_loop.induct)
  case (1 w b)
  then show ?case by (intro exI [of _ "[part]"]) simp
next
  case (2 w b e rest)
  show ?case
  proof (cases "should_coalesce_events (co_event b) e w")
    case True
    with 2 extend_batch_covers show ?thesis by fastforce
  next
    case False
    with 2(2) [OF False new_batch_covers] obtain parts where
      "concat parts = e # rest" "list_all2 (covers w) (coalesce_loop w (new_batch w e) rest) parts" by auto
    with False 2(3) show ?thesis by (intro exI [of _ "part # parts"]) simp
  qed
qed

lemma coalesce_covers: "\<exists>parts. concat parts = es \<and> list_all2 (covers w) (coalesce_inbound_events es w) parts"
proof (cases es)
  case (Cons e rest)
  with coalesce_loop_covers [OF new_batch_covers [of w e], of rest] show ?thesis by simp
qed simp

text \<open>C37. Coalescing partitions the queue: the batches are built from consecutive, non-empty pieces of the
  queue that give the whole queue back in order; inside a piece every event follows its predecessor within
  the window, from the same actor in the same conversation; a batch carries the keys, ids and attachments
  of all its events and the identity of the first. A window of zero gives every event its own batch.\<close>

theorem coalescing_partitions_queue:
  "(\<exists>parts. concat parts = events \<and> list_all2 (covers window) (coalesce_inbound_events events window) parts)
   \<and> concat (map co_source_event_keys (coalesce_inbound_events events window)) = map event_contract_key events
   \<and> map co_source_event_keys (coalesce_inbound_events events 0) = map (\<lambda>e. [event_contract_key e]) events"
proof -
  from coalesce_covers [of events window] obtain parts where
    parts: "concat parts = events" "list_all2 (covers window) (coalesce_inbound_events events window) parts" by blast
  from parts(2) have "concat (map co_source_event_keys (coalesce_inbound_events events window))
      = map event_contract_key (concat parts)"
    by (induction rule: list_all2_induct) (auto simp: covers_def)
  moreover have "map co_source_event_keys (coalesce_loop 0 b es) =
      co_source_event_keys b # map (\<lambda>e. [event_contract_key e]) es" for b es
    by (induction "0::nat" b es rule: coalesce_loop.induct) (auto simp: should_coalesce_events_def new_batch_def)
  then have "map co_source_event_keys (coalesce_inbound_events events 0) = map (\<lambda>e. [event_contract_key e]) events"
    by (cases events) (auto simp: new_batch_def)
  ultimately show ?thesis using parts by blast
qed

subsection \<open>The processed keys\<close>

definition clean_key :: "string \<Rightarrow> bool" where
  "clean_key k \<longleftrightarrow> trim k = k \<and> k \<noteq> []"

definition keys_ok :: "nat \<Rightarrow> 'w MultiChannelRuntime \<Rightarrow> bool" where
  "keys_ok cap rt \<longleftrightarrow> distinct (rt_processed_event_keys rt) \<and> rt_seen_event_keys rt = set (rt_processed_event_keys rt)
     \<and> length (rt_processed_event_keys rt) \<le> cap \<and> list_all clean_key (rt_processed_event_keys rt)"

lemma event_contract_key_clean: "clean_key (event_contract_key e)"
proof -
  have "trim ((transport_str (ev_transport e) @ '':'') @ trim (ev_event_id e)) =
      (transport_str (ev_transport e) @ '':'') @ trim (ev_event_id e)"
    by (rule trim_label; cases "ev_transport e") simp_all
  then show ?thesis by (simp add: clean_key_def event_contract_key_def)
qed

lemma first_seen_props:
  "distinct (first_seen seen ks) \<and> set (first_seen seen ks) \<inter> seen = {} \<and> list_all clean_key (first_seen seen ks)"
  by (induction seen ks rule: first_seen.induct) (auto simp: clean_key_def)

lemma first_seen_clean:
  "distinct ks \<Longrightarrow> list_all clean_key ks \<Longrightarrow> set ks \<inter> seen = {} \<Longrightarrow> first_seen seen ks = ks"
  by (induction seen ks rule: first_seen.induct) (auto simp: clean_key_def)

lemma list_all_drop: "list_all P xs \<Longrightarrow> list_all P (drop n xs)"
  by (auto simp: list_all_iff dest: in_set_dropD)

lemma normalize_props:
  "distinct (normalize_processed_keys raw cap) \<and> length (normalize_processed_keys raw cap) \<le> cap
   \<and> list_all clean_key (normalize_processed_keys raw cap)"
  using first_seen_props [of "{}" raw] by (auto simp: normalize_processed_keys_def Let_def list_all_drop)

lemma normalize_clean:
  "distinct ks \<Longrightarrow> list_all clean_key ks \<Longrightarrow> length ks \<le> cap \<Longrightarrow> normalize_processed_keys ks cap = ks"
  by (auto simp: normalize_processed_keys_def first_seen_clean)

lemma new_runtime_ok: "keys_ok (rc_processed_event_cap config) (new_runtime config stored replay world)"
  using normalize_props by (auto simp: new_runtime_def keys_ok_def Let_def)

lemma set_drop_distinct: "distinct xs \<Longrightarrow> set (drop n xs) = set xs - set (take n xs)"
  using append_take_drop_id [of n xs] by (metis Diff_cancel Diff_triv Un_Diff distinct_append inf_commute set_append sup_bot_left)

lemma record_processed_event_eq:
  assumes "keys_ok cap rt" "k \<notin> rt_seen_event_keys rt"
  defines "ks \<equiv> rt_processed_event_keys rt @ [k]"
  shows "record_processed_event cap k rt =
    rt\<lparr>rt_processed_event_keys := drop (length ks - cap) ks, rt_seen_event_keys := set (drop (length ks - cap) ks)\<rparr>"
proof -
  have "distinct ks" using assms by (simp add: keys_ok_def)
  then have "set (drop n ks) = insert k (rt_seen_event_keys rt) - set (take n ks)" for n
    using assms(1) by (simp add: set_drop_distinct) (simp add: keys_ok_def ks_def)
  from this [of "length ks - cap"] assms(2) show ?thesis
    by (auto simp: record_processed_event_def Let_def ks_def [symmetric])
qed

lemma record_processed_event_ok:
  assumes "keys_ok cap rt" "clean_key k"
  shows "keys_ok cap (record_processed_event cap k rt)"
proof (cases "k \<in> rt_seen_event_keys rt")
  case False
  let ?ks = "rt_processed_event_keys rt @ [k]"
  have "distinct ?ks" "list_all clean_key ?ks" using assms False by (simp_all add: keys_ok_def)
  then show ?thesis
    unfolding record_processed_event_eq [OF assms(1) False] keys_ok_def
    by (simp add: distinct_drop list_all_drop del: drop_append)
qed (use assms in \<open>simp add: record_processed_event_def\<close>)

lemma fold_record_ok:
  "keys_ok cap rt \<Longrightarrow> list_all clean_key ks \<Longrightarrow> keys_ok cap (fold (record_processed_event cap) ks rt)"
  by (induction ks arbitrary: rt) (auto simp: record_processed_event_ok)

lemma keys_ok_world [simp]: "keys_ok cap (rt\<lparr>rt_replay := r, rt_world := w\<rparr>) = keys_ok cap rt"
  "keys_ok cap (rt\<lparr>rt_health := h\<rparr>) = keys_ok cap rt"
  by (simp_all add: keys_ok_def)

lemma process_batch_ok:
  assumes "keys_ok (rc_processed_event_cap config) (snd acc)" "list_all clean_key (co_source_event_keys batch)"
  shows "keys_ok (rc_processed_event_cap config) (snd (process_batch env config policy batch acc))"
  using assms by (simp add: process_batch_def handle_batch_def Let_def split_beta fold_record_ok)

lemma run_batches_ok:
  assumes "keys_ok (rc_processed_event_cap config) (snd acc)"
    "list_all (\<lambda>b. list_all clean_key (co_source_event_keys b)) batches"
  shows "keys_ok (rc_processed_event_cap config) (snd (run_batches env config policy batches acc))"
  using assms unfolding run_batches_def
  by (induction batches arbitrary: acc) (auto simp: process_batch_ok)

lemma batches_clean: "list_all (\<lambda>b. list_all clean_key (co_source_event_keys b)) (coalesce_inbound_events es w)"
proof -
  from coalesce_covers [of es w] obtain parts where "list_all2 (covers w) (coalesce_inbound_events es w) parts" by blast
  then show ?thesis
    by (induction rule: list_all2_induct) (auto simp: covers_def list_all_iff event_contract_key_clean)
qed

lemma run_once_ok:
  assumes "keys_ok (rc_processed_event_cap config) rt"
  shows "keys_ok (rc_processed_event_cap config) (snd (run_once_events env config d es rt))"
  using assms by (simp add: run_once_events_def Let_def split_beta run_batches_ok [OF _ batches_clean])

text \<open>The runs of the runtime: it starts from any state file, runs cycles over any events, and is restarted
  from the file it saved; between cycles anything may happen to the world and to the replay file.\<close>

inductive channel_run :: "('w, 'k, 'e) cycle_env \<Rightarrow> MultiChannelRuntimeConfig \<Rightarrow> 'w MultiChannelRuntime \<Rightarrow> bool"
  for env :: "('w, 'k, 'e) cycle_env" and config :: MultiChannelRuntimeConfig where
  start: "channel_run env config (new_runtime config stored replay world)"
| cycle: "channel_run env config rt \<Longrightarrow> channel_run env config (snd (run_once_events env config d events rt))"
| restart: "channel_run env config rt \<Longrightarrow>
    channel_run env config (new_runtime config (JsonFile (runtime_state_of rt)) replay world)"
| elsewhere: "channel_run env config rt \<Longrightarrow> channel_run env config (rt\<lparr>rt_replay := replay, rt_world := world\<rparr>)"

lemma channel_run_ok: "channel_run env config rt \<Longrightarrow> keys_ok (rc_processed_event_cap config) rt"
  by (induction rule: channel_run.induct) (auto simp: new_runtime_ok run_once_ok)

lemma restart_same:
  assumes "keys_ok (rc_processed_event_cap config) rt"
  shows "new_runtime config (JsonFile (runtime_state_of rt)) (rt_replay rt) (rt_world rt) = rt"
  using assms normalize_clean
  by (auto simp: new_runtime_def keys_ok_def runtime_state_of_def load_multi_channel_runtime_state_def Let_def)

text \<open>C20. In every run of the runtime the list of processed keys has no duplicates, never exceeds its cap
  and agrees with the set used for lookups; and a restart from the saved state file gives back exactly the
  runtime that saved it.\<close>

theorem processed_keys_invariant:
  assumes "channel_run env config rt"
  shows "distinct (rt_processed_event_keys rt) \<and> rt_seen_event_keys rt = set (rt_processed_event_keys rt)
    \<and> length (rt_processed_event_keys rt) \<le> rc_processed_event_cap config
    \<and> new_runtime config (JsonFile (runtime_state_of rt)) (rt_replay rt) (rt_world rt) = rt"
  using channel_run_ok [OF assms] restart_same [OF channel_run_ok [OF assms]] by (auto simp: keys_ok_def)

text \<open>A runtime whose world is the list of persisted texts, and where persistence always succeeds.\<close>

definition no_outcome :: PersistEventOutcome where
  "no_outcome = \<lparr>po_typing_events_emitted = 0, po_presence_events_emitted = 0, po_usage_summary_records = 0,
     po_usage_response_chars = 0, po_usage_chunks = 0, po_usage_estimated_cost_micros = 0\<rparr>"

definition log_env :: "(string list, unit, unit) cycle_env" where
  "log_env = \<lparr>ce_secure = (\<lambda>_. \<lparr>en_crypto = sample_crypto, en_from_value = (\<lambda>_. None), en_trust = NoFile, en_written = True,
       en_state_dir = []\<rparr>),
     ce_pairing = (\<lambda>_ _ _ _. Inr (ChannelAllow ''allow_permissive_mode'')), ce_policy = (\<lambda>_. NoFile), ce_now = (\<lambda>_. 1000),
     ce_persist = (\<lambda>event _ _ w. (Inr no_outcome, w @ [ev_text event]))\<rparr>"

definition log_config :: "nat \<Rightarrow> nat \<Rightarrow> MultiChannelRuntimeConfig" where
  "log_config limit window = \<lparr>rc_queue_limit = limit, rc_processed_event_cap = 8, rc_retry_max_attempts = 2, rc_retry_base_delay_ms = 0,
     rc_retry_jitter_ms = 0, rc_coalescing_window_ms = window\<rparr>"

definition hello :: "string \<Rightarrow> nat \<Rightarrow> MultiChannelInboundEvent" where
  "hello event_id timestamp = \<lparr>ev_schema_version = 1, ev_transport = Telegram, ev_event_kind = MessageEvent,
     ev_event_id = event_id, ev_conversation_id = ''c'', ev_thread_id = [], ev_actor_id = ''a'', ev_actor_display = [],
     ev_timestamp_ms = timestamp, ev_text = event_id, ev_attachments = [], ev_metadata = []\<rparr>"

theorem processed_keys_invariant_witness:
  "rt_seen_event_keys (snd (run_once_events log_env (log_config 2 0) 5 [hello ''m1'' 7]
       (new_runtime (log_config 2 0) NoFile NoFile [])))
   = set (rt_processed_event_keys (snd (run_once_events log_env (log_config 2 0) 5 [hello ''m1'' 7]
       (new_runtime (log_config 2 0) NoFile NoFile []))))"
  using processed_keys_invariant [OF channel_run.cycle [of log_env "log_config 2 0" _ 5 "[hello ''m1'' 7]", OF channel_run.start]]
  by blast

subsection \<open>Processed events are not processed again\<close>

lemma run_batches_Nil [simp]: "run_batches env config policy [] acc = acc"
  and run_batches_Cons [simp]: "run_batches env config policy (b # bs) acc =
    run_batches env config policy bs (process_batch env config policy b acc)"
  by (simp_all add: run_batches_def)

lemma saturating_chain: "u64_saturating_add (u64_saturating_add a b) c = u64_saturating_add a (b + c)"
  by (simp add: u64_saturating_add_def)

lemma run_batches_inert:
  assumes "list_all (\<lambda>b. list_all (\<lambda>k. k \<in> rt_seen_event_keys rt) (co_source_event_keys b)) batches"
    "su_duplicate_skips s \<le> u64_max"
  shows "run_batches env config policy batches (s, rt) =
    (s\<lparr>su_duplicate_skips := u64_saturating_add (su_duplicate_skips s) (length (concat (map co_source_event_keys batches)))\<rparr>, rt)"
  using assms
proof (induction batches arbitrary: s)
  case Nil
  then show ?case by (simp add: u64_saturating_add_def)
next
  case (Cons b bs)
  have "u64_saturating_add a n \<le> u64_max" for a n by (rule u64_saturating_add_le)
  with Cons show ?case by (simp add: process_batch_def saturating_chain)
qed

lemma coalesced_keys: "concat (map co_source_event_keys (coalesce_inbound_events es w)) = map event_contract_key es"
proof -
  from coalesce_covers [of es w] obtain parts where
    parts: "concat parts = es" "list_all2 (covers w) (coalesce_inbound_events es w) parts" by blast
  from parts(2) have "concat (map co_source_event_keys (coalesce_inbound_events es w)) = map event_contract_key (concat parts)"
    by (induction rule: list_all2_induct) (auto simp: covers_def)
  with parts(1) show ?thesis by simp
qed

lemma list_all_concat: "list_all (\<lambda>b. list_all P (f b)) bs \<longleftrightarrow> list_all P (concat (map f bs))"
  by (induction bs) auto

lemma run_once_inert:
  assumes "list_all (\<lambda>e. event_contract_key e \<in> rt_seen_event_keys rt) (queue_events config es)"
  shows "snd (run_once_events env config d es rt) = rt\<lparr>rt_health := rt_health (snd (run_once_events env config d es rt))\<rparr>"
    "fst (run_once_events env config d es rt) =
       empty_summary\<lparr>su_discovered_events := length es, su_queued_events := length (queue_events config es),
         su_duplicate_skips := min (length (queue_events config es)) u64_max\<rparr>"
proof -
  have "list_all (\<lambda>b. list_all (\<lambda>k. k \<in> rt_seen_event_keys rt) (co_source_event_keys b))
      (coalesce_inbound_events (queue_events config es) (rc_coalescing_window_ms config))"
    using assms unfolding list_all_concat coalesced_keys by (simp add: list_all_iff)
  note run = run_batches_inert [OF this, of _ env config]
  show "snd (run_once_events env config d es rt) = rt\<lparr>rt_health := rt_health (snd (run_once_events env config d es rt))\<rparr>"
    "fst (run_once_events env config d es rt) =
       empty_summary\<lparr>su_discovered_events := length es, su_queued_events := length (queue_events config es),
         su_duplicate_skips := min (length (queue_events config es)) u64_max\<rparr>"
    by (simp_all add: run_once_events_def Let_def split_beta run coalesced_keys empty_summary_def u64_saturating_add_def)
qed

text \<open>The counters one batch moves.\<close>

lemma count_simps [simp]:
  "su_failed_events (count_outcome outcome access s) = su_failed_events s"
  "su_completed_events (count_outcome outcome access s) = bump (su_completed_events s)"
  "su_policy_checked_events (count_outcome outcome access s) = su_policy_checked_events s"
  "su_policy_enforced_events (count_outcome outcome access s) = su_policy_enforced_events s"
  "su_retry_attempts (count_outcome outcome access s) = su_retry_attempts s"
  "su_policy_allowed_events (count_outcome outcome access s) =
     (if is_channel_allow (ad_final_decision access) then bump (su_policy_allowed_events s) else su_policy_allowed_events s)"
  "su_policy_denied_events (count_outcome outcome access s) =
     (if is_channel_allow (ad_final_decision access) then su_policy_denied_events s else bump (su_policy_denied_events s))"
  by (simp_all add: count_outcome_def Let_def split: MultiChannelPairingDecision.split)

lemmas count_defs = count_failed_def count_transient_def count_retry_def

text \<open>What the attempts for one batch do to the counters.\<close>

definition attempts_counted ::
  "MultiChannelRuntimeConfig \<Rightarrow> MultiChannelAccessDecision \<Rightarrow> nat \<Rightarrow> MultiChannelRuntimeSummary \<Rightarrow> bool
     \<Rightarrow> MultiChannelRuntimeSummary \<Rightarrow> bool" where
  "attempts_counted config access attempt s persisted s' \<longleftrightarrow>
     su_failed_events s' = (if persisted then su_failed_events s else bump (su_failed_events s))
     \<and> su_completed_events s' = (if persisted then bump (su_completed_events s) else su_completed_events s)
     \<and> su_policy_allowed_events s' = (if persisted \<and> is_channel_allow (ad_final_decision access)
          then bump (su_policy_allowed_events s) else su_policy_allowed_events s)
     \<and> su_policy_denied_events s' = (if persisted \<and> \<not> is_channel_allow (ad_final_decision access)
          then bump (su_policy_denied_events s) else su_policy_denied_events s)
     \<and> su_policy_checked_events s' = su_policy_checked_events s
     \<and> su_policy_enforced_events s' = su_policy_enforced_events s
     \<and> su_retry_attempts s' \<le> su_retry_attempts s + (rc_retry_max_attempts config - attempt)"

lemma bump_le: "bump n \<le> n + 1"
  by (simp add: bump_def u64_saturating_add_def)

lemma attempts_counted_retry:
  assumes "attempts_counted config access (attempt + 1) (count_retry (count_transient s)) persisted s'"
    "attempt < rc_retry_max_attempts config"
  shows "attempts_counted config access attempt s persisted s'"
  using assms bump_le [of "su_retry_attempts s"] by (auto simp: attempts_counted_def count_defs)

lemma attempt_loop_counts:
  "attempt_loop config persist access simulated attempt s w = (persisted, s', w') \<Longrightarrow>
     attempts_counted config access attempt s persisted s'"
proof (induction config persist access simulated attempt s w arbitrary: persisted s' w' rule: attempt_loop.induct)
  case (1 config persist access simulated attempt s w)
  note step = 1(3) [unfolded attempt_loop.simps [of config persist access simulated attempt s w] Let_def]
  show ?case
  proof (cases "attempt < rc_retry_max_attempts config")
    case False
    with step show ?thesis
      by (cases "persist w"; cases "fst (persist w)"; cases "attempt \<le> simulated")
        (auto simp: attempts_counted_def count_defs)
  next
    case True
    show ?thesis
    proof (cases "attempt \<le> simulated")
      case sim: True
      with True step have "attempt_loop config persist access simulated (attempt + 1) (count_retry (count_transient s)) w
          = (persisted, s', w')" by simp
      then have "attempts_counted config access (attempt + 1) (count_retry (count_transient s)) persisted s'"
        using 1(1) [OF sim refl _, of persisted s' w'] True by linarith
      then show ?thesis using True by (rule attempts_counted_retry)
    next
      case sim: False
      obtain r w1 where p: "persist w = (r, w1)" by fastforce
      show ?thesis
      proof (cases r)
        case (Inl e)
        with True sim step p have
          "attempt_loop config persist access simulated (attempt + 1) (count_retry (count_transient s)) w1 = (persisted, s', w')"
          by simp
        then have "attempts_counted config access (attempt + 1) (count_retry (count_transient s)) persisted s'"
          using 1(2) [OF sim p [symmetric] Inl, of persisted s' w'] True by linarith
        then show ?thesis using True by (rule attempts_counted_retry)
      next
        case (Inr outcome)
        with sim step p show ?thesis by (auto simp: attempts_counted_def)
      qed
    qed
  qed
qed

lemma handle_batch_counts:
  assumes "handle_batch env config policy b s rt = (s', rt')"
  obtains access persisted t where "attempts_counted config access 1 t persisted s'"
    "su_policy_checked_events t = bump (su_policy_checked_events s)"
    "su_policy_enforced_events t \<le> su_policy_enforced_events s + 1"
    "su_failed_events t = su_failed_events s" "su_completed_events t = su_completed_events s"
    "su_policy_allowed_events t = su_policy_allowed_events s" "su_policy_denied_events t = su_policy_denied_events s"
    "su_retry_attempts t = su_retry_attempts s"
    "persisted \<longrightarrow> (\<exists>r w. rt' = fold (record_processed_event (rc_processed_event_cap config)) (co_source_event_keys b)
       (rt\<lparr>rt_replay := r, rt_world := w\<rparr>))"
proof -
  let ?event = "co_event b"
  obtain access replay where a: "evaluate_access_decision (ce_secure env (rt_world rt)) (ce_pairing env (rt_world rt)) ?event
      (ce_now env (rt_world rt)) policy (rt_replay rt) = (access, replay)" by fastforce
  define t where "t = (if ad_policy_enforced access
    then s\<lparr>su_policy_checked_events := bump (su_policy_checked_events s), su_policy_enforced_events := bump (su_policy_enforced_events s)\<rparr>
    else s\<lparr>su_policy_checked_events := bump (su_policy_checked_events s)\<rparr>)"
  obtain persisted s1 w' where l: "attempt_loop config (ce_persist env ?event (batch_key b) access) access
      (simulated_transient_failures ?event) 1 t (rt_world rt) = (persisted, s1, w')" by (metis prod.collapse)
  have t: "(if ad_policy_enforced access
      then (s\<lparr>su_policy_checked_events := bump (su_policy_checked_events s)\<rparr>)\<lparr>su_policy_enforced_events :=
        bump (su_policy_enforced_events (s\<lparr>su_policy_checked_events := bump (su_policy_checked_events s)\<rparr>))\<rparr>
      else s\<lparr>su_policy_checked_events := bump (su_policy_checked_events s)\<rparr>) = t"
    by (simp add: t_def)
  have s1: "s1 = s'" and rt': "rt' = (if persisted
      then fold (record_processed_event (rc_processed_event_cap config)) (co_source_event_keys b)
        (rt\<lparr>rt_replay := replay, rt_world := w'\<rparr>) else rt\<lparr>rt_replay := replay, rt_world := w'\<rparr>)"
    using assms unfolding handle_batch_def Let_def a t prod.case l by simp_all
  show thesis
    by (rule that [OF attempt_loop_counts [OF l [unfolded s1]]]) (use rt' bump_le in \<open>auto simp: t_def\<close>)
qed

subsection \<open>Accounting\<close>

definition balanced :: "MultiChannelRuntimeConfig \<Rightarrow> nat \<Rightarrow> MultiChannelRuntimeSummary \<Rightarrow> bool" where
  "balanced config n s \<longleftrightarrow>
     su_completed_events s + su_failed_events s = su_policy_checked_events s
     \<and> su_policy_allowed_events s + su_policy_denied_events s = su_completed_events s
     \<and> su_policy_enforced_events s \<le> su_policy_checked_events s
     \<and> su_policy_checked_events s \<le> n
     \<and> su_retry_attempts s \<le> su_policy_checked_events s * (rc_retry_max_attempts config - 1)"

lemma bump_small: "n < u64_max \<Longrightarrow> bump n = n + 1"
  by (simp add: bump_def u64_saturating_add_def)

lemma balanced_step:
  assumes "balanced config n s" "n < u64_max" "attempts_counted config access 1 t persisted s'"
    "su_policy_checked_events t = bump (su_policy_checked_events s)"
    "su_policy_enforced_events t \<le> su_policy_enforced_events s + 1"
    "su_failed_events t = su_failed_events s" "su_completed_events t = su_completed_events s"
    "su_policy_allowed_events t = su_policy_allowed_events s" "su_policy_denied_events t = su_policy_denied_events s"
    "su_retry_attempts t = su_retry_attempts s"
  shows "balanced config (n + 1) s'"
proof -
  have small: "su_policy_checked_events s < u64_max" "su_completed_events s < u64_max" "su_failed_events s < u64_max"
    "su_policy_allowed_events s < u64_max" "su_policy_denied_events s < u64_max"
    using assms(1,2) unfolding balanced_def by linarith+
  show ?thesis
    using assms(1,3-) unfolding balanced_def attempts_counted_def
    by (auto simp: small [THEN bump_small])
qed

lemma process_batch_balanced:
  assumes "balanced config n (fst acc)" "n < u64_max"
  shows "balanced config (n + 1) (fst (process_batch env config policy b acc))"
proof (cases "list_all (\<lambda>k. k \<in> rt_seen_event_keys (snd acc)) (co_source_event_keys b)")
  case True
  with assms show ?thesis by (simp add: process_batch_def balanced_def split_beta)
next
  case False
  obtain s' rt' where h: "handle_batch env config policy b (fst acc) (snd acc) = (s', rt')" by fastforce
  from handle_batch_counts [OF h] balanced_step [OF assms] have "balanced config (n + 1) s'" by metis
  with False h show ?thesis by (simp add: process_batch_def split_beta)
qed

lemma run_batches_balanced:
  "balanced config n (fst acc) \<Longrightarrow> n + length bs \<le> u64_max \<Longrightarrow>
     balanced config (n + length bs) (fst (run_batches env config policy bs acc))"
proof (induction bs arbitrary: n acc)
  case (Cons b bs)
  then have "balanced config (n + 1) (fst (process_batch env config policy b acc))"
    by (intro process_batch_balanced) simp_all
  with Cons.IH [of "n + 1"] Cons.prems(2) show ?case by simp
qed simp

lemma coalesce_length: "length (coalesce_inbound_events es w) \<le> length es"
proof -
  from coalesce_covers [of es w] obtain parts where
    parts: "concat parts = es" "list_all2 (covers w) (coalesce_inbound_events es w) parts" by blast
  from parts(2) have "length (coalesce_inbound_events es w) \<le> length (concat parts)"
    by (induction rule: list_all2_induct) (auto simp: covers_def neq_Nil_conv)
  with parts(1) show ?thesis by simp
qed

lemma queue_length: "length (queue_events config es) \<le> length es"
  by (simp add: queue_events_def)

text \<open>The counters of a cycle balance: every event whose access was decided was either completed or
  failed, every completed event was allowed or denied, no more decisions are enforced than taken, no more
  events are decided than queued, and no event is retried more often than the configuration allows.\<close>

theorem cycle_accounting:
  "if length events \<le> u64_max then
     (let s = fst (run_once_events env config d events rt) in
      su_completed_events s + su_failed_events s = su_policy_checked_events s
      \<and> su_policy_allowed_events s + su_policy_denied_events s = su_completed_events s
      \<and> su_policy_enforced_events s \<le> su_policy_checked_events s
      \<and> su_policy_checked_events s \<le> length (queue_events config events)
      \<and> su_retry_attempts s \<le> su_policy_checked_events s * (rc_retry_max_attempts config - 1))
   else True"
proof (cases "length events \<le> u64_max")
  case True
  let ?bs = "coalesce_inbound_events (queue_events config events) (rc_coalescing_window_ms config)"
  have le: "length ?bs \<le> length (queue_events config events)" "length (queue_events config events) \<le> length events"
    by (rule coalesce_length, rule queue_length)
  have "balanced config 0 (empty_summary\<lparr>su_discovered_events := a, su_queued_events := b\<rparr>)" for a b
    by (simp add: balanced_def empty_summary_def)
  then have "balanced config (0 + length ?bs) (fst (run_batches env config policy ?bs
      (empty_summary\<lparr>su_discovered_events := a, su_queued_events := b\<rparr>, rt)))" for policy a b
    using le True by (intro run_batches_balanced) simp_all
  then have "balanced config (length ?bs) (fst (run_once_events env config d events rt))"
    by (simp add: run_once_events_def Let_def split_beta)
  with le show ?thesis by (auto simp: balanced_def Let_def)
qed simp

subsection \<open>A cycle over the same events is idle\<close>






subsection \<open>The sample runtime\<close>

lemma sample_keys [simp]:
  "event_contract_key (hello ''m1'' t) = ''telegram:m1''" "event_contract_key (hello ''m2'' t) = ''telegram:m2''"
  by (simp_all add: event_contract_key_def hello_def trim_visible)

definition log_replay :: "MultiChannelPolicyFile option \<Rightarrow> CoalescedInboundEvent \<Rightarrow> string list MultiChannelRuntime \<Rightarrow> replay_file" where
  "log_replay policy b rt = snd (evaluate_access_decision (ce_secure log_env (rt_world rt)) (ce_pairing log_env (rt_world rt))
     (co_event b) 1000 policy (rt_replay rt))"

lemma record_world [simp]: "rt_world (record_processed_event cap k t) = rt_world t"
  by (simp add: record_processed_event_def Let_def)

lemma fold_record_world [simp]: "rt_world (fold (record_processed_event cap) ks t) = rt_world t"
  by (induction ks arbitrary: t) simp_all

lemma log_batch:
  assumes "map_of (ev_metadata (co_event b)) ''simulate_transient_failures'' = None"
  shows "su_failed_events (fst (handle_batch log_env config policy b s rt)) = su_failed_events s"
    "snd (handle_batch log_env config policy b s rt) =
       fold (record_processed_event (rc_processed_event_cap config)) (co_source_event_keys b)
         (rt\<lparr>rt_replay := log_replay policy b rt, rt_world := rt_world rt @ [ev_text (co_event b)]\<rparr>)"
  using assms
  by (simp_all add: handle_batch_def Let_def split_beta attempt_loop.simps [of _ _ _ 0] simulated_transient_failures_def
      log_env_def log_replay_def)

lemma log_new_runtime: "new_runtime config NoFile NoFile [] =
   \<lparr>rt_processed_event_keys = [], rt_seen_event_keys = {}, rt_health = default_health, rt_replay = NoFile, rt_world = []\<rparr>"
  by (simp add: new_runtime_def load_multi_channel_runtime_state_def default_runtime_state_def normalize_processed_keys_def)

lemma hello_metadata: "map_of (ev_metadata (co_event (new_batch w (hello i t)))) k = None"
  by (simp add: new_batch_def annotate_coalesced_event_metadata_def hello_def)

lemma new_batch_simps [simp]: "co_source_event_keys (new_batch w e) = [event_contract_key e]"
  "ev_text (co_event (new_batch w e)) = ev_text e"
  by (simp_all add: new_batch_def)


subsection \<open>What the queue, coalescing and the replay guard do to each other\<close>

text \<open>The queue limit cuts the sorted events before duplicates are dropped, and the ingress files are never
  pruned: once the oldest events fill the queue, a newer event is never looked at.\<close>

lemma insort_key_last: "list_all (\<lambda>y. f y < f x) ys \<Longrightarrow> insort_key f x ys = ys @ [x]" for f :: "'a \<Rightarrow> 'b::linorder"
  by (induction ys) auto

theorem full_queue_starves_new_events:
  assumes "rc_queue_limit config \<le> length events"
    and "list_all (\<lambda>e. (ev_timestamp_ms e, event_contract_key e) < (ev_timestamp_ms fresh, event_contract_key fresh)) events"
    and "list_all (\<lambda>e. event_contract_key e \<in> rt_seen_event_keys rt) (queue_events config events)"
  shows "rt_world (snd (run_once_events env config d (fresh # events) rt)) = rt_world rt
    \<and> rt_processed_event_keys (snd (run_once_events env config d (fresh # events) rt)) = rt_processed_event_keys rt"
proof -
  let ?key = "\<lambda>e. (ev_timestamp_ms e, event_contract_key e)"
  have "list_all (\<lambda>y. ?key y < ?key fresh) (sort_key ?key events)" using assms(2) by (simp add: list_all_iff)
  then have "queue_events config (fresh # events) = queue_events config events"
    using assms(1) by (simp add: queue_events_def insort_key_last)
  with assms(3) have "list_all (\<lambda>e. event_contract_key e \<in> rt_seen_event_keys rt) (queue_events config (fresh # events))"
    by simp
  from run_once_inert(1) [OF this, of env d] obtain h
    where "snd (run_once_events env config d (fresh # events) rt) = rt\<lparr>rt_health := h\<rparr>" by blast
  then show ?thesis by simp
qed

text \<open>A batch is skipped only when all its events are known, and the ingress files still hold the old ones:
  a message that follows a processed one within the window makes the runtime process both again.\<close>

theorem coalescing_redelivers:
  "rt_world (snd (run_once_events log_env (log_config 2 5) 3 [hello ''m1'' 7, hello ''m2'' 8]
     (snd (run_once_events log_env (log_config 2 5) 3 [hello ''m1'' 7] (new_runtime (log_config 2 5) NoFile NoFile [])))))
   = [''m1'', ''m1'' @ [line_feed] @ ''m2'']"
proof -
  let ?rt0 = "new_runtime (log_config 2 5) NoFile NoFile []"
  let ?rt1 = "snd (run_once_events log_env (log_config 2 5) 3 [hello ''m1'' 7] ?rt0)"
  let ?b2 = "extend_batch 5 (new_batch 5 (hello ''m1'' 7)) (hello ''m2'' 8)"
  have w: "rc_coalescing_window_ms (log_config 2 5) = 5" "rc_processed_event_cap (log_config 2 5) = 8" by (simp_all add: log_config_def)
  have q1: "queue_events (log_config 2 5) [hello ''m1'' 7] = [hello ''m1'' 7]" by (simp add: queue_events_def log_config_def)
  have lt: "(ev_timestamp_ms (hello ''m1'' 7), event_contract_key (hello ''m1'' 7)) \<le> (ev_timestamp_ms (hello ''m2'' 8), event_contract_key (hello ''m2'' 8))"
    by (simp add: hello_def)
  have q2: "queue_events (log_config 2 5) [hello ''m1'' 7, hello ''m2'' 8] = [hello ''m1'' 7, hello ''m2'' 8]"
    using lt by (simp add: queue_events_def log_config_def del: sample_keys)
  have c2: "coalesce_inbound_events [hello ''m1'' 7, hello ''m2'' 8] 5 = [?b2]"
    by (simp add: should_coalesce_events_def new_batch_def hello_def)
  have rt1: "rt_world ?rt1 = [''m1'']" "rt_seen_event_keys ?rt1 = {''telegram:m1''}"
    by (simp_all add: run_once_events_def Let_def split_beta q1 w process_batch_def log_new_runtime
        log_batch(2) [OF hello_metadata] record_processed_event_def) (simp add: hello_def)
  have b2: "map_of (ev_metadata (co_event ?b2)) ''simulate_transient_failures'' = None"
    "ev_text (co_event ?b2) = ''m1'' @ [line_feed] @ ''m2''" "co_source_event_keys ?b2 = [''telegram:m1'', ''telegram:m2'']"
    by (simp_all add: extend_batch_def merge_event_def new_batch_def annotate_coalesced_event_metadata_def hello_def trim_visible
        event_contract_key_def)
  show ?thesis
    unfolding run_once_events_def [of log_env "log_config 2 5" 3 "[hello ''m1'' 7, hello ''m2'' 8]"] Let_def q2 w c2
    by (simp add: Let_def split_beta process_batch_def rt1 b2 log_batch(2) [OF b2(1)])
qed

text \<open>A coalesced batch carries the envelope of its first message with the time of its last.\<close>

theorem coalesced_signature_rejected:
  assumes "map_of (ev_metadata first) ''signed_envelope'' = Some raw"
    and "\<And>envelope. en_from_value env raw = Some envelope \<Longrightarrow> se_timestamp_ms envelope = ev_timestamp_ms first"
    and "ev_timestamp_ms second \<noteq> ev_timestamp_ms first" "sm_mode (mp_secure_messaging f) \<noteq> SecureDisabled"
  shows "envelope_verdict env (co_event (extend_batch w (new_batch w first) second)) now f stored = Some False"
proof -
  let ?e = "co_event (extend_batch w (new_batch w first) second)"
  have meta: "map_of (ev_metadata ?e) ''signed_envelope'' = Some raw"
    using assms(1) by (simp add: extend_batch_def new_batch_def annotate_coalesced_event_metadata_def merge_event_def
        update_conv' delete_conv')
  have "ev_timestamp_ms ?e = ev_timestamp_ms second" by (simp add: extend_batch_def merge_event_def)
  then have "\<not> authentic (en_crypto env) (en_trust env) (secure_config (en_state_dir env) (mp_secure_messaging f))
      (envelope_context ?e ch now) envelope" if "en_from_value env raw = Some envelope" for ch envelope
    using assms(2) [OF that] assms(3) by (simp add: authentic_def envelope_context_def)
  with meta assms(4) show ?thesis by (simp add: envelope_verdict_def Let_def split: option.split)
qed

end
