(* ===== verification/Agent_Context.thy ===== *)
theory Agent_Context
  imports Ai_Types
begin

text \<open>
  Request shaping of the agent core (\<open>crates/tau-agent-core/src/runtime_turn_loop.rs\<close>,
  \<open>runtime_startup.rs\<close>): token estimates, context pressure and compaction, structured output, the
  buffer that hides repeated output of a retried stream, retryable errors and the bounded caches.
  The rendering and parsing of JSON and the schema validator are arguments.
\<close>

subsection \<open>Token estimates\<close>

record ChatRequestTokenEstimate =
  te_input_tokens :: nat
  te_total_tokens :: nat

definition estimate_text_tokens :: "string \<Rightarrow> nat" where
  "estimate_text_tokens text =
     (if text = [] then 0 else u32_saturating_add (min (char_count text) u32_max) 3 div 4)"

definition estimate_json_tokens :: "('v \<Rightarrow> string) \<Rightarrow> 'v \<Rightarrow> nat" where
  "estimate_json_tokens render v = estimate_text_tokens (render v)"

fun estimate_media_source_tokens :: "MediaSource \<Rightarrow> nat" where
  "estimate_media_source_tokens (Url url) = estimate_text_tokens url"
| "estimate_media_source_tokens (Base64 mime_type data) =
     u32_saturating_add (u32_saturating_add (estimate_text_tokens mime_type) ((length data mod 2 ^ 32) div 3)) 2"

fun add_block_tokens :: "('v \<Rightarrow> string) \<Rightarrow> nat \<Rightarrow> 'v ContentBlock \<Rightarrow> nat" where
  "add_block_tokens render acc (TextBlock text) = u32_saturating_add acc (estimate_text_tokens text)"
| "add_block_tokens render acc (ToolCallBlock i name arguments) =
     u32_saturating_add (u32_saturating_add (u32_saturating_add (u32_saturating_add acc (estimate_text_tokens i))
       (estimate_text_tokens name)) (estimate_json_tokens render arguments)) 4"
| "add_block_tokens render acc (ImageBlock source) =
     u32_saturating_add (u32_saturating_add acc (estimate_media_source_tokens source)) 8"
| "add_block_tokens render acc (AudioBlock source) =
     u32_saturating_add (u32_saturating_add acc (estimate_media_source_tokens source)) 8"

definition add_optional_tokens :: "nat \<Rightarrow> string option \<Rightarrow> nat" where
  "add_optional_tokens acc text =
     (case text of None \<Rightarrow> acc | Some t \<Rightarrow> u32_saturating_add acc (estimate_text_tokens t))"

definition estimate_message_tokens :: "('v \<Rightarrow> string) \<Rightarrow> 'v Message \<Rightarrow> nat" where
  "estimate_message_tokens render m =
     add_optional_tokens
       (add_optional_tokens (foldl (add_block_tokens render) 4 (msg_content m)) (msg_tool_call_id m))
       (msg_tool_name m)"

definition estimate_tool_definition_tokens :: "('v \<Rightarrow> string) \<Rightarrow> 'v ToolDefinition \<Rightarrow> nat" where
  "estimate_tool_definition_tokens render d =
     u32_saturating_add (u32_saturating_add (u32_saturating_add 12 (estimate_text_tokens (td_name d)))
       (estimate_text_tokens (td_description d))) (estimate_json_tokens render (td_parameters d))"

definition estimate_chat_request_tokens :: "('v \<Rightarrow> string) \<Rightarrow> 'v ChatRequest \<Rightarrow> ChatRequestTokenEstimate" where
  "estimate_chat_request_tokens render request =
     (let message_tokens = foldl (\<lambda>acc m. u32_saturating_add acc (estimate_message_tokens render m)) 0 (rq_messages request);
          tool_tokens = foldl (\<lambda>acc t. u32_saturating_add acc (estimate_tool_definition_tokens render t)) 0 (rq_tools request);
          input_tokens = u32_saturating_add (u32_saturating_add message_tokens tool_tokens) 2
      in \<lparr>te_input_tokens = input_tokens,
          te_total_tokens = u32_saturating_add input_tokens (case rq_max_tokens request of Some n \<Rightarrow> n | None \<Rightarrow> 0)\<rparr>)"

definition normalize_cost_alert_thresholds :: "nat list \<Rightarrow> nat list" where
  "normalize_cost_alert_thresholds thresholds =
     (let normalized = filter (\<lambda>t. 1 \<le> t \<and> t \<le> 100) thresholds
      in remdups_adj (sort (if normalized = [] then [100] else normalized)))"

subsection \<open>Context pressure\<close>

datatype ContextCompactionTier = NoCompaction | WarnTier | AggressiveTier | EmergencyTier

record ContextCompactionConfig =
  cc_max_input_tokens :: "nat option"
  cc_warn_threshold_percent :: nat
  cc_aggressive_threshold_percent :: nat
  cc_emergency_threshold_percent :: nat
  cc_warn_retain_percent :: nat
  cc_aggressive_retain_percent :: nat
  cc_emergency_retain_percent :: nat

record ContextPressureSnapshot =
  ps_estimated_input_tokens :: nat
  ps_max_input_tokens :: "nat option"
  ps_utilization_percent :: nat
  ps_tier :: ContextCompactionTier

definition clamp :: "nat \<Rightarrow> nat \<Rightarrow> nat \<Rightarrow> nat" where
  "clamp n low high = (if n < low then low else if n > high then high else n)"

definition normalize_compaction_thresholds :: "nat \<Rightarrow> nat \<Rightarrow> nat \<Rightarrow> nat list" where
  "normalize_compaction_thresholds warn aggressive emergency =
     sort [clamp warn 1 100, clamp aggressive 1 100, clamp emergency 1 100]"

definition context_utilization_percent :: "nat \<Rightarrow> nat option \<Rightarrow> nat" where
  "context_utilization_percent estimated_input_tokens max_input_tokens =
     (case max_input_tokens of
        None \<Rightarrow> 0
      | Some limit \<Rightarrow> if limit > 0 then u32_saturating_mul estimated_input_tokens 100 div limit else 0)"

definition select_context_compaction_tier :: "nat \<Rightarrow> nat option \<Rightarrow> nat list \<Rightarrow> ContextCompactionTier" where
  "select_context_compaction_tier estimated_input_tokens max_input_tokens thresholds =
     (let utilization = context_utilization_percent estimated_input_tokens max_input_tokens in
      if utilization \<ge> thresholds ! 2 then EmergencyTier
      else if utilization \<ge> thresholds ! 1 then AggressiveTier
      else if utilization \<ge> thresholds ! 0 then WarnTier
      else NoCompaction)"

definition context_pressure_snapshot :: "nat \<Rightarrow> ContextCompactionConfig \<Rightarrow> ContextPressureSnapshot" where
  "context_pressure_snapshot estimated_input_tokens config =
     \<lparr>ps_estimated_input_tokens = estimated_input_tokens, ps_max_input_tokens = cc_max_input_tokens config,
      ps_utilization_percent = context_utilization_percent estimated_input_tokens (cc_max_input_tokens config),
      ps_tier = select_context_compaction_tier estimated_input_tokens (cc_max_input_tokens config)
        (normalize_compaction_thresholds (cc_warn_threshold_percent config) (cc_aggressive_threshold_percent config)
           (cc_emergency_threshold_percent config))\<rparr>"

subsection \<open>Compaction\<close>

definition CONTEXT_SUMMARY_PREFIX :: string where
  "CONTEXT_SUMMARY_PREFIX = ''[Tau context summary]''"

abbreviation CONTEXT_SUMMARY_MAX_CHARS :: nat where "CONTEXT_SUMMARY_MAX_CHARS \<equiv> 1200"
abbreviation CONTEXT_SUMMARY_SNIPPET_MAX_CHARS :: nat where "CONTEXT_SUMMARY_SNIPPET_MAX_CHARS \<equiv> 160"
abbreviation CONTEXT_SUMMARY_MAX_EXCERPTS :: nat where "CONTEXT_SUMMARY_MAX_EXCERPTS \<equiv> 6"

definition new_line :: string where
  "new_line = [CHR 0x0A]"

fun role_label :: "MessageRole \<Rightarrow> string" where
  "role_label User = ''user''"
| "role_label Assistant = ''assistant''"
| "role_label Tool = ''tool''"
| "role_label System = ''system''"

definition collapse_whitespace :: "string \<Rightarrow> string" where
  "collapse_whitespace text = join '' '' (split_whitespace text)"

definition ellipsis :: string where
  "ellipsis = utf8 [226, 128, 166]"

definition truncate_chars :: "string \<Rightarrow> nat \<Rightarrow> string" where
  "truncate_chars text max_chars =
     (if char_count text \<le> max_chars then text
      else if max_chars = 0 then []
      else if max_chars = 1 then ellipsis
      else take_chars (max_chars - 1) text @ ellipsis)"

text \<open>The loop over the dropped messages that collects excerpts.\<close>

definition excerpt_of :: "'v Message \<Rightarrow> string option" where
  "excerpt_of m =
     (let content = collapse_whitespace (text_content m) in
      if content = [] then None
      else if msg_role m = System \<and> prefix CONTEXT_SUMMARY_PREFIX content then None
      else Some (''- '' @ role_label (msg_role m) @ '': '' @ truncate_chars content CONTEXT_SUMMARY_SNIPPET_MAX_CHARS))"

definition count_role :: "MessageRole \<Rightarrow> 'v Message list \<Rightarrow> nat" where
  "count_role role ms = length (filter (\<lambda>m. msg_role m = role) ms)"

definition summarize_dropped_messages :: "'v Message list \<Rightarrow> string" where
  "summarize_dropped_messages ms =
     (let excerpts = take CONTEXT_SUMMARY_MAX_EXCERPTS (List.map_filter excerpt_of ms);
          summary = CONTEXT_SUMMARY_PREFIX @ new_line @ ''summarized_messages='' @ show_nat (length ms)
            @ ''; roles: user='' @ show_nat (count_role User ms) @ '', assistant='' @ show_nat (count_role Assistant ms)
            @ '', tool='' @ show_nat (count_role Tool ms) @ '', system='' @ show_nat (count_role System ms) @ ''.'';
          full = (if excerpts = [] then summary
                  else summary @ new_line @ ''excerpts:'' @ new_line @ join new_line excerpts)
      in truncate_chars full CONTEXT_SUMMARY_MAX_CHARS)"

definition starts_with_system :: "'v Message list \<Rightarrow> bool" where
  "starts_with_system ms = (case ms of [] \<Rightarrow> False | m # _ \<Rightarrow> msg_role m = System)"

definition bounded_messages_without_summary :: "'v Message list \<Rightarrow> nat \<Rightarrow> 'v Message list" where
  "bounded_messages_without_summary ms max_messages =
     (if max_messages = 0 \<or> length ms \<le> max_messages then ms
      else if max_messages > 1 \<and> starts_with_system ms then
        (let tail_start = length ms - (max_messages - 1) in
         if tail_start \<le> 1 then ms else hd ms # drop tail_start ms)
      else drop (length ms - max_messages) ms)"

definition bounded_messages :: "'v Message list \<Rightarrow> nat \<Rightarrow> 'v Message list" where
  "bounded_messages ms max_messages =
     (if max_messages = 0 \<or> length ms \<le> max_messages then ms
      else if max_messages < 3 then bounded_messages_without_summary ms max_messages
      else if starts_with_system ms then
        (let tail_start = length ms - (max_messages - 2) in
         if tail_start \<le> 1 then ms
         else
           (let dropped = slice 1 tail_start ms in
            if dropped = [] then bounded_messages_without_summary ms max_messages
            else hd ms # message_system (summarize_dropped_messages dropped) # drop tail_start ms))
      else
        (let tail_start = length ms - (max_messages - 1) in
         if tail_start = 0 then ms
         else
           (let dropped = take tail_start ms in
            if dropped = [] then bounded_messages_without_summary ms max_messages
            else message_system (summarize_dropped_messages dropped) # drop tail_start ms)))"

definition normalize_retain_percent :: "nat \<Rightarrow> nat" where
  "normalize_retain_percent retain_percent = clamp retain_percent 1 100"

definition retained_message_count :: "nat \<Rightarrow> nat \<Rightarrow> nat" where
  "retained_message_count total_messages retain_percent =
     (if total_messages = 0 then 0
      else clamp (u64_saturating_add (u64_saturating_mul total_messages retain_percent) 99 div 100) 1 total_messages)"

definition compact_messages_for_tier ::
  "'v Message list \<Rightarrow> ContextCompactionTier \<Rightarrow> ContextCompactionConfig \<Rightarrow> 'v Message list" where
  "compact_messages_for_tier ms tier config =
     (case tier of
        NoCompaction \<Rightarrow> ms
      | WarnTier \<Rightarrow>
          bounded_messages ms (retained_message_count (length ms) (normalize_retain_percent (cc_warn_retain_percent config)))
      | AggressiveTier \<Rightarrow>
          bounded_messages ms (retained_message_count (length ms) (normalize_retain_percent (cc_aggressive_retain_percent config)))
      | EmergencyTier \<Rightarrow>
          bounded_messages_without_summary ms
            (retained_message_count (length ms) (normalize_retain_percent (cc_emergency_retain_percent config))))"

subsection \<open>Structured output\<close>

text \<open>\<open>find\<close> of a pattern: the text before and after its first occurrence.\<close>

fun split_str :: "string \<Rightarrow> string \<Rightarrow> (string \<times> string) option" where
  "split_str pat [] = (if pat = [] then Some ([], []) else None)"
| "split_str pat (c # cs) =
     (if prefix pat (c # cs) then Some ([], drop (length pat) (c # cs))
      else case split_str pat cs of None \<Rightarrow> None | Some (a, b) \<Rightarrow> Some (c # a, b))"

lemma split_str_Some: "split_str pat s = Some (a, b) \<Longrightarrow> s = a @ pat @ b"
  by (induction pat s arbitrary: a b rule: split_str.induct)
    (auto split: if_splits option.splits simp: prefix_def)

abbreviation fence :: string where "fence \<equiv> ''```''"

lemma fenced_shrinks:
  assumes "split_str fence rest = Some (a, after_open)"
    "(header, body) = (case split_once (CHR 0x0A) after_open of Some hb \<Rightarrow> hb | None \<Rightarrow> (after_open, []))"
    "split_str fence body = Some (c, rest')"
  shows "length rest' < length rest"
proof -
  have "length body \<le> length after_open"
    using assms(2) by (auto split: option.splits simp: split_once_Some)
  with split_str_Some [OF assms(1)] split_str_Some [OF assms(3)] show ?thesis by simp
qed

function fenced_json :: "(string \<Rightarrow> 'v option) \<Rightarrow> string \<Rightarrow> 'v option" where
  "fenced_json parse rest =
     (case split_str fence rest of
        None \<Rightarrow> None
      | Some (_, after_open) \<Rightarrow>
          (let (header, body) = (case split_once (CHR 0x0A) after_open of Some hb \<Rightarrow> hb | None \<Rightarrow> (after_open, []))
           in case split_str fence body of
                None \<Rightarrow> None
              | Some (raw_block, rest') \<Rightarrow>
                  (let h = trim header; block = trim raw_block in
                   if \<not> (h = [] \<or> eq_ignore_ascii_case h ''json'') then fenced_json parse rest'
                   else if block = [] then fenced_json parse rest'
                   else case parse block of Some v \<Rightarrow> Some v | None \<Rightarrow> fenced_json parse rest')))"
  by pat_completeness auto

termination
  by (relation "measure (\<lambda>(parse, rest). length rest)") (auto dest: fenced_shrinks)

declare fenced_json.simps [simp del]

definition extract_json_payload :: "(string \<Rightarrow> 'v option) \<Rightarrow> string \<Rightarrow> string + 'v" where
  "extract_json_payload parse text =
     (if trim text = [] then Inl ''assistant response was empty; expected JSON output''
      else case parse (trim text) of
        Some v \<Rightarrow> Inr v
      | None \<Rightarrow>
          (case fenced_json parse text of
             Some v \<Rightarrow> Inr v
           | None \<Rightarrow> Inl ''assistant response did not contain parseable JSON content''))"

text \<open>The schema validator: compiling a schema fails or gives the list of errors of a payload.\<close>

type_synonym 'v schema_validator = "'v \<Rightarrow> string + ('v \<Rightarrow> string list)"

definition validate_json_against_schema :: "'v schema_validator \<Rightarrow> 'v \<Rightarrow> 'v \<Rightarrow> string + unit" where
  "validate_json_against_schema validator_for schema payload =
     (case validator_for schema of
        Inl e \<Rightarrow> Inl (''invalid structured output schema: '' @ e)
      | Inr iter_errors \<Rightarrow>
          (case iter_errors payload of
             [] \<Rightarrow> Inr ()
           | first # _ \<Rightarrow> Inl (''structured output schema validation failed: '' @ first)))"

definition parse_structured_output ::
  "(string \<Rightarrow> 'v option) \<Rightarrow> 'v schema_validator \<Rightarrow> 'v Message list \<Rightarrow> 'v \<Rightarrow> string + 'v" where
  "parse_structured_output parse validator_for ms schema =
     (case find (\<lambda>m. msg_role m = Assistant) (rev ms) of
        None \<Rightarrow> Inl ''assistant response missing for structured output''
      | Some assistant \<Rightarrow>
          and_then (extract_json_payload parse (text_content assistant)) (\<lambda>v.
          and_then (validate_json_against_schema validator_for schema v) (\<lambda>_. Inr v)))"

subsection \<open>Streaming with retries\<close>

record StreamingRetryBufferState =
  sb_delivered_output :: string
  sb_attempt_output :: string

definition new_stream_buffer :: StreamingRetryBufferState where
  "new_stream_buffer = \<lparr>sb_delivered_output = [], sb_attempt_output = []\<rparr>"

definition reset_attempt :: "StreamingRetryBufferState \<Rightarrow> StreamingRetryBufferState" where
  "reset_attempt st = st\<lparr>sb_attempt_output := []\<rparr>"

definition stream_retry_buffer_on_delta ::
  "StreamingRetryBufferState \<Rightarrow> string \<Rightarrow> string option \<times> StreamingRetryBufferState" where
  "stream_retry_buffer_on_delta st delta =
     (let attempt = sb_attempt_output st @ delta; delivered = sb_delivered_output st; st' = st\<lparr>sb_attempt_output := attempt\<rparr>;
          pass = (Some delta, st'\<lparr>sb_delivered_output := delivered @ delta\<rparr>)
      in if delivered = [] then pass
         else if length attempt \<le> length delivered then (if prefix attempt delivered then (None, st') else pass)
         else if prefix delivered attempt then
           (let replay = drop (length delivered) attempt in
            if replay = [] then (None, st') else (Some replay, st'\<lparr>sb_delivered_output := delivered @ replay\<rparr>))
         else pass)"

fun is_retryable_ai_error :: "TauAiError \<Rightarrow> bool" where
  "is_retryable_ai_error (HttpError is_timeout is_connect _ _) \<longleftrightarrow> is_timeout \<or> is_connect"
| "is_retryable_ai_error (HttpStatus status _) \<longleftrightarrow> status \<in> {408, 409, 425, 429} \<or> status \<ge> 500"
| "is_retryable_ai_error MissingApiKey \<longleftrightarrow> False"
| "is_retryable_ai_error SerdeError \<longleftrightarrow> False"
| "is_retryable_ai_error (InvalidResponse _) \<longleftrightarrow> False"

subsection \<open>Caches\<close>

text \<open>The entries and the insertion order, oldest first.\<close>

record 'a bounded_cache =
  bc_entries :: "(string, 'a) hash_map"
  bc_order :: "string list"

definition empty_cache :: "'a bounded_cache" where
  "empty_cache = \<lparr>bc_entries = [], bc_order = []\<rparr>"

function evict :: "nat \<Rightarrow> 'a bounded_cache \<Rightarrow> 'a bounded_cache" where
  "evict max_entries c =
     (if length (bc_entries c) > max_entries then
        (case bc_order c of
           [] \<Rightarrow> c
         | oldest # order \<Rightarrow> evict max_entries \<lparr>bc_entries = AList.delete oldest (bc_entries c), bc_order = order\<rparr>)
      else c)"
  by pat_completeness auto
termination
  by (relation "measure (\<lambda>(_, c). length (bc_order c))") auto

declare evict.simps [simp del]

definition cache_insert_with_limit :: "string \<Rightarrow> 'a \<Rightarrow> nat \<Rightarrow> 'a bounded_cache \<Rightarrow> 'a bounded_cache" where
  "cache_insert_with_limit key v max_entries c =
     (if max_entries = 0 then c
      else evict max_entries \<lparr>bc_entries = AList.update key v (bc_entries c), bc_order = remove1 key (bc_order c) @ [key]\<rparr>)"

subsection \<open>What compaction keeps\<close>

lemma bounded_without_summary_eq:
  "bounded_messages_without_summary ms limit =
     (if limit = 0 \<or> length ms \<le> limit then ms
      else if limit > 1 \<and> starts_with_system ms then hd ms # drop (length ms - (limit - 1)) ms
      else drop (length ms - limit) ms)"
  by (auto simp: bounded_messages_without_summary_def Let_def)

lemma bounded_messages_eq:
  "bounded_messages ms limit =
     (if limit = 0 \<or> length ms \<le> limit then ms
      else if limit < 3 then bounded_messages_without_summary ms limit
      else if starts_with_system ms then
        hd ms # message_system (summarize_dropped_messages (slice 1 (length ms - (limit - 2)) ms)) # drop (length ms - (limit - 2)) ms
      else message_system (summarize_dropped_messages (take (length ms - (limit - 1)) ms)) # drop (length ms - (limit - 1)) ms)"
  by (auto simp: bounded_messages_def Let_def slice_def)

text \<open>Compaction bounds the context and keeps its end: a history within the limit is unchanged; a longer one
  becomes exactly as long as the limit, ends with the most recent messages (all but at most two places of
  the limit), and, for a limit above one, still starts with the system prompt if the history did.\<close>

theorem bounded_context:
  "let out = bounded_messages ms limit in
   if limit = 0 \<or> length ms \<le> limit then out = ms
   else length out = limit
     \<and> drop (length out - (limit - 2)) out = drop (length ms - (limit - 2)) ms
     \<and> (if 1 < limit \<and> starts_with_system ms then hd out = hd ms else True)"
proof (cases "limit = 0 \<or> length ms \<le> limit")
  case True
  then show ?thesis by (simp add: bounded_messages_eq)
next
  case False
  then have ms: "0 < limit" "limit < length ms" by auto
  consider "limit = 1" | "limit = 2" | "3 \<le> limit" using ms by linarith
  then show ?thesis
  proof cases
    case 1
    with ms show ?thesis by (simp add: bounded_messages_eq bounded_without_summary_eq)
  next
    case 2
    with ms show ?thesis by (simp add: bounded_messages_eq bounded_without_summary_eq)
  next
    case 3
    obtain k where k: "limit = k + 3" using 3 by (metis add.commute le_Suc_ex)
    show ?thesis
      using ms Suc_diff_le [of "Suc (Suc k)" "length ms"]
      by (simp add: bounded_messages_eq k drop_Cons')
  qed
qed

text \<open>Compaction cuts between an assistant's tool call and its result: the result then stands in the request
  without the call it answers.\<close>

definition answers :: "'v Message \<Rightarrow> 'v Message \<Rightarrow> bool" where
  "answers r a \<longleftrightarrow> msg_role r = Tool \<and> (\<exists>c \<in> set (tool_calls a). msg_tool_call_id r = Some (tc_id c))"

definition results_answered :: "'v Message list \<Rightarrow> bool" where
  "results_answered ms \<longleftrightarrow> (\<forall>i < length ms. msg_role (ms ! i) = Tool \<longrightarrow> (\<exists>j < i. answers (ms ! i) (ms ! j)))"

theorem compaction_orphans_tool_result:
  "let call = assistant_blocks [ToolCallBlock ''c1'' ''read'' v];
       ms = [message_user ''a'', call, tool_result ''c1'' ''read'' ''ok'' False, assistant_text ''b''] in
   results_answered ms \<and> \<not> results_answered (bounded_messages ms 3)"
proof -
  let ?call = "assistant_blocks [ToolCallBlock ''c1'' ''read'' v]"
  let ?ms = "[message_user ''a'', ?call, tool_result ''c1'' ''read'' ''ok'' False, assistant_text ''b'']"
  have "results_answered ?ms"
    unfolding results_answered_def
    by (auto simp: less_Suc_eq nth_Cons' answers_def message_user_def assistant_text_def text_message_def tool_result_def
        assistant_blocks_def tool_calls_def map_filter_simps intro!: exI [of _ 1])
  moreover have "bounded_messages ?ms 3 = message_system (summarize_dropped_messages [message_user ''a'', ?call])
      # drop 2 ?ms"
    by (simp add: bounded_messages_eq starts_with_system_def message_user_def text_message_def numeral_eq_Suc)
  then have "\<not> results_answered (bounded_messages ?ms 3)"
    unfolding results_answered_def
    by (auto simp: answers_def tool_result_def message_system_def intro!: exI [of _ 1])
  ultimately show ?thesis by (simp add: Let_def)
qed

subsection \<open>Pressure tiers\<close>

fun tier_rank :: "ContextCompactionTier \<Rightarrow> nat" where
  "tier_rank NoCompaction = 0" | "tier_rank WarnTier = 1" | "tier_rank AggressiveTier = 2" | "tier_rank EmergencyTier = 3"

lemma thresholds_sorted:
  "sorted (normalize_compaction_thresholds w a e)" "length (normalize_compaction_thresholds w a e) = 3"
  "list_all (\<lambda>t. 1 \<le> t \<and> t \<le> 100) (normalize_compaction_thresholds w a e)"
  by (simp_all add: normalize_compaction_thresholds_def list_all_iff clamp_def)

lemma utilization_mono: "m \<le> n \<Longrightarrow> context_utilization_percent m b \<le> context_utilization_percent n b"
  by (auto simp: context_utilization_percent_def u32_saturating_mul_def split: option.split intro!: div_le_mono)

text \<open>Context pressure escalates: more estimated tokens never give a lower tier, whatever order the three
  thresholds were configured in; without a token limit no tier is ever selected, and at or above the limit the
  emergency tier is.\<close>

theorem pressure_escalates:
  "tier_rank (ps_tier (context_pressure_snapshot tokens config)) \<le> tier_rank (ps_tier (context_pressure_snapshot (tokens + extra) config))
   \<and> (case cc_max_input_tokens config of
        None \<Rightarrow> ps_tier (context_pressure_snapshot tokens config) = NoCompaction
      | Some limit \<Rightarrow>
          if 0 < limit \<and> limit * 100 \<le> u32_max
          then ps_tier (context_pressure_snapshot (limit + extra) config) = EmergencyTier else True)"
proof -
  let ?ts = "normalize_compaction_thresholds (cc_warn_threshold_percent config) (cc_aggressive_threshold_percent config)
    (cc_emergency_threshold_percent config)"
  have ts: "?ts ! 0 \<le> ?ts ! 1" "?ts ! 1 \<le> ?ts ! 2" "1 \<le> ?ts ! 0" "?ts ! 2 \<le> 100"
    using thresholds_sorted [of "cc_warn_threshold_percent config" "cc_aggressive_threshold_percent config"
        "cc_emergency_threshold_percent config"]
    by (auto simp: sorted_iff_nth_mono list_all_length)
  have mono: "tier_rank (ps_tier (context_pressure_snapshot tokens config))
      \<le> tier_rank (ps_tier (context_pressure_snapshot (tokens + extra) config))"
    using utilization_mono [of tokens "tokens + extra" "cc_max_input_tokens config"] ts
    by (auto simp: context_pressure_snapshot_def select_context_compaction_tier_def Let_def)
  have full: "100 \<le> context_utilization_percent (limit + extra) (Some limit)" if "0 < limit" "limit * 100 \<le> u32_max" for limit
  proof -
    have "limit * 100 div limit \<le> u32_saturating_mul (limit + extra) 100 div limit"
      using that by (intro div_le_mono) (simp add: u32_saturating_mul_def)
    with that show ?thesis by (simp add: context_utilization_percent_def)
  qed
  show ?thesis
  proof (cases "cc_max_input_tokens config")
    case None
    with mono ts show ?thesis
      by (auto simp: context_pressure_snapshot_def select_context_compaction_tier_def context_utilization_percent_def)
  next
    case (Some limit)
    with mono full [of limit] ts show ?thesis
      by (auto simp: context_pressure_snapshot_def select_context_compaction_tier_def Let_def)
  qed
qed

subsection \<open>A retried stream is shown once\<close>

text \<open>The deltas of one attempt, and of a sequence of attempts; the result is what the user's handler gets.\<close>

fun stream_attempt :: "StreamingRetryBufferState \<Rightarrow> string list \<Rightarrow> string list \<times> StreamingRetryBufferState" where
  "stream_attempt st [] = ([], st)"
| "stream_attempt st (delta # deltas) =
     (let (out, st') = stream_retry_buffer_on_delta st delta; (outs, st'') = stream_attempt st' deltas
      in ((case out of None \<Rightarrow> [] | Some d \<Rightarrow> [d]) @ outs, st''))"

fun stream_attempts :: "StreamingRetryBufferState \<Rightarrow> string list list \<Rightarrow> string list \<times> StreamingRetryBufferState" where
  "stream_attempts st [] = ([], st)"
| "stream_attempts st (attempt # attempts) =
     (let (outs, st') = stream_attempt (reset_attempt st) attempt; (outs', st'') = stream_attempts st' attempts
      in (outs @ outs', st''))"

definition stream_ok :: "string \<Rightarrow> StreamingRetryBufferState \<Rightarrow> bool" where
  "stream_ok text st \<longleftrightarrow> prefix (sb_delivered_output st) text \<and> length (sb_attempt_output st) \<le> length (sb_delivered_output st)"

lemma prefix_both: "prefix a t \<Longrightarrow> prefix b t \<Longrightarrow> length a \<le> length b \<Longrightarrow> prefix a b"
  using prefix_length_prefix by blast

lemma delta_step:
  assumes "stream_ok text st" "prefix (sb_attempt_output st @ delta) text"
    "stream_retry_buffer_on_delta st delta = (out, st')"
  shows "stream_ok text st'" "sb_attempt_output st' = sb_attempt_output st @ delta"
    "sb_delivered_output st' = sb_delivered_output st @ (case out of None \<Rightarrow> [] | Some d \<Rightarrow> d)"
    "length (sb_delivered_output st') = max (length (sb_delivered_output st)) (length (sb_attempt_output st @ delta))"
proof -
  let ?D = "sb_delivered_output st" and ?A = "sb_attempt_output st @ delta"
  have short: "prefix ?A ?D" if "length ?A \<le> length ?D"
    by (rule prefix_both [of _ "text"]) (use assms(1,2) that in \<open>simp_all add: stream_ok_def\<close>)
  have long: "prefix ?D ?A" if "length ?D \<le> length ?A"
    by (rule prefix_both [of _ "text"]) (use assms(1,2) that in \<open>simp_all add: stream_ok_def\<close>)
  have "stream_ok text st' \<and> sb_attempt_output st' = ?A \<and> sb_delivered_output st' = ?D @ (case out of None \<Rightarrow> [] | Some d \<Rightarrow> d)
      \<and> length (sb_delivered_output st') = max (length ?D) (length ?A)"
  proof (cases "?D = []")
    case True
    with assms show ?thesis by (auto simp: stream_retry_buffer_on_delta_def Let_def stream_ok_def)
  next
    case False
    show ?thesis
    proof (cases "length ?A \<le> length ?D")
      case True
      with False short [OF True] assms show ?thesis
        by (auto simp: stream_retry_buffer_on_delta_def Let_def stream_ok_def)
    next
      case longer: False
      then have "prefix ?D ?A" by (intro long) simp
      then obtain z where z: "?A = ?D @ z" unfolding prefix_def by blast
      moreover from this longer have "z \<noteq> []" by (metis append_Nil2 le_refl)
      ultimately have z: "?A = ?D @ z" "z \<noteq> []" by simp_all
      have "out = Some z" "st' = st\<lparr>sb_attempt_output := ?A, sb_delivered_output := ?D @ z\<rparr>"
        using assms(3) False longer z(2) unfolding stream_retry_buffer_on_delta_def Let_def z(1) by auto
      with assms(2) z show ?thesis by (simp add: stream_ok_def)
    qed
  qed
  then show "stream_ok text st'" "sb_attempt_output st' = ?A"
    "sb_delivered_output st' = ?D @ (case out of None \<Rightarrow> [] | Some d \<Rightarrow> d)"
    "length (sb_delivered_output st') = max (length ?D) (length ?A)" by blast+
qed

lemma attempt_step:
  assumes "stream_ok text st" "prefix (sb_attempt_output st @ concat deltas) text" "stream_attempt st deltas = (outs, st')"
  shows "stream_ok text st'" "sb_delivered_output st' = sb_delivered_output st @ concat outs"
    "length (sb_delivered_output st') = max (length (sb_delivered_output st)) (length (sb_attempt_output st @ concat deltas))"
  using assms
proof (atomize (full), induction deltas arbitrary: st outs)
  case Nil
  then show ?case by (auto simp: stream_ok_def)
next
  case (Cons d ds)
  obtain o1 st1 where one: "stream_retry_buffer_on_delta st d = (o1, st1)" by fastforce
  obtain outs1 where rest: "stream_attempt st1 ds = (outs1, st')" "outs = (case o1 of None \<Rightarrow> [] | Some d \<Rightarrow> [d]) @ outs1"
    using Cons.prems(3) one by (auto split: prod.splits)
  have "prefix (sb_attempt_output st @ d) text"
    using Cons.prems(2) by (auto simp: prefix_def)
  note d = delta_step [OF Cons.prems(1) this one]
  have "prefix (sb_attempt_output st1 @ concat ds) text" using Cons.prems(2) d(2) by simp
  from Cons.IH [OF d(1) this rest(1)] d(2-4) rest(2) show ?case by (auto split: option.splits)
qed

lemma attempts_step:
  assumes "stream_ok text st" "list_all (\<lambda>deltas. prefix (concat deltas) text) attempts" "stream_attempts st attempts = (outs, st')"
  shows "stream_ok text st' \<and> sb_delivered_output st' = sb_delivered_output st @ concat outs
    \<and> length (sb_delivered_output st') = max (length (sb_delivered_output st)) (max_or_0 (map (\<lambda>a. length (concat a)) attempts))"
  using assms
proof (induction attempts arbitrary: st outs)
  case (Cons a as)
  obtain o1 st1 where one: "stream_attempt (reset_attempt st) a = (o1, st1)" by fastforce
  obtain o2 where rest: "stream_attempts st1 as = (o2, st')" "outs = o1 @ o2"
    using Cons.prems(3) one by (auto split: prod.splits)
  have "stream_ok text (reset_attempt st)" "prefix (sb_attempt_output (reset_attempt st) @ concat a) text"
    using Cons.prems(1,2) by (auto simp: stream_ok_def reset_attempt_def)
  note a = attempt_step [OF this one]
  from Cons.IH [OF a(1) _ rest(1)] Cons.prems(2) a(2,3) rest(2) show ?case
    by (auto simp: reset_attempt_def)
qed (auto simp: stream_ok_def)

lemma longest_is_prefix:
  assumes "list_all (\<lambda>a. prefix (concat a) text) attempts"
  shows "max_or_0 (map (\<lambda>a. length (concat a)) attempts) \<le> length text"
  using assms by (induction attempts) (auto dest: prefix_length_le)

text \<open>Retrying a stream shows its text once: if every attempt delivers a beginning of the same text, cut into
  deltas in any way, then what the user's handler receives over all attempts is exactly the longest beginning
  any attempt delivered; nothing is shown twice and nothing is left out.\<close>

theorem retried_stream_shown_once:
  assumes "list_all (\<lambda>deltas. prefix (concat deltas) text) attempts"
  shows "concat (fst (stream_attempts new_stream_buffer attempts)) =
    take (max_or_0 (map (\<lambda>deltas. length (concat deltas)) attempts)) text"
proof -
  obtain outs st' where run: "stream_attempts new_stream_buffer attempts = (outs, st')" by fastforce
  have "stream_ok text new_stream_buffer" by (simp add: stream_ok_def new_stream_buffer_def)
  from attempts_step [OF this assms run] have "prefix (concat outs) text"
    "length (concat outs) = max_or_0 (map (\<lambda>a. length (concat a)) attempts)"
    by (auto simp: stream_ok_def new_stream_buffer_def)
  with run show ?thesis by (auto simp: prefix_def)
qed

theorem retried_stream_shown_once_witness:
  "concat (fst (stream_attempts new_stream_buffer [[''he'', ''ll''], [''h'', ''ello'', '' you'']])) = ''hello you''"
  using retried_stream_shown_once [of "''hello you''" "[[''he'', ''ll''], [''h'', ''ello'', '' you'']]"] by simp

subsection \<open>Fenced JSON is found\<close>

lemma split_str_None: "pat \<noteq> [] \<Longrightarrow> split_str pat s = None \<Longrightarrow> s \<noteq> a @ pat @ b"
proof (induction pat s arbitrary: a rule: split_str.induct)
  case (2 pat c cs)
  then show ?case by (cases a) (auto split: if_splits option.splits)
qed simp

lemma split_str_append:
  assumes "pat \<noteq> []" "split_str pat (a @ butlast pat) = None"
  shows "split_str pat (a @ pat @ b) = Some (a, b)"
proof -
  have "\<And>x y. a @ butlast pat \<noteq> x @ pat @ y" using split_str_None assms by blast
  then show ?thesis
  proof (induction a)
    case Nil
    with assms(1) show ?case by (cases pat) auto
  next
    case (Cons c a)
    have "\<not> prefix pat (c # a @ pat @ b)"
    proof
      assume p: "prefix pat (c # a @ pat @ b)"
      have len: "length pat \<le> length (c # a @ butlast pat)" using assms(1) by (cases pat) auto
      have "c # a @ pat @ b = (c # a @ butlast pat) @ last pat # b" using assms(1) by simp
      with p have "prefix pat ((c # a @ butlast pat) @ last pat # b)" by simp
      with len have "prefix pat (c # a @ butlast pat)" by (meson prefix_prefix prefixI prefix_length_prefix)
      then obtain y where "c # a @ butlast pat = pat @ y" by (auto simp: prefix_def)
      with Cons.prems [of "[]" y] show False by simp
    qed
    moreover have "split_str pat (a @ pat @ b) = Some (a, b)"
      by (rule Cons.IH) (metis Cons.prems append_Cons)
    ultimately show ?case by simp
  qed
qed

text \<open>A fenced answer is found: when the reply as a whole is no JSON, its first fence opens a \<open>json\<close> block and
  the block parses, the payload of the reply is the parsed block, whatever follows it.\<close>

theorem fenced_payload_found:
  assumes "split_str fence (before @ ''``'') = None" "split_str fence (block @ ''``'') = None"
    and "parse (trim (before @ fence @ ''json'' @ [CHR 0x0A] @ block @ fence @ after)) = None"
    and "trim block \<noteq> []" "parse (trim block) = Some v"
  shows "extract_json_payload parse (before @ fence @ ''json'' @ [CHR 0x0A] @ block @ fence @ after) = Inr v"
proof -
  let ?text = "before @ fence @ (''json'' @ CHR 0x0A # block @ fence @ after)"
  have "CHR ''`'' \<in> set (trim ?text)" by (rule trim_keeps_visible) simp_all
  then have "trim ?text \<noteq> []" by auto
  moreover have "fenced_json parse ?text = Some v"
  proof (subst fenced_json.simps)
    have open_fence: "split_str fence ?text = Some (before, ''json'' @ CHR 0x0A # block @ fence @ after)"
      by (rule split_str_append) (use assms(1) in simp_all)
    have header: "split_once (CHR 0x0A) (''json'' @ CHR 0x0A # block @ fence @ after) = Some (''json'', block @ fence @ after)"
      by (rule split_once_append) simp
    have close_fence: "split_str fence (block @ fence @ after) = Some (block, after)"
      by (rule split_str_append) (use assms(2) in simp_all)
    show "(case split_str fence ?text of None \<Rightarrow> None
        | Some (_, after_open) \<Rightarrow>
            (let (header, body) = (case split_once (CHR 0x0A) after_open of Some hb \<Rightarrow> hb | None \<Rightarrow> (after_open, []))
             in case split_str fence body of None \<Rightarrow> None
                | Some (raw_block, rest') \<Rightarrow>
                    (let h = trim header; block = trim raw_block in
                     if \<not> (h = [] \<or> eq_ignore_ascii_case h ''json'') then fenced_json parse rest'
                     else if block = [] then fenced_json parse rest'
                     else case parse block of Some v \<Rightarrow> Some v | None \<Rightarrow> fenced_json parse rest'))) = Some v"
      unfolding open_fence option.case prod.case header Let_def close_fence using assms(4,5) by (simp add: trim_visible)
  qed
  ultimately show ?thesis using assms(3) by (simp add: extract_json_payload_def)
qed

theorem fenced_payload_found_witness:
  "extract_json_payload (\<lambda>s. if s = ''[1]'' then Some (1::nat) else None)
     (''Here: '' @ fence @ ''json'' @ [CHR 0x0A] @ ''[1]'' @ fence @ '' done'') = Inr 1"
proof -
  have block: "trim ''[1]'' = ''[1]''" by (simp add: trim_visible)
  have whole: "trim (''Here: '' @ fence @ ''json'' @ [CHR 0x0A] @ ''[1]'' @ fence @ '' done'') =
      ''Here: '' @ fence @ ''json'' @ [CHR 0x0A] @ ''[1]'' @ fence @ '' done''"
    by (rule trim_visible) simp_all
  have "split_str fence (''Here: '' @ ''``'') = None" "split_str fence (''[1]'' @ ''``'') = None" by simp_all
  then show ?thesis by (rule fenced_payload_found; simp only: block whole) simp_all
qed

subsection \<open>The caches\<close>

text \<open>What a client may rely on: a lookup after an insert, and that the cache stays within its limit.\<close>

locale limited_cache =
  fixes lookup :: "'c \<Rightarrow> string \<Rightarrow> 'a option" and insert_limited :: "string \<Rightarrow> 'a \<Rightarrow> nat \<Rightarrow> 'c \<Rightarrow> 'c"
    and size_of :: "'c \<Rightarrow> nat" and ok :: "'c \<Rightarrow> bool"
  assumes insert_ok: "ok c \<Longrightarrow> ok (insert_limited k v n c)"
    and lookup_inserted: "ok c \<Longrightarrow> 0 < n \<Longrightarrow> lookup (insert_limited k v n c) k = Some v"
    and lookup_other: "ok c \<Longrightarrow> j \<noteq> k \<Longrightarrow> lookup (insert_limited k v n c) j \<in> {None, lookup c j}"
    and size_bound: "ok c \<Longrightarrow> size_of c \<le> n \<Longrightarrow> size_of (insert_limited k v n c) \<le> n"
begin

lemma insert_all_ok: "ok c \<Longrightarrow> ok (fold (\<lambda>(k, v). insert_limited k v n) kvs c)"
  by (induction kvs arbitrary: c) (auto intro: insert_ok)

lemma insert_all_size: "ok c \<Longrightarrow> size_of c \<le> n \<Longrightarrow> size_of (fold (\<lambda>(k, v). insert_limited k v n) kvs c) \<le> n"
  by (induction kvs arbitrary: c) (auto intro: insert_ok size_bound)

text \<open>A hit is never stale: it is the value of the last insert of its key.\<close>

lemma insert_all_fresh:
  assumes "ok c" "lookup (fold (\<lambda>(k, v). insert_limited k v n) kvs c) k = Some v" "0 < n"
  shows "map_of (rev kvs) k = Some v \<or> (map_of (rev kvs) k = None \<and> lookup c k = Some v)"
  using assms
proof (induction kvs arbitrary: c)
  case (Cons jv kvs)
  obtain j u where jv: "jv = (j, u)" by (cases jv)
  with Cons have ih: "map_of (rev kvs) k = Some v \<or> (map_of (rev kvs) k = None \<and> lookup (insert_limited j u n c) k = Some v)"
    by (auto intro: insert_ok)
  show ?case
  proof (cases "j = k")
    case True
    with ih lookup_inserted [OF Cons.prems(1,3)] jv show ?thesis by (auto simp: map_add_def split: option.splits)
  next
    case False
    with ih lookup_other [OF Cons.prems(1), of k j u n] jv show ?thesis by (auto simp: map_add_def split: option.splits)
  qed
qed simp

end

definition cache_ok :: "'a bounded_cache \<Rightarrow> bool" where
  "cache_ok c \<longleftrightarrow> hm_wf (bc_entries c) \<and> distinct (bc_order c) \<and> set (bc_order c) = hm_keys (bc_entries c)"

lemma cache_size: "cache_ok c \<Longrightarrow> length (bc_entries c) = length (bc_order c)"
  unfolding cache_ok_def hm_wf_def by (metis distinct_card length_map list.set_map)

lemma hm_keys_delete: "hm_keys (AList.delete k m) = hm_keys m - {k}"
  by (metis delete_keys list.set_map set_removeAll)

lemma evict_spec:
  assumes "cache_ok c"
  shows "cache_ok (evict n c) \<and> bc_order (evict n c) = drop (length (bc_order c) - n) (bc_order c)
    \<and> (\<forall>k. map_of (bc_entries (evict n c)) k = (if k \<in> set (bc_order (evict n c)) then map_of (bc_entries c) k else None))"
  using assms
proof (induction n c rule: evict.induct)
  case (1 n c)
  note size = cache_size [OF 1(2)]
  have outside: "map_of (bc_entries c) k = None" if "k \<notin> set (bc_order c)" for k
    using that 1(2) by (simp add: cache_ok_def map_of_eq_None_iff)
  show ?case
  proof (cases "length (bc_entries c) > n")
    case False
    with size outside 1(2) show ?thesis by (simp add: evict.simps [of n c])
  next
    case True
    then obtain oldest order where order: "bc_order c = oldest # order" using size by (cases "bc_order c") auto
    let ?d = "\<lparr>bc_entries = AList.delete oldest (bc_entries c), bc_order = order\<rparr>"
    have d: "cache_ok ?d" using 1(2) order by (auto simp: cache_ok_def hm_keys_delete)
    have step: "evict n c = evict n ?d" using True order by (simp add: evict.simps [of n c])
    have "length order - n = length (bc_order c) - n - 1" using True size order by simp
    then have same: "drop (length order - n) order = drop (length (bc_order c) - n) (bc_order c)"
      using True size order by (simp add: Suc_diff_le)
    moreover have "oldest \<notin> set order" using 1(2) order by (simp add: cache_ok_def)
    then have "oldest \<notin> set (drop (length (bc_order c) - n) (bc_order c))" unfolding same [symmetric] by (auto dest: in_set_dropD)
    ultimately show ?thesis
      using 1(1) [OF True order d] unfolding step
      by (auto simp: delete_conv' dest: in_set_dropD)
  qed
qed

lemma insert_spec:
  fixes c :: "'a bounded_cache" and k :: string
  assumes "cache_ok c" "0 < n"
  defines "order \<equiv> remove1 k (bc_order c) @ [k]"
  shows "cache_ok (cache_insert_with_limit k v n c)"
    "bc_order (cache_insert_with_limit k v n c) = drop (length order - n) order"
    "map_of (bc_entries (cache_insert_with_limit k v n c)) j =
       (if j \<in> set (drop (length order - n) order) then ((map_of (bc_entries c))(k \<mapsto> v)) j else None)"
proof -
  let ?c = "\<lparr>bc_entries = AList.update k v (bc_entries c), bc_order = order\<rparr>"
  have "cache_ok ?c" using assms(1) by (auto simp: cache_ok_def order_def dom_update)
  from evict_spec [OF this, of n] assms(2) show "cache_ok (cache_insert_with_limit k v n c)"
    "bc_order (cache_insert_with_limit k v n c) = drop (length order - n) order"
    "map_of (bc_entries (cache_insert_with_limit k v n c)) j =
       (if j \<in> set (drop (length order - n) order) then ((map_of (bc_entries c))(k \<mapsto> v)) j else None)"
    by (auto simp: cache_insert_with_limit_def order_def [symmetric] update_conv')
qed

lemma last_kept: "0 < n \<Longrightarrow> k \<in> set (drop (length (xs @ [k]) - n) (xs @ [k]))"
  by simp

interpretation agent_cache: limited_cache "\<lambda>c. map_of (bc_entries c)" cache_insert_with_limit "\<lambda>c. length (bc_order c)" cache_ok
proof
  fix c :: "'a bounded_cache" and k j v n
  assume ok: "cache_ok c"
  show "cache_ok (cache_insert_with_limit k v n c)"
    using insert_spec(1) [OF ok] ok by (cases "n = 0") (auto simp: cache_insert_with_limit_def)
  show "map_of (bc_entries (cache_insert_with_limit k v n c)) k = Some v" if "0 < n"
    using last_kept [OF that] by (simp only: insert_spec(3) [OF ok that]) simp
  show "map_of (bc_entries (cache_insert_with_limit k v n c)) j \<in> {None, map_of (bc_entries c) j}" if "j \<noteq> k"
  proof (cases "n = 0")
    case False
    with insert_spec(3) [OF ok, of n k v j] that show ?thesis by auto
  qed (simp add: cache_insert_with_limit_def)
  show "length (bc_order (cache_insert_with_limit k v n c)) \<le> n" if "length (bc_order c) \<le> n"
    using insert_spec(2) [OF ok] that by (cases "n = 0") (auto simp: cache_insert_with_limit_def)
qed

text \<open>The caches of the agent are bounded and never stale: after any sequence of insertions there are at most as
  many entries as the limit, the insertion order names exactly the cached keys, and a hit is the value of
  the last insertion of its key.\<close>

theorem cache_bounded_and_fresh:
  "let c = fold (\<lambda>(k, v). cache_insert_with_limit k v (Suc n)) kvs empty_cache in
   cache_ok c \<and> length (bc_entries c) \<le> Suc n
   \<and> (case map_of (bc_entries c) k of None \<Rightarrow> True | Some v \<Rightarrow> map_of (rev kvs) k = Some v)"
proof -
  have e: "cache_ok empty_cache" by (simp add: cache_ok_def empty_cache_def)
  let ?c = "fold (\<lambda>(k, v). cache_insert_with_limit k v (Suc n)) kvs empty_cache"
  have "length (bc_order ?c) \<le> Suc n" by (rule agent_cache.insert_all_size [OF e]) (simp add: empty_cache_def)
  moreover have "cache_ok ?c" by (rule agent_cache.insert_all_ok [OF e])
  moreover have "map_of (rev kvs) k = Some v" if "map_of (bc_entries ?c) k = Some v" for v
    using agent_cache.insert_all_fresh [OF e that] by (auto simp: empty_cache_def)
  ultimately show ?thesis by (auto simp: Let_def cache_size split: option.split)
qed

end
