(* ===== verification/Safety_Scan.thy ===== *)
theory Safety_Scan
  imports Rust_Text "HOL-Library.Product_Lexorder"
begin

text \<open>
  Safety rules (\<open>crates/tau-safety/src/lib.rs\<close>): the policy, the validation of a rule set, and the scan of a
  text by literal and regular-expression rules with the redaction of what they match. The regular
  expressions are an argument: \<open>regex_find pattern input\<close> is \<open>None\<close> for an invalid pattern and otherwise
  the list of the ranges of the matches.
\<close>

subsection \<open>Policy and rules\<close>

datatype SafetyMode = SafetyWarn | SafetyRedact | SafetyBlock

datatype SafetyStage = InboundMessage | ToolOutput | OutboundHttpPayload

fun stage_str :: "SafetyStage \<Rightarrow> string" where
  "stage_str InboundMessage = ''inbound_message''"
| "stage_str ToolOutput = ''tool_output''"
| "stage_str OutboundHttpPayload = ''outbound_http_payload''"

record SafetyPolicy =
  sp_enabled :: bool
  sp_mode :: SafetyMode
  sp_apply_to_inbound_messages :: bool
  sp_apply_to_tool_outputs :: bool
  sp_redaction_token :: string
  sp_secret_leak_detection_enabled :: bool
  sp_secret_leak_mode :: SafetyMode
  sp_secret_leak_redaction_token :: string
  sp_apply_to_outbound_http_payloads :: bool

definition default_safety_policy :: SafetyPolicy where
  "default_safety_policy =
     \<lparr>sp_enabled = True, sp_mode = SafetyWarn, sp_apply_to_inbound_messages = True, sp_apply_to_tool_outputs = True,
      sp_redaction_token = ''[TAU-SAFETY-REDACTED]'', sp_secret_leak_detection_enabled = True,
      sp_secret_leak_mode = SafetyWarn, sp_secret_leak_redaction_token = ''[TAU-SECRET-REDACTED]'',
      sp_apply_to_outbound_http_payloads = True\<rparr>"

datatype SafetyRuleMatcher = LiteralMatcher | RegexMatcher

record SafetyRule =
  sr_rule_id :: string
  sr_reason_code :: string
  sr_pattern :: string
  sr_matcher :: SafetyRuleMatcher
  sr_enabled :: bool

record SafetyRuleSet =
  ss_prompt_injection_rules :: "SafetyRule list"
  ss_secret_leak_rules :: "SafetyRule list"

record SafetyMatch =
  sx_rule_id :: string
  sx_reason_code :: string
  sx_start :: nat
  sx_end :: nat

record SafetyScanResult =
  sc_redacted_text :: string
  sc_matches :: "SafetyMatch list"

definition has_matches :: "SafetyScanResult \<Rightarrow> bool" where
  "has_matches r \<longleftrightarrow> sc_matches r \<noteq> []"

text \<open>A \<open>BTreeSet\<close> iterates in order without repetition.\<close>

definition matched_rule_ids :: "SafetyScanResult \<Rightarrow> string list" where
  "matched_rule_ids r = remdups_adj (sort (map sx_rule_id (sc_matches r)))"

definition scan_reason_codes :: "SafetyScanResult \<Rightarrow> string list" where
  "scan_reason_codes r = remdups_adj (sort (map sx_reason_code (sc_matches r)))"

subsection \<open>Validation of a rule set\<close>

type_synonym regex_find = "string \<Rightarrow> string \<Rightarrow> (nat \<times> nat) list option"

datatype SafetyRuleError =
    RuleIdEmpty string nat
  | RuleIdDuplicate string nat string
  | ReasonCodeEmpty string nat
  | PatternEmpty string nat
  | PatternTooLong string nat
  | PatternInvalid string nat

text \<open>\<open>Regex::new\<close> succeeds independently of the input.\<close>

definition regex_valid :: "regex_find \<Rightarrow> string \<Rightarrow> bool" where
  "regex_valid regex_find pattern \<longleftrightarrow> regex_find pattern [] \<noteq> None"

fun validate_rules_from :: "regex_find \<Rightarrow> string \<Rightarrow> nat \<Rightarrow> string set \<Rightarrow> SafetyRule list \<Rightarrow> SafetyRuleError + unit" where
  "validate_rules_from regex_find field_name index rule_ids [] = Inr ()"
| "validate_rules_from regex_find field_name index rule_ids (rule # rules) =
     (let rule_id = trim (sr_rule_id rule); pattern = trim (sr_pattern rule) in
      if rule_id = [] then Inl (RuleIdEmpty field_name index)
      else if rule_id \<in> rule_ids then Inl (RuleIdDuplicate field_name index rule_id)
      else if trim (sr_reason_code rule) = [] then Inl (ReasonCodeEmpty field_name index)
      else if pattern = [] then Inl (PatternEmpty field_name index)
      else if length pattern > 4096 then Inl (PatternTooLong field_name index)
      else if sr_matcher rule = RegexMatcher \<and> \<not> regex_valid regex_find pattern then Inl (PatternInvalid field_name index)
      else validate_rules_from regex_find field_name (index + 1) (insert rule_id rule_ids) rules)"

definition validate_safety_rules_collection :: "regex_find \<Rightarrow> SafetyRule list \<Rightarrow> string \<Rightarrow> SafetyRuleError + unit" where
  "validate_safety_rules_collection regex_find rules field_name = validate_rules_from regex_find field_name 0 {} rules"

definition validate_safety_rule_set :: "regex_find \<Rightarrow> SafetyRuleSet \<Rightarrow> SafetyRuleError + unit" where
  "validate_safety_rule_set regex_find rule_set =
     and_then (validate_safety_rules_collection regex_find (ss_prompt_injection_rules rule_set) ''prompt_injection_rules'') (\<lambda>_.
     and_then (validate_safety_rules_collection regex_find (ss_secret_leak_rules rule_set) ''secret_leak_rules'') (\<lambda>_. Inr ()))"

text \<open>A valid collection: visible fields, patterns that fit and compile, and no rule id twice.\<close>

definition rule_fits :: "regex_find \<Rightarrow> SafetyRule \<Rightarrow> bool" where
  "rule_fits regex_find rule \<longleftrightarrow>
     trim (sr_rule_id rule) \<noteq> [] \<and> trim (sr_reason_code rule) \<noteq> [] \<and> trim (sr_pattern rule) \<noteq> []
     \<and> length (trim (sr_pattern rule)) \<le> 4096
     \<and> (sr_matcher rule = RegexMatcher \<longrightarrow> regex_valid regex_find (trim (sr_pattern rule)))"

lemma validate_rules_from_iff:
  "validate_rules_from regex_find field_name index rule_ids rules = Inr () \<longleftrightarrow>
     list_all (rule_fits regex_find) rules \<and> distinct (map (trim \<circ> sr_rule_id) rules)
     \<and> set (map (trim \<circ> sr_rule_id) rules) \<inter> rule_ids = {}"
  by (induction regex_find field_name index rule_ids rules rule: validate_rules_from.induct)
    (auto simp: Let_def rule_fits_def)

lemma validate_safety_rule_set_iff:
  "validate_safety_rule_set regex_find rule_set = Inr () \<longleftrightarrow>
     list_all (\<lambda>rules. list_all (rule_fits regex_find) rules \<and> distinct (map (trim \<circ> sr_rule_id) rules))
       [ss_prompt_injection_rules rule_set, ss_secret_leak_rules rule_set]"
  by (simp add: validate_safety_rule_set_def validate_safety_rules_collection_def and_then_Inr_iff validate_rules_from_iff)

subsection \<open>Scanning\<close>

fun merge_last :: "nat \<times> nat \<Rightarrow> (nat \<times> nat) list \<Rightarrow> (nat \<times> nat) list" where
  "merge_last previous [] = [previous]"
| "merge_last (previous_start, previous_end) ((s, e) # ranges) =
     (if s \<ge> e then merge_last (previous_start, previous_end) ranges
      else if s \<le> previous_end then merge_last (previous_start, max previous_end e) ranges
      else (previous_start, previous_end) # merge_last (s, e) ranges)"

fun merge_ranges :: "(nat \<times> nat) list \<Rightarrow> (nat \<times> nat) list" where
  "merge_ranges [] = []"
| "merge_ranges ((s, e) # ranges) = (if s \<ge> e then merge_ranges ranges else merge_last (s, e) ranges)"

fun redact_loop :: "string \<Rightarrow> string \<Rightarrow> nat \<Rightarrow> (nat \<times> nat) list \<Rightarrow> string" where
  "redact_loop input token cursor [] = (if cursor < length input then drop cursor input else [])"
| "redact_loop input token cursor ((s, e) # ranges) =
     (if s > cursor then slice cursor s input else []) @ token @ redact_loop input token e ranges"

definition apply_redaction_ranges :: "string \<Rightarrow> (nat \<times> nat) list \<Rightarrow> string \<Rightarrow> string" where
  "apply_redaction_ranges input ranges token = (if ranges = [] then input else redact_loop input token 0 ranges)"

text \<open>\<open>find\<close>: the position of the first occurrence.\<close>

fun find_at :: "string \<Rightarrow> string \<Rightarrow> nat option" where
  "find_at pat [] = (if pat = [] then Some 0 else None)"
| "find_at pat (c # cs) = (if prefix pat (c # cs) then Some 0 else map_option Suc (find_at pat cs))"

lemma find_at_bound: "find_at pat s = Some n \<Longrightarrow> n + length pat \<le> length s"
  by (induction pat s arbitrary: n rule: find_at.induct) (auto split: if_splits dest: prefix_length_le)

function literal_ranges :: "string \<Rightarrow> string \<Rightarrow> nat \<Rightarrow> (nat \<times> nat) list" where
  "literal_ranges lowered_input pattern search_from =
     (if pattern = [] \<or> search_from \<ge> length lowered_input then []
      else case find_at pattern (drop search_from lowered_input) of
        None \<Rightarrow> []
      | Some found \<Rightarrow>
          (let s = search_from + found; e = s + length pattern in (s, e) # literal_ranges lowered_input pattern e))"
  by pat_completeness auto
termination
  by (relation "measure (\<lambda>(input, pattern, search_from). length input - search_from)")
    (auto simp: neq_Nil_conv)

declare literal_ranges.simps [simp del]

definition rule_ranges :: "regex_find \<Rightarrow> string \<Rightarrow> SafetyRule \<Rightarrow> (nat \<times> nat) list" where
  "rule_ranges regex_find input rule =
     (let pattern = trim (sr_pattern rule) in
      if \<not> sr_enabled rule \<or> trim (sr_rule_id rule) = [] \<or> trim (sr_reason_code rule) = [] \<or> pattern = [] then []
      else case sr_matcher rule of
        LiteralMatcher \<Rightarrow> literal_ranges (to_ascii_lowercase input) (to_ascii_lowercase pattern) 0
      | RegexMatcher \<Rightarrow> (case regex_find pattern input of Some rs \<Rightarrow> rs | None \<Rightarrow> []))"

definition scan_rule_matches :: "regex_find \<Rightarrow> string \<Rightarrow> SafetyRule \<Rightarrow> SafetyMatch list" where
  "scan_rule_matches regex_find input rule =
     map (\<lambda>(s, e). \<lparr>sx_rule_id = trim (sr_rule_id rule), sx_reason_code = trim (sr_reason_code rule), sx_start = s, sx_end = e\<rparr>)
       (rule_ranges regex_find input rule)"

text \<open>Every scanner ends the same way: the matches in order, and the text with the merged ranges replaced.\<close>

definition span :: "SafetyMatch \<Rightarrow> nat \<times> nat" where
  "span m = (sx_start m, sx_end m)"

definition finish_scan :: "string \<Rightarrow> string \<Rightarrow> SafetyMatch list \<Rightarrow> SafetyScanResult" where
  "finish_scan input redaction_token matches =
     \<lparr>sc_redacted_text = apply_redaction_ranges input (merge_ranges (sort (map span matches))) redaction_token,
      sc_matches = sort_key span matches\<rparr>"

definition scan_safety_rules :: "regex_find \<Rightarrow> string \<Rightarrow> string \<Rightarrow> SafetyRule list \<Rightarrow> SafetyScanResult" where
  "scan_safety_rules regex_find input redaction_token rules =
     finish_scan input redaction_token (concat (map (scan_rule_matches regex_find input) rules))"

subsection \<open>The built-in scanners\<close>

record LiteralRule =
  lr_needle :: string
  lr_rule_id :: string
  lr_reason_code :: string

record RegexRuleDef =
  rr_pattern :: string
  rr_rule_id :: string
  rr_reason_code :: string

definition DEFAULT_LITERAL_RULES :: "LiteralRule list" where
  "DEFAULT_LITERAL_RULES =
     [\<lparr>lr_needle = ''ignore previous instructions'', lr_rule_id = ''literal.ignore_previous_instructions'',
       lr_reason_code = ''prompt_injection.ignore_instructions''\<rparr>,
      \<lparr>lr_needle = ''disregard previous instructions'', lr_rule_id = ''literal.disregard_previous_instructions'',
       lr_reason_code = ''prompt_injection.ignore_instructions''\<rparr>,
      \<lparr>lr_needle = ''reveal your system prompt'', lr_rule_id = ''literal.reveal_system_prompt'',
       lr_reason_code = ''prompt_injection.system_prompt_exfiltration''\<rparr>,
      \<lparr>lr_needle = ''developer message'', lr_rule_id = ''literal.developer_message_reference'',
       lr_reason_code = ''prompt_injection.system_prompt_exfiltration''\<rparr>,
      \<lparr>lr_needle = ''BEGIN PROMPT INJECTION'', lr_rule_id = ''literal.begin_prompt_injection'',
       lr_reason_code = ''prompt_injection.explicit_marker''\<rparr>,
      \<lparr>lr_needle = ''<system>'', lr_rule_id = ''literal.system_tag_injection'',
       lr_reason_code = ''prompt_injection.role_spoofing''\<rparr>]"

text \<open>The patterns of the tables: \<open>esc\<close> puts the backslash in front.\<close>

definition esc :: "string \<Rightarrow> string" where
  "esc s = CHR 0x5C # s"

definition DEFAULT_REGEX_RULES :: "RegexRuleDef list" where
  "DEFAULT_REGEX_RULES =
     [\<lparr>rr_pattern = concat [''(?is)'', esc ''b(ignore|disregard|override)'', esc ''b.{0,80}'', esc ''b(instruction|directive)s?'',
         esc ''b''],
       rr_rule_id = ''regex.override_instructions_phrase'', rr_reason_code = ''prompt_injection.ignore_instructions''\<rparr>,
      \<lparr>rr_pattern = concat [''(?is)'', esc ''bi['', esc ''W_]*g['', esc ''W_]*n['', esc ''W_]*o['', esc ''W_]*r['', esc ''W_]*e'',
         esc ''b.{0,80}'', esc ''b(instruction|directive)s?'', esc ''b''],
       rr_rule_id = ''regex.obfuscated_ignore_instructions_phrase'', rr_reason_code = ''prompt_injection.ignore_instructions''\<rparr>,
      \<lparr>rr_pattern = concat [''(?is)'', esc ''bi['', esc ''W_]*g['', esc ''W_]*n['', esc ''W_]*o['', esc ''W_]*r['', esc ''W_]*e'',
         esc ''b.{0,80}'', esc ''bi['', esc ''W_]*n['', esc ''W_]*s['', esc ''W_]*t['', esc ''W_]*r['',
         esc ''W_]*u['', esc ''W_]*c['', esc ''W_]*t['', esc ''W_]*i['', esc ''W_]*o['', esc ''W_]*n['',
         esc ''W_]*s?'', esc ''b''],
       rr_rule_id = ''regex.obfuscated_ignore_instruction_word'', rr_reason_code = ''prompt_injection.ignore_instructions''\<rparr>,
      \<lparr>rr_pattern = concat [''(?is)'', esc ''b(reveal|show|print|dump)'', esc ''b.{0,80}'',
         esc ''b(system prompt|hidden prompt|developer message|internal instructions?)'', esc ''b''],
       rr_rule_id = ''regex.prompt_exfiltration_phrase'', rr_reason_code = ''prompt_injection.system_prompt_exfiltration''\<rparr>,
      \<lparr>rr_pattern = concat [''(?is)'', esc ''br['', esc ''W_]*e['', esc ''W_]*v['', esc ''W_]*e['', esc ''W_]*a['', esc ''W_]*l'',
         esc ''b.{0,80}'', esc ''b(system prompt|hidden prompt|developer message|internal instructions?)'',
         esc ''b''],
       rr_rule_id = ''regex.obfuscated_prompt_exfiltration_phrase'', rr_reason_code = ''prompt_injection.system_prompt_exfiltration''\<rparr>,
      \<lparr>rr_pattern = concat [''(?is)'', esc ''b(exfiltrate|leak)'', esc ''b.{0,80}'',
         esc ''b(secret|secrets|token|tokens|credential|credentials)'', esc ''b''],
       rr_rule_id = ''regex.secret_exfiltration_phrase'', rr_reason_code = ''prompt_injection.secret_exfiltration''\<rparr>]"

definition DEFAULT_LEAK_REGEX_RULES :: "RegexRuleDef list" where
  "DEFAULT_LEAK_REGEX_RULES =
     [\<lparr>rr_pattern = concat [esc ''bsk-[A-Za-z0-9][A-Za-z0-9_-]{19,}'', esc ''b''],
       rr_rule_id = ''leak.openai_api_key'', rr_reason_code = ''secret_leak.openai_api_key''\<rparr>,
      \<lparr>rr_pattern = concat [esc ''bsk-ant-[A-Za-z0-9_-]{20,}'', esc ''b''],
       rr_rule_id = ''leak.anthropic_api_key'', rr_reason_code = ''secret_leak.anthropic_api_key''\<rparr>,
      \<lparr>rr_pattern = concat [esc ''bghp_[A-Za-z0-9]{20,}'', esc ''b''],
       rr_rule_id = ''leak.github_classic_pat'', rr_reason_code = ''secret_leak.github_token''\<rparr>,
      \<lparr>rr_pattern = concat [esc ''bgithub_pat_[A-Za-z0-9_]{20,}'', esc ''b''],
       rr_rule_id = ''leak.github_fine_grained_pat'', rr_reason_code = ''secret_leak.github_token''\<rparr>,
      \<lparr>rr_pattern = concat [esc ''bxox[baprs]-[A-Za-z0-9-]{10,}'', esc ''b''],
       rr_rule_id = ''leak.slack_token'', rr_reason_code = ''secret_leak.slack_token''\<rparr>,
      \<lparr>rr_pattern = concat [esc ''bAKIA[0-9A-Z]{16}'', esc ''b''],
       rr_rule_id = ''leak.aws_access_key_id'', rr_reason_code = ''secret_leak.aws_access_key''\<rparr>,
      \<lparr>rr_pattern = ''-----BEGIN (RSA |EC |DSA |OPENSSH |PGP )?PRIVATE KEY-----'',
       rr_rule_id = ''leak.private_key_material'', rr_reason_code = ''secret_leak.private_key_material''\<rparr>,
      \<lparr>rr_pattern = concat [esc ''beyJ[A-Za-z0-9_-]{10,}'', esc ''.[A-Za-z0-9_-]{10,}'', esc ''.[A-Za-z0-9_-]{10,}'', esc ''b''],
       rr_rule_id = ''leak.jwt_token'', rr_reason_code = ''secret_leak.jwt_token''\<rparr>]"

text \<open>
  The literal automaton, built from the needles, returns the index of the needle and the range of each match;
  building it and compiling the tables' patterns succeeds.
\<close>

type_synonym automaton = "string list \<Rightarrow> string \<Rightarrow> (nat \<times> nat \<times> nat) list"

definition literal_scan :: "automaton \<Rightarrow> string \<Rightarrow> SafetyMatch list" where
  "literal_scan find_iter input =
     concat (map (\<lambda>(index, s, e).
         if index < length DEFAULT_LITERAL_RULES then
           [\<lparr>sx_rule_id = lr_rule_id (DEFAULT_LITERAL_RULES ! index), sx_reason_code = lr_reason_code (DEFAULT_LITERAL_RULES ! index),
             sx_start = s, sx_end = e\<rparr>]
         else [])
       (find_iter (map lr_needle DEFAULT_LITERAL_RULES) input))"

definition regex_scan :: "regex_find \<Rightarrow> RegexRuleDef list \<Rightarrow> string \<Rightarrow> SafetyMatch list" where
  "regex_scan regex_find regex_rules input =
     concat (map (\<lambda>rule. map (\<lambda>(s, e).
         \<lparr>sx_rule_id = rr_rule_id rule, sx_reason_code = rr_reason_code rule, sx_start = s, sx_end = e\<rparr>)
       (case regex_find (rr_pattern rule) input of Some rs \<Rightarrow> rs | None \<Rightarrow> [])) regex_rules)"

definition DefaultSanitizer_scan :: "automaton \<Rightarrow> regex_find \<Rightarrow> string \<Rightarrow> string \<Rightarrow> SafetyScanResult" where
  "DefaultSanitizer_scan find_iter regex_find input redaction_token =
     finish_scan input redaction_token (literal_scan find_iter input @ regex_scan regex_find DEFAULT_REGEX_RULES input)"

definition DefaultLeakDetector_scan :: "regex_find \<Rightarrow> string \<Rightarrow> string \<Rightarrow> SafetyScanResult" where
  "DefaultLeakDetector_scan regex_find input redaction_token =
     finish_scan input redaction_token (regex_scan regex_find DEFAULT_LEAK_REGEX_RULES input)"

definition default_safety_rule_set :: SafetyRuleSet where
  "default_safety_rule_set =
     (let from_regex = (\<lambda>rule. \<lparr>sr_rule_id = rr_rule_id rule, sr_reason_code = rr_reason_code rule, sr_pattern = rr_pattern rule,
            sr_matcher = RegexMatcher, sr_enabled = True\<rparr>)
      in \<lparr>ss_prompt_injection_rules =
            map (\<lambda>rule. \<lparr>sr_rule_id = lr_rule_id rule, sr_reason_code = lr_reason_code rule, sr_pattern = lr_needle rule,
                sr_matcher = LiteralMatcher, sr_enabled = True\<rparr>) DEFAULT_LITERAL_RULES
            @ map from_regex DEFAULT_REGEX_RULES,
          ss_secret_leak_rules = map from_regex DEFAULT_LEAK_REGEX_RULES\<rparr>)"

subsection \<open>Redaction replaces exactly what matched\<close>

definition covered :: "(nat \<times> nat) list \<Rightarrow> nat \<Rightarrow> bool" where
  "covered ranges i \<longleftrightarrow> list_ex (\<lambda>(s, e). s \<le> i \<and> i < e) ranges"

text \<open>The specification: walk the text and put the token in place of each maximal run of covered bytes.\<close>

fun redact_runs :: "(nat \<Rightarrow> bool) \<Rightarrow> string \<Rightarrow> nat \<Rightarrow> bool \<Rightarrow> string \<Rightarrow> string" where
  "redact_runs cov token i inside [] = []"
| "redact_runs cov token i inside (c # cs) =
     (if cov i then (if inside then [] else token) @ redact_runs cov token (Suc i) True cs
      else c # redact_runs cov token (Suc i) False cs)"

lemma redact_runs_uncovered:
  "(\<And>j. i \<le> j \<Longrightarrow> j < i + length xs \<Longrightarrow> \<not> cov j) \<Longrightarrow>
     redact_runs cov token i inside (xs @ ys) = xs @ redact_runs cov token (i + length xs) (inside \<and> xs = []) ys"
proof (induction xs arbitrary: i inside)
  case (Cons x xs)
  then have "\<not> cov i" by simp
  moreover have "redact_runs cov token (Suc i) False (xs @ ys) = xs @ redact_runs cov token (Suc i + length xs) False ys"
    using Cons.IH [of "Suc i" False] Cons.prems by simp
  ultimately show ?case by simp
qed simp

lemma redact_runs_inside:
  "(\<And>j. i \<le> j \<Longrightarrow> j < i + length xs \<Longrightarrow> cov j) \<Longrightarrow>
     redact_runs cov token i True (xs @ ys) = redact_runs cov token (i + length xs) True ys"
proof (induction xs arbitrary: i)
  case (Cons x xs)
  then have "cov i" by simp
  with Cons.IH [of "Suc i"] Cons.prems show ?case by simp
qed simp

lemma redact_runs_covered:
  assumes "\<And>j. i \<le> j \<Longrightarrow> j < i + length xs \<Longrightarrow> cov j" "xs \<noteq> []"
  shows "redact_runs cov token i False (xs @ ys) = token @ redact_runs cov token (i + length xs) True ys"
proof -
  obtain x zs where xs: "xs = x # zs" using assms(2) by (cases xs) auto
  then have "cov i" using assms(1) by simp
  moreover have "redact_runs cov token (Suc i) True (zs @ ys) = redact_runs cov token (Suc i + length zs) True ys"
    by (rule redact_runs_inside) (use assms(1) xs in simp)
  ultimately show ?thesis by (simp add: xs)
qed

lemma redact_runs_flag: "\<not> cov i \<or> s = [] \<Longrightarrow> redact_runs cov token i True s = redact_runs cov token i False s"
  by (cases s) auto

text \<open>Merged ranges lie apart from each other.\<close>

fun separated :: "nat \<Rightarrow> nat \<Rightarrow> (nat \<times> nat) list \<Rightarrow> bool" where
  "separated n low [] = True"
| "separated n low ((s, e) # ranges) \<longleftrightarrow> low \<le> s \<and> s < e \<and> e \<le> n \<and> separated n (Suc e) ranges"

lemma separated_low: "separated n low ranges \<Longrightarrow> covered ranges i \<Longrightarrow> low \<le> i"
  by (induction n low ranges rule: separated.induct) (force simp: covered_def)+

lemma redact_loop_runs:
  assumes "separated (length input) low ranges" "cursor \<le> low" "low \<le> Suc cursor"
    "\<And>j. cursor \<le> j \<Longrightarrow> cov j \<longleftrightarrow> covered ranges j"
  shows "redact_loop input token cursor ranges = redact_runs cov token cursor False (drop cursor input)"
  using assms
proof (induction ranges arbitrary: cursor low)
  case Nil
  then have "\<not> cov j" if "cursor \<le> j" for j using that by (simp add: covered_def)
  with redact_runs_uncovered [of cursor "drop cursor input" cov token False "[]"] show ?case by simp
next
  case (Cons r ranges)
  obtain s e where r: "r = (s, e)" by (cases r)
  with Cons.prems have sep: "low \<le> s" "s < e" "e \<le> length input" "separated (length input) (Suc e) ranges" by auto
  have c: "cursor \<le> s" using Cons.prems(2) sep(1) by simp
  have rest: "covered ranges j \<Longrightarrow> Suc e \<le> j" for j using separated_low [OF sep(4)] .
  have before: "\<not> cov j" if "cursor \<le> j" "j < s" for j
    using Cons.prems(4) [OF that(1)] rest that sep(2) by (force simp: covered_def r)
  have inside: "cov j" if "s \<le> j" "j < e" for j
    using Cons.prems(4) [of j] that c by (simp add: covered_def r)
  have split: "drop cursor input = slice cursor s input @ slice s e input @ drop e input"
  proof -
    have "slice cursor s input @ drop s input = drop cursor input"
      using c sep by (simp add: slice_def drop_take) (metis add.commute append_take_drop_id drop_drop le_add_diff_inverse2)
    moreover have "slice s e input @ drop e input = drop s input"
      using sep by (simp add: slice_def drop_take) (metis add.commute append_take_drop_id drop_drop le_add_diff_inverse2 less_imp_le)
    ultimately show ?thesis by simp
  qed
  have len: "length (slice cursor s input) = s - cursor" "length (slice s e input) = e - s"
    using sep by (simp_all add: slice_def)
  have "redact_runs cov token cursor False (drop cursor input)
      = slice cursor s input @ redact_runs cov token s False (slice s e input @ drop e input)"
    unfolding split using redact_runs_uncovered [of cursor "slice cursor s input" cov token False] before len c by simp
  also have "redact_runs cov token s False (slice s e input @ drop e input) = token @ redact_runs cov token e True (drop e input)"
    using redact_runs_covered [of s "slice s e input" cov token "drop e input"] inside len sep(2)
    by (metis add_diff_cancel_left' le_add_diff_inverse length_greater_0_conv less_imp_le zero_less_diff)
  also have "redact_runs cov token e True (drop e input) = redact_runs cov token e False (drop e input)"
    using Cons.prems(4) [of e] c sep rest by (intro redact_runs_flag) (force simp: covered_def r)
  also have "\<dots> = redact_loop input token e ranges"
  proof (rule Cons.IH [OF sep(4), symmetric])
    show "cov j \<longleftrightarrow> covered ranges j" if "e \<le> j" for j
      using Cons.prems(4) [of j] that c sep(2) by (simp add: covered_def r)
  qed simp_all
  finally show ?case using c by (auto simp: r slice_def)
qed

subsubsection \<open>Merging\<close>

lemma merge_last_separated:
  "low \<le> ps \<Longrightarrow> ps < pe \<Longrightarrow> pe \<le> n \<Longrightarrow> sorted (map fst ((ps, pe) # ranges)) \<Longrightarrow> list_all (\<lambda>(s, e). e \<le> n) ranges
     \<Longrightarrow> separated n low (merge_last (ps, pe) ranges)"
  by (induction "(ps, pe)" ranges arbitrary: low ps pe rule: merge_last.induct) auto

lemma merge_last_covers:
  "sorted (map fst ((ps, pe) # ranges)) \<Longrightarrow> covered (merge_last (ps, pe) ranges) i \<longleftrightarrow> covered ((ps, pe) # ranges) i"
  by (induction "(ps, pe)" ranges arbitrary: ps pe rule: merge_last.induct) (auto simp: covered_def)

lemma merge_ranges_separated:
  "sorted (map fst ranges) \<Longrightarrow> list_all (\<lambda>(s, e). e \<le> n) ranges \<Longrightarrow> separated n 0 (merge_ranges ranges)"
  by (induction ranges rule: merge_ranges.induct) (auto intro: merge_last_separated)

lemma merge_ranges_covers: "sorted (map fst ranges) \<Longrightarrow> covered (merge_ranges ranges) = covered ranges"
proof (induction ranges rule: merge_ranges.induct)
  case (2 s e ranges)
  then show ?case using merge_last_covers [of s e ranges] by (auto simp: covered_def fun_eq_iff)
qed (simp add: covered_def)

lemma sorted_map_fst: "sorted (rs :: (nat \<times> nat) list) \<Longrightarrow> sorted (map fst rs)"
  by (induction rs) (auto simp: less_eq_prod_def)

lemma covered_set: "set a = set b \<Longrightarrow> covered a = covered b"
  by (auto simp: covered_def list_ex_iff fun_eq_iff)

lemma merge_ranges_covers_sort: "covered (merge_ranges (sort ranges)) = covered ranges"
  using merge_ranges_covers [OF sorted_map_fst [OF sorted_sort [of ranges]]] covered_set [of "sort ranges" ranges] by simp

lemma redact_runs_none: "(\<And>j. \<not> cov j) \<Longrightarrow> redact_runs cov token i inside s = s"
  by (induction s arbitrary: i inside) auto

definition in_bounds :: "string \<Rightarrow> (nat \<times> nat) list \<Rightarrow> bool" where
  "in_bounds input = list_all (\<lambda>(s, e). e \<le> length input)"

lemma apply_redaction_exact:
  assumes "in_bounds input ranges"
  shows "apply_redaction_ranges input (merge_ranges (sort ranges)) token = redact_runs (covered ranges) token 0 False input"
proof (cases "merge_ranges (sort ranges) = []")
  case True
  then have "\<not> covered ranges j" for j
    using merge_ranges_covers_sort [of ranges, symmetric] True by (simp add: covered_def)
  then show ?thesis using True by (simp add: apply_redaction_ranges_def redact_runs_none)
next
  case False
  have "list_all (\<lambda>(s, e). e \<le> length input) (sort ranges)"
    using assms by (simp add: in_bounds_def list_all_iff)
  then have "separated (length input) 0 (merge_ranges (sort ranges))"
    using merge_ranges_separated sorted_map_fst sorted_sort by blast
  from redact_loop_runs [OF this, of 0 "covered ranges"] show ?thesis
    using False by (simp add: apply_redaction_ranges_def merge_ranges_covers_sort)
qed

subsubsection \<open>Literal occurrences\<close>

lemma find_at_first:
  "prefix pat (drop i s) \<Longrightarrow> i \<le> length s \<Longrightarrow> \<exists>n. find_at pat s = Some n \<and> n \<le> i"
proof (induction pat s arbitrary: i rule: find_at.induct)
  case (2 pat c cs)
  then show ?case by (cases i) (auto, blast)
qed auto

lemma find_at_prefix: "find_at pat s = Some n \<Longrightarrow> prefix pat (drop n s)"
  by (induction pat s arbitrary: n rule: find_at.induct) (auto split: if_splits)

lemma literal_ranges_complete:
  "pattern \<noteq> [] \<Longrightarrow> search_from \<le> i \<Longrightarrow> prefix pattern (drop i input) \<Longrightarrow> covered (literal_ranges input pattern search_from) i"
proof (induction input pattern search_from rule: literal_ranges.induct)
  case (1 input pattern search_from)
  have len: "i < length input"
    using 1(2,4) by (metis drop_all not_le prefix_bot.extremum_uniqueI)
  have "prefix pattern (drop (i - search_from) (drop search_from input))"
    using 1(3,4) by simp
  then obtain n where n: "find_at pattern (drop search_from input) = Some n" "n \<le> i - search_from"
    using find_at_first [of pattern "i - search_from" "drop search_from input"] len 1(3)
    by (auto simp: diff_le_mono less_imp_le)
  show ?case
  proof (cases "i < search_from + n + length pattern")
    case True
    then show ?thesis using n 1(2,3) len
      by (subst literal_ranges.simps) (auto simp: covered_def Let_def)
  next
    case False
    then have "covered (literal_ranges input pattern (search_from + n + length pattern)) i"
      using 1(1) [OF _ n(1) refl refl] 1(2,3,4) len by auto
    then show ?thesis using n 1(2,3) len
      by (subst literal_ranges.simps) (auto simp: covered_def Let_def)
  qed
qed

lemma literal_ranges_sound:
  "(s, e) \<in> set (literal_ranges input pattern search_from) \<Longrightarrow>
     e = s + length pattern \<and> search_from \<le> s \<and> prefix pattern (drop s input)"
proof (induction input pattern search_from rule: literal_ranges.induct)
  case (1 input pattern search_from)
  have open_loop: "\<not> (pattern = [] \<or> length input \<le> search_from)"
    using 1(2) by (subst (asm) literal_ranges.simps) (auto split: if_splits)
  with 1(2) obtain n where n: "find_at pattern (drop search_from input) = Some n"
    and cases: "(s, e) = (search_from + n, search_from + n + length pattern)
      \<or> (s, e) \<in> set (literal_ranges input pattern (search_from + n + length pattern))"
    using literal_ranges.simps [of input pattern search_from]
    by (cases "find_at pattern (drop search_from input)") (auto simp: Let_def)
  have "prefix pattern (drop (search_from + n) input)"
    using find_at_prefix [OF n] by (simp add: add.commute)
  with cases 1(1) [OF open_loop n refl refl] show ?case by auto
qed

lemma literal_ranges_in_bounds: "in_bounds input (literal_ranges input pattern search_from)"
proof -
  have "e \<le> length input" if "(s, e) \<in> set (literal_ranges input pattern search_from)" "pattern \<noteq> []" for s e
    using literal_ranges_sound [OF that(1)] that(2) prefix_length_le [of pattern "drop s input"] by (cases "s \<le> length input") auto
  moreover have "literal_ranges input [] search_from = []" by (subst literal_ranges.simps) simp
  ultimately show ?thesis by (cases "pattern = []") (auto simp: in_bounds_def list_all_iff)
qed

subsubsection \<open>What a scan returns\<close>

text \<open>The ranges a regular-expression engine reports lie inside the text it searched.\<close>

definition regex_in_bounds :: "regex_find \<Rightarrow> bool" where
  "regex_in_bounds regex_find \<longleftrightarrow>
     (\<forall>pattern input ranges. regex_find pattern input = Some ranges \<longrightarrow> in_bounds input ranges)"

lemma span_scan_rule_matches: "map span (scan_rule_matches regex_find input rule) = rule_ranges regex_find input rule"
  by (simp add: scan_rule_matches_def span_def comp_def case_prod_beta)

lemma rule_ranges_in_bounds:
  assumes "regex_in_bounds regex_find"
  shows "in_bounds input (rule_ranges regex_find input rule)"
proof -
  have "in_bounds input (literal_ranges (to_ascii_lowercase input) p 0)" for p
    using literal_ranges_in_bounds [of "to_ascii_lowercase input" p 0] by (simp add: in_bounds_def to_ascii_lowercase_def)
  then show ?thesis
    using assms
    by (auto simp: rule_ranges_def Let_def regex_in_bounds_def in_bounds_def split: SafetyRuleMatcher.split option.split)
qed

lemma finish_scan_exact:
  assumes "in_bounds input (map span matches)"
  shows "sc_redacted_text (finish_scan input token matches) = redact_runs (covered (map span matches)) token 0 False input"
  using apply_redaction_exact [OF assms] by (simp add: finish_scan_def)

lemma finish_scan_matches: "set (sc_matches (finish_scan input token matches)) = set matches"
  and finish_scan_sorted: "sorted (map span (sc_matches (finish_scan input token matches)))"
  by (simp_all add: finish_scan_def)

lemma in_bounds_concat: "in_bounds input (concat xss) \<longleftrightarrow> list_all (in_bounds input) xss"
  by (induction xss) (auto simp: in_bounds_def)

lemma in_bounds_matches:
  assumes "regex_in_bounds regex_find"
  shows "in_bounds input (map span (concat (map (scan_rule_matches regex_find input) rules)))"
  by (simp add: map_concat in_bounds_concat list_all_iff span_scan_rule_matches comp_def rule_ranges_in_bounds [OF assms])

definition rule_active :: "SafetyRule \<Rightarrow> bool" where
  "rule_active rule \<longleftrightarrow>
     sr_enabled rule \<and> trim (sr_rule_id rule) \<noteq> [] \<and> trim (sr_reason_code rule) \<noteq> [] \<and> trim (sr_pattern rule) \<noteq> []"

text \<open>A scan reports its matches in order of position and redacts exactly what it reports: the redacted text
  is the input with each maximal run of matched bytes replaced by one token and every other byte kept, however the
  matches of the different rules overlap.\<close>

theorem scan_redacts_exactly:
  assumes "regex_in_bounds regex_find"
  shows "sc_redacted_text (scan_safety_rules regex_find input token rules)
           = redact_runs (covered (map span (sc_matches (scan_safety_rules regex_find input token rules)))) token 0 False input
         \<and> sorted (map span (sc_matches (scan_safety_rules regex_find input token rules)))"
proof -
  let ?m = "concat (map (scan_rule_matches regex_find input) rules)"
  have "covered (map span (sc_matches (finish_scan input token ?m))) = covered (map span ?m)"
    by (rule covered_set) (simp only: set_map finish_scan_matches)
  then show ?thesis
    using finish_scan_exact [OF in_bounds_matches [OF assms]] finish_scan_sorted
    by (simp add: scan_safety_rules_def)
qed

definition sample_regex :: regex_find where
  "sample_regex pattern input = (if pattern = ''('' then None else if length input < 6 then Some [] else Some [(3, 6)])"

definition sample_rules :: "SafetyRule list" where
  "sample_rules =
     [\<lparr>sr_rule_id = ''a'', sr_reason_code = ''b'', sr_pattern = ''cd'', sr_matcher = LiteralMatcher, sr_enabled = True\<rparr>,
      \<lparr>sr_rule_id = ''r'', sr_reason_code = ''b'', sr_pattern = ''x'', sr_matcher = RegexMatcher, sr_enabled = True\<rparr>]"

lemma sample_regex_in_bounds: "regex_in_bounds sample_regex"
  by (auto simp: regex_in_bounds_def sample_regex_def in_bounds_def split: if_splits)

theorem scan_redacts_exactly_witness:
  "regex_in_bounds sample_regex \<and>
   sc_redacted_text (scan_safety_rules sample_regex ''abCDefgh'' ''#'' sample_rules)
     = redact_runs (covered (map span (sc_matches (scan_safety_rules sample_regex ''abCDefgh'' ''#'' sample_rules)))) ''#'' 0 False ''abCDefgh''
   \<and> sorted (map span (sc_matches (scan_safety_rules sample_regex ''abCDefgh'' ''#'' sample_rules)))"
  using scan_redacts_exactly [OF sample_regex_in_bounds, of "''abCDefgh''" "''#''" sample_rules] sample_regex_in_bounds by blast

text \<open>No occurrence of an active literal rule survives: at whatever position of the text the rule's pattern
  occurs, upper or lower case, the byte at that position is covered by a reported match.\<close>

theorem literal_rules_complete:
  assumes "rule \<in> set rules" "rule_active rule" "sr_matcher rule = LiteralMatcher"
    and "prefix (to_ascii_lowercase (trim (sr_pattern rule))) (drop i (to_ascii_lowercase input))"
  shows "covered (map span (sc_matches (scan_safety_rules regex_find input token rules))) i"
proof -
  have "covered (rule_ranges regex_find input rule) i"
    using assms literal_ranges_complete [of "to_ascii_lowercase (trim (sr_pattern rule))" 0 i "to_ascii_lowercase input"]
    by (auto simp: rule_ranges_def Let_def rule_active_def to_ascii_lowercase_def)
  moreover have "set (rule_ranges regex_find input rule) \<subseteq> set (map span (concat (map (scan_rule_matches regex_find input) rules)))"
    using assms(1) by (force simp flip: span_scan_rule_matches)
  ultimately show ?thesis
    using finish_scan_matches [of input token "concat (map (scan_rule_matches regex_find input) rules)"]
    by (force simp: scan_safety_rules_def covered_def list_ex_iff)
qed

theorem literal_rules_complete_witness:
  "rule_active (hd sample_rules) \<and>
   covered (map span (sc_matches (scan_safety_rules sample_regex ''abCDefgh'' ''#'' sample_rules))) 2"
proof -
  have t: "trim ''a'' = ''a''" "trim ''b'' = ''b''" "trim ''cd'' = ''cd''"
    by (rule trim_visible; simp)+
  have low: "to_ascii_lowercase ''abCDefgh'' = ''abcdefgh''" "to_ascii_lowercase ''cd'' = ''cd''"
    by code_simp+
  have active: "rule_active (hd sample_rules)" by (simp add: rule_active_def sample_rules_def t)
  have "prefix (to_ascii_lowercase (trim (sr_pattern (hd sample_rules)))) (drop 2 (to_ascii_lowercase ''abCDefgh''))"
    by (simp add: sample_rules_def t low)
  from literal_rules_complete [OF _ active _ this, of sample_rules sample_regex "''#''"] active show ?thesis
    by (simp add: sample_rules_def)
qed

end
