(* ===== verification/Agent_Types.thy ===== *)
theory Agent_Types
  imports Agent_Context Json_Value Rust_Float Safety_Scan
begin

text \<open>
  The data of the agent core (\<open>crates/tau-agent-core/src/lib.rs\<close>): configuration, tool results, events and
  errors, and the response directives a tool result may carry. JSON values are \<open>json\<close>; parsing and
  rendering them are arguments.
\<close>

subsection \<open>Configuration\<close>

record AgentConfig =
  cf_agent_id :: string
  cf_model :: string
  cf_system_prompt :: string
  cf_max_turns :: nat
  cf_temperature :: "nat option"
  cf_max_tokens :: "nat option"
  cf_max_parallel_tool_calls :: nat
  cf_max_context_messages :: "nat option"
  cf_request_max_retries :: nat
  cf_request_retry_initial_backoff_ms :: nat
  cf_request_retry_max_backoff_ms :: nat
  cf_stream_retry_with_buffering :: bool
  cf_request_timeout_ms :: "nat option"
  cf_tool_timeout_ms :: "nat option"
  cf_max_estimated_input_tokens :: "nat option"
  cf_max_estimated_total_tokens :: "nat option"
  cf_context_compaction_warn_threshold_percent :: nat
  cf_context_compaction_aggressive_threshold_percent :: nat
  cf_context_compaction_emergency_threshold_percent :: nat
  cf_context_compaction_warn_retain_percent :: nat
  cf_context_compaction_aggressive_retain_percent :: nat
  cf_context_compaction_emergency_retain_percent :: nat
  cf_structured_output_max_retries :: nat
  cf_react_max_replans_on_tool_failure :: nat
  cf_max_concurrent_branches_per_session :: nat
  cf_memory_retrieval_limit :: nat
  cf_memory_embedding_dimensions :: nat
  cf_memory_min_similarity :: nat
  cf_memory_max_chars_per_item :: nat
  cf_memory_embedding_model :: "string option"
  cf_memory_embedding_api_base :: "string option"
  cf_memory_embedding_api_key :: "string option"
  cf_response_cache_enabled :: bool
  cf_response_cache_max_entries :: nat
  cf_tool_result_cache_enabled :: bool
  cf_tool_result_cache_max_entries :: nat
  cf_model_input_cost_per_million :: "f64 option"
  cf_model_cached_input_cost_per_million :: "f64 option"
  cf_model_output_cost_per_million :: "f64 option"
  cf_cost_budget_usd :: "f64 option"
  cf_cost_alert_thresholds_percent :: "nat list"
  cf_async_event_queue_capacity :: nat
  cf_async_event_handler_timeout_ms :: "nat option"
  cf_async_event_block_on_full :: bool

text \<open>\<open>0.55_f32\<close> is \<open>0x3F0CCCCD\<close>.\<close>

definition default_agent_config :: AgentConfig where
  "default_agent_config =
     \<lparr>cf_agent_id = ''tau-agent'', cf_model = ''gpt-4o-mini'', cf_system_prompt = ''You are a helpful coding assistant.'',
      cf_max_turns = 8, cf_temperature = Some 0, cf_max_tokens = None, cf_max_parallel_tool_calls = 4,
      cf_max_context_messages = Some 256, cf_request_max_retries = 2, cf_request_retry_initial_backoff_ms = 200,
      cf_request_retry_max_backoff_ms = 2000, cf_stream_retry_with_buffering = True, cf_request_timeout_ms = Some 120000,
      cf_tool_timeout_ms = Some 120000, cf_max_estimated_input_tokens = Some 120000, cf_max_estimated_total_tokens = None,
      cf_context_compaction_warn_threshold_percent = 80, cf_context_compaction_aggressive_threshold_percent = 85,
      cf_context_compaction_emergency_threshold_percent = 95, cf_context_compaction_warn_retain_percent = 70,
      cf_context_compaction_aggressive_retain_percent = 50, cf_context_compaction_emergency_retain_percent = 50,
      cf_structured_output_max_retries = 1, cf_react_max_replans_on_tool_failure = 1, cf_max_concurrent_branches_per_session = 2,
      cf_memory_retrieval_limit = 3, cf_memory_embedding_dimensions = 128, cf_memory_min_similarity = 0x3F0CCCCD,
      cf_memory_max_chars_per_item = 180, cf_memory_embedding_model = None, cf_memory_embedding_api_base = None,
      cf_memory_embedding_api_key = None, cf_response_cache_enabled = True, cf_response_cache_max_entries = 128,
      cf_tool_result_cache_enabled = True, cf_tool_result_cache_max_entries = 256, cf_model_input_cost_per_million = None,
      cf_model_cached_input_cost_per_million = None, cf_model_output_cost_per_million = None, cf_cost_budget_usd = None,
      cf_cost_alert_thresholds_percent = [80, 100], cf_async_event_queue_capacity = 128,
      cf_async_event_handler_timeout_ms = Some 5000, cf_async_event_block_on_full = False\<rparr>"

subsection \<open>Tool results\<close>

record ToolExecutionResult =
  tr_content :: json
  tr_is_error :: bool

definition tool_ok :: "json \<Rightarrow> ToolExecutionResult" where
  "tool_ok content = \<lparr>tr_content = content, tr_is_error = False\<rparr>"

definition tool_error :: "json \<Rightarrow> ToolExecutionResult" where
  "tool_error content = \<lparr>tr_content = content, tr_is_error = True\<rparr>"

definition as_text :: "(json \<Rightarrow> string) \<Rightarrow> ToolExecutionResult \<Rightarrow> string" where
  "as_text to_string_pretty result =
     (case tr_content result of JString text \<Rightarrow> text | other \<Rightarrow> to_string_pretty other)"

text \<open>\<open>json!({ "error": message })\<close>.\<close>

definition error_json :: "string \<Rightarrow> json" where
  "error_json message = JObject [(''error'', JString message)]"

subsection \<open>Response directives\<close>

text \<open>
  The latest tool message of the given tool that succeeded and whose text parses to a payload the directive
  accepts.
\<close>

definition extract_directive ::
  "string \<Rightarrow> (json \<Rightarrow> 'a option) \<Rightarrow> (string \<Rightarrow> json option) \<Rightarrow> json Message list \<Rightarrow> 'a option" where
  "extract_directive tool_name parse_payload from_str messages =
     (case List.map_filter (\<lambda>message.
          if msg_role message \<noteq> Tool \<or> msg_is_error message then None
          else if msg_tool_name message \<noteq> Some tool_name then None
          else if trim (text_content message) = [] then None
          else Option.bind (from_str (trim (text_content message))) parse_payload) (rev messages)
      of [] \<Rightarrow> None | d # _ \<Rightarrow> Some d)"

definition action_is :: "string \<Rightarrow> (string \<times> json) list \<Rightarrow> bool" where
  "action_is name object = (case get_as as_str ''action'' object of Some v \<Rightarrow> trim v = name | None \<Rightarrow> False)"

definition flag_or :: "bool \<Rightarrow> string \<Rightarrow> (string \<times> json) list \<Rightarrow> bool" where
  "flag_or otherwise key object = (case get_as as_bool key object of Some b \<Rightarrow> b | None \<Rightarrow> otherwise)"

definition parse_skip_response_reason_payload :: "json \<Rightarrow> string option" where
  "parse_skip_response_reason_payload payload =
     (case as_object payload of
        None \<Rightarrow> None
      | Some object \<Rightarrow>
          if \<not> flag_or False ''skip_response'' object \<and> \<not> action_is ''skip_response'' object then None
          else Some (case get_as as_str ''reason'' object of Some v \<Rightarrow> trim v | None \<Rightarrow> []))"

definition extract_skip_response_reason :: "(string \<Rightarrow> json option) \<Rightarrow> json Message list \<Rightarrow> string option" where
  "extract_skip_response_reason = extract_directive ''skip'' parse_skip_response_reason_payload"

record ReactResponseDirective =
  rd_emoji :: string
  rd_message_id :: "string option"
  rd_reason_code :: string

definition parse_react_response_directive_payload :: "json \<Rightarrow> ReactResponseDirective option" where
  "parse_react_response_directive_payload payload =
     (case as_object payload of
        None \<Rightarrow> None
      | Some object \<Rightarrow>
          if \<not> flag_or False ''react_response'' object \<and> \<not> action_is ''react_response'' object then None
          else if \<not> flag_or True ''suppress_response'' object then None
          else map_option (\<lambda>emoji.
            \<lparr>rd_emoji = emoji, rd_message_id = trimmed_text (get_as as_str ''message_id'' object),
             rd_reason_code = (case trimmed_text (get_as as_str ''reason_code'' object) of
                Some r \<Rightarrow> r | None \<Rightarrow> ''react_requested'')\<rparr>)
            (trimmed_text (get_as as_str ''emoji'' object)))"

definition extract_react_response_directive :: "(string \<Rightarrow> json option) \<Rightarrow> json Message list \<Rightarrow> ReactResponseDirective option" where
  "extract_react_response_directive = extract_directive ''react'' parse_react_response_directive_payload"

record SendFileResponseDirective =
  sf_file_path :: string
  sf_message :: "string option"
  sf_reason_code :: string

definition parse_send_file_response_directive_payload :: "json \<Rightarrow> SendFileResponseDirective option" where
  "parse_send_file_response_directive_payload payload =
     (case as_object payload of
        None \<Rightarrow> None
      | Some object \<Rightarrow>
          if \<not> flag_or False ''send_file_response'' object \<and> \<not> action_is ''send_file_response'' object then None
          else if \<not> flag_or True ''suppress_response'' object then None
          else map_option (\<lambda>file_path.
            \<lparr>sf_file_path = file_path, sf_message = trimmed_text (get_as as_str ''message'' object),
             sf_reason_code = (case trimmed_text (get_as as_str ''reason_code'' object) of
                Some r \<Rightarrow> r | None \<Rightarrow> ''send_file_requested'')\<rparr>)
            (trimmed_text (get_as as_str ''file_path'' object)))"

definition extract_send_file_response_directive ::
  "(string \<Rightarrow> json option) \<Rightarrow> json Message list \<Rightarrow> SendFileResponseDirective option" where
  "extract_send_file_response_directive = extract_directive ''send_file'' parse_send_file_response_directive_payload"

subsection \<open>Events and errors\<close>

datatype AgentEvent =
    AgentStart
  | AgentEnd nat
  | TurnStart nat
  | TurnEnd nat nat nat ChatUsage "string option"
  | MessageAdded "json Message"
  | ToolExecutionStart string string json
  | ToolExecutionEnd string string ToolExecutionResult
  | ReplanTriggered nat string
  | CostUpdated nat f64 f64 "f64 option"
  | CostBudgetAlert nat nat f64 f64
  | SafetyPolicyApplied SafetyStage SafetyMode bool "string list" "string list"

datatype AgentError =
    AiError TauAiError
  | Cancelled
  | MaxTurnsExceeded nat
  | RequestTimeout nat nat
  | TokenBudgetExceeded nat nat nat nat
  | StructuredOutput string
  | SafetyViolation string "string list"

datatype AgentDirectMessageError =
    UnauthorizedRoute string string
  | EmptyContent
  | MessageTooLong nat nat
  | DirectSafetyViolation "string list"

record AgentDirectMessagePolicy =
  dp_allow_self_messages :: bool
  dp_max_message_chars :: nat
  dp_allowed_routes :: "(string \<times> string) set"

definition default_direct_policy :: AgentDirectMessagePolicy where
  "default_direct_policy = \<lparr>dp_allow_self_messages = False, dp_max_message_chars = 4000, dp_allowed_routes = {}\<rparr>"

definition allow_route :: "string \<Rightarrow> string \<Rightarrow> AgentDirectMessagePolicy \<Rightarrow> AgentDirectMessagePolicy" where
  "allow_route from_agent_id to_agent_id policy =
     policy\<lparr>dp_allowed_routes := insert (from_agent_id, to_agent_id) (dp_allowed_routes policy)\<rparr>"

definition allow_bidirectional_route :: "string \<Rightarrow> string \<Rightarrow> AgentDirectMessagePolicy \<Rightarrow> AgentDirectMessagePolicy" where
  "allow_bidirectional_route left right policy = allow_route right left (allow_route left right policy)"

definition direct_allows :: "AgentDirectMessagePolicy \<Rightarrow> string \<Rightarrow> string \<Rightarrow> bool" where
  "direct_allows policy from_agent_id to_agent_id =
     (if from_agent_id = to_agent_id then dp_allow_self_messages policy
      else (from_agent_id, to_agent_id) \<in> dp_allowed_routes policy)"

subsection \<open>Costs\<close>

text \<open>The arithmetic of \<open>f64\<close> is an argument; comparisons work on the bits.\<close>

record f64_arith =
  fa_add :: "f64 \<Rightarrow> f64 \<Rightarrow> f64"
  fa_mul :: "f64 \<Rightarrow> f64 \<Rightarrow> f64"
  fa_mul_add :: "f64 \<Rightarrow> f64 \<Rightarrow> f64 \<Rightarrow> f64"
  fa_div :: "f64 \<Rightarrow> f64 \<Rightarrow> f64"
  fa_of_nat :: "nat \<Rightarrow> f64"

definition f64_key :: "f64 \<Rightarrow> int" where
  "f64_key x = (if bit x 63 then - uint (f64_abs x) else uint (f64_abs x))"

definition f64_le :: "f64 \<Rightarrow> f64 \<Rightarrow> bool" where
  "f64_le x y \<longleftrightarrow> \<not> f64_is_nan x \<and> \<not> f64_is_nan y \<and> f64_key x \<le> f64_key y"

definition f64_positive :: "f64 \<Rightarrow> bool" where
  "f64_positive x \<longleftrightarrow> \<not> f64_is_nan x \<and> f64_key x > 0"

definition estimate_usage_cost_usd :: "f64_arith \<Rightarrow> ChatUsage \<Rightarrow> f64 option \<Rightarrow> f64 option \<Rightarrow> f64 option \<Rightarrow> f64" where
  "estimate_usage_cost_usd fa usage input_cost cached_input_cost output_cost =
     (let or_zero = (\<lambda>c. case c of Some x \<Rightarrow> x | None \<Rightarrow> 0);
          cached_input_tokens = min (cu_cached_input_tokens usage) (cu_input_tokens usage);
          uncached_input_tokens = cu_input_tokens usage - cached_input_tokens;
          per_million = (\<lambda>cost tokens. fa_div fa (fa_mul_add fa (f64_max_zero cost) (fa_of_nat fa tokens) 0) (fa_of_nat fa 1000000));
          input = per_million (or_zero input_cost) uncached_input_tokens;
          cached_input = per_million (case cached_input_cost of Some x \<Rightarrow> x | None \<Rightarrow> or_zero input_cost) cached_input_tokens;
          output = per_million (or_zero output_cost) (cu_output_tokens usage)
      in fa_add fa (fa_add fa input cached_input) output)"

subsection \<open>Failure signals\<close>

definition FAILURE_SIGNAL_PHRASES :: "string list" where
  "FAILURE_SIGNAL_PHRASES =
     [''can'' @ [CHR 0x27] @ ''t'', ''cannot'', ''could not'', ''couldn'' @ [CHR 0x27] @ ''t'', ''unable'', ''failed'', ''failure'',
      ''error'', ''not available'', ''not possible'', ''do not have'', ''don'' @ [CHR 0x27] @ ''t have'', ''no tool'']"

definition assistant_text_suggests_failure :: "(string \<Rightarrow> string) \<Rightarrow> string \<Rightarrow> bool" where
  "assistant_text_suggests_failure to_lowercase text =
     (let normalized = collapse_whitespace (to_lowercase text) in
      trim normalized = [] \<or> list_ex (\<lambda>phrase. contains normalized phrase) FAILURE_SIGNAL_PHRASES)"

end
