(* ===== verification/Agent_Process.thy ===== *)
theory Agent_Process
  imports Rust_Text
begin

text \<open>
  Process supervision of the agent core (\<open>crates/tau-agent-core/src/process_types.rs\<close>): process roles and
  their runtime profiles, the supervisor's table of snapshots and its operations. The time of day is an
  argument of the operations that stamp it. A supervised task is a registration followed, once, by the
  completion its runner reports; the step relation at the end runs these in any order, with cancellations
  between them.
\<close>

subsection \<open>Roles and profiles\<close>

datatype ProcessType = ChannelProcess | BranchProcess | WorkerProcess | CompactorProcess | CortexProcess

fun process_type_str :: "ProcessType \<Rightarrow> string" where
  "process_type_str ChannelProcess = ''channel''"
| "process_type_str BranchProcess = ''branch''"
| "process_type_str WorkerProcess = ''worker''"
| "process_type_str CompactorProcess = ''compactor''"
| "process_type_str CortexProcess = ''cortex''"

record ProcessRuntimeProfile =
  pp_process_type :: ProcessType
  pp_system_prompt :: string
  pp_max_turns :: nat
  pp_max_context_messages :: "nat option"
  pp_tool_allowlist :: "string list"

fun profile_for_type :: "ProcessType \<Rightarrow> ProcessRuntimeProfile" where
  "profile_for_type ChannelProcess =
     \<lparr>pp_process_type = ChannelProcess, pp_system_prompt = ''You are the channel coordinator process.'', pp_max_turns = 8,
      pp_max_context_messages = Some 256,
      pp_tool_allowlist = [''branch'', ''worker'', ''memory_search'', ''memory_write'', ''react'', ''send_file'']\<rparr>"
| "profile_for_type BranchProcess =
     \<lparr>pp_process_type = BranchProcess, pp_system_prompt = ''You are the branch reasoning process.'', pp_max_turns = 12,
      pp_max_context_messages = Some 160, pp_tool_allowlist = [''memory_search'', ''memory_write'']\<rparr>"
| "profile_for_type WorkerProcess =
     \<lparr>pp_process_type = WorkerProcess, pp_system_prompt = ''You are the worker execution process.'', pp_max_turns = 25,
      pp_max_context_messages = Some 96, pp_tool_allowlist = [''memory_search'', ''memory_write'']\<rparr>"
| "profile_for_type CompactorProcess =
     \<lparr>pp_process_type = CompactorProcess, pp_system_prompt = ''You are the context compactor process.'', pp_max_turns = 4,
      pp_max_context_messages = Some 128, pp_tool_allowlist = [''memory_search'', ''memory_write'']\<rparr>"
| "profile_for_type CortexProcess =
     \<lparr>pp_process_type = CortexProcess, pp_system_prompt = ''You are the cross-session cortex observer process.'', pp_max_turns = 6,
      pp_max_context_messages = Some 192, pp_tool_allowlist = [''memory_search'', ''memory_write'']\<rparr>"

record ProcessSpawnSpec =
  sw_process_id :: string
  sw_process_type :: ProcessType
  sw_parent_process_id :: "string option"
  sw_session_key :: "string option"
  sw_runtime_profile :: ProcessRuntimeProfile

definition new_spawn_spec :: "string \<Rightarrow> ProcessType \<Rightarrow> ProcessSpawnSpec" where
  "new_spawn_spec process_id process_type =
     \<lparr>sw_process_id = process_id, sw_process_type = process_type, sw_parent_process_id = None, sw_session_key = None,
      sw_runtime_profile = profile_for_type process_type\<rparr>"

subsection \<open>The supervisor\<close>

datatype ProcessLifecycleState = ProcessPending | ProcessRunning | ProcessCompleted | ProcessFailed | ProcessCancelled

record ProcessSnapshot =
  sn_process_id :: string
  sn_process_type :: ProcessType
  sn_parent_process_id :: "string option"
  sn_session_key :: "string option"
  sn_state :: ProcessLifecycleState
  sn_started_unix_ms :: "nat option"
  sn_finished_unix_ms :: "nat option"
  sn_error :: "string option"

datatype ProcessManagerError = MissingProcessId | DuplicateProcessId string

type_synonym process_manager = "string \<rightharpoonup> ProcessSnapshot"

text \<open>\<open>spawn_supervised\<close> up to the spawn of the task: the id it registers and the table.\<close>

definition spawn_supervised ::
  "ProcessSpawnSpec \<Rightarrow> nat \<Rightarrow> process_manager \<Rightarrow> ProcessManagerError + string \<times> process_manager" where
  "spawn_supervised spec now snapshots =
     (let process_id = trim (sw_process_id spec) in
      if process_id = [] then Inl MissingProcessId
      else if snapshots process_id \<noteq> None then Inl (DuplicateProcessId process_id)
      else Inr (process_id, snapshots(process_id \<mapsto>
        \<lparr>sn_process_id = process_id, sn_process_type = sw_process_type spec, sn_parent_process_id = sw_parent_process_id spec,
         sn_session_key = sw_session_key spec, sn_state = ProcessRunning, sn_started_unix_ms = Some now,
         sn_finished_unix_ms = None, sn_error = None\<rparr>)))"

definition cancel_process :: "string \<Rightarrow> nat \<Rightarrow> process_manager \<Rightarrow> bool \<times> process_manager" where
  "cancel_process process_id now snapshots =
     (case snapshots process_id of
        None \<Rightarrow> (False, snapshots)
      | Some snapshot \<Rightarrow>
          if sn_state snapshot \<in> {ProcessCompleted, ProcessFailed, ProcessCancelled} then (False, snapshots)
          else (True, snapshots(process_id \<mapsto>
            snapshot\<lparr>sn_state := ProcessCancelled, sn_finished_unix_ms := Some now, sn_error := None\<rparr>)))"

definition complete_process :: "string \<Rightarrow> string + unit \<Rightarrow> nat \<Rightarrow> process_manager \<Rightarrow> process_manager" where
  "complete_process process_id result now snapshots =
     (case snapshots process_id of
        None \<Rightarrow> snapshots
      | Some snapshot \<Rightarrow>
          if sn_state snapshot = ProcessCancelled then snapshots
          else snapshots(process_id \<mapsto>
            (case result of
               Inr () \<Rightarrow> snapshot\<lparr>sn_state := ProcessCompleted, sn_error := None\<rparr>
             | Inl error \<Rightarrow> snapshot\<lparr>sn_state := ProcessFailed, sn_error := Some error\<rparr>)\<lparr>sn_finished_unix_ms := Some now\<rparr>))"

fun process_state_label :: "ProcessLifecycleState \<Rightarrow> string" where
  "process_state_label ProcessPending = ''pending''"
| "process_state_label ProcessRunning = ''running''"
| "process_state_label ProcessCompleted = ''completed''"
| "process_state_label ProcessFailed = ''failed''"
| "process_state_label ProcessCancelled = ''cancelled''"

subsection \<open>The lifecycle as a step relation\<close>

text \<open>The second component holds the ids of the tasks that have been spawned and have not reported yet.\<close>

inductive process_step :: "process_manager \<times> string set \<Rightarrow> process_manager \<times> string set \<Rightarrow> bool" where
  spawn: "spawn_supervised spec now m = Inr (i, m') \<Longrightarrow> process_step (m, tasks) (m', insert i tasks)"
| cancel: "process_step (m, tasks) (snd (cancel_process i now m), tasks)"
| complete: "i \<in> tasks \<Longrightarrow> process_step (m, tasks) (complete_process i result now m, tasks - {i})"

inductive_cases process_stepE: "process_step (m, tasks) s"

definition ended :: "ProcessLifecycleState \<Rightarrow> bool" where
  "ended st \<longleftrightarrow> st \<in> {ProcessCompleted, ProcessFailed, ProcessCancelled}"

definition snapshot_ok :: "string set \<Rightarrow> string \<Rightarrow> ProcessSnapshot \<Rightarrow> bool" where
  "snapshot_ok tasks i s \<longleftrightarrow>
     sn_process_id s = i \<and> sn_started_unix_ms s \<noteq> None
     \<and> (sn_state s = ProcessRunning \<or> ended (sn_state s))
     \<and> (sn_finished_unix_ms s = None \<longleftrightarrow> sn_state s = ProcessRunning)
     \<and> (sn_error s \<noteq> None \<longleftrightarrow> sn_state s = ProcessFailed)
     \<and> (sn_state s = ProcessRunning \<longrightarrow> i \<in> tasks)
     \<and> (i \<in> tasks \<longrightarrow> sn_state s = ProcessRunning \<or> sn_state s = ProcessCancelled)"

definition process_ok :: "process_manager \<times> string set \<Rightarrow> bool" where
  "process_ok st \<longleftrightarrow> (\<forall>i s. fst st i = Some s \<longrightarrow> snapshot_ok (snd st) i s) \<and> snd st \<subseteq> dom (fst st)"

lemma process_ok_update:
  assumes "process_ok (m, tasks)" "snapshot_ok tasks' i s" "tasks' - {i} = tasks - {i}"
  shows "process_ok (m(i \<mapsto> s), tasks')"
proof -
  have "snapshot_ok tasks' j t" if "m j = Some t" "j \<noteq> i" for j t
  proof -
    have "snapshot_ok tasks j t" "j \<in> tasks' \<longleftrightarrow> j \<in> tasks" using assms(1,3) that by (auto simp: process_ok_def)
    then show ?thesis by (simp add: snapshot_ok_def)
  qed
  then show ?thesis using assms by (auto simp: process_ok_def)
qed

lemma process_ok_get: "process_ok (m, tasks) \<Longrightarrow> m i = Some s \<Longrightarrow> snapshot_ok tasks i s"
  by (simp add: process_ok_def)

lemma process_ok_step:
  assumes "process_step st st'" "process_ok st"
  shows "process_ok st'"
  using assms(1)
proof (cases rule: process_step.cases)
  case (spawn spec now m i m' tasks)
  then obtain s where "m' = m(i \<mapsto> s)" "snapshot_ok (insert i tasks) i s"
    by (auto simp: snapshot_ok_def spawn_supervised_def Let_def split: if_splits)
  with assms(2) spawn(1,2) show ?thesis by (auto intro: process_ok_update)
next
  case (cancel m tasks i now)
  show ?thesis
  proof (cases "snd (cancel_process i now m) = m")
    case False
    then obtain s where s: "m i = Some s" "\<not> ended (sn_state s)"
      and up: "snd (cancel_process i now m) = m(i \<mapsto> s\<lparr>sn_state := ProcessCancelled, sn_finished_unix_ms := Some now, sn_error := None\<rparr>)"
      by (auto simp: cancel_process_def ended_def split: option.splits if_splits)
    have "snapshot_ok tasks i s" using s(1) assms(2) cancel(1) by (auto dest: process_ok_get)
    then show ?thesis
      using assms(2) cancel up s(2) by (auto intro!: process_ok_update simp: snapshot_ok_def ended_def)
  qed (use assms(2) cancel in simp)
next
  case (complete i tasks m result now)
  then obtain s where s: "m i = Some s" using assms(2) by (auto simp: process_ok_def)
  then have ok: "snapshot_ok tasks i s" using assms(2) complete(1) by (auto dest: process_ok_get)
  show ?thesis
  proof (cases "sn_state s = ProcessCancelled")
    case True
    then have "complete_process i result now m = m(i \<mapsto> s)" using s by (auto simp: complete_process_def)
    moreover have "snapshot_ok (tasks - {i}) i s" using ok True by (simp add: snapshot_ok_def)
    ultimately show ?thesis using assms(2) complete by (auto intro: process_ok_update)
  next
    case False
    then have running: "sn_state s = ProcessRunning" using ok complete(3) by (auto simp: snapshot_ok_def)
    let ?t = "(case result of Inr () \<Rightarrow> s\<lparr>sn_state := ProcessCompleted, sn_error := None\<rparr>
       | Inl error \<Rightarrow> s\<lparr>sn_state := ProcessFailed, sn_error := Some error\<rparr>)\<lparr>sn_finished_unix_ms := Some now\<rparr>"
    have "complete_process i result now m = m(i \<mapsto> ?t)" using s False by (simp add: complete_process_def)
    moreover have "snapshot_ok (tasks - {i}) i ?t"
      using ok by (simp add: snapshot_ok_def ended_def split: sum.split unit.split)
    ultimately show ?thesis using assms(2) complete by (auto intro: process_ok_update)
  qed
qed

lemma process_ok_reachable: "process_step\<^sup>*\<^sup>* (Map.empty, {}) st \<Longrightarrow> process_ok st"
proof (induction rule: rtranclp_induct)
  case base
  then show ?case by (simp add: process_ok_def)
next
  case (step st st')
  then show ?case by (blast intro: process_ok_step)
qed

lemma ended_step:
  assumes "process_step st st'" "process_ok st" "fst st i = Some s" "ended (sn_state s)"
  shows "fst st' i = Some s"
  using assms(1)
proof (cases rule: process_step.cases)
  case (spawn spec now m j m' tasks)
  then show ?thesis using assms(3) by (auto simp: spawn_supervised_def Let_def split: if_splits)
next
  case (cancel m tasks j now)
  then show ?thesis using assms(3,4) by (auto simp: cancel_process_def ended_def split: option.splits)
next
  case (complete j tasks m result now)
  then have "sn_state s = ProcessCancelled" if "j = i"
    using that assms(3,4) process_ok_get [of m tasks i s] assms(2) by (auto simp: snapshot_ok_def ended_def)
  then show ?thesis using complete assms(3) by (auto simp: complete_process_def split: option.splits)
qed

text \<open>Whatever processes are spawned, cancelled and completed, in whatever order, a process the supervisor
  lists is running or has ended; it has a finish time exactly when it has ended and an error exactly when it
  failed; and once it has ended, its snapshot never changes again, a late completion of a cancelled process included.\<close>

theorem process_lifecycle:
  assumes "process_step\<^sup>*\<^sup>* (Map.empty, {}) st" "fst st i = Some s"
  shows "(sn_state s = ProcessRunning \<or> ended (sn_state s))
    \<and> (sn_finished_unix_ms s = None \<longleftrightarrow> sn_state s = ProcessRunning)
    \<and> (sn_error s \<noteq> None \<longleftrightarrow> sn_state s = ProcessFailed)
    \<and> (\<forall>st'. process_step\<^sup>*\<^sup>* st st' \<and> ended (sn_state s) \<longrightarrow> fst st' i = Some s)"
proof -
  have ok: "process_ok st" using process_ok_reachable [OF assms(1)] .
  have "process_ok st' \<and> fst st' i = Some s" if "process_step\<^sup>*\<^sup>* st st'" "ended (sn_state s)" for st'
    using that by (induction rule: rtranclp_induct) (auto simp: ok assms(2) intro: process_ok_step ended_step)
  then show ?thesis using ok assms(2) by (auto simp: process_ok_def snapshot_ok_def)
qed

text \<open>A process that is cancelled before its task reports a failure.\<close>

definition sample_spec :: ProcessSpawnSpec where
  "sample_spec = new_spawn_spec ''worker'' WorkerProcess"

definition sample_cancelled :: ProcessSnapshot where
  "sample_cancelled =
     \<lparr>sn_process_id = ''worker'', sn_process_type = WorkerProcess, sn_parent_process_id = None, sn_session_key = None,
      sn_state = ProcessCancelled, sn_started_unix_ms = Some 5, sn_finished_unix_ms = Some 7, sn_error = None\<rparr>"

definition sample_running :: ProcessSnapshot where
  "sample_running = sample_cancelled\<lparr>sn_state := ProcessRunning, sn_finished_unix_ms := None\<rparr>"

lemma sample_run: "process_step\<^sup>*\<^sup>* (Map.empty, {}) ([''worker'' \<mapsto> sample_cancelled], {''worker''})"
proof -
  have "trim ''worker'' = ''worker''" by (rule trim_visible; simp)
  then have "spawn_supervised sample_spec 5 Map.empty = Inr (''worker'', [''worker'' \<mapsto> sample_running])"
    by (simp add: spawn_supervised_def Let_def sample_spec_def new_spawn_spec_def sample_running_def sample_cancelled_def)
  then have "process_step (Map.empty, {}) ([''worker'' \<mapsto> sample_running], {''worker''})"
    by (rule spawn)
  moreover have "process_step ([''worker'' \<mapsto> sample_running], {''worker''}) ([''worker'' \<mapsto> sample_cancelled], {''worker''})"
    using cancel [of "[''worker'' \<mapsto> sample_running]" "{''worker''}" "''worker''" 7]
    by (simp add: cancel_process_def sample_running_def sample_cancelled_def)
  ultimately show ?thesis by (meson converse_rtranclp_into_rtranclp rtranclp.rtrancl_refl)
qed

theorem process_lifecycle_witness:
  "ended (sn_state sample_cancelled)
   \<and> complete_process ''worker'' (Inl ''late'') 9 [''worker'' \<mapsto> sample_cancelled] ''worker'' = Some sample_cancelled"
proof -
  have "process_step ([''worker'' \<mapsto> sample_cancelled], {''worker''})
      (complete_process ''worker'' (Inl ''late'') 9 [''worker'' \<mapsto> sample_cancelled], {''worker''} - {''worker''})"
    by (rule complete) simp
  moreover have "ended (sn_state sample_cancelled)" by (simp add: ended_def sample_cancelled_def)
  ultimately show ?thesis
    using process_lifecycle [OF sample_run, of "''worker''" sample_cancelled]
    by (metis (no_types, lifting) fst_conv fun_upd_same r_into_rtranclp)
qed

end
