(* ===== verification/Agent_State.thy ===== *)
theory Agent_State
  imports Agent_Types Agent_Process
begin

text \<open>
  The agent's state and the operations that do not run a turn (\<open>crates/tau-agent-core/src/lib.rs\<close>):
  events, tools, direct messages, the safety gates, the two caches, usage and cost.

  What happens outside the agent (the model client, the tools, timers, the cancellation token, the clock,
  event queues) is an environment: functions from a world of any type to an outcome and the next world.
  Every operation threads the agent, which carries the world, so that each poll of the cancellation token and
  each call may find the world changed.
\<close>

subsection \<open>The environment\<close>

text \<open>
  A client call that ended: with the client's result, or because the token was cancelled while it ran. Under a
  timeout the outcome is \<open>None\<close> when the time was up. A tool task that ended: with a value, because the token was
  cancelled, or by a panic, of which the text is the join error's.
\<close>

datatype call_outcome = CallDone "TauAiError + json ChatResponse" | CallCancelled

datatype 'a task_outcome = TaskRan 'a | TaskCancelled | TaskPanicked string

datatype poll_outcome = PollEmpty | PollClosed | PollReceived "string option"

text \<open>
  \<open>ev_call\<close> takes the request and whether a delta handler is installed, and returns the deltas the client
  streamed with the outcome. \<open>ev_sleep\<close> returns whether the sleep ended without a cancellation. The
  background task of a compaction reports, through \<open>ev_poll\<close>, the text the client answered, if it answered.
\<close>

record 'w AgentEnv =
  ev_cancelled :: "'w \<Rightarrow> bool \<times> 'w"
  ev_call :: "json ChatRequest \<Rightarrow> bool \<Rightarrow> 'w \<Rightarrow> (string list \<times> call_outcome) \<times> 'w"
  ev_call_within :: "nat \<Rightarrow> json ChatRequest \<Rightarrow> bool \<Rightarrow> 'w \<Rightarrow> (string list \<times> call_outcome option) \<times> 'w"
  ev_sleep :: "nat \<Rightarrow> 'w \<Rightarrow> bool \<times> 'w"
  ev_execute :: "nat \<Rightarrow> json \<Rightarrow> 'w \<Rightarrow> ToolExecutionResult task_outcome \<times> 'w"
  ev_execute_within :: "nat \<Rightarrow> nat \<Rightarrow> json \<Rightarrow> 'w \<Rightarrow> ToolExecutionResult option task_outcome \<times> 'w"
  ev_send :: "bool \<Rightarrow> nat \<Rightarrow> AgentEvent \<Rightarrow> 'w \<Rightarrow> bool \<times> 'w"
  ev_now_ms :: "'w \<Rightarrow> nat \<times> 'w"
  ev_poll :: "'w \<Rightarrow> poll_outcome \<times> 'w"
  ev_recall :: "json Message list \<Rightarrow> string \<Rightarrow> AgentConfig \<Rightarrow> 'w \<Rightarrow> (string \<times> MessageRole \<times> string) list \<times> 'w"
  ev_to_string :: "json \<Rightarrow> string"
  ev_to_string_pretty :: "json \<Rightarrow> string"
  ev_from_str :: "string \<Rightarrow> json option"
  ev_request_to_string :: "json ChatRequest \<Rightarrow> string option"
  ev_request_from_str :: "string \<Rightarrow> json ChatRequest option"
  ev_validator :: "json schema_validator"
  ev_to_lowercase :: "string \<Rightarrow> string"
  ev_f64 :: f64_arith

subsection \<open>The agent\<close>

text \<open>A tool object is a handle the environment executes.\<close>

record RegisteredTool =
  rt_definition :: "json ToolDefinition"
  rt_tool :: nat
  rt_cacheable :: bool

record WarnCompactionState =
  wc_pending :: "json Message list option"
  wc_ready :: "(json Message list \<times> json Message list) option"

definition no_warn_compaction :: WarnCompactionState where
  "no_warn_compaction = \<lparr>wc_pending = None, wc_ready = None\<rparr>"

text \<open>
  The handlers are represented by the log of the events they were given, the asynchronous ones by their number and
  the two counters of their queues, the delta handler by the log of the deltas it was given. The order of the
  tool table is its iteration order.
\<close>

record 'w Agent =
  ag_config :: AgentConfig
  ag_agent_id :: string
  ag_messages :: "json Message list"
  ag_tools :: "(string, RegisteredTool) hash_map"
  ag_response_cache :: "json ChatResponse bounded_cache"
  ag_tool_result_cache :: "ToolExecutionResult bounded_cache"
  ag_events :: "AgentEvent list"
  ag_deltas :: "string list"
  ag_async_handlers :: nat
  ag_enqueued :: nat
  ag_dropped_full :: nat
  ag_safety_policy :: SafetyPolicy
  ag_sanitizer :: "string \<Rightarrow> string \<Rightarrow> SafetyScanResult"
  ag_leak_detector :: "string \<Rightarrow> string \<Rightarrow> SafetyScanResult"
  ag_usage :: ChatUsage
  ag_cost_usd :: f64
  ag_emitted_alerts :: "nat set"
  ag_skip_response_reason :: "string option"
  ag_warn_compaction :: WarnCompactionState
  ag_active_branch_runs :: nat
  ag_process_run_counter :: nat
  ag_world :: 'w

definition zero_usage :: ChatUsage where
  "zero_usage = \<lparr>cu_input_tokens = 0, cu_output_tokens = 0, cu_total_tokens = 0, cu_cached_input_tokens = 0\<rparr>"

definition new_agent ::
  "(string \<Rightarrow> string \<Rightarrow> SafetyScanResult) \<Rightarrow> (string \<Rightarrow> string \<Rightarrow> SafetyScanResult) \<Rightarrow> AgentConfig \<Rightarrow> 'w \<Rightarrow> 'w Agent" where
  "new_agent sanitizer leak_detector config world =
     \<lparr>ag_config = config, ag_agent_id = cf_agent_id config,
      ag_messages = (if trim (cf_system_prompt config) = [] then [] else [message_system (cf_system_prompt config)]),
      ag_tools = [], ag_response_cache = empty_cache, ag_tool_result_cache = empty_cache, ag_events = [], ag_deltas = [],
      ag_async_handlers = 0, ag_enqueued = 0, ag_dropped_full = 0, ag_safety_policy = default_safety_policy,
      ag_sanitizer = sanitizer, ag_leak_detector = leak_detector, ag_usage = zero_usage, ag_cost_usd = 0,
      ag_emitted_alerts = {}, ag_skip_response_reason = None, ag_warn_compaction = no_warn_compaction,
      ag_active_branch_runs = 0, ag_process_run_counter = 0, ag_world = world\<rparr>"

text \<open>Run an action of the environment.\<close>

definition act :: "('w \<Rightarrow> 'a \<times> 'w) \<Rightarrow> 'w Agent \<Rightarrow> 'a \<times> 'w Agent" where
  "act f ag = (case f (ag_world ag) of (x, w) \<Rightarrow> (x, ag\<lparr>ag_world := w\<rparr>))"

abbreviation is_cancelled :: "'w AgentEnv \<Rightarrow> 'w Agent \<Rightarrow> bool \<times> 'w Agent" where
  "is_cancelled env \<equiv> act (ev_cancelled env)"

subsection \<open>Events\<close>

definition send_async :: "'w AgentEnv \<Rightarrow> AgentEvent \<Rightarrow> nat \<Rightarrow> 'w Agent \<Rightarrow> 'w Agent" where
  "send_async env event sender ag =
     (case act (ev_send env (cf_async_event_block_on_full (ag_config ag)) sender event) ag of (sent, ag) \<Rightarrow>
        if sent then ag\<lparr>ag_enqueued := u64_add (ag_enqueued ag) 1\<rparr>
        else ag\<lparr>ag_dropped_full := u64_add (ag_dropped_full ag) 1\<rparr>)"

definition emit :: "'w AgentEnv \<Rightarrow> AgentEvent \<Rightarrow> 'w Agent \<Rightarrow> 'w Agent" where
  "emit env event ag =
     fold (send_async env event) [0..<ag_async_handlers ag] (ag\<lparr>ag_events := ag_events ag @ [event]\<rparr>)"

text \<open>The pair of statements that adds a message to the history.\<close>

definition add_message :: "'w AgentEnv \<Rightarrow> json Message \<Rightarrow> 'w Agent \<Rightarrow> 'w Agent" where
  "add_message env message ag =
     emit env (MessageAdded message) (ag\<lparr>ag_messages := ag_messages ag @ [message]\<rparr>)"

subsection \<open>Tools\<close>

definition clear_tool_result_cache :: "'w Agent \<Rightarrow> 'w Agent" where
  "clear_tool_result_cache ag = ag\<lparr>ag_tool_result_cache := empty_cache\<rparr>"

definition register_tool_internal :: "RegisteredTool \<Rightarrow> 'w Agent \<Rightarrow> (string \<times> RegisteredTool option) \<times> 'w Agent" where
  "register_tool_internal tool ag =
     (let name = td_name (rt_definition tool) in
      ((name, map_of (ag_tools ag) name), ag\<lparr>ag_tools := AList.update name tool (ag_tools ag)\<rparr>))"

definition register_tool :: "RegisteredTool \<Rightarrow> 'w Agent \<Rightarrow> 'w Agent" where
  "register_tool tool ag =
     (case register_tool_internal tool ag of ((_, replaced), ag) \<Rightarrow>
        if replaced \<noteq> None then clear_tool_result_cache ag else ag)"

definition has_tool :: "string \<Rightarrow> 'w Agent \<Rightarrow> bool" where
  "has_tool tool_name ag = hm_contains (ag_tools ag) tool_name"

definition registered_tool_names :: "'w Agent \<Rightarrow> string list" where
  "registered_tool_names ag = sort (map fst (ag_tools ag))"

definition unregister_tool :: "string \<Rightarrow> 'w Agent \<Rightarrow> bool \<times> 'w Agent" where
  "unregister_tool tool_name ag =
     (let removed = hm_contains (ag_tools ag) tool_name; ag = ag\<lparr>ag_tools := AList.delete tool_name (ag_tools ag)\<rparr>
      in (removed, if removed then clear_tool_result_cache ag else ag))"

definition clear_tools :: "'w Agent \<Rightarrow> 'w Agent" where
  "clear_tools ag = (if ag_tools ag = [] then ag else clear_tool_result_cache (ag\<lparr>ag_tools := []\<rparr>))"

fun register_scoped :: "RegisteredTool list \<Rightarrow> 'w Agent \<Rightarrow> (string \<times> RegisteredTool option) list \<times> 'w Agent" where
  "register_scoped [] ag = ([], ag)"
| "register_scoped (tool # tools) ag =
     (case register_tool_internal tool ag of (r, ag) \<Rightarrow>
      case register_scoped tools ag of (replaced, ag) \<Rightarrow> (r # replaced, ag))"

definition restore_tool :: "string \<times> RegisteredTool option \<Rightarrow> 'w Agent \<Rightarrow> 'w Agent" where
  "restore_tool r ag =
     (case r of
        (name, Some previous) \<Rightarrow> ag\<lparr>ag_tools := AList.update name previous (ag_tools ag)\<rparr>
      | (name, None) \<Rightarrow> ag\<lparr>ag_tools := AList.delete name (ag_tools ag)\<rparr>)"

definition with_scoped_tools :: "RegisteredTool list \<Rightarrow> ('w Agent \<Rightarrow> 'a \<times> 'w Agent) \<Rightarrow> 'w Agent \<Rightarrow> 'a \<times> 'w Agent" where
  "with_scoped_tools tools run ag =
     (case register_scoped tools ag of (replaced, ag) \<Rightarrow>
      case run (clear_tool_result_cache ag) of (result, ag) \<Rightarrow>
        (result, clear_tool_result_cache (fold restore_tool (rev replaced) ag)))"

definition tool_definitions :: "'w Agent \<Rightarrow> json ToolDefinition list" where
  "tool_definitions ag = map (rt_definition \<circ> snd) (ag_tools ag)"

subsection \<open>Identity, model and history\<close>

definition set_agent_id :: "string \<Rightarrow> 'w Agent \<Rightarrow> 'w Agent" where
  "set_agent_id agent_id ag = (if trim agent_id = [] then ag else ag\<lparr>ag_agent_id := trim agent_id\<rparr>)"

definition swap_dispatch_model :: "string \<Rightarrow> 'w Agent \<Rightarrow> string \<times> 'w Agent" where
  "swap_dispatch_model model ag =
     (if trim model = [] then (cf_model (ag_config ag), ag)
      else (cf_model (ag_config ag), ag\<lparr>ag_config := (ag_config ag)\<lparr>cf_model := trim model\<rparr>\<rparr>))"

definition restore_dispatch_model :: "string \<Rightarrow> 'w Agent \<Rightarrow> 'w Agent" where
  "restore_dispatch_model previous_model ag =
     (if trim previous_model = [] then ag else ag\<lparr>ag_config := (ag_config ag)\<lparr>cf_model := previous_model\<rparr>\<rparr>)"

definition replace_system_prompt :: "string \<Rightarrow> 'w Agent \<Rightarrow> bool \<times> 'w Agent" where
  "replace_system_prompt system_prompt ag =
     (case ag_messages ag of
        first # rest \<Rightarrow>
          if msg_role first = System then
            if text_content first = system_prompt then (False, ag)
            else (True, ag\<lparr>ag_messages := message_system system_prompt # rest\<rparr>)
          else (True, ag\<lparr>ag_messages := message_system system_prompt # ag_messages ag\<rparr>)
      | [] \<Rightarrow> (True, ag\<lparr>ag_messages := [message_system system_prompt]\<rparr>))"

definition fork :: "'w Agent \<Rightarrow> 'w Agent" where
  "fork ag = ag\<lparr>ag_warn_compaction := no_warn_compaction\<rparr>"

subsection \<open>Safety gates\<close>

record SafetyInspection =
  si_mode :: SafetyMode
  si_redacted_text :: string
  si_matched_rules :: "string list"
  si_reason_codes :: "string list"

definition prompt_safety_stage_enabled :: "SafetyPolicy \<Rightarrow> SafetyStage \<Rightarrow> bool" where
  "prompt_safety_stage_enabled policy stage =
     (sp_enabled policy \<and> (case stage of
        InboundMessage \<Rightarrow> sp_apply_to_inbound_messages policy
      | ToolOutput \<Rightarrow> sp_apply_to_tool_outputs policy
      | OutboundHttpPayload \<Rightarrow> False))"

definition leak_stage_enabled :: "SafetyPolicy \<Rightarrow> SafetyStage \<Rightarrow> bool" where
  "leak_stage_enabled policy stage =
     (sp_secret_leak_detection_enabled policy \<and> (case stage of
        InboundMessage \<Rightarrow> False
      | ToolOutput \<Rightarrow> sp_apply_to_tool_outputs policy
      | OutboundHttpPayload \<Rightarrow> sp_apply_to_outbound_http_payloads policy))"

text \<open>The common part of the two inspections: scan, report, and hand the mode on.\<close>

definition inspect_text ::
  "'w AgentEnv \<Rightarrow> bool \<Rightarrow> SafetyMode \<Rightarrow> SafetyStage \<Rightarrow> string \<Rightarrow> SafetyScanResult \<Rightarrow> 'w Agent \<Rightarrow> SafetyInspection option \<times> 'w Agent" where
  "inspect_text env enabled mode stage text scan ag =
     (if \<not> enabled \<or> trim text = [] then (None, ag)
      else if \<not> has_matches scan then (None, ag)
      else (Some \<lparr>si_mode = mode, si_redacted_text = sc_redacted_text scan, si_matched_rules = matched_rule_ids scan,
              si_reason_codes = scan_reason_codes scan\<rparr>,
            emit env (SafetyPolicyApplied stage mode (mode = SafetyBlock) (matched_rule_ids scan) (scan_reason_codes scan)) ag))"

definition inspect_prompt_safety_text ::
  "'w AgentEnv \<Rightarrow> SafetyStage \<Rightarrow> string \<Rightarrow> 'w Agent \<Rightarrow> SafetyInspection option \<times> 'w Agent" where
  "inspect_prompt_safety_text env stage text ag =
     inspect_text env (prompt_safety_stage_enabled (ag_safety_policy ag) stage) (sp_mode (ag_safety_policy ag)) stage text
       (ag_sanitizer ag text (sp_redaction_token (ag_safety_policy ag))) ag"

definition inspect_secret_leak_text ::
  "'w AgentEnv \<Rightarrow> SafetyStage \<Rightarrow> string \<Rightarrow> 'w Agent \<Rightarrow> SafetyInspection option \<times> 'w Agent" where
  "inspect_secret_leak_text env stage text ag =
     inspect_text env (leak_stage_enabled (ag_safety_policy ag) stage) (sp_secret_leak_mode (ag_safety_policy ag)) stage text
       (ag_leak_detector ag text (sp_secret_leak_redaction_token (ag_safety_policy ag))) ag"

definition apply_safety_mode_to_text :: "string \<Rightarrow> SafetyInspection \<Rightarrow> string list + string" where
  "apply_safety_mode_to_text text inspection =
     (case si_mode inspection of
        SafetyWarn \<Rightarrow> Inr text
      | SafetyRedact \<Rightarrow> Inr (si_redacted_text inspection)
      | SafetyBlock \<Rightarrow> Inl (si_reason_codes inspection))"

definition sanitize_inbound_text :: "'w AgentEnv \<Rightarrow> string \<Rightarrow> 'w Agent \<Rightarrow> (string list + string) \<times> 'w Agent" where
  "sanitize_inbound_text env text ag =
     (case inspect_prompt_safety_text env InboundMessage text ag of
        (None, ag) \<Rightarrow> (Inr text, ag)
      | (Some inspection, ag) \<Rightarrow> (apply_safety_mode_to_text text inspection, ag))"

text \<open>\<open>f32::is_finite\<close> and \<open>f32::abs() <= f32::EPSILON\<close> on the bits.\<close>

definition f32_is_finite :: "nat \<Rightarrow> bool" where
  "f32_is_finite bits = (bits mod 2 ^ 31 < 0x7F800000)"

definition f32_negligible :: "nat \<Rightarrow> bool" where
  "f32_negligible bits = (bits mod 2 ^ 31 \<le> 0x34000000)"

definition outbound_violation :: "string list \<Rightarrow> AgentError" where
  "outbound_violation reason_codes = SafetyViolation (stage_str OutboundHttpPayload) reason_codes"

definition sanitize_outbound_http_request ::
  "'w AgentEnv \<Rightarrow> json ChatRequest \<Rightarrow> 'w Agent \<Rightarrow> (AgentError + json ChatRequest) \<times> 'w Agent" where
  "sanitize_outbound_http_request env request ag =
     (let fail_closed = leak_stage_enabled (ag_safety_policy ag) OutboundHttpPayload
            \<and> sp_secret_leak_mode (ag_safety_policy ag) = SafetyBlock;
          unscannable = outbound_violation [''secret_leak.payload_serialization_failed'']
      in if fail_closed \<and> (case rq_temperature request of Some t \<Rightarrow> \<not> f32_is_finite t | None \<Rightarrow> False)
         then (Inl unscannable, ag)
         else case ev_request_to_string env request of
           None \<Rightarrow> (if fail_closed then Inl unscannable else Inr request, ag)
         | Some payload \<Rightarrow>
             (case inspect_secret_leak_text env OutboundHttpPayload payload ag of
                (None, ag) \<Rightarrow> (Inr request, ag)
              | (Some inspection, ag) \<Rightarrow>
                  (case si_mode inspection of
                     SafetyWarn \<Rightarrow> (Inr request, ag)
                   | SafetyRedact \<Rightarrow>
                       (case ev_request_from_str env (si_redacted_text inspection) of
                          None \<Rightarrow> (Inl (outbound_violation (si_reason_codes inspection @ [''secret_leak.redaction_failed''])), ag)
                        | Some parsed \<Rightarrow> (Inr parsed, ag))
                   | SafetyBlock \<Rightarrow> (Inl (outbound_violation (si_reason_codes inspection)), ag))))"

definition blocked_result :: "SafetyInspection \<Rightarrow> string list \<Rightarrow> ToolExecutionResult" where
  "blocked_result inspection reason_codes =
     tool_error (json_object
       [(''error'', JString ''tool output blocked by safety policy''), (''stage'', JString (stage_str ToolOutput)),
        (''matched_rules'', json_strings (si_matched_rules inspection)), (''reason_codes'', json_strings reason_codes)])"

text \<open>One gate of \<open>sanitize_tool_result\<close>: the text to go on with, or the result that replaces the tool's.\<close>

definition pass_gate :: "string \<Rightarrow> SafetyInspection option \<Rightarrow> ToolExecutionResult + string" where
  "pass_gate text inspected =
     (case inspected of
        None \<Rightarrow> Inr text
      | Some inspection \<Rightarrow>
          (case apply_safety_mode_to_text text inspection of
             Inr updated \<Rightarrow> Inr updated
           | Inl reason_codes \<Rightarrow> Inl (blocked_result inspection reason_codes)))"

definition sanitize_tool_result :: "'w AgentEnv \<Rightarrow> ToolExecutionResult \<Rightarrow> 'w Agent \<Rightarrow> ToolExecutionResult \<times> 'w Agent" where
  "sanitize_tool_result env result ag =
     (let original_text = as_text (ev_to_string_pretty env) result in
      case inspect_prompt_safety_text env ToolOutput original_text ag of (inspected, ag) \<Rightarrow>
      case pass_gate original_text inspected of
        Inl blocked \<Rightarrow> (blocked, ag)
      | Inr text \<Rightarrow>
          (case inspect_secret_leak_text env ToolOutput text ag of (inspected, ag) \<Rightarrow>
           case pass_gate text inspected of
             Inl blocked \<Rightarrow> (blocked, ag)
           | Inr text \<Rightarrow>
               (if text \<noteq> original_text then \<lparr>tr_content = JString text, tr_is_error = tr_is_error result\<rparr> else result, ag)))"

subsection \<open>Direct messages\<close>

definition normalize_direct_message_content :: "string \<Rightarrow> nat \<Rightarrow> AgentDirectMessageError + string" where
  "normalize_direct_message_content content max_message_chars =
     (let normalized = trim content in
      if normalized = [] then Inl EmptyContent
      else if char_count normalized > max_message_chars then Inl (MessageTooLong (char_count normalized) max_message_chars)
      else Inr normalized)"

definition receive_direct_message ::
  "'w AgentEnv \<Rightarrow> string \<Rightarrow> string \<Rightarrow> AgentDirectMessagePolicy \<Rightarrow> 'w Agent \<Rightarrow> (AgentDirectMessageError + unit) \<times> 'w Agent" where
  "receive_direct_message env from_agent_id content policy ag =
     (let to_agent_id = ag_agent_id ag in
      if \<not> direct_allows policy from_agent_id to_agent_id then (Inl (UnauthorizedRoute from_agent_id to_agent_id), ag)
      else case normalize_direct_message_content content (dp_max_message_chars policy) of
        Inl e \<Rightarrow> (Inl e, ag)
      | Inr normalized_content \<Rightarrow>
          (case sanitize_inbound_text env normalized_content ag of
             (Inl reason_codes, ag) \<Rightarrow> (Inl (DirectSafetyViolation reason_codes), ag)
           | (Inr sanitized_content, ag) \<Rightarrow>
               (Inr (), add_message env (message_system (''[Tau direct message] from='' @ from_agent_id @ '' to='' @ to_agent_id
                  @ new_line @ sanitized_content)) ag)))"

definition send_direct_message ::
  "'w AgentEnv \<Rightarrow> 'w Agent \<Rightarrow> string \<Rightarrow> AgentDirectMessagePolicy \<Rightarrow> 'w Agent \<Rightarrow> (AgentDirectMessageError + unit) \<times> 'w Agent" where
  "send_direct_message env sender content policy recipient = receive_direct_message env (ag_agent_id sender) content policy recipient"

subsection \<open>Caches\<close>

definition response_cache_eligible :: "json ChatRequest \<Rightarrow> bool \<Rightarrow> 'w Agent \<Rightarrow> bool" where
  "response_cache_eligible request streaming ag \<longleftrightarrow>
     cf_response_cache_enabled (ag_config ag) \<and> cf_response_cache_max_entries (ag_config ag) \<noteq> 0 \<and> \<not> streaming
     \<and> f32_negligible (case rq_temperature request of Some t \<Rightarrow> t | None \<Rightarrow> 0)"

definition lookup_response_cache :: "'w AgentEnv \<Rightarrow> json ChatRequest \<Rightarrow> bool \<Rightarrow> 'w Agent \<Rightarrow> json ChatResponse option" where
  "lookup_response_cache env request streaming ag =
     (if response_cache_eligible request streaming ag
      then Option.bind (ev_request_to_string env request) (map_of (bc_entries (ag_response_cache ag))) else None)"

definition store_response_cache :: "'w AgentEnv \<Rightarrow> json ChatRequest \<Rightarrow> bool \<Rightarrow> json ChatResponse \<Rightarrow> 'w Agent \<Rightarrow> 'w Agent" where
  "store_response_cache env request streaming response ag =
     (if \<not> response_cache_eligible request streaming ag then ag
      else case ev_request_to_string env request of
        None \<Rightarrow> ag
      | Some key \<Rightarrow> ag\<lparr>ag_response_cache := cache_insert_with_limit key response
            (cf_response_cache_max_entries (ag_config ag)) (ag_response_cache ag)\<rparr>)"

definition tool_result_cache_key :: "'w AgentEnv \<Rightarrow> json ToolCall \<Rightarrow> string" where
  "tool_result_cache_key env call =
     ev_to_string env (json_object [(''name'', JString (tc_name call)), (''arguments'', tc_arguments call)])"

definition tool_cacheable :: "json ToolCall \<Rightarrow> 'w Agent \<Rightarrow> bool" where
  "tool_cacheable call ag \<longleftrightarrow>
     cf_tool_result_cache_enabled (ag_config ag) \<and> cf_tool_result_cache_max_entries (ag_config ag) \<noteq> 0
     \<and> (case map_of (ag_tools ag) (tc_name call) of None \<Rightarrow> False | Some registered \<Rightarrow> rt_cacheable registered)"

definition lookup_tool_result_cache :: "'w AgentEnv \<Rightarrow> json ToolCall \<Rightarrow> 'w Agent \<Rightarrow> ToolExecutionResult option" where
  "lookup_tool_result_cache env call ag =
     (if tool_cacheable call ag then map_of (bc_entries (ag_tool_result_cache ag)) (tool_result_cache_key env call) else None)"

definition store_tool_result_cache :: "'w AgentEnv \<Rightarrow> json ToolCall \<Rightarrow> ToolExecutionResult \<Rightarrow> 'w Agent \<Rightarrow> 'w Agent" where
  "store_tool_result_cache env call result ag =
     (if tr_is_error result \<or> \<not> tool_cacheable call ag then ag
      else ag\<lparr>ag_tool_result_cache := cache_insert_with_limit (tool_result_cache_key env call) result
        (cf_tool_result_cache_max_entries (ag_config ag)) (ag_tool_result_cache ag)\<rparr>)"

subsection \<open>Usage, cost and budget\<close>

definition cost_budget :: "AgentConfig \<Rightarrow> f64 option" where
  "cost_budget config = (case cf_cost_budget_usd config of Some b \<Rightarrow> if f64_positive b then Some b else None | None \<Rightarrow> None)"

definition alert_threshold ::
  "'w AgentEnv \<Rightarrow> nat \<Rightarrow> f64 \<Rightarrow> f64 \<Rightarrow> nat \<Rightarrow> 'w Agent \<Rightarrow> 'w Agent" where
  "alert_threshold env turn budget utilization_percent threshold ag =
     (if f64_le (fa_of_nat (ev_f64 env) threshold) utilization_percent \<and> threshold \<notin> ag_emitted_alerts ag
      then emit env (CostBudgetAlert turn threshold (ag_cost_usd ag) budget)
        (ag\<lparr>ag_emitted_alerts := insert threshold (ag_emitted_alerts ag)\<rparr>)
      else ag)"

definition accumulate_usage_and_emit_cost_events :: "'w AgentEnv \<Rightarrow> nat \<Rightarrow> ChatUsage \<Rightarrow> 'w Agent \<Rightarrow> 'w Agent" where
  "accumulate_usage_and_emit_cost_events env turn usage ag =
     (let config = ag_config ag; fa = ev_f64 env;
          cumulative = (ag_usage ag)
            \<lparr>cu_input_tokens := u64_saturating_add (cu_input_tokens (ag_usage ag)) (cu_input_tokens usage),
             cu_output_tokens := u64_saturating_add (cu_output_tokens (ag_usage ag)) (cu_output_tokens usage),
             cu_total_tokens := u64_saturating_add (cu_total_tokens (ag_usage ag)) (cu_total_tokens usage)\<rparr>;
          turn_cost_usd = estimate_usage_cost_usd fa usage (cf_model_input_cost_per_million config)
            (cf_model_cached_input_cost_per_million config) (cf_model_output_cost_per_million config);
          ag = ag\<lparr>ag_usage := cumulative, ag_cost_usd := fa_add fa (ag_cost_usd ag) turn_cost_usd\<rparr>
      in if cf_model_input_cost_per_million config = None \<and> cf_model_output_cost_per_million config = None
            \<and> cost_budget config = None then ag
         else let ag = emit env (CostUpdated turn turn_cost_usd (ag_cost_usd ag) (cost_budget config)) ag in
           (case cost_budget config of
              None \<Rightarrow> ag
            | Some budget \<Rightarrow>
                (let utilization = (if f64_le budget f64_EPSILON then 0 else fa_div fa (ag_cost_usd ag) budget);
                     utilization_percent = fa_mul fa utilization (fa_of_nat fa 100)
                 in fold (alert_threshold env turn budget utilization_percent)
                      (normalize_cost_alert_thresholds (cf_cost_alert_thresholds_percent config)) ag)))"

definition enforce_token_budget :: "'w AgentEnv \<Rightarrow> json ChatRequest \<Rightarrow> 'w Agent \<Rightarrow> AgentError + unit" where
  "enforce_token_budget env request ag =
     (let estimate = estimate_chat_request_tokens (ev_to_string env) request;
          or_max = (\<lambda>b. case b of Some n \<Rightarrow> n | None \<Rightarrow> u32_max);
          max_input_tokens = or_max (cf_max_estimated_input_tokens (ag_config ag));
          max_total_tokens = or_max (cf_max_estimated_total_tokens (ag_config ag))
      in if te_input_tokens estimate > max_input_tokens \<or> te_total_tokens estimate > max_total_tokens
         then Inl (TokenBudgetExceeded (te_input_tokens estimate) max_input_tokens (te_total_tokens estimate) max_total_tokens)
         else Inr ())"

end
