(* ===== verification/Agent_Request.thy ===== *)
theory Agent_Request
  imports Agent_State
begin

text \<open>
  What a turn sends (\<open>crates/tau-agent-core/src/lib.rs\<close>): the messages of a request under context pressure, with
  the compaction that runs in the background, and the call of the model client with its retries.
\<close>

subsection \<open>Background compaction\<close>

definition context_compaction_config :: "'w Agent \<Rightarrow> ContextCompactionConfig" where
  "context_compaction_config ag =
     \<lparr>cc_max_input_tokens = cf_max_estimated_input_tokens (ag_config ag),
      cc_warn_threshold_percent = cf_context_compaction_warn_threshold_percent (ag_config ag),
      cc_aggressive_threshold_percent = cf_context_compaction_aggressive_threshold_percent (ag_config ag),
      cc_emergency_threshold_percent = cf_context_compaction_emergency_threshold_percent (ag_config ag),
      cc_warn_retain_percent = cf_context_compaction_warn_retain_percent (ag_config ag),
      cc_aggressive_retain_percent = cf_context_compaction_aggressive_retain_percent (ag_config ag),
      cc_emergency_retain_percent = cf_context_compaction_emergency_retain_percent (ag_config ag)\<rparr>"

text \<open>\<open>str::lines\<close>.\<close>

definition strip_cr :: "string \<Rightarrow> string" where
  "strip_cr s = (if s \<noteq> [] \<and> last s = CHR 0x0D then butlast s else s)"

definition str_lines :: "string \<Rightarrow> string list" where
  "str_lines s =
     (let parts = split_on (CHR 0x0A) s
      in map strip_cr (butlast parts) @ (if last parts = [] then [] else [last parts]))"

abbreviation CONTEXT_SUMMARY_LLM_BRIEF_PREFIX :: string where "CONTEXT_SUMMARY_LLM_BRIEF_PREFIX \<equiv> ''llm_brief:''"

definition inject_warn_llm_brief_into_summary :: "string \<Rightarrow> string \<Rightarrow> string option" where
  "inject_warn_llm_brief_into_summary summary llm_brief =
     (if \<not> prefix CONTEXT_SUMMARY_PREFIX summary then None
      else if list_ex (\<lambda>line. prefix CONTEXT_SUMMARY_LLM_BRIEF_PREFIX (trim_start line)) (str_lines summary) then Some summary
      else let brief = collapse_whitespace llm_brief in
        if brief = [] then None
        else let brief_line = CONTEXT_SUMMARY_LLM_BRIEF_PREFIX @ '' '' @ truncate_chars brief 240;
                 mark = new_line @ ''excerpts:'' @ new_line;
                 enriched = (case split_str mark summary of
                   Some (head, excerpts) \<Rightarrow> head @ new_line @ brief_line @ mark @ excerpts
                 | None \<Rightarrow> summary @ new_line @ brief_line)
             in Some (truncate_chars enriched CONTEXT_SUMMARY_MAX_CHARS))"

definition is_context_summary :: "json Message \<Rightarrow> bool" where
  "is_context_summary message \<longleftrightarrow> msg_role message = System \<and> prefix CONTEXT_SUMMARY_PREFIX (text_content message)"

text \<open>
  The task that \<open>schedule_warn_compaction_if_needed\<close> spawns, with \<open>maybe_build_warn_llm_summary\<close>: the client's
  answer is \<open>None\<close> when the call failed or timed out.
\<close>

definition warn_compaction_task ::
  "ContextCompactionConfig \<Rightarrow> json Message list \<Rightarrow> string option \<Rightarrow> json Message list" where
  "warn_compaction_task config source_messages answer =
     (let compacted = compact_messages_for_tier source_messages WarnTier config;
          position = length (takeWhile (\<lambda>m. \<not> is_context_summary m) compacted)
      in if position < length compacted then
           (case Option.bind answer (inject_warn_llm_brief_into_summary (text_content (compacted ! position))) of
              Some llm_summary \<Rightarrow> compacted[position := message_system llm_summary]
            | None \<Rightarrow> compacted)
         else compacted)"

definition poll_warn_compaction_state :: "'w AgentEnv \<Rightarrow> 'w Agent \<Rightarrow> 'w Agent" where
  "poll_warn_compaction_state env ag =
     (case wc_pending (ag_warn_compaction ag) of
        None \<Rightarrow> ag
      | Some source_messages \<Rightarrow>
          (case act (ev_poll env) ag of (outcome, ag) \<Rightarrow>
           case outcome of
             PollEmpty \<Rightarrow> ag
           | PollClosed \<Rightarrow> ag\<lparr>ag_warn_compaction := (ag_warn_compaction ag)\<lparr>wc_pending := None\<rparr>\<rparr>
           | PollReceived answer \<Rightarrow>
               ag\<lparr>ag_warn_compaction :=
                 \<lparr>wc_pending = None,
                  wc_ready = Some (source_messages, warn_compaction_task (context_compaction_config ag) source_messages answer)\<rparr>\<rparr>))"

definition take_ready_warn_compaction ::
  "'w AgentEnv \<Rightarrow> json Message list \<Rightarrow> 'w Agent \<Rightarrow> json Message list option \<times> 'w Agent" where
  "take_ready_warn_compaction env messages ag =
     (let ag = poll_warn_compaction_state env ag in
      case wc_ready (ag_warn_compaction ag) of
        None \<Rightarrow> (None, ag)
      | Some (source_messages, compacted_messages) \<Rightarrow>
          (let ag = ag\<lparr>ag_warn_compaction := (ag_warn_compaction ag)\<lparr>wc_ready := None\<rparr>\<rparr> in
           if \<not> prefix source_messages messages then (None, ag)
           else (Some (compacted_messages @ drop (length source_messages) messages), ag)))"

definition schedule_warn_compaction_if_needed :: "'w AgentEnv \<Rightarrow> json Message list \<Rightarrow> 'w Agent \<Rightarrow> 'w Agent" where
  "schedule_warn_compaction_if_needed env messages ag =
     (let ag = poll_warn_compaction_state env ag; st = ag_warn_compaction ag in
      case wc_ready st of
        Some (source_messages, _) \<Rightarrow>
          if prefix source_messages messages then ag
          else ag\<lparr>ag_warn_compaction := \<lparr>wc_pending =
              (case wc_pending st of Some pending \<Rightarrow> if prefix pending messages then Some pending else Some messages | None \<Rightarrow> Some messages),
              wc_ready = None\<rparr>\<rparr>
      | None \<Rightarrow>
          (case wc_pending st of
             Some pending \<Rightarrow> if prefix pending messages then ag
               else ag\<lparr>ag_warn_compaction := st\<lparr>wc_pending := Some messages\<rparr>\<rparr>
           | None \<Rightarrow> ag\<lparr>ag_warn_compaction := st\<lparr>wc_pending := Some messages\<rparr>\<rparr>))"

subsection \<open>Compaction artifacts\<close>

fun compaction_tier_label :: "ContextCompactionTier \<Rightarrow> string" where
  "compaction_tier_label WarnTier = ''warn''"
| "compaction_tier_label AggressiveTier = ''aggressive''"
| "compaction_tier_label EmergencyTier = ''emergency''"
| "compaction_tier_label NoCompaction = ''none''"

fun memory_candidates :: "bool \<Rightarrow> nat \<Rightarrow> string list \<Rightarrow> string list" where
  "memory_candidates in_excerpt_block room [] = []"
| "memory_candidates in_excerpt_block room (line # rest) =
     (let trimmed = trim line in
      if eq_ignore_ascii_case trimmed ''excerpts:'' then memory_candidates True room rest
      else if \<not> in_excerpt_block \<or> \<not> prefix ''- '' trimmed then memory_candidates in_excerpt_block room rest
      else let excerpt = drop 2 trimmed;
               content = (case split_once (CHR '':'') excerpt of Some (_, v) \<Rightarrow> v | None \<Rightarrow> excerpt);
               collapsed = collapse_whitespace content
           in if collapsed = [] then memory_candidates in_excerpt_block room rest
              else if room \<le> 1 then [collapsed]
              else collapsed # memory_candidates in_excerpt_block (room - 1) rest)"

definition extract_memory_candidates_from_compaction_summary :: "string \<Rightarrow> string + string list" where
  "extract_memory_candidates_from_compaction_summary summary =
     (let candidates = memory_candidates False CONTEXT_SUMMARY_MAX_EXCERPTS (str_lines summary) in
      if candidates = [] then Inl ''compaction summary did not contain excerpt candidates'' else Inr candidates)"

definition append_system_artifact_if_new :: "'w AgentEnv \<Rightarrow> string \<Rightarrow> 'w Agent \<Rightarrow> 'w Agent" where
  "append_system_artifact_if_new env artifact ag =
     (if list_ex (\<lambda>message. msg_role message = System \<and> text_content message = artifact) (take 24 (rev (ag_messages ag)))
      then ag else add_message env (message_system artifact) ag)"

definition persist_compaction_artifacts ::
  "'w AgentEnv \<Rightarrow> ContextCompactionTier \<Rightarrow> json Message list \<Rightarrow> 'w Agent \<Rightarrow> 'w Agent" where
  "persist_compaction_artifacts env tier compacted_messages ag =
     (if tier \<noteq> WarnTier \<and> tier \<noteq> AggressiveTier then ag
      else case find is_context_summary compacted_messages of
        None \<Rightarrow> ag
      | Some message \<Rightarrow>
          (let summary = text_content message; tier_label = compaction_tier_label tier;
               ag = append_system_artifact_if_new env (''[Tau compaction entry] tier='' @ tier_label @ new_line @ summary) ag
           in case extract_memory_candidates_from_compaction_summary summary of
                Inl _ \<Rightarrow> ag
              | Inr candidates \<Rightarrow>
                  append_system_artifact_if_new env (join new_line
                    ((''[Tau compaction memory save] tier='' @ tier_label)
                     # map (\<lambda>candidate. ''- memory: '' @ truncate_chars candidate (cf_memory_max_chars_per_item (ag_config ag)))
                         candidates)) ag))"

subsection \<open>The messages of a request\<close>

definition build_memory_recall_message :: "'w AgentEnv \<Rightarrow> nat \<Rightarrow> 'w Agent \<Rightarrow> string option \<times> 'w Agent" where
  "build_memory_recall_message env context_limit ag =
     (case find (\<lambda>m. msg_role m = User) (rev (ag_messages ag)) of
        None \<Rightarrow> (None, ag)
      | Some message \<Rightarrow>
          (let query = text_content message; dropped_cutoff = length (ag_messages ag) - context_limit in
           if trim query = [] then (None, ag)
           else if dropped_cutoff = 0 then (None, ag)
           else case act (ev_recall env (take dropped_cutoff (ag_messages ag)) query (ag_config ag)) ag of (recalled, ag) \<Rightarrow>
             if recalled = [] then (None, ag)
             else (Some (join new_line (''[Tau memory recall]'' #
               map (\<lambda>(score, role, text). ''- score='' @ score @ '' role='' @ role_label role @ '' text=''
                 @ truncate_chars (collapse_whitespace text) (cf_memory_max_chars_per_item (ag_config ag))) recalled)), ag)))"

definition prompt_cache_config :: "AgentConfig \<Rightarrow> PromptCacheConfig" where
  "prompt_cache_config config =
     \<lparr>pcc_enabled = True, pcc_cache_key = Some (cf_agent_id config), pcc_retention = None, pcc_google_cached_content = None\<rparr>"

definition pressure_request :: "AgentConfig \<Rightarrow> json Message list \<Rightarrow> json ChatRequest" where
  "pressure_request config messages =
     \<lparr>rq_model = cf_model config, rq_messages = messages, rq_tools = [], rq_tool_choice = None, rq_json_mode = False,
      rq_max_tokens = cf_max_tokens config, rq_temperature = cf_temperature config, rq_prompt_cache = prompt_cache_config config\<rparr>"

definition compact_under_pressure ::
  "'w AgentEnv \<Rightarrow> ContextCompactionTier \<Rightarrow> json Message list \<Rightarrow> 'w Agent \<Rightarrow> json Message list \<times> 'w Agent" where
  "compact_under_pressure env tier messages ag =
     (let config = context_compaction_config ag in
      case tier of
        WarnTier \<Rightarrow>
          (case take_ready_warn_compaction env messages ag of
             (Some compacted, ag) \<Rightarrow> (compacted, persist_compaction_artifacts env WarnTier compacted ag)
           | (None, ag) \<Rightarrow> (messages, schedule_warn_compaction_if_needed env messages ag))
      | AggressiveTier \<Rightarrow>
          (let compacted = compact_messages_for_tier messages AggressiveTier config
           in (compacted, persist_compaction_artifacts env AggressiveTier compacted (ag\<lparr>ag_warn_compaction := no_warn_compaction\<rparr>)))
      | EmergencyTier \<Rightarrow>
          (compact_messages_for_tier messages EmergencyTier config, ag\<lparr>ag_warn_compaction := no_warn_compaction\<rparr>)
      | NoCompaction \<Rightarrow> (messages, ag))"

definition insert_recall :: "string \<Rightarrow> json Message list \<Rightarrow> json Message list" where
  "insert_recall recall messages =
     (let systems = takeWhile (\<lambda>m. msg_role m = System) messages
      in systems @ message_system recall # drop (length systems) messages)"

definition request_messages :: "'w AgentEnv \<Rightarrow> 'w Agent \<Rightarrow> json Message list \<times> 'w Agent" where
  "request_messages env ag =
     (let config = ag_config ag; context_limit = cf_max_context_messages config;
          messages = (case context_limit of Some limit \<Rightarrow> bounded_messages (ag_messages ag) limit | None \<Rightarrow> ag_messages ag);
          estimate = estimate_chat_request_tokens (ev_to_string env) (pressure_request config messages);
          snapshot = context_pressure_snapshot (te_input_tokens estimate) (context_compaction_config ag)
      in case compact_under_pressure env (ps_tier snapshot) messages ag of (messages, ag) \<Rightarrow>
         case context_limit of
           None \<Rightarrow> (messages, ag)
         | Some limit \<Rightarrow>
             if cf_memory_retrieval_limit config = 0 \<or> length (ag_messages ag) \<le> limit then (messages, ag)
             else (case build_memory_recall_message env limit ag of
                     (None, ag) \<Rightarrow> (messages, ag)
                   | (Some recall, ag) \<Rightarrow> (insert_recall recall messages, ag)))"

definition compact_message_history :: "'w Agent \<Rightarrow> 'w Agent" where
  "compact_message_history ag =
     (case cf_max_context_messages (ag_config ag) of
        None \<Rightarrow> ag
      | Some limit \<Rightarrow>
          if length (ag_messages ag) \<le> limit then ag else ag\<lparr>ag_messages := bounded_messages (ag_messages ag) limit\<rparr>)"

subsection \<open>The client call\<close>

definition timeout_duration_from_ms :: "nat option \<Rightarrow> nat option" where
  "timeout_duration_from_ms timeout_ms = (case timeout_ms of Some n \<Rightarrow> if n > 0 then Some n else None | None \<Rightarrow> None)"

text \<open>
  One attempt: the deltas go through the retry buffer when there is one, and otherwise straight to the handler, when there
  is one; the outcome is \<open>None\<close> when the attempt timed out.
\<close>

definition deliver_deltas ::
  "bool \<Rightarrow> StreamingRetryBufferState option \<Rightarrow> string list \<Rightarrow> 'w Agent \<Rightarrow> StreamingRetryBufferState option \<times> 'w Agent" where
  "deliver_deltas streaming buffer deltas ag =
     (case buffer of
        Some st \<Rightarrow> (case stream_attempt (reset_attempt st) deltas of (shown, st) \<Rightarrow> (Some st, ag\<lparr>ag_deltas := ag_deltas ag @ shown\<rparr>))
      | None \<Rightarrow> (None, if streaming then ag\<lparr>ag_deltas := ag_deltas ag @ deltas\<rparr> else ag))"

definition client_attempt ::
  "'w AgentEnv \<Rightarrow> json ChatRequest \<Rightarrow> bool \<Rightarrow> StreamingRetryBufferState option \<Rightarrow> 'w Agent
     \<Rightarrow> call_outcome option \<times> StreamingRetryBufferState option \<times> 'w Agent" where
  "client_attempt env request streaming buffer ag =
     (case (case timeout_duration_from_ms (cf_request_timeout_ms (ag_config ag)) of
              Some timeout \<Rightarrow> act (ev_call_within env timeout request streaming) ag
            | None \<Rightarrow> (case act (ev_call env request streaming) ag of ((deltas, outcome), ag) \<Rightarrow> ((deltas, Some outcome), ag)))
      of ((deltas, outcome), ag) \<Rightarrow>
        (case deliver_deltas streaming buffer deltas ag of (buffer, ag) \<Rightarrow> (outcome, buffer, ag)))"

text \<open>
  The loop: \<open>retries\<close> is what is left of \<open>max_retries - attempt\<close>; the last case of \<open>retry\<close> is behind the test
  that some are left.
\<close>

fun complete_loop ::
  "'w AgentEnv \<Rightarrow> json ChatRequest \<Rightarrow> bool \<Rightarrow> nat \<Rightarrow> nat \<Rightarrow> nat \<Rightarrow> nat \<Rightarrow> StreamingRetryBufferState option \<Rightarrow> 'w Agent
     \<Rightarrow> (AgentError + json ChatResponse) \<times> 'w Agent" where
  "complete_loop env request streaming max_backoff_ms retries attempt backoff_ms buffer ag =
     (case is_cancelled env ag of (cancelled, ag) \<Rightarrow>
      if cancelled then (Inl Cancelled, ag)
      else case client_attempt env request streaming buffer ag of (outcome, buffer, ag) \<Rightarrow>
        (let may_retry = retries > 0 \<and> (\<not> streaming \<or> buffer \<noteq> None);
             retry = (\<lambda>ag. case act (ev_sleep env backoff_ms) ag of (slept, ag) \<Rightarrow>
               if \<not> slept then (Inl Cancelled, ag)
               else case retries of
                 Suc left \<Rightarrow> complete_loop env request streaming max_backoff_ms left (attempt + 1)
                   (min (u64_saturating_mul backoff_ms 2) max_backoff_ms) buffer ag
               | 0 \<Rightarrow> (Inl Cancelled, ag))
         in case outcome of
              None \<Rightarrow>
                if may_retry then retry ag
                else (Inl (RequestTimeout (case timeout_duration_from_ms (cf_request_timeout_ms (ag_config ag)) of
                        Some timeout \<Rightarrow> timeout | None \<Rightarrow> 0) (attempt + 1)), ag)
            | Some CallCancelled \<Rightarrow> (Inl Cancelled, ag)
            | Some (CallDone (Inr response)) \<Rightarrow> (Inr response, ag)
            | Some (CallDone (Inl error)) \<Rightarrow>
                if may_retry \<and> is_retryable_ai_error error then retry ag else (Inl (AiError error), ag)))"

declare complete_loop.simps [simp del]

definition complete_with_retry ::
  "'w AgentEnv \<Rightarrow> json ChatRequest \<Rightarrow> bool \<Rightarrow> 'w Agent \<Rightarrow> (AgentError + json ChatResponse) \<times> 'w Agent" where
  "complete_with_retry env request streaming ag =
     (case is_cancelled env ag of (cancelled, ag) \<Rightarrow>
      if cancelled then (Inl Cancelled, ag)
      else let config = ag_config ag;
               backoff_ms = max (cf_request_retry_initial_backoff_ms config) 1;
               max_backoff_ms = max (cf_request_retry_max_backoff_ms config) backoff_ms;
               buffer = (if streaming \<and> cf_stream_retry_with_buffering config then Some new_stream_buffer else None)
           in complete_loop env request streaming max_backoff_ms (cf_request_max_retries config) 0 backoff_ms buffer ag)"

end
