(* ===== verification/Agent_Turn.thy ===== *)
theory Agent_Turn
  imports Agent_Request
begin

text \<open>
  The turns of the agent (\<open>crates/tau-agent-core/src/lib.rs\<close>, \<open>runtime_tool_bridge.rs\<close>): executing the
  tool calls of an assistant message one by one or in parallel chunks, following up a \<open>branch\<close> call with a
  worker agent, the loop over the turns, and the entry points.

  A spawned tool task is run when it is joined: the environment's world is of any type, so that every interleaving of
  the tasks of a chunk is the behaviour of some environment.
\<close>

subsection \<open>One tool call\<close>

definition normalize_tool_arguments :: "(string \<Rightarrow> json option) \<Rightarrow> json \<Rightarrow> json" where
  "normalize_tool_arguments from_str arguments =
     (case arguments of
        JString raw \<Rightarrow>
          (let trimmed = trim raw in
           if prefix ''{'' trimmed \<or> prefix ''['' trimmed then
             (case from_str trimmed of Some v \<Rightarrow> v | None \<Rightarrow> JString raw)
           else JString raw)
      | other \<Rightarrow> other)"

abbreviation quote_char :: char where "quote_char \<equiv> CHR 0x27"

definition quoted :: "string \<Rightarrow> string" where
  "quoted s = [quote_char] @ s @ [quote_char]"

definition validate_tool_arguments :: "json schema_validator \<Rightarrow> json ToolDefinition \<Rightarrow> json \<Rightarrow> string + unit" where
  "validate_tool_arguments validator_for td arguments =
     (case validator_for (td_parameters td) of
        Inl e \<Rightarrow> Inl (''invalid JSON schema for '' @ quoted (td_name td) @ '': '' @ e)
      | Inr iter_errors \<Rightarrow>
          (case iter_errors arguments of
             [] \<Rightarrow> Inr ()
           | first # _ \<Rightarrow> Inl (''invalid arguments for '' @ quoted (td_name td) @ '': '' @ first)))"

text \<open>The left side is the text of the join error of a task that panicked.\<close>

definition execute_tool_call_inner ::
  "'w AgentEnv \<Rightarrow> json ToolCall \<Rightarrow> RegisteredTool option \<Rightarrow> nat option \<Rightarrow> 'w Agent \<Rightarrow> (string + ToolExecutionResult) \<times> 'w Agent" where
  "execute_tool_call_inner env call registered tool_timeout ag =
     (case is_cancelled env ag of (cancelled, ag) \<Rightarrow>
      if cancelled then (Inr (tool_error (error_json (''tool '' @ quoted (tc_name call) @ '' cancelled before execution''))), ag)
      else case registered of
        None \<Rightarrow> (Inr (tool_error (error_json (''Tool '' @ quoted (tc_name call) @ '' is not registered''))), ag)
      | Some tool \<Rightarrow>
          (let arguments = normalize_tool_arguments (ev_from_str env) (tc_arguments call); name = td_name (rt_definition tool);
               cancelled_result = tool_error (error_json (''tool '' @ quoted name @ '' cancelled''))
           in case validate_tool_arguments (ev_validator env) (rt_definition tool) arguments of
             Inl error \<Rightarrow> (Inr (tool_error (error_json error)), ag)
           | Inr _ \<Rightarrow>
               (case tool_timeout of
                  Some timeout \<Rightarrow>
                    (case act (ev_execute_within env timeout (rt_tool tool) arguments) ag of
                       (TaskRan (Some result), ag) \<Rightarrow> (Inr result, ag)
                     | (TaskRan None, ag) \<Rightarrow>
                         (Inr (tool_error (error_json (''tool '' @ quoted name @ '' timed out after '' @ show_nat timeout @ ''ms''))), ag)
                     | (TaskCancelled, ag) \<Rightarrow> (Inr cancelled_result, ag)
                     | (TaskPanicked e, ag) \<Rightarrow> (Inl e, ag))
                | None \<Rightarrow>
                    (case act (ev_execute env (rt_tool tool) arguments) ag of
                       (TaskRan result, ag) \<Rightarrow> (Inr result, ag)
                     | (TaskCancelled, ag) \<Rightarrow> (Inr cancelled_result, ag)
                     | (TaskPanicked e, ag) \<Rightarrow> (Inl e, ag)))))"

text \<open>\<open>spawn_tool_call_task\<close> and the await of its handle.\<close>

definition run_tool_task :: "'w AgentEnv \<Rightarrow> json ToolCall \<Rightarrow> 'w Agent \<Rightarrow> ToolExecutionResult \<times> 'w Agent" where
  "run_tool_task env call ag =
     (case execute_tool_call_inner env call (map_of (ag_tools ag) (tc_name call))
             (timeout_duration_from_ms (cf_tool_timeout_ms (ag_config ag))) ag of
        (Inr result, ag) \<Rightarrow> (result, ag)
      | (Inl e, ag) \<Rightarrow> (tool_error (error_json (''tool '' @ quoted (tc_name call) @ '' execution task failed: '' @ e)), ag))"

definition record_tool_result :: "'w AgentEnv \<Rightarrow> json ToolCall \<Rightarrow> ToolExecutionResult \<Rightarrow> 'w Agent \<Rightarrow> bool \<times> 'w Agent" where
  "record_tool_result env call result ag =
     (case sanitize_tool_result env result ag of (result, ag) \<Rightarrow>
      let ag = emit env (ToolExecutionEnd (tc_id call) (tc_name call) result) ag;
          tool_message = tool_result (tc_id call) (tc_name call) (as_text (ev_to_string_pretty env) result) (tr_is_error result);
          ag = add_message env tool_message ag;
          ag = (if tc_name call = ''skip'' \<and> \<not> tr_is_error result then
                  ag\<lparr>ag_skip_response_reason := extract_skip_response_reason (ev_from_str env) [tool_message]\<rparr>
                else if tc_name call = ''react'' \<and> \<not> tr_is_error result
                  \<and> extract_react_response_directive (ev_from_str env) [tool_message] \<noteq> None then
                  ag\<lparr>ag_skip_response_reason := Some ''react_requested''\<rparr>
                else if tc_name call = ''send_file'' \<and> \<not> tr_is_error result
                  \<and> extract_send_file_response_directive (ev_from_str env) [tool_message] \<noteq> None then
                  ag\<lparr>ag_skip_response_reason := Some ''send_file_requested''\<rparr>
                else ag)
      in (tr_is_error result, ag))"

subsection \<open>Branch follow-ups\<close>

abbreviation BRANCH_CONCLUSION_MAX_CHARS :: nat where "BRANCH_CONCLUSION_MAX_CHARS \<equiv> 4000"

definition branch_slots :: "'w Agent \<Rightarrow> nat" where
  "branch_slots ag = max (cf_max_concurrent_branches_per_session (ag_config ag)) 1"

definition try_acquire_branch_run_slot :: "'w Agent \<Rightarrow> 'w Agent option" where
  "try_acquire_branch_run_slot ag =
     (if ag_active_branch_runs ag \<ge> branch_slots ag then None
      else Some (ag\<lparr>ag_active_branch_runs := ag_active_branch_runs ag + 1\<rparr>))"

definition release_branch_slots :: "nat \<Rightarrow> 'w Agent \<Rightarrow> 'w Agent" where
  "release_branch_slots n ag = ag\<lparr>ag_active_branch_runs := ag_active_branch_runs ag - n\<rparr>"

definition branch_result_payload_base :: "ToolExecutionResult \<Rightarrow> (string \<times> json) list" where
  "branch_result_payload_base result =
     (case tr_content result of
        JObject object \<Rightarrow> object
      | other \<Rightarrow> json_insert ''branch_base_result'' other (json_insert ''tool'' (JString ''branch'') []))"

definition branch_result_with_error :: "ToolExecutionResult \<Rightarrow> string \<Rightarrow> string \<Rightarrow> ToolExecutionResult" where
  "branch_result_with_error base_result reason_code error =
     (let payload = branch_result_payload_base base_result;
          payload = (case get_as as_str ''reason_code'' payload of
            Some existing \<Rightarrow> if trim existing = [] then payload
              else json_insert ''branch_creation_reason_code'' (JString existing) payload
          | None \<Rightarrow> payload);
          payload = json_insert ''reason_code'' (JString reason_code) payload;
          payload = json_insert ''error'' (JString error) payload;
          payload = json_insert ''branch_followup''
            (json_object [(''status'', JString ''error''), (''reason_code'', JString reason_code), (''error'', JString error)]) payload
      in tool_error (JObject payload))"

definition branch_followup_prompt :: "json ToolCall \<Rightarrow> string option" where
  "branch_followup_prompt call =
     trimmed_text (Option.bind (as_object (tc_arguments call)) (get_as as_str ''prompt''))"

definition branch_followup_assistant_conclusion :: "json Message list \<Rightarrow> string option" where
  "branch_followup_assistant_conclusion messages =
     map_option (\<lambda>m. truncate_chars (collapse_whitespace (text_content m)) BRANCH_CONCLUSION_MAX_CHARS)
       (find (\<lambda>m. msg_role m = Assistant \<and> trim (collapse_whitespace (text_content m)) \<noteq> []) (rev messages))"

definition apply_process_runtime_profile :: "ProcessRuntimeProfile \<Rightarrow> 'w Agent \<Rightarrow> 'w Agent" where
  "apply_process_runtime_profile profile ag =
     (let ag = ag\<lparr>ag_config := (ag_config ag)\<lparr>cf_max_turns := pp_max_turns profile,
              cf_max_context_messages := pp_max_context_messages profile, cf_system_prompt := pp_system_prompt profile\<rparr>\<rparr>;
          ag = snd (replace_system_prompt (pp_system_prompt profile) ag)
      in ag\<lparr>ag_tools := filter (\<lambda>(tool_name, _). tool_name \<in> set (pp_tool_allowlist profile)) (ag_tools ag)\<rparr>)"

definition next_process_id :: "ProcessType \<Rightarrow> 'w Agent \<Rightarrow> string \<times> 'w Agent" where
  "next_process_id process_type ag =
     (let sequence = u64_saturating_add (ag_process_run_counter ag) 1 in
      (ag_agent_id ag @ ''::'' @ process_type_str process_type @ ''-'' @ show_nat sequence,
       ag\<lparr>ag_process_run_counter := u64_add (ag_process_run_counter ag) 1\<rparr>))"

text \<open>What a forked agent shares with the agent it was forked from: handlers, queues, counters and the world.\<close>

definition absorb_fork :: "'w Agent \<Rightarrow> 'w Agent \<Rightarrow> 'w Agent" where
  "absorb_fork forked ag =
     ag\<lparr>ag_events := ag_events forked, ag_enqueued := ag_enqueued forked, ag_dropped_full := ag_dropped_full forked,
        ag_active_branch_runs := ag_active_branch_runs forked, ag_process_run_counter := ag_process_run_counter forked,
        ag_world := ag_world forked\<rparr>"

definition worker_agent :: "string \<Rightarrow> 'w Agent \<Rightarrow> 'w Agent" where
  "worker_agent worker_process_id ag =
     apply_process_runtime_profile (profile_for_type WorkerProcess)
       (clear_tool_result_cache ((set_agent_id worker_process_id (fork ag))\<lparr>ag_skip_response_reason := None\<rparr>))"

text \<open>A process that is spawned and whose task, which ends at once with the given result, is awaited.\<close>

definition run_supervised ::
  "ProcessSpawnSpec \<Rightarrow> string + unit \<Rightarrow> nat \<Rightarrow> process_manager \<Rightarrow> ProcessManagerError + process_manager" where
  "run_supervised spec result now manager =
     (case spawn_supervised spec now manager of
        Inl e \<Rightarrow> Inl e
      | Inr (process_id, manager) \<Rightarrow> Inr (complete_process process_id result now manager))"

definition supervised_spec :: "string \<Rightarrow> ProcessType \<Rightarrow> string \<Rightarrow> string \<Rightarrow> ProcessSpawnSpec" where
  "supervised_spec process_id process_type parent session_key =
     (new_spawn_spec process_id process_type)\<lparr>sw_parent_process_id := Some parent, sw_session_key := Some session_key\<rparr>"

definition delegation_entry :: "string \<Rightarrow> ProcessType \<Rightarrow> string \<Rightarrow> ProcessSnapshot option \<Rightarrow> json" where
  "delegation_entry process_id process_type parent snapshot =
     json_object
       [(''process_id'', JString process_id), (''process_type'', JString (process_type_str process_type)),
        (''state'', JString (case snapshot of Some s \<Rightarrow> process_state_label (sn_state s) | None \<Rightarrow> ''unknown'')),
        (''parent_process_id'', JString (case Option.bind snapshot sn_parent_process_id of Some p \<Rightarrow> p | None \<Rightarrow> parent))]"

fun process_manager_error_text :: "ProcessManagerError \<Rightarrow> string" where
  "process_manager_error_text MissingProcessId = ''process id must be non-empty''"
| "process_manager_error_text (DuplicateProcessId process_id) = ''process id '' @ quoted process_id @ '' is already registered''"

text \<open>The payload of a follow-up that ended, from the worker's tools, messages and conclusion.\<close>

definition branch_ready_payload ::
  "ToolExecutionResult \<Rightarrow> string list \<Rightarrow> nat \<Rightarrow> string \<Rightarrow> json \<Rightarrow> (string \<times> json) list" where
  "branch_ready_payload result available_tools branch_message_count conclusion process_delegation =
     (let profile = profile_for_type WorkerProcess; payload = branch_result_payload_base result;
          payload = (if get_as as_str ''reason_code'' payload = Some ''session_branch_created''
            then json_insert ''branch_creation_reason_code'' (JString ''session_branch_created'') payload else payload);
          payload = json_insert ''reason_code'' (JString ''branch_conclusion_ready'') payload;
          payload = json_insert ''branch_conclusion'' (JString conclusion) payload;
          payload = json_insert ''process_delegation'' process_delegation payload
      in json_insert ''branch_followup''
        (json_object
          [(''status'', JString ''completed''), (''tools_mode'', JString ''memory_only''),
           (''available_tools'', json_strings available_tools), (''branch_message_count'', JInt (int branch_message_count)),
           (''worker_runtime_profile'', json_object
             [(''process_type'', JString (process_type_str (pp_process_type profile))),
              (''max_turns'', JInt (int (pp_max_turns profile))),
              (''max_context_messages'', (case pp_max_context_messages profile of Some n \<Rightarrow> JInt (int n) | None \<Rightarrow> JNull)),
              (''tool_allowlist'', json_strings (pp_tool_allowlist profile))])]) payload)"

text \<open>
  \<open>nested\<close> runs the worker's prompt. The worker's process is registered in the supervisor in every case; the code reads
  the supervisor only when the worker succeeded.
\<close>

definition execute_branch_followup ::
  "'w AgentEnv \<Rightarrow> (string \<Rightarrow> 'w Agent \<Rightarrow> (AgentError + json Message list) \<times> 'w Agent)
     \<Rightarrow> json ToolCall \<Rightarrow> ToolExecutionResult \<Rightarrow> 'w Agent \<Rightarrow> ToolExecutionResult \<times> 'w Agent" where
  "execute_branch_followup env nested call result ag =
     (case branch_followup_prompt call of
        None \<Rightarrow> (branch_result_with_error result ''branch_prompt_missing'' ''branch call arguments must include non-empty prompt'', ag)
      | Some prompt \<Rightarrow>
          (let channel_process_id = ag_agent_id ag @ ''::channel'';
               (branch_process_id, ag) = next_process_id BranchProcess ag;
               (worker_process_id, ag) = next_process_id WorkerProcess ag;
               worker = worker_agent worker_process_id ag;
               available_tools = registered_tool_names worker;
               failed = branch_result_with_error result ''branch_execution_failed''
           in case nested prompt worker of (outcome, worker) \<Rightarrow>
              let ag = absorb_fork worker ag in
              case outcome of
                Inl error \<Rightarrow> (failed ''branch follow-up execution failed'', ag)
              | Inr branch_messages \<Rightarrow>
                  (case branch_followup_assistant_conclusion branch_messages of
                     None \<Rightarrow> (failed ''branch follow-up produced no assistant conclusion'', ag)
                   | Some conclusion \<Rightarrow>
                       (case act (ev_now_ms env) ag of (now, ag) \<Rightarrow>
                        let manager = (case run_supervised (supervised_spec worker_process_id WorkerProcess branch_process_id (ag_agent_id ag))
                                (Inr ()) now Map.empty of Inl _ \<Rightarrow> Map.empty | Inr m \<Rightarrow> m)
                        in case run_supervised (supervised_spec branch_process_id BranchProcess channel_process_id (ag_agent_id ag))
                                (Inr ()) now manager of
                             Inl e \<Rightarrow> (failed (''failed to spawn branch process: '' @ process_manager_error_text e), ag)
                           | Inr manager \<Rightarrow>
                               (let process_delegation = json_object
                                  [(''channel'', json_object [(''process_id'', JString channel_process_id),
                                      (''process_type'', JString (process_type_str ChannelProcess)), (''state'', JString ''running''),
                                      (''parent_process_id'', JNull)]),
                                   (''branch'', delegation_entry branch_process_id BranchProcess channel_process_id (manager branch_process_id)),
                                   (''worker'', delegation_entry worker_process_id WorkerProcess branch_process_id (manager worker_process_id))]
                                in (tool_ok (JObject (branch_ready_payload result available_tools (length branch_messages) conclusion
                                      process_delegation)), ag))))))"

text \<open>The number tells whether a slot was taken; its holder gives it back when the calls it ran with are done.\<close>

definition maybe_execute_branch_followup ::
  "'w AgentEnv \<Rightarrow> (string \<Rightarrow> 'w Agent \<Rightarrow> (AgentError + json Message list) \<times> 'w Agent)
     \<Rightarrow> json ToolCall \<Rightarrow> ToolExecutionResult \<Rightarrow> 'w Agent \<Rightarrow> (ToolExecutionResult \<times> nat) \<times> 'w Agent" where
  "maybe_execute_branch_followup env nested call result ag =
     (if tc_name call \<noteq> ''branch'' \<or> tr_is_error result then ((result, 0), ag)
      else case try_acquire_branch_run_slot ag of
        None \<Rightarrow>
          ((branch_result_with_error result ''branch_concurrency_limit_exceeded''
             (''branch concurrency limit reached (active='' @ show_nat (ag_active_branch_runs ag) @ '' limit='' @ show_nat (branch_slots ag) @ '')''),
            0), ag)
      | Some ag \<Rightarrow>
          (case execute_branch_followup env nested call result ag of (result, ag) \<Rightarrow> ((result, 1), ag)))"

subsection \<open>The tool calls of a message\<close>

record ToolExecutionStats =
  ts_total :: nat
  ts_errors :: nat

definition count_result :: "bool \<Rightarrow> ToolExecutionStats \<Rightarrow> ToolExecutionStats" where
  "count_result is_error stats =
     \<lparr>ts_total = u64_saturating_add (ts_total stats) 1,
      ts_errors = (if is_error then u64_saturating_add (ts_errors stats) 1 else ts_errors stats)\<rparr>"

text \<open>From the result of the tool to the recorded message: the part both ways of execution share.\<close>

definition finish_tool_call ::
  "'w AgentEnv \<Rightarrow> (string \<Rightarrow> 'w Agent \<Rightarrow> (AgentError + json Message list) \<times> 'w Agent)
     \<Rightarrow> json ToolCall \<Rightarrow> ToolExecutionResult \<Rightarrow> 'w Agent \<Rightarrow> (bool \<times> nat) \<times> 'w Agent" where
  "finish_tool_call env nested call result ag =
     (case maybe_execute_branch_followup env nested call result ag of ((result, slots), ag) \<Rightarrow>
      case record_tool_result env call result (store_tool_result_cache env call result ag) of (is_error, ag) \<Rightarrow>
        ((is_error, slots), ag))"

definition execute_tool_call ::
  "'w AgentEnv \<Rightarrow> (string \<Rightarrow> 'w Agent \<Rightarrow> (AgentError + json Message list) \<times> 'w Agent)
     \<Rightarrow> json ToolCall \<Rightarrow> 'w Agent \<Rightarrow> bool \<times> 'w Agent" where
  "execute_tool_call env nested call ag =
     (case is_cancelled env ag of (cancelled, ag) \<Rightarrow>
      if cancelled then (True, ag)
      else let ag = emit env (ToolExecutionStart (tc_id call) (tc_name call) (tc_arguments call)) ag in
        case (case lookup_tool_result_cache env call ag of Some cached \<Rightarrow> (cached, ag) | None \<Rightarrow> run_tool_task env call ag) of
          (result, ag) \<Rightarrow>
            (case finish_tool_call env nested call result ag of ((is_error, slots), ag) \<Rightarrow>
              (is_error, release_branch_slots slots ag)))"

fun execute_sequentially ::
  "'w AgentEnv \<Rightarrow> (string \<Rightarrow> 'w Agent \<Rightarrow> (AgentError + json Message list) \<times> 'w Agent)
     \<Rightarrow> json ToolCall list \<Rightarrow> ToolExecutionStats \<Rightarrow> 'w Agent \<Rightarrow> (AgentError + ToolExecutionStats) \<times> 'w Agent" where
  "execute_sequentially env nested [] stats ag = (Inr stats, ag)"
| "execute_sequentially env nested (call # calls) stats ag =
     (case is_cancelled env ag of (cancelled, ag) \<Rightarrow>
      if cancelled then (Inl Cancelled, ag)
      else case execute_tool_call env nested call ag of (is_error, ag) \<Rightarrow>
        execute_sequentially env nested calls (count_result is_error stats) ag)"

text \<open>The first pass over a chunk: a pending call has its cached result, or \<open>None\<close> for a spawned task.\<close>

fun start_chunk ::
  "'w AgentEnv \<Rightarrow> json ToolCall list \<Rightarrow> 'w Agent \<Rightarrow> (AgentError + (json ToolCall \<times> ToolExecutionResult option) list) \<times> 'w Agent" where
  "start_chunk env [] ag = (Inr [], ag)"
| "start_chunk env (call # calls) ag =
     (case is_cancelled env ag of (cancelled, ag) \<Rightarrow>
      if cancelled then (Inl Cancelled, ag)
      else let ag = emit env (ToolExecutionStart (tc_id call) (tc_name call) (tc_arguments call)) ag;
               cached = lookup_tool_result_cache env call ag
           in case start_chunk env calls ag of
             (Inl e, ag) \<Rightarrow> (Inl e, ag)
           | (Inr pending, ag) \<Rightarrow> (Inr ((call, cached) # pending), ag))"

fun finish_chunk ::
  "'w AgentEnv \<Rightarrow> (string \<Rightarrow> 'w Agent \<Rightarrow> (AgentError + json Message list) \<times> 'w Agent)
     \<Rightarrow> (json ToolCall \<times> ToolExecutionResult option) list \<Rightarrow> nat \<Rightarrow> ToolExecutionStats \<Rightarrow> 'w Agent \<Rightarrow> ToolExecutionStats \<times> 'w Agent" where
  "finish_chunk env nested [] slots stats ag = (stats, release_branch_slots slots ag)"
| "finish_chunk env nested ((call, execution) # pending) slots stats ag =
     (case (case execution of Some result \<Rightarrow> (result, ag) | None \<Rightarrow> run_tool_task env call ag) of (result, ag) \<Rightarrow>
      case finish_tool_call env nested call result ag of ((is_error, taken), ag) \<Rightarrow>
        finish_chunk env nested pending (slots + taken) (count_result is_error stats) ag)"

text \<open>\<open>slice::chunks\<close>.\<close>

function chunks :: "nat \<Rightarrow> 'a list \<Rightarrow> 'a list list" where
  "chunks n xs = (if xs = [] \<or> n = 0 then [] else take n xs # chunks n (drop n xs))"
  by pat_completeness auto
termination
  by (relation "measure (\<lambda>(n, xs). length xs)") (auto simp: neq_Nil_conv)

declare chunks.simps [simp del]

fun execute_chunks ::
  "'w AgentEnv \<Rightarrow> (string \<Rightarrow> 'w Agent \<Rightarrow> (AgentError + json Message list) \<times> 'w Agent)
     \<Rightarrow> json ToolCall list list \<Rightarrow> ToolExecutionStats \<Rightarrow> 'w Agent \<Rightarrow> (AgentError + ToolExecutionStats) \<times> 'w Agent" where
  "execute_chunks env nested [] stats ag = (Inr stats, ag)"
| "execute_chunks env nested (chunk # rest) stats ag =
     (case is_cancelled env ag of (cancelled, ag) \<Rightarrow>
      if cancelled then (Inl Cancelled, ag)
      else case start_chunk env chunk ag of
        (Inl e, ag) \<Rightarrow> (Inl e, ag)
      | (Inr pending, ag) \<Rightarrow>
          (case finish_chunk env nested pending 0 stats ag of (stats, ag) \<Rightarrow> execute_chunks env nested rest stats ag))"

definition execute_tool_calls ::
  "'w AgentEnv \<Rightarrow> (string \<Rightarrow> 'w Agent \<Rightarrow> (AgentError + json Message list) \<times> 'w Agent)
     \<Rightarrow> json ToolCall list \<Rightarrow> 'w Agent \<Rightarrow> (AgentError + ToolExecutionStats) \<times> 'w Agent" where
  "execute_tool_calls env nested calls ag =
     (case is_cancelled env ag of (cancelled, ag) \<Rightarrow>
      if cancelled then (Inl Cancelled, ag)
      else let stats = \<lparr>ts_total = 0, ts_errors = 0\<rparr>; max_parallel = max (cf_max_parallel_tool_calls (ag_config ag)) 1 in
        if max_parallel = 1 \<or> length calls \<le> 1 then execute_sequentially env nested calls stats ag
        else execute_chunks env nested (chunks max_parallel calls) stats ag)"

subsection \<open>The turns\<close>

definition REPLAN_ON_TOOL_FAILURE_PROMPT :: string where
  "REPLAN_ON_TOOL_FAILURE_PROMPT = ''One or more tool calls failed. Replan and continue with an alternative approach using available tools. If no viable tool exists, explain what is missing and ask the user for clarification.''"

definition REPLAN_REASON :: string where
  "REPLAN_REASON = ''all tool calls in previous turn failed and assistant reported failure''"

definition turn_request :: "'w AgentEnv \<Rightarrow> bool \<Rightarrow> 'w Agent \<Rightarrow> json ChatRequest \<times> 'w Agent" where
  "turn_request env json_mode ag =
     (let tools = tool_definitions ag; config = ag_config ag in
      case request_messages env ag of (messages, ag) \<Rightarrow>
        (\<lparr>rq_model = cf_model config, rq_messages = messages, rq_tools = tools,
          rq_tool_choice = (if tools = [] then None else Some AutoTool), rq_json_mode = json_mode,
          rq_max_tokens = cf_max_tokens config, rq_temperature = cf_temperature config,
          rq_prompt_cache = prompt_cache_config config\<rparr>, ag))"

text \<open>From the request to the response: the gates, the cache, the client.\<close>

definition turn_response ::
  "'w AgentEnv \<Rightarrow> bool \<Rightarrow> bool \<Rightarrow> 'w Agent \<Rightarrow> (AgentError + json ChatResponse) \<times> 'w Agent" where
  "turn_response env streaming json_mode ag =
     (case turn_request env json_mode ag of (request, ag) \<Rightarrow>
      case sanitize_outbound_http_request env request ag of
        (Inl e, ag) \<Rightarrow> (Inl e, ag)
      | (Inr request, ag) \<Rightarrow>
          (case enforce_token_budget env request ag of
             Inl e \<Rightarrow> (Inl e, ag)
           | Inr _ \<Rightarrow>
               (case lookup_response_cache env request streaming ag of
                  Some cached \<Rightarrow> (Inr cached, ag)
                | None \<Rightarrow>
                    (case complete_with_retry env request streaming ag of
                       (Inl e, ag) \<Rightarrow> (Inl e, ag)
                     | (Inr response, ag) \<Rightarrow> (Inr response, store_response_cache env request streaming response ag)))))"

definition finish_run :: "'w AgentEnv \<Rightarrow> nat \<Rightarrow> 'w Agent \<Rightarrow> (AgentError + json Message list) \<times> 'w Agent" where
  "finish_run env start_index ag =
     (let new_messages = drop start_index (ag_messages ag)
      in (Inr new_messages, emit env (AgentEnd (length new_messages)) ag))"

text \<open>\<open>left\<close> counts the turns that remain.\<close>

fun run_turns ::
  "'w AgentEnv \<Rightarrow> (string \<Rightarrow> 'w Agent \<Rightarrow> (AgentError + json Message list) \<times> 'w Agent) \<Rightarrow> nat \<Rightarrow> bool \<Rightarrow> bool
     \<Rightarrow> nat \<Rightarrow> nat \<Rightarrow> bool \<Rightarrow> nat \<Rightarrow> 'w Agent \<Rightarrow> (AgentError + json Message list) \<times> 'w Agent" where
  "run_turns env nested start_index streaming json_mode 0 turn pending_replan replans_used ag =
     (Inl (MaxTurnsExceeded (cf_max_turns (ag_config ag))), ag)"
| "run_turns env nested start_index streaming json_mode (Suc left) turn pending_replan replans_used ag =
     (case is_cancelled env ag of (cancelled, ag) \<Rightarrow>
      if cancelled then (Inl Cancelled, ag)
      else case act (ev_now_ms env) (emit env (TurnStart turn) ag) of (started, ag) \<Rightarrow>
        case turn_response env streaming json_mode ag of
          (Inl e, ag) \<Rightarrow> (Inl e, ag)
        | (Inr response, ag) \<Rightarrow>
            (case act (ev_now_ms env) ag of (now, ag) \<Rightarrow>
             let assistant = rs_message response;
                 turn_end = (\<lambda>results. TurnEnd turn results (now - started) (rs_usage response) (rs_finish_reason response));
                 ag = accumulate_usage_and_emit_cost_events env turn (rs_usage response) (add_message env assistant ag)
             in if tool_calls assistant = [] then
                  if pending_replan \<and> replans_used < cf_react_max_replans_on_tool_failure (ag_config ag)
                    \<and> assistant_text_suggests_failure (ev_to_lowercase env) (text_content assistant)
                  then run_turns env nested start_index streaming json_mode left (turn + 1) False (replans_used + 1)
                    (emit env (turn_end 0) (add_message env (message_user REPLAN_ON_TOOL_FAILURE_PROMPT)
                      (emit env (ReplanTriggered turn REPLAN_REASON) ag)))
                  else finish_run env start_index (emit env (turn_end 0) ag)
                else
                  (case execute_tool_calls env nested (tool_calls assistant) ag of
                     (Inl e, ag) \<Rightarrow> (Inl e, ag)
                   | (Inr stats, ag) \<Rightarrow>
                       (let pending_replan = ts_total stats > 0 \<and> ts_errors stats = ts_total stats;
                            skip = ag_skip_response_reason ag;
                            ag = emit env (turn_end (ts_total stats)) (ag\<lparr>ag_skip_response_reason := None\<rparr>)
                        in if skip \<noteq> None then finish_run env start_index ag
                           else run_turns env nested start_index streaming json_mode left (turn + 1) pending_replan replans_used ag))))"

definition run_loop ::
  "'w AgentEnv \<Rightarrow> (string \<Rightarrow> 'w Agent \<Rightarrow> (AgentError + json Message list) \<times> 'w Agent) \<Rightarrow> nat \<Rightarrow> bool \<Rightarrow> bool
     \<Rightarrow> 'w Agent \<Rightarrow> (AgentError + json Message list) \<times> 'w Agent" where
  "run_loop env nested start_index streaming json_mode ag =
     (case is_cancelled env ag of (cancelled, ag) \<Rightarrow>
      if cancelled then (Inl Cancelled, ag)
      else run_turns env nested start_index streaming json_mode (cf_max_turns (ag_config ag)) 1 False 0
        (emit env AgentStart (ag\<lparr>ag_skip_response_reason := None\<rparr>)))"

definition run_and_compact ::
  "'w AgentEnv \<Rightarrow> (string \<Rightarrow> 'w Agent \<Rightarrow> (AgentError + json Message list) \<times> 'w Agent) \<Rightarrow> nat \<Rightarrow> bool \<Rightarrow> bool
     \<Rightarrow> 'w Agent \<Rightarrow> (AgentError + json Message list) \<times> 'w Agent" where
  "run_and_compact env nested start_index streaming json_mode ag =
     (case run_loop env nested start_index streaming json_mode ag of
        (Inl e, ag) \<Rightarrow> (Inl e, ag)
      | (Inr messages, ag) \<Rightarrow> (Inr messages, compact_message_history ag))"

definition prompt_with ::
  "'w AgentEnv \<Rightarrow> (string \<Rightarrow> 'w Agent \<Rightarrow> (AgentError + json Message list) \<times> 'w Agent) \<Rightarrow> bool \<Rightarrow> bool
     \<Rightarrow> string \<Rightarrow> 'w Agent \<Rightarrow> (AgentError + json Message list) \<times> 'w Agent" where
  "prompt_with env nested streaming json_mode text ag =
     (let start_index = length (ag_messages ag) in
      case sanitize_inbound_text env text ag of
        (Inl reason_codes, ag) \<Rightarrow> (Inl (SafetyViolation (stage_str InboundMessage) reason_codes), ag)
      | (Inr text, ag) \<Rightarrow> run_and_compact env nested start_index streaming json_mode (add_message env (message_user text) ag))"

text \<open>
  The recursion of the code: a prompt may follow up a \<open>branch\<close> call with the prompt of a worker. The
  depth bounds this nesting; a worker has no \<open>branch\<close> tool, and two levels are enough (\<open>Agent_Properties\<close>).
\<close>

fun nested_prompt :: "nat \<Rightarrow> 'w AgentEnv \<Rightarrow> string \<Rightarrow> 'w Agent \<Rightarrow> (AgentError + json Message list) \<times> 'w Agent" where
  "nested_prompt 0 env text ag = (Inl Cancelled, ag)"
| "nested_prompt (Suc depth) env text ag = prompt_with env (nested_prompt depth env) False False text ag"

definition prompt_internal ::
  "'w AgentEnv \<Rightarrow> string \<Rightarrow> bool \<Rightarrow> bool \<Rightarrow> 'w Agent \<Rightarrow> (AgentError + json Message list) \<times> 'w Agent" where
  "prompt_internal env text streaming json_mode ag = prompt_with env (nested_prompt 1 env) streaming json_mode text ag"

definition continue_turn_internal ::
  "'w AgentEnv \<Rightarrow> bool \<Rightarrow> bool \<Rightarrow> 'w Agent \<Rightarrow> (AgentError + json Message list) \<times> 'w Agent" where
  "continue_turn_internal env streaming json_mode ag =
     run_and_compact env (nested_prompt 1 env) (length (ag_messages ag)) streaming json_mode ag"

subsection \<open>Structured output\<close>

definition build_structured_output_retry_prompt :: "(json \<Rightarrow> string) \<Rightarrow> json \<Rightarrow> string \<Rightarrow> string" where
  "build_structured_output_retry_prompt to_string schema error =
     ''Your previous response could not be accepted as structured JSON ('' @ error
     @ ''). Please reply with only valid JSON that matches this schema exactly:'' @ new_line @ to_string schema"

fun parse_structured_output_with_retry ::
  "'w AgentEnv \<Rightarrow> json \<Rightarrow> nat \<Rightarrow> json Message list \<Rightarrow> 'w Agent \<Rightarrow> (AgentError + json) \<times> 'w Agent" where
  "parse_structured_output_with_retry env schema retries new_messages ag =
     (case parse_structured_output (ev_from_str env) (ev_validator env) new_messages schema of
        Inr v \<Rightarrow> (Inr v, ag)
      | Inl error \<Rightarrow>
          (case retries of
             0 \<Rightarrow> (Inl (StructuredOutput error), ag)
           | Suc left \<Rightarrow>
               (case prompt_internal env (build_structured_output_retry_prompt (ev_to_string env) schema error) False True ag of
                  (Inl e, ag) \<Rightarrow> (Inl e, ag)
                | (Inr new_messages, ag) \<Rightarrow> parse_structured_output_with_retry env schema left new_messages ag)))"

declare parse_structured_output_with_retry.simps [simp del]

definition prompt_json :: "'w AgentEnv \<Rightarrow> string \<Rightarrow> json \<Rightarrow> 'w Agent \<Rightarrow> (AgentError + json) \<times> 'w Agent" where
  "prompt_json env text schema ag =
     (case prompt_internal env text False True ag of
        (Inl e, ag) \<Rightarrow> (Inl e, ag)
      | (Inr new_messages, ag) \<Rightarrow>
          parse_structured_output_with_retry env schema (cf_structured_output_max_retries (ag_config ag)) new_messages ag)"

definition continue_turn_json :: "'w AgentEnv \<Rightarrow> json \<Rightarrow> 'w Agent \<Rightarrow> (AgentError + json) \<times> 'w Agent" where
  "continue_turn_json env schema ag =
     (case continue_turn_internal env False True ag of
        (Inl e, ag) \<Rightarrow> (Inl e, ag)
      | (Inr new_messages, ag) \<Rightarrow>
          parse_structured_output_with_retry env schema (cf_structured_output_max_retries (ag_config ag)) new_messages ag)"

end
