(* ===== verification/Agent_Properties.thy ===== *)
theory Agent_Properties
  imports Agent_Turn
begin

text \<open>
  What the agent does to its history (\<open>crates/tau-agent-core/src/lib.rs\<close>): the messages each operation
  adds, the answers of tool calls, and the bounds of turns, retries and nesting.
\<close>

subsection \<open>What an operation adds\<close>

text \<open>The part of the agent no turn changes.\<close>

definition same_setup :: "'w Agent \<Rightarrow> 'w Agent \<Rightarrow> bool" where
  "same_setup ag ag' \<longleftrightarrow>
     ag_config ag' = ag_config ag \<and> ag_agent_id ag' = ag_agent_id ag \<and> ag_tools ag' = ag_tools ag
     \<and> ag_safety_policy ag' = ag_safety_policy ag \<and> ag_sanitizer ag' = ag_sanitizer ag
     \<and> ag_leak_detector ag' = ag_leak_detector ag \<and> ag_async_handlers ag' = ag_async_handlers ag"

fun announced_message :: "AgentEvent \<Rightarrow> json Message option" where
  "announced_message (MessageAdded m) = Some m"
| "announced_message _ = None"

definition announced :: "AgentEvent list \<Rightarrow> json Message list" where
  "announced events = List.map_filter announced_message events"

definition adds :: "json Message list \<Rightarrow> 'w Agent \<Rightarrow> 'w Agent \<Rightarrow> bool" where
  "adds ms ag ag' \<longleftrightarrow>
     same_setup ag ag' \<and> ag_messages ag' = ag_messages ag @ ms
     \<and> (\<exists>events. ag_events ag' = ag_events ag @ events \<and> subseq ms (announced events))"

abbreviation quiet :: "'w Agent \<Rightarrow> 'w Agent \<Rightarrow> bool" where
  "quiet \<equiv> adds []"

lemma announced_simps [simp]:
  "announced [] = []" "announced (events @ events') = announced events @ announced events'"
  "announced [MessageAdded m] = [m]"
  by (simp_all add: announced_def map_filter_def)

lemma same_setup_refl [simp]: "same_setup ag ag"
  by (simp add: same_setup_def)

lemma same_setup_trans: "same_setup a b \<Longrightarrow> same_setup b c \<Longrightarrow> same_setup a c"
  by (simp add: same_setup_def)

lemma quiet_refl [simp]: "quiet ag ag"
  by (auto simp: adds_def)

lemma adds_trans: "adds ms a b \<Longrightarrow> adds ns b c \<Longrightarrow> adds (ms @ ns) a c"
  by (fastforce simp: adds_def intro: same_setup_trans list_emb_append_mono)

lemma quiet_trans: "quiet a b \<Longrightarrow> quiet b c \<Longrightarrow> quiet a c"
  using adds_trans [of "[]" a b "[]" c] by simp

lemma adds_quiet: "adds ms a b \<Longrightarrow> quiet b c \<Longrightarrow> adds ms a c"
  using adds_trans [of ms a b "[]" c] by simp

lemma quiet_adds: "quiet a b \<Longrightarrow> adds ms b c \<Longrightarrow> adds ms a c"
  using adds_trans [of "[]" a b ms c] by simp

lemmas quiet_chain = quiet_trans adds_quiet quiet_adds

lemma addsD:
  assumes "adds ms a b"
  shows "same_setup a b" "ag_messages b = ag_messages a @ ms" "ag_config b = ag_config a" "ag_tools b = ag_tools a"
  using assms by (auto simp: adds_def same_setup_def)

text \<open>An update outside the setup, the messages and the events.\<close>

lemma quiet_updates [simp]:
  "quiet ag (ag\<lparr>ag_world := w\<rparr>)" "quiet ag (ag\<lparr>ag_deltas := d\<rparr>)" "quiet ag (ag\<lparr>ag_skip_response_reason := r\<rparr>)"
  "quiet ag (ag\<lparr>ag_warn_compaction := c\<rparr>)" "quiet ag (ag\<lparr>ag_active_branch_runs := n\<rparr>)"
  "quiet ag (ag\<lparr>ag_process_run_counter := n\<rparr>)" "quiet ag (ag\<lparr>ag_response_cache := rc\<rparr>)"
  "quiet ag (ag\<lparr>ag_tool_result_cache := tc\<rparr>)" "quiet ag (ag\<lparr>ag_emitted_alerts := al\<rparr>)"
  "quiet ag (ag\<lparr>ag_usage := u, ag_cost_usd := f\<rparr>)" "quiet ag (ag\<lparr>ag_enqueued := n\<rparr>)" "quiet ag (ag\<lparr>ag_dropped_full := n\<rparr>)"
  by (simp_all add: adds_def same_setup_def)

lemma act_quiet: "act f ag = (x, ag') \<Longrightarrow> quiet ag ag'"
  by (auto simp: act_def split: prod.splits)

lemma send_async_quiet: "quiet ag (send_async env event sender ag)"
  unfolding send_async_def
  by (auto split: prod.splits dest!: act_quiet intro: quiet_trans quiet_updates)

lemma fold_quiet: "(\<And>x a. quiet a (f x a)) \<Longrightarrow> quiet ag (fold f xs ag)"
  by (induction xs arbitrary: ag) (auto intro: quiet_trans)

lemma emit_events:
  "same_setup ag (emit env event ag) \<and> ag_messages (emit env event ag) = ag_messages ag
   \<and> (\<exists>events. ag_events (emit env event ag) = ag_events ag @ event # events)"
proof -
  let ?start = "ag\<lparr>ag_events := ag_events ag @ [event]\<rparr>"
  have "quiet ?start (emit env event ag)"
    unfolding emit_def by (rule fold_quiet) (rule send_async_quiet)
  moreover have "same_setup ag ?start" by (simp add: same_setup_def)
  ultimately show ?thesis by (auto simp: adds_def intro: same_setup_trans)
qed

lemma emit_quiet: "quiet ag (emit env event ag)"
  using emit_events [of ag env event] by (auto simp: adds_def)

lemma add_message_adds: "adds [m] ag (add_message env m ag)"
proof -
  obtain events where "ag_events (add_message env m ag) = ag_events ag @ MessageAdded m # events"
    using emit_events [of "ag\<lparr>ag_messages := ag_messages ag @ [m]\<rparr>" env "MessageAdded m"] by (auto simp: add_message_def)
  moreover have "same_setup ag (add_message env m ag)" "ag_messages (add_message env m ag) = ag_messages ag @ [m]"
    using emit_events [of "ag\<lparr>ag_messages := ag_messages ag @ [m]\<rparr>" env "MessageAdded m"]
    by (simp_all add: add_message_def same_setup_def)
  moreover have "announced (MessageAdded m # events) = m # announced events" for events
    by (simp add: announced_def map_filter_simps)
  ultimately show ?thesis by (auto simp: adds_def)
qed

lemma added_messages [simp]:
  "ag_messages (emit env e ag) = ag_messages ag" "ag_messages (add_message env m ag) = ag_messages ag @ [m]"
  using addsD(2) [OF emit_quiet [of ag env e]] addsD(2) [OF add_message_adds [of m ag env]] by simp_all

subsection \<open>Operations that add nothing\<close>

lemma inspect_text_quiet: "inspect_text env enabled mode stage text scan ag = (i, ag') \<Longrightarrow> quiet ag ag'"
  by (auto simp: inspect_text_def emit_quiet split: if_splits)

lemma sanitize_inbound_quiet: "sanitize_inbound_text env text ag = (r, ag') \<Longrightarrow> quiet ag ag'"
  unfolding sanitize_inbound_text_def inspect_prompt_safety_text_def
  by (auto split: prod.splits option.splits dest: inspect_text_quiet)

lemma sanitize_outbound_quiet: "sanitize_outbound_http_request env request ag = (r, ag') \<Longrightarrow> quiet ag ag'"
  unfolding sanitize_outbound_http_request_def inspect_secret_leak_text_def
  by (auto simp: Let_def split: if_splits prod.splits option.splits SafetyMode.splits dest: inspect_text_quiet)

lemma sanitize_tool_quiet: "sanitize_tool_result env result ag = (r, ag') \<Longrightarrow> quiet ag ag'"
  unfolding sanitize_tool_result_def inspect_prompt_safety_text_def inspect_secret_leak_text_def
  by (auto simp: Let_def split: if_splits prod.splits sum.splits dest!: inspect_text_quiet intro: quiet_trans)

lemma store_caches_quiet:
  "quiet ag (store_response_cache env request streaming response ag)"
  "quiet ag (store_tool_result_cache env call result ag)"
  by (auto simp: store_response_cache_def store_tool_result_cache_def split: option.splits)

lemma alert_quiet: "quiet ag (alert_threshold env turn budget u t ag)"
  unfolding alert_threshold_def by (auto intro: quiet_trans [OF quiet_updates(9) emit_quiet])

lemma accumulate_quiet: "quiet ag (accumulate_usage_and_emit_cost_events env turn usage ag)"
  unfolding accumulate_usage_and_emit_cost_events_def Let_def
  by (auto split: option.splits intro!: quiet_trans [OF quiet_trans [OF quiet_updates(10) emit_quiet] fold_quiet] alert_quiet
      quiet_trans [OF quiet_updates(10) emit_quiet])

lemma poll_quiet: "quiet ag (poll_warn_compaction_state env ag)"
  unfolding poll_warn_compaction_state_def
  by (auto split: option.splits prod.splits poll_outcome.splits dest!: act_quiet intro: quiet_trans quiet_updates)

lemma take_ready_quiet: "take_ready_warn_compaction env messages ag = (r, ag') \<Longrightarrow> quiet ag ag'"
  unfolding take_ready_warn_compaction_def Let_def
  by (auto split: option.splits prod.splits if_splits intro: poll_quiet quiet_trans [OF poll_quiet quiet_updates(4)])

lemma schedule_quiet: "quiet ag (schedule_warn_compaction_if_needed env messages ag)"
  unfolding schedule_warn_compaction_if_needed_def Let_def
  by (auto split: option.splits prod.splits if_splits intro: poll_quiet quiet_trans [OF poll_quiet quiet_updates(4)])

lemma recall_quiet: "build_memory_recall_message env limit ag = (r, ag') \<Longrightarrow> quiet ag ag'"
  unfolding build_memory_recall_message_def Let_def
  by (auto split: option.splits prod.splits if_splits dest: act_quiet)

lemma deliver_quiet: "deliver_deltas streaming buffer deltas ag = (b, ag') \<Longrightarrow> quiet ag ag'"
  unfolding deliver_deltas_def by (auto split: option.splits prod.splits if_splits)

lemma client_attempt_quiet: "client_attempt env request streaming buffer ag = (r, b, ag') \<Longrightarrow> quiet ag ag'"
  unfolding client_attempt_def
  by (auto split: option.splits prod.splits dest!: act_quiet deliver_quiet intro: quiet_trans)

lemma complete_loop_quiet:
  "complete_loop env request streaming max_backoff retries attempt backoff buffer ag = (r, ag') \<Longrightarrow> quiet ag ag'"
proof (induction retries arbitrary: attempt backoff buffer ag)
  case 0
  then show ?case
    by (subst (asm) complete_loop.simps)
      (auto simp: Let_def split: prod.splits if_splits option.splits call_outcome.splits sum.splits
        dest!: act_quiet client_attempt_quiet intro: quiet_trans)
next
  case (Suc left)
  show ?case using Suc.prems
    by (subst (asm) complete_loop.simps)
      (auto simp: Let_def split: prod.splits if_splits option.splits call_outcome.splits sum.splits
        dest!: act_quiet client_attempt_quiet Suc.IH intro: quiet_trans)
qed

lemma complete_with_retry_quiet: "complete_with_retry env request streaming ag = (r, ag') \<Longrightarrow> quiet ag ag'"
  unfolding complete_with_retry_def
  by (auto simp: Let_def split: prod.splits if_splits dest!: act_quiet complete_loop_quiet intro: quiet_trans)

lemma execute_inner_quiet: "execute_tool_call_inner env call registered timeout ag = (r, ag') \<Longrightarrow> quiet ag ag'"
  unfolding execute_tool_call_inner_def
  by (auto simp: Let_def split: prod.splits if_splits option.splits sum.splits task_outcome.splits
      dest!: act_quiet intro: quiet_trans)

lemma run_tool_task_quiet: "run_tool_task env call ag = (r, ag') \<Longrightarrow> quiet ag ag'"
  unfolding run_tool_task_def by (auto split: prod.splits sum.splits dest: execute_inner_quiet)

subsection \<open>Operations that add messages\<close>

text \<open>Messages without tool calls.\<close>

definition plain :: "json Message list \<Rightarrow> bool" where
  "plain ms \<longleftrightarrow> list_all (\<lambda>m. tool_calls m = []) ms"

lemma plain_simps [simp]: "plain []" "plain (m # ms) \<longleftrightarrow> tool_calls m = [] \<and> plain ms" "plain (ms @ ns) \<longleftrightarrow> plain ms \<and> plain ns"
  by (simp_all add: plain_def)

lemma tool_calls_plain [simp]:
  "tool_calls (message_system t) = []" "tool_calls (message_user t) = []" "tool_calls (tool_result i n t e) = []"
  by (simp_all add: message_system_def message_user_def text_message_def tool_result_def tool_calls_def map_filter_simps)

lemma artifact_adds: "\<exists>ms. adds ms ag (append_system_artifact_if_new env artifact ag) \<and> plain ms"
  unfolding append_system_artifact_if_new_def
  by (auto intro: exI [of _ "[]"] exI [of _ "[message_system artifact]"] add_message_adds)

lemma artifacts_add: "\<exists>ms. adds ms ag (persist_compaction_artifacts env tier compacted ag) \<and> plain ms"
proof -
  have two: "\<exists>ms. adds ms ag (append_system_artifact_if_new env b (append_system_artifact_if_new env a ag)) \<and> plain ms" for a b
    using artifact_adds [of ag env a] artifact_adds [of "append_system_artifact_if_new env a ag" env b]
    by (meson adds_trans plain_simps(3))
  have none: "\<exists>ms. adds ms ag ag \<and> plain ms" by (intro exI [of _ "[]"]) simp
  show ?thesis
    unfolding persist_compaction_artifacts_def Let_def
    by (simp add: none two artifact_adds split: option.split sum.split)
qed

lemma compact_under_pressure_adds:
  assumes "compact_under_pressure env tier messages ag = (ms', ag')"
  shows "\<exists>ms. adds ms ag ag' \<and> plain ms"
proof (cases tier)
  case NoCompaction
  then show ?thesis using assms by (auto simp: compact_under_pressure_def intro: exI [of _ "[]"])
next
  case WarnTier
  obtain taken ag1 where t: "take_ready_warn_compaction env messages ag = (taken, ag1)" by (cases "take_ready_warn_compaction env messages ag")
  then have q: "quiet ag ag1" by (rule take_ready_quiet)
  show ?thesis
  proof (cases taken)
    case None
    then have "quiet ag ag'" using assms WarnTier t q by (auto simp: compact_under_pressure_def intro: quiet_trans schedule_quiet)
    then show ?thesis by (intro exI [of _ "[]"]) simp
  next
    case (Some c)
    then show ?thesis using assms WarnTier t artifacts_add [of ag1 env WarnTier c] q
      by (auto simp: compact_under_pressure_def intro: quiet_adds)
  qed
next
  case AggressiveTier
  let ?ag = "ag\<lparr>ag_warn_compaction := no_warn_compaction\<rparr>"
  have "\<exists>ms. adds ms ?ag ag' \<and> plain ms"
    using assms AggressiveTier artifacts_add [of ?ag env AggressiveTier] by (auto simp: compact_under_pressure_def Let_def)
  then show ?thesis using quiet_adds [OF quiet_updates(4)] by blast
next
  case EmergencyTier
  then show ?thesis using assms by (auto simp: compact_under_pressure_def intro: exI [of _ "[]"])
qed

lemma request_messages_adds:
  assumes "request_messages env ag = (ms', ag')"
  shows "\<exists>ms. adds ms ag ag' \<and> plain ms"
proof -
  obtain tier messages m1 ag1 where c: "compact_under_pressure env tier messages ag = (m1, ag1)" and q: "quiet ag1 ag'"
    using assms unfolding request_messages_def Let_def
    by (auto split: prod.splits option.splits if_splits dest: recall_quiet)
  from compact_under_pressure_adds [OF c] q show ?thesis by (blast intro: adds_quiet)
qed

lemma turn_response_adds:
  assumes "turn_response env streaming json_mode ag = (r, ag')"
  shows "\<exists>ms. adds ms ag ag' \<and> plain ms"
proof -
  obtain request ag1 where r: "turn_request env json_mode ag = (request, ag1)" by (cases "turn_request env json_mode ag")
  then obtain ms' where "request_messages env ag = (ms', ag1)" by (auto simp: turn_request_def Let_def split: prod.splits)
  then obtain ms where ms: "adds ms ag ag1" "plain ms" using request_messages_adds by blast
  have "quiet ag1 ag'"
    using assms r unfolding turn_response_def
    by (auto split: prod.splits sum.splits option.splits
        dest!: sanitize_outbound_quiet complete_with_retry_quiet intro: quiet_trans store_caches_quiet)
  with ms show ?thesis by (blast intro: adds_quiet)
qed

subsection \<open>Tool calls are answered\<close>

definition answer_key :: "json Message \<Rightarrow> MessageRole \<times> string option \<times> string option" where
  "answer_key m = (msg_role m, msg_tool_call_id m, msg_tool_name m)"

definition call_key :: "json ToolCall \<Rightarrow> MessageRole \<times> string option \<times> string option" where
  "call_key call = (Tool, Some (tc_id call), Some (tc_name call))"

definition answer_of :: "json ToolCall \<Rightarrow> bool \<Rightarrow> json Message \<Rightarrow> bool" where
  "answer_of call is_error m \<longleftrightarrow> answer_key m = call_key call \<and> msg_is_error m = is_error \<and> tool_calls m = []"

lemma record_tool_result_adds:
  assumes "record_tool_result env call result ag = (is_error, ag')"
  shows "\<exists>m. adds [m] ag ag' \<and> answer_of call is_error m"
proof -
  obtain r ag1 where s: "sanitize_tool_result env result ag = (r, ag1)" by (cases "sanitize_tool_result env result ag")
  let ?m = "tool_result (tc_id call) (tc_name call) (as_text (ev_to_string_pretty env) r) (tr_is_error r) :: json Message"
  let ?ag2 = "add_message env ?m (emit env (ToolExecutionEnd (tc_id call) (tc_name call) r) ag1)"
  have "adds [?m] ag ?ag2"
    using quiet_adds [OF quiet_trans [OF sanitize_tool_quiet [OF s] emit_quiet] add_message_adds] .
  moreover have "quiet ?ag2 ag'" "is_error = tr_is_error r"
    using assms s by (auto simp: record_tool_result_def Let_def)
  moreover have "answer_of call (tr_is_error r) ?m"
    by (simp add: answer_of_def answer_key_def call_key_def tool_result_def tool_calls_def map_filter_simps)
  ultimately show ?thesis by (blast intro: adds_quiet)
qed

text \<open>A nested run only adds to the log of events.\<close>

definition appends_events :: "(string \<Rightarrow> 'w Agent \<Rightarrow> 'r \<times> 'w Agent) \<Rightarrow> bool" where
  "appends_events nested \<longleftrightarrow> (\<forall>text ag. prefix (ag_events ag) (ag_events (snd (nested text ag))))"

lemma absorb_quiet:
  assumes "prefix (ag_events ag) (ag_events worker)"
  shows "quiet ag (absorb_fork worker ag)"
  using assms by (auto simp: adds_def same_setup_def absorb_fork_def prefix_def)

lemma worker_agent_events: "ag_events (worker_agent i ag) = ag_events ag"
  by (simp add: worker_agent_def apply_process_runtime_profile_def clear_tool_result_cache_def set_agent_id_def fork_def
      replace_system_prompt_def Let_def split: list.split)

lemma followup_quiet:
  assumes "appends_events nested" "execute_branch_followup env nested call result ag = (r, ag')"
  shows "quiet ag ag'"
proof (cases "branch_followup_prompt call")
  case None
  then show ?thesis using assms(2) by (auto simp: execute_branch_followup_def)
next
  case (Some prompt)
  obtain b ag1 where b: "next_process_id BranchProcess ag = (b, ag1)" by (cases "next_process_id BranchProcess ag")
  obtain w ag2 where w: "next_process_id WorkerProcess ag1 = (w, ag2)" by (cases "next_process_id WorkerProcess ag1")
  obtain outcome worker where n: "nested prompt (worker_agent w ag2) = (outcome, worker)" by (cases "nested prompt (worker_agent w ag2)")
  have q2: "quiet ag ag2" using b w by (auto simp: next_process_id_def Let_def intro: quiet_trans)
  have "prefix (ag_events ag2) (ag_events worker)"
    using assms(1) n worker_agent_events [of w ag2] unfolding appends_events_def by (metis snd_conv)
  then have "quiet ag (absorb_fork worker ag2)" using q2 absorb_quiet quiet_trans by blast
  moreover have "quiet (absorb_fork worker ag2) ag'"
    using assms(2) Some b w n unfolding execute_branch_followup_def
    by (auto simp: Let_def split: prod.splits sum.splits option.splits dest: act_quiet)
  ultimately show ?thesis by (rule quiet_trans)
qed

lemma maybe_followup_quiet:
  assumes "appends_events nested" "maybe_execute_branch_followup env nested call result ag = (r, ag')"
  shows "quiet ag ag'"
  using assms(2) followup_quiet [OF assms(1), of env call result]
  by (auto simp: maybe_execute_branch_followup_def try_acquire_branch_run_slot_def
      split: if_splits prod.splits intro: quiet_trans [OF quiet_updates(5)])

lemma finish_tool_call_adds:
  assumes "appends_events nested" "finish_tool_call env nested call result ag = ((is_error, slots), ag')"
  shows "\<exists>m. adds [m] ag ag' \<and> answer_of call is_error m"
proof -
  obtain result' n ag1 where f: "maybe_execute_branch_followup env nested call result ag = ((result', n), ag1)"
    by (metis prod.exhaust)
  then have "record_tool_result env call result' (store_tool_result_cache env call result' ag1) = (is_error, ag')"
    using assms(2) by (auto simp: finish_tool_call_def split: prod.splits)
  from record_tool_result_adds [OF this] show ?thesis
    using maybe_followup_quiet [OF assms(1) f] store_caches_quiet(2) quiet_trans quiet_adds by blast
qed

text \<open>
  The messages \<open>ms\<close> answer calls of the list in its order; nothing is left out when the run is never cancelled.
\<close>

definition uncancelled :: "'w AgentEnv \<Rightarrow> bool" where
  "uncancelled env \<longleftrightarrow> (\<forall>w. \<not> fst (ev_cancelled env w))"

definition answers_calls :: "'w AgentEnv \<Rightarrow> json ToolCall list \<Rightarrow> json Message list \<Rightarrow> bool" where
  "answers_calls env calls ms \<longleftrightarrow>
     plain ms \<and> subseq (map answer_key ms) (map call_key calls)
     \<and> (uncancelled env \<longrightarrow> map answer_key ms = map call_key calls)"

lemma answers_none: "\<not> uncancelled env \<Longrightarrow> answers_calls env calls []"
  by (simp add: answers_calls_def)

lemma answers_Nil [simp]: "answers_calls env [] []"
  by (simp add: answers_calls_def)

lemma answers_append: "answers_calls env a ms \<Longrightarrow> answers_calls env b ns \<Longrightarrow> answers_calls env (a @ b) (ms @ ns)"
  by (auto simp: answers_calls_def intro: list_emb_append_mono)

lemma answers_Cons: "answer_of call e m \<Longrightarrow> answers_calls env calls ms \<Longrightarrow> answers_calls env (call # calls) (m # ms)"
  by (auto simp: answers_calls_def answer_of_def)

lemma answers_skip: "\<not> uncancelled env \<Longrightarrow> answers_calls env calls ms \<Longrightarrow> answers_calls env (call # calls) ms"
  by (auto simp: answers_calls_def)

lemma is_cancelled_uncancelled: "is_cancelled env ag = (True, ag') \<Longrightarrow> \<not> uncancelled env"
  by (auto simp: act_def uncancelled_def split: prod.splits) (metis fst_conv)

definition count_answers :: "json Message list \<Rightarrow> ToolExecutionStats \<Rightarrow> ToolExecutionStats" where
  "count_answers ms stats = fold (count_result \<circ> msg_is_error) ms stats"

lemma count_answers_simps [simp]:
  "count_answers [] stats = stats" "count_answers (m # ms) stats = count_answers ms (count_result (msg_is_error m) stats)"
  "count_answers (ms @ ns) stats = count_answers ns (count_answers ms stats)"
  by (simp_all add: count_answers_def)

lemma execute_tool_call_adds:
  assumes "appends_events nested" "execute_tool_call env nested call ag = (is_error, ag')"
  shows "(\<exists>m. adds [m] ag ag' \<and> answer_of call is_error m) \<or> \<not> uncancelled env \<and> quiet ag ag'"
proof -
  obtain c ag1 where c: "is_cancelled env ag = (c, ag1)" by (cases "is_cancelled env ag")
  then have q1: "quiet ag ag1" by (rule act_quiet)
  show ?thesis
  proof (cases c)
    case True
    then show ?thesis using assms(2) c q1 is_cancelled_uncancelled by (auto simp: execute_tool_call_def)
  next
    case False
    let ?ag2 = "emit env (ToolExecutionStart (tc_id call) (tc_name call) (tc_arguments call)) ag1"
    obtain result ag3 where r: "(case lookup_tool_result_cache env call ?ag2 of Some cached \<Rightarrow> (cached, ?ag2)
        | None \<Rightarrow> run_tool_task env call ?ag2) = (result, ag3)" by (metis prod.exhaust)
    then have "quiet ?ag2 ag3" by (auto split: option.splits dest: run_tool_task_quiet)
    then have q3: "quiet ag ag3" using q1 emit_quiet quiet_trans by blast
    obtain e slots ag4 where f: "finish_tool_call env nested call result ag3 = ((e, slots), ag4)" by (metis prod.exhaust)
    then have "is_error = e" and "quiet ag4 ag'"
      using assms(2) c False r by (auto simp: execute_tool_call_def release_branch_slots_def Let_def)
    with finish_tool_call_adds [OF assms(1) f] q3 show ?thesis
      by (blast intro: quiet_adds adds_quiet)
  qed
qed

lemma execute_sequentially_adds:
  assumes "appends_events nested"
  shows "execute_sequentially env nested calls stats ag = (r, ag') \<Longrightarrow>
     \<exists>ms. adds ms ag ag' \<and> answers_calls env calls ms \<and> (uncancelled env \<longrightarrow> r = Inr (count_answers ms stats))"
proof (induction calls arbitrary: stats ag)
  case Nil
  then show ?case by (intro exI [of _ "[]"]) simp
next
  case (Cons call calls)
  obtain c ag1 where c: "is_cancelled env ag = (c, ag1)" by (cases "is_cancelled env ag")
  then have q1: "quiet ag ag1" by (rule act_quiet)
  show ?case
  proof (cases c)
    case True
    then show ?thesis using Cons.prems c q1 is_cancelled_uncancelled [of env ag ag1]
      by (intro exI [of _ "[]"]) (auto simp: answers_none)
  next
    case False
    obtain e ag2 where x: "execute_tool_call env nested call ag1 = (e, ag2)" by (cases "execute_tool_call env nested call ag1")
    then have "execute_sequentially env nested calls (count_result e stats) ag2 = (r, ag')"
      using Cons.prems c False by simp
    then obtain ms where ms: "adds ms ag2 ag'" "answers_calls env calls ms"
      "uncancelled env \<longrightarrow> r = Inr (count_answers ms (count_result e stats))" using Cons.IH by blast
    from execute_tool_call_adds [OF assms x] show ?thesis
    proof (elim disjE exE conjE)
      fix m
      assume m: "adds [m] ag1 ag2" "answer_of call e m"
      then have "adds (m # ms) ag ag'" using q1 ms(1) adds_trans [of "[m]" ag ag2 ms ag'] by (simp add: quiet_adds)
      moreover have "msg_is_error m = e" using m(2) by (simp add: answer_of_def)
      ultimately show ?thesis using ms answers_Cons [OF m(2) ms(2)] by (intro exI [of _ "m # ms"]) simp
    next
      assume "\<not> uncancelled env" "quiet ag1 ag2"
      then show ?thesis using q1 ms answers_skip quiet_trans quiet_adds by (intro exI [of _ ms]) blast
    qed
  qed
qed

lemma start_chunk_quiet:
  "start_chunk env calls ag = (r, ag') \<Longrightarrow>
     quiet ag ag' \<and> (case r of Inl e \<Rightarrow> \<not> uncancelled env | Inr pending \<Rightarrow> map fst pending = calls)"
proof (induction calls arbitrary: ag r ag')
  case (Cons call calls)
  obtain c ag1 where c: "is_cancelled env ag = (c, ag1)" by (cases "is_cancelled env ag")
  let ?ag2 = "emit env (ToolExecutionStart (tc_id call) (tc_name call) (tc_arguments call)) ag1"
  obtain r' ag3 where s: "start_chunk env calls ?ag2 = (r', ag3)" by (cases "start_chunk env calls ?ag2")
  have q: "quiet ag ag1" "quiet ag ?ag2" using act_quiet [OF c] emit_quiet quiet_trans by blast+
  show ?case
    using Cons.prems c s q Cons.IH [OF s] is_cancelled_uncancelled [of env ag ag1]
    by (auto simp: Let_def split: if_splits sum.splits intro: quiet_trans)
qed auto

lemma finish_chunk_adds:
  assumes "appends_events nested"
  shows "finish_chunk env nested pending slots stats ag = (stats', ag') \<Longrightarrow>
     \<exists>ms. adds ms ag ag' \<and> answers_calls env (map fst pending) ms \<and> stats' = count_answers ms stats"
proof (induction pending arbitrary: slots stats ag)
  case Nil
  then show ?case by (intro exI [of _ "[]"]) (auto simp: release_branch_slots_def)
next
  case (Cons p pending)
  obtain call execution where p: "p = (call, execution)" by (cases p)
  obtain result ag1 where r: "(case execution of Some result \<Rightarrow> (result, ag) | None \<Rightarrow> run_tool_task env call ag) = (result, ag1)"
    by (metis prod.exhaust)
  then have q: "quiet ag ag1" by (auto split: option.splits dest: run_tool_task_quiet)
  obtain e taken ag2 where f: "finish_tool_call env nested call result ag1 = ((e, taken), ag2)" by (metis prod.exhaust)
  then have "finish_chunk env nested pending (slots + taken) (count_result e stats) ag2 = (stats', ag')"
    using Cons.prems p r by simp
  then obtain ms where ms: "adds ms ag2 ag'" "answers_calls env (map fst pending) ms" "stats' = count_answers ms (count_result e stats)"
    using Cons.IH by blast
  obtain m where m: "adds [m] ag1 ag2" "answer_of call e m" using finish_tool_call_adds [OF assms f] by blast
  then have "adds (m # ms) ag ag'" using q ms(1) adds_trans [of "[m]" ag ag2 ms ag'] by (simp add: quiet_adds)
  moreover have "msg_is_error m = e" using m(2) by (simp add: answer_of_def)
  ultimately show ?case using ms p answers_Cons [OF m(2) ms(2)] by (intro exI [of _ "m # ms"]) simp
qed

lemma execute_chunks_adds:
  assumes "appends_events nested"
  shows "execute_chunks env nested cs stats ag = (r, ag') \<Longrightarrow>
     \<exists>ms. adds ms ag ag' \<and> answers_calls env (concat cs) ms \<and> (uncancelled env \<longrightarrow> r = Inr (count_answers ms stats))"
proof (induction cs arbitrary: stats ag)
  case Nil
  then show ?case by (intro exI [of _ "[]"]) simp
next
  case (Cons chunk cs)
  obtain c ag1 where c: "is_cancelled env ag = (c, ag1)" by (cases "is_cancelled env ag")
  obtain r1 ag2 where s: "start_chunk env chunk ag1 = (r1, ag2)" by (cases "start_chunk env chunk ag1")
  have q: "quiet ag ag1" "quiet ag ag2" using act_quiet [OF c] start_chunk_quiet [OF s] quiet_trans by blast+
  show ?case
  proof (cases "c \<or> (\<exists>e. r1 = Inl e)")
    case True
    then have "\<not> uncancelled env" "quiet ag ag'"
      using is_cancelled_uncancelled [of env ag ag1] start_chunk_quiet [OF s] q Cons.prems c s by (auto split: if_splits)
    then show ?thesis by (intro exI [of _ "[]"]) (simp add: answers_none)
  next
    case False
    then obtain pending where pending: "r1 = Inr pending" "map fst pending = chunk" "\<not> c"
      using start_chunk_quiet [OF s] by (cases r1) auto
    obtain stats1 ag3 where f: "finish_chunk env nested pending 0 stats ag2 = (stats1, ag3)" by (cases "finish_chunk env nested pending 0 stats ag2")
    then obtain ms where ms: "adds ms ag2 ag3" "answers_calls env chunk ms" "stats1 = count_answers ms stats"
      using finish_chunk_adds [OF assms f] pending(2) by auto
    have "execute_chunks env nested cs stats1 ag3 = (r, ag')" using Cons.prems c s pending f by simp
    then obtain ns where ns: "adds ns ag3 ag'" "answers_calls env (concat cs) ns" "uncancelled env \<longrightarrow> r = Inr (count_answers ns stats1)"
      using Cons.IH by blast
    have "adds (ms @ ns) ag ag'" using q(2) ms(1) ns(1) quiet_adds adds_trans by blast
    then show ?thesis using ms ns answers_append by (intro exI [of _ "ms @ ns"]) auto
  qed
qed

lemma concat_chunks: "0 < n \<Longrightarrow> concat (chunks n xs) = xs"
proof (induction n xs rule: chunks.induct)
  case (1 n xs)
  then show ?case
    by (cases "xs = []") (simp_all add: chunks.simps [of n xs] chunks.simps [of n "[]"])
qed

lemma execute_tool_calls_adds:
  assumes "appends_events nested" "execute_tool_calls env nested calls ag = (r, ag')"
  shows "\<exists>ms. adds ms ag ag' \<and> answers_calls env calls ms
    \<and> (uncancelled env \<longrightarrow> r = Inr (count_answers ms \<lparr>ts_total = 0, ts_errors = 0\<rparr>))"
proof -
  obtain c ag1 where c: "is_cancelled env ag = (c, ag1)" by (cases "is_cancelled env ag")
  then have q: "quiet ag ag1" by (rule act_quiet)
  show ?thesis
  proof (cases c)
    case True
    then show ?thesis using assms(2) c q is_cancelled_uncancelled [of env ag ag1]
      by (intro exI [of _ "[]"]) (auto simp: execute_tool_calls_def answers_none)
  next
    case False
    let ?n = "max (cf_max_parallel_tool_calls (ag_config ag1)) 1"
    have "\<exists>ms. adds ms ag1 ag' \<and> answers_calls env calls ms \<and> (uncancelled env \<longrightarrow> r = Inr (count_answers ms \<lparr>ts_total = 0, ts_errors = 0\<rparr>))"
    proof (cases "?n = 1 \<or> length calls \<le> 1")
      case True
      then show ?thesis using assms(2) c False execute_sequentially_adds [OF assms(1)]
        by (auto simp: execute_tool_calls_def Let_def)
    next
      case False
      then show ?thesis using assms(2) c \<open>\<not> c\<close> execute_chunks_adds [OF assms(1), of env "chunks ?n calls"] concat_chunks [of ?n calls]
        by (auto simp: execute_tool_calls_def Let_def)
    qed
    then show ?thesis using q quiet_adds by blast
  qed
qed

subsection \<open>Histories with every call answered\<close>

text \<open>After a message with tool calls come, at once and in order, the answers to its calls.\<close>

function paired :: "json Message list \<Rightarrow> bool" where
  "paired [] = True"
| "paired (m # ms) \<longleftrightarrow>
     map answer_key (take (length (tool_calls m)) ms) = map call_key (tool_calls m)
     \<and> paired (drop (length (tool_calls m)) ms)"
  by pat_completeness auto
termination by (relation "measure length") auto

lemma paired_append: "paired ms \<Longrightarrow> paired ns \<Longrightarrow> paired (ms @ ns)"
proof (induction ms rule: paired.induct)
  case (2 m ms)
  let ?n = "length (tool_calls m)"
  have "length (take ?n ms) = ?n" using 2(2) by (metis length_map paired.simps(2))
  then have "?n \<le> length ms" by simp
  then show ?case using 2 by simp
qed simp

lemma paired_plain: "plain ms \<Longrightarrow> paired ms"
  by (induction ms) simp_all

lemma paired_turn:
  assumes "map answer_key ms = map call_key (tool_calls m)" "plain ms"
  shows "paired (m # ms)"
proof -
  have "length ms = length (tool_calls m)" using assms(1) by (metis length_map)
  then show ?thesis using assms by (simp add: paired_plain)
qed

text \<open>What a run adds: paired messages, unless it is cancelled.\<close>

definition run_adds :: "'w AgentEnv \<Rightarrow> 'w Agent \<Rightarrow> 'w Agent \<Rightarrow> bool" where
  "run_adds env ag ag' \<longleftrightarrow> (\<exists>ms. adds ms ag ag' \<and> (uncancelled env \<longrightarrow> paired ms))"

lemma run_adds_quiet: "quiet ag ag' \<Longrightarrow> run_adds env ag ag'"
  by (auto simp: run_adds_def intro: exI [of _ "[]"])

lemma run_adds_trans: "run_adds env a b \<Longrightarrow> run_adds env b c \<Longrightarrow> run_adds env a c"
  unfolding run_adds_def by (meson adds_trans paired_append)

lemma run_adds_plain: "adds ms a b \<Longrightarrow> plain ms \<Longrightarrow> run_adds env a b"
  by (auto simp: run_adds_def paired_plain)

lemma run_turns_adds:
  assumes "appends_events nested"
  shows "run_turns env nested start_index streaming json_mode left turn pending replans ag = (r, ag') \<Longrightarrow> run_adds env ag ag'"
proof (induction left arbitrary: turn pending replans ag)
  case 0
  then show ?case by (simp add: run_adds_quiet)
next
  case (Suc left)
  obtain c ag1 where c: "is_cancelled env ag = (c, ag1)" by (cases "is_cancelled env ag")
  obtain started ag2 where st: "act (ev_now_ms env) (emit env (TurnStart turn) ag1) = (started, ag2)"
    by (cases "act (ev_now_ms env) (emit env (TurnStart turn) ag1)")
  obtain r1 ag3 where resp: "turn_response env streaming json_mode ag2 = (r1, ag3)" by (cases "turn_response env streaming json_mode ag2")
  obtain now ag4 where nw: "act (ev_now_ms env) ag3 = (now, ag4)" by (cases "act (ev_now_ms env) ag3")
  have q1: "quiet ag ag1" using act_quiet [OF c] .
  have q2: "quiet ag ag2" using q1 act_quiet [OF st] emit_quiet quiet_trans by blast
  have a3: "run_adds env ag ag3"
    using run_adds_trans [OF run_adds_quiet [OF q2]] turn_response_adds [OF resp] run_adds_plain by blast
  have a4: "run_adds env ag ag4" using run_adds_trans [OF a3 run_adds_quiet [OF act_quiet [OF nw]]] .
  show ?case
  proof (cases "c \<or> (\<exists>e. r1 = Inl e)")
    case True
    then show ?thesis using Suc.prems c st resp q1 a3 run_adds_quiet by (auto split: if_splits)
  next
    case False
    then obtain response where response: "r1 = Inr response" "\<not> c" by (cases r1) auto
    let ?m = "rs_message response"
    let ?ag5 = "accumulate_usage_and_emit_cost_events env turn (rs_usage response) (add_message env ?m ag4)"
    have m5: "adds [?m] ag4 ?ag5" using add_message_adds accumulate_quiet adds_quiet by blast
    show ?thesis
    proof (cases "tool_calls ?m = []")
      case True
      then have a5: "run_adds env ag ?ag5" using run_adds_trans [OF a4] run_adds_plain [OF m5] by simp
      have finish: "run_adds env ag (emit env e ?ag5)" "run_adds env ag (emit env e' (emit env e ?ag5))" for e e'
        using run_adds_trans [OF a5] run_adds_quiet emit_quiet quiet_trans by blast+
      have replan: "run_adds env ag (emit env e (add_message env (message_user t) (emit env e' ?ag5)))" for e e' t
        using run_adds_trans [OF a5 run_adds_plain [OF adds_quiet [OF quiet_adds [OF emit_quiet add_message_adds] emit_quiet]]] by simp
      show ?thesis
        using Suc.prems c st resp nw response True finish replan run_adds_trans [OF replan Suc.IH]
        by (auto simp: Let_def finish_run_def split: if_splits)
    next
      case False
      obtain r6 ag6 where x: "execute_tool_calls env nested (tool_calls ?m) ?ag5 = (r6, ag6)"
        by (cases "execute_tool_calls env nested (tool_calls ?m) ?ag5")
      then obtain ms where ms: "adds ms ?ag5 ag6" "answers_calls env (tool_calls ?m) ms"
        using execute_tool_calls_adds [OF assms x] by blast
      have "adds (?m # ms) ag4 ag6" using adds_trans [OF m5 ms(1)] by simp
      then have a6: "run_adds env ag ag6"
        using run_adds_trans [OF a4] ms(2) paired_turn [of ms ?m] unfolding run_adds_def answers_calls_def by blast
      have ends: "run_adds env ag (emit env e (ag6\<lparr>ag_skip_response_reason := None\<rparr>))"
          "run_adds env ag (emit env e' (emit env e (ag6\<lparr>ag_skip_response_reason := None\<rparr>)))" for e e'
        using run_adds_trans [OF a6] run_adds_quiet emit_quiet quiet_trans [OF quiet_updates(3)] quiet_trans by blast+
      show ?thesis
        using Suc.prems c st resp nw response False x a6 ends run_adds_trans [OF ends(1) Suc.IH]
        by (auto simp: Let_def finish_run_def split: if_splits sum.splits)
    qed
  qed
qed

lemma run_turns_returns:
  "run_turns env nested start_index streaming json_mode left turn pending replans ag = (Inr ms, ag') \<Longrightarrow>
     ms = drop start_index (ag_messages ag')"
proof (induction left arbitrary: turn pending replans ag)
  case (Suc left)
  have finish: "finish_run env start_index a = (Inr ms, ag') \<Longrightarrow> ms = drop start_index (ag_messages ag')" for a
    using addsD(2) [OF emit_quiet [of a env]] by (auto simp: finish_run_def Let_def)
  show ?case
    using Suc.prems by (auto simp: Let_def dest: finish Suc.IH split: prod.splits if_splits sum.splits)
qed simp

lemma run_loop_adds:
  assumes "appends_events nested" "run_loop env nested start_index streaming json_mode ag = (r, ag')"
  shows "run_adds env ag ag' \<and> (case r of Inr ms \<Rightarrow> ms = drop start_index (ag_messages ag') | Inl _ \<Rightarrow> True)"
proof -
  obtain c ag1 where c: "is_cancelled env ag = (c, ag1)" by (cases "is_cancelled env ag")
  then have q1: "quiet ag ag1" by (rule act_quiet)
  show ?thesis
  proof (cases c)
    case True
    then show ?thesis using assms(2) c q1 run_adds_quiet by (auto simp: run_loop_def)
  next
    case False
    let ?ag2 = "emit env AgentStart (ag1\<lparr>ag_skip_response_reason := None\<rparr>)"
    have q2: "quiet ag ?ag2" using q1 emit_quiet quiet_updates(3) quiet_trans by blast
    have t: "run_turns env nested start_index streaming json_mode (cf_max_turns (ag_config ag1)) 1 False 0 ?ag2 = (r, ag')"
      using assms(2) c False by (simp add: run_loop_def)
    show ?thesis
      using run_adds_trans [OF run_adds_quiet [OF q2] run_turns_adds [OF assms(1) t]] run_turns_returns t by (cases r) auto
  qed
qed

lemma compact_history_keeps:
  "ag_events (compact_message_history ag) = ag_events ag" "same_setup ag (compact_message_history ag)"
  by (auto simp: compact_message_history_def same_setup_def split: option.split)

lemma prompt_with_spec:
  assumes "appends_events nested" "prompt_with env nested streaming json_mode text ag = (r, ag')"
  shows "prefix (ag_events ag) (ag_events ag')
    \<and> (case r of
         Inl e \<Rightarrow> (\<exists>ms. ag_messages ag' = ag_messages ag @ ms \<and> (uncancelled env \<longrightarrow> paired ms))
       | Inr ms \<Rightarrow> \<exists>t rest. ms = message_user t # rest \<and> (uncancelled env \<longrightarrow> paired ms)
           \<and> ag_messages ag' = ag_messages (compact_message_history (ag'\<lparr>ag_messages := ag_messages ag @ ms\<rparr>)))"
proof -
  obtain r1 ag1 where s: "sanitize_inbound_text env text ag = (r1, ag1)" by (cases "sanitize_inbound_text env text ag")
  then have q: "quiet ag ag1" by (rule sanitize_inbound_quiet)
  show ?thesis
  proof (cases r1)
    case (Inl codes)
    then show ?thesis using assms(2) s addsD(2) [OF q] q
      by (auto simp: prompt_with_def adds_def intro: exI [of _ "[]"])
  next
    case (Inr t)
    let ?ag2 = "add_message env (message_user t) ag1"
    have a2: "adds [message_user t] ag ?ag2" using quiet_adds [OF q add_message_adds] .
    obtain r3 ag3 where l: "run_loop env nested (length (ag_messages ag)) streaming json_mode ?ag2 = (r3, ag3)" by (metis prod.exhaust)
    obtain ms where ms: "adds ms ?ag2 ag3" "uncancelled env \<longrightarrow> paired ms" using run_loop_adds [OF assms(1) l] by (auto simp: run_adds_def)
    have a3: "adds (message_user t # ms) ag ag3" using adds_trans [OF a2 ms(1)] by simp
    have p: "uncancelled env \<longrightarrow> paired (message_user t # ms)" using ms(2) by simp
    show ?thesis
    proof (cases r3)
      case (Inl e)
      then have "r = Inl e" "ag' = ag3" using assms(2) s \<open>r1 = Inr t\<close> l by (auto simp: prompt_with_def run_and_compact_def)
      then show ?thesis using a3 p by (auto simp: adds_def)
    next
      case (Inr new)
      then have r: "r = Inr new" "ag' = compact_message_history ag3"
        using assms(2) s \<open>r1 = Inr t\<close> l by (auto simp: prompt_with_def run_and_compact_def)
      have new: "new = message_user t # ms" using run_loop_adds [OF assms(1) l] Inr addsD(2) [OF a3] by simp
      have "ag_messages ag3 = ag_messages ag @ message_user t # ms" using addsD(2) [OF a3] .
      then have "ag_messages ag' = ag_messages (compact_message_history (ag'\<lparr>ag_messages := ag_messages ag @ new\<rparr>))"
        unfolding r new by (auto simp: compact_message_history_def split: option.split)
      then show ?thesis using r new p a3 compact_history_keeps(1) [of ag3] by (auto simp: adds_def)
    qed
  qed
qed

lemma nested_prompt_appends: "appends_events (nested_prompt depth env)"
proof (induction depth)
  case 0
  then show ?case by (simp add: appends_events_def)
next
  case (Suc depth)
  show ?case unfolding appends_events_def
  proof (intro allI)
    fix "text" and ag :: "'a Agent"
    obtain r ag' where p: "prompt_with env (nested_prompt depth env) False False text ag = (r, ag')" by (metis prod.exhaust)
    from prompt_with_spec [OF Suc p] p show "prefix (ag_events ag) (ag_events (snd (nested_prompt (Suc depth) env text ag)))" by simp
  qed
qed

lemma prompt_with_setup:
  assumes "appends_events nested" "prompt_with env nested streaming json_mode text ag = (r, ag')"
  shows "same_setup ag ag'"
proof -
  obtain r1 ag1 where s: "sanitize_inbound_text env text ag = (r1, ag1)" by (cases "sanitize_inbound_text env text ag")
  have q: "same_setup ag ag1" using addsD(1) [OF sanitize_inbound_quiet [OF s]] .
  show ?thesis
  proof (cases r1)
    case (Inr t)
    let ?ag2 = "add_message env (message_user t) ag1"
    obtain r3 ag3 where l: "run_loop env nested (length (ag_messages ag)) streaming json_mode ?ag2 = (r3, ag3)" by (metis prod.exhaust)
    have "same_setup ag1 ?ag2" "same_setup ?ag2 ag3"
      using addsD(1) [OF add_message_adds] run_loop_adds [OF assms(1) l] addsD(1) by (auto simp: run_adds_def)
    then have "same_setup ag ag3" using q same_setup_trans by blast
    moreover have "ag' = ag3 \<or> ag' = compact_message_history ag3"
      using assms(2) s Inr l by (auto simp: prompt_with_def run_and_compact_def split: sum.splits)
    ultimately show ?thesis using compact_history_keeps(2) same_setup_trans by blast
  qed (use assms(2) s q in \<open>simp add: prompt_with_def\<close>)
qed

subsection \<open>The nesting of branches\<close>

text \<open>Without the \<open>branch\<close> tool a run does not depend on how a nested prompt would be run.\<close>

definition no_branch :: "'w Agent \<Rightarrow> bool" where
  "no_branch ag \<longleftrightarrow> map_of (ag_tools ag) ''branch'' = None"

lemma no_branch_adds: "adds ms a b \<Longrightarrow> no_branch a \<Longrightarrow> no_branch b"
  by (simp add: no_branch_def addsD(4))

lemma run_adds_no_branch: "run_adds env a b \<Longrightarrow> no_branch a \<Longrightarrow> no_branch b"
  by (auto simp: run_adds_def intro: no_branch_adds)

lemma no_branch_simps [simp]:
  "no_branch (emit env e ag) \<longleftrightarrow> no_branch ag" "no_branch (add_message env m ag) \<longleftrightarrow> no_branch ag"
  "no_branch (ag\<lparr>ag_skip_response_reason := r\<rparr>) \<longleftrightarrow> no_branch ag"
  using addsD(4) [OF emit_quiet [of ag env e]] addsD(4) [OF add_message_adds [of m ag env]] by (simp_all add: no_branch_def)

lemma unregistered_fails:
  "map_of (ag_tools ag) (tc_name call) = None \<Longrightarrow> tr_is_error (fst (run_tool_task env call ag))"
  by (simp add: run_tool_task_def execute_tool_call_inner_def tool_error_def split: prod.split)

lemma lookup_no_branch: "no_branch ag \<Longrightarrow> tc_name call = ''branch'' \<Longrightarrow> lookup_tool_result_cache env call ag = None"
  by (simp add: lookup_tool_result_cache_def tool_cacheable_def no_branch_def)

lemma finish_tool_call_indep:
  "tc_name call \<noteq> ''branch'' \<or> tr_is_error result \<Longrightarrow> finish_tool_call env n1 call result ag = finish_tool_call env n2 call result ag"
  by (auto simp: finish_tool_call_def maybe_execute_branch_followup_def)

lemma task_then_finish_indep:
  assumes "no_branch ag" "tc_name call = ''branch'' \<longrightarrow> execution = None"
    "(case execution of Some result \<Rightarrow> (result, ag) | None \<Rightarrow> run_tool_task env call ag) = (result, ag')"
  shows "finish_tool_call env n1 call result ag' = finish_tool_call env n2 call result ag'"
proof (rule finish_tool_call_indep)
  show "tc_name call \<noteq> ''branch'' \<or> tr_is_error result"
    using assms unregistered_fails [of ag call env] by (auto simp: no_branch_def split: option.splits)
qed

lemma execute_tool_call_indep:
  assumes "no_branch ag"
  shows "execute_tool_call env n1 call ag = execute_tool_call env n2 call ag"
proof -
  obtain c ag1 where c: "is_cancelled env ag = (c, ag1)" by (cases "is_cancelled env ag")
  let ?ag2 = "emit env (ToolExecutionStart (tc_id call) (tc_name call) (tc_arguments call)) ag1"
  have nb: "no_branch ?ag2" using assms act_quiet [OF c] emit_quiet no_branch_adds by blast
  obtain result ag3 where r: "(case lookup_tool_result_cache env call ?ag2 of Some cached \<Rightarrow> (cached, ?ag2)
      | None \<Rightarrow> run_tool_task env call ?ag2) = (result, ag3)" by (metis prod.exhaust)
  have "finish_tool_call env n1 call result ag3 = finish_tool_call env n2 call result ag3"
    using task_then_finish_indep [OF nb _ r, of n1 n2] lookup_no_branch [OF nb, of call env] by blast
  then show ?thesis using c r by (simp add: execute_tool_call_def Let_def)
qed

lemma execute_sequentially_indep:
  assumes "appends_events n1"
  shows "no_branch ag \<Longrightarrow> execute_sequentially env n1 calls stats ag = execute_sequentially env n2 calls stats ag"
proof (induction calls arbitrary: stats ag)
  case (Cons call calls)
  obtain c ag1 where c: "is_cancelled env ag = (c, ag1)" by (cases "is_cancelled env ag")
  have nb: "no_branch ag1" using Cons.prems act_quiet [OF c] no_branch_adds by blast
  obtain e ag2 where x: "execute_tool_call env n1 call ag1 = (e, ag2)" by (cases "execute_tool_call env n1 call ag1")
  have "no_branch ag2" using execute_tool_call_adds [OF assms x] nb no_branch_adds by blast
  with Cons.IH x c execute_tool_call_indep [OF nb, of env n1 call n2] show ?case by simp
qed simp

lemma start_chunk_pending:
  "no_branch ag \<Longrightarrow> start_chunk env calls ag = (Inr pending, ag') \<Longrightarrow>
     list_all (\<lambda>(call, execution). tc_name call = ''branch'' \<longrightarrow> execution = None) pending"
proof (induction calls arbitrary: ag pending ag')
  case (Cons call calls)
  obtain c ag1 where c: "is_cancelled env ag = (c, ag1)" by (cases "is_cancelled env ag")
  let ?ag2 = "emit env (ToolExecutionStart (tc_id call) (tc_name call) (tc_arguments call)) ag1"
  have nb: "no_branch ?ag2" using Cons.prems(1) act_quiet [OF c] emit_quiet no_branch_adds by blast
  obtain r ag3 where s: "start_chunk env calls ?ag2 = (r, ag3)" by (cases "start_chunk env calls ?ag2")
  show ?case
    using Cons.prems(2) c s Cons.IH [OF nb] lookup_no_branch [OF nb, of call env]
    by (auto simp: Let_def split: if_splits sum.splits)
qed auto

lemma finish_chunk_indep:
  assumes "appends_events n1"
  shows "no_branch ag \<Longrightarrow> list_all (\<lambda>(call, execution). tc_name call = ''branch'' \<longrightarrow> execution = None) pending \<Longrightarrow>
     finish_chunk env n1 pending slots stats ag = finish_chunk env n2 pending slots stats ag"
proof (induction pending arbitrary: slots stats ag)
  case (Cons p pending)
  obtain call execution where p: "p = (call, execution)" by (cases p)
  obtain result ag1 where r: "(case execution of Some result \<Rightarrow> (result, ag) | None \<Rightarrow> run_tool_task env call ag) = (result, ag1)"
    by (metis prod.exhaust)
  have nb1: "no_branch ag1" using Cons.prems(1) r by (auto split: option.splits dest: run_tool_task_quiet intro: no_branch_adds)
  have same: "finish_tool_call env n1 call result ag1 = finish_tool_call env n2 call result ag1"
    using task_then_finish_indep [OF Cons.prems(1) _ r] Cons.prems(2) p by simp
  obtain e taken ag2 where f: "finish_tool_call env n1 call result ag1 = ((e, taken), ag2)" by (metis prod.exhaust)
  have "no_branch ag2" using finish_tool_call_adds [OF assms f] nb1 no_branch_adds by blast
  with Cons r f same p show ?case by simp
qed simp

lemma execute_chunks_indep:
  assumes "appends_events n1"
  shows "no_branch ag \<Longrightarrow> execute_chunks env n1 cs stats ag = execute_chunks env n2 cs stats ag"
proof (induction cs arbitrary: stats ag)
  case (Cons chunk cs)
  obtain c ag1 where c: "is_cancelled env ag = (c, ag1)" by (cases "is_cancelled env ag")
  obtain r ag2 where s: "start_chunk env chunk ag1 = (r, ag2)" by (cases "start_chunk env chunk ag1")
  have nb: "no_branch ag1" "no_branch ag2"
    using Cons.prems act_quiet [OF c] start_chunk_quiet [OF s] no_branch_adds by blast+
  show ?case
  proof (cases r)
    case (Inr pending)
    obtain stats1 ag3 where f: "finish_chunk env n1 pending 0 stats ag2 = (stats1, ag3)" by (cases "finish_chunk env n1 pending 0 stats ag2")
    then have "finish_chunk env n2 pending 0 stats ag2 = (stats1, ag3)"
      using finish_chunk_indep [OF assms nb(2) start_chunk_pending [OF nb(1) s [unfolded Inr]]] by metis
    moreover have "no_branch ag3" using finish_chunk_adds [OF assms f] nb(2) no_branch_adds by blast
    ultimately show ?thesis using c s f Inr Cons.IH by simp
  qed (use c s in simp)
qed simp

lemma execute_tool_calls_indep:
  assumes "appends_events n1" "no_branch ag"
  shows "execute_tool_calls env n1 calls ag = execute_tool_calls env n2 calls ag"
proof -
  obtain c ag1 where c: "is_cancelled env ag = (c, ag1)" by (cases "is_cancelled env ag")
  have "no_branch ag1" using assms(2) act_quiet [OF c] no_branch_adds by blast
  then show ?thesis
    using c execute_sequentially_indep [OF assms(1), of ag1] execute_chunks_indep [OF assms(1), of ag1]
    by (simp add: execute_tool_calls_def Let_def)
qed

lemma run_turns_indep:
  assumes "appends_events n1"
  shows "no_branch ag \<Longrightarrow> run_turns env n1 start_index streaming json_mode left turn pending replans ag
     = run_turns env n2 start_index streaming json_mode left turn pending replans ag"
proof (induction left arbitrary: turn pending replans ag)
  case (Suc left)
  obtain c ag1 where c: "is_cancelled env ag = (c, ag1)" by (cases "is_cancelled env ag")
  obtain started ag2 where st: "act (ev_now_ms env) (emit env (TurnStart turn) ag1) = (started, ag2)"
    by (cases "act (ev_now_ms env) (emit env (TurnStart turn) ag1)")
  obtain r1 ag3 where resp: "turn_response env streaming json_mode ag2 = (r1, ag3)" by (cases "turn_response env streaming json_mode ag2")
  obtain now ag4 where nw: "act (ev_now_ms env) ag3 = (now, ag4)" by (cases "act (ev_now_ms env) ag3")
  have "no_branch ag2" using Suc.prems act_quiet [OF c] act_quiet [OF st] emit_quiet no_branch_adds by blast
  then have nb4: "no_branch ag4" using turn_response_adds [OF resp] act_quiet [OF nw] no_branch_adds by blast
  show ?case
  proof (cases r1)
    case (Inr response)
    let ?ag5 = "accumulate_usage_and_emit_cost_events env turn (rs_usage response) (add_message env (rs_message response) ag4)"
    have nb5: "no_branch ?ag5" using nb4 add_message_adds accumulate_quiet no_branch_adds by blast
    obtain r6 ag6 where x: "execute_tool_calls env n1 (tool_calls (rs_message response)) ?ag5 = (r6, ag6)"
      by (cases "execute_tool_calls env n1 (tool_calls (rs_message response)) ?ag5")
    then have x2: "execute_tool_calls env n2 (tool_calls (rs_message response)) ?ag5 = (r6, ag6)"
      using execute_tool_calls_indep [OF assms nb5] by metis
    have nb6: "no_branch ag6" using execute_tool_calls_adds [OF assms x] nb5 no_branch_adds by blast
    have replan: "no_branch (emit env e (add_message env m (emit env e' ?ag5)))" for e e' m
      using nb5 by simp
    have again: "no_branch (emit env e (ag6\<lparr>ag_skip_response_reason := None\<rparr>))" for e
      using nb6 by simp
    show ?thesis
      by (cases r6) (simp_all add: c st resp nw Inr x x2 Suc.IH [OF replan] Suc.IH [OF again] Let_def)
  qed (use c st resp in simp)
qed simp

lemma prompt_with_indep:
  assumes "appends_events n1" "no_branch ag"
  shows "prompt_with env n1 streaming json_mode text ag = prompt_with env n2 streaming json_mode text ag"
proof -
  obtain r ag1 where s: "sanitize_inbound_text env text ag = (r, ag1)" by (cases "sanitize_inbound_text env text ag")
  show ?thesis
  proof (cases r)
    case (Inr t)
    let ?ag2 = "add_message env (message_user t) ag1"
    obtain c ag3 where c: "is_cancelled env ?ag2 = (c, ag3)" by (cases "is_cancelled env ?ag2")
    have "no_branch (emit env AgentStart (ag3\<lparr>ag_skip_response_reason := None\<rparr>))"
      using no_branch_adds [OF act_quiet [OF c]] no_branch_adds [OF sanitize_inbound_quiet [OF s] assms(2)] by simp
    from run_turns_indep [OF assms(1) this] have
      "run_loop env n1 (length (ag_messages ag)) streaming json_mode ?ag2 = run_loop env n2 (length (ag_messages ag)) streaming json_mode ?ag2"
      using c by (simp add: run_loop_def)
    then show ?thesis using s Inr by (simp add: prompt_with_def run_and_compact_def)
  qed (use s in \<open>simp add: prompt_with_def\<close>)
qed

lemma worker_has_no_branch: "no_branch (worker_agent i ag)"
proof -
  have "''branch'' \<notin> fst ` set (filter (\<lambda>(name, _). name \<in> set (pp_tool_allowlist (profile_for_type WorkerProcess))) tools)"
    for tools :: "(string \<times> RegisteredTool) list" by auto
  then show ?thesis
    by (simp add: no_branch_def worker_agent_def apply_process_runtime_profile_def Let_def map_of_eq_None_iff)
qed

lemma nested_on_worker:
  "nested_prompt (Suc depth) env text (worker_agent i ag) = nested_prompt 1 env text (worker_agent i ag)"
  using prompt_with_indep [OF nested_prompt_appends worker_has_no_branch, of env depth]
  by simp

text \<open>Nested prompts that agree on workers give the same runs.\<close>

lemma followup_cong:
  assumes "\<And>text i a. n1 text (worker_agent i a) = n2 text (worker_agent i a)"
  shows "execute_branch_followup env n1 = execute_branch_followup env n2"
  by (intro ext) (simp only: execute_branch_followup_def Let_def assms)

lemma finish_tool_call_cong:
  assumes "execute_branch_followup env n1 = execute_branch_followup env n2"
  shows "finish_tool_call env n1 = finish_tool_call env n2"
  by (intro ext) (simp only: finish_tool_call_def maybe_execute_branch_followup_def assms)

lemma execute_tool_calls_cong:
  assumes "finish_tool_call env n1 = finish_tool_call env n2"
  shows "execute_tool_calls env n1 = execute_tool_calls env n2"
proof -
  have "execute_sequentially env n1 calls stats ag = execute_sequentially env n2 calls stats ag" for calls stats ag
    by (induction calls arbitrary: stats ag) (simp_all add: execute_tool_call_def Let_def assms split: prod.split)
  moreover have "finish_chunk env n1 pending slots stats ag = finish_chunk env n2 pending slots stats ag" for pending slots stats ag
    by (induction pending arbitrary: slots stats ag) (simp_all only: finish_chunk.simps split_paired_all assms)
  then have "execute_chunks env n1 cs stats ag = execute_chunks env n2 cs stats ag" for cs stats ag
    by (induction cs arbitrary: stats ag) (simp_all split: prod.split sum.split)
  ultimately show ?thesis by (intro ext) (simp only: execute_tool_calls_def)
qed

lemma run_turns_cong:
  assumes "execute_tool_calls env n1 = execute_tool_calls env n2"
  shows "run_turns env n1 start_index streaming json_mode left turn pending replans ag
     = run_turns env n2 start_index streaming json_mode left turn pending replans ag"
proof (induction left arbitrary: turn pending replans ag)
  case (Suc left)
  show ?case by (simp only: run_turns.simps assms Suc.IH)
qed simp

text \<open>C12. Two levels of nesting are all there is: however deep nested prompts are allowed to go, a prompt returns what it returns when
  the worker of a branch may not branch again, since a worker's profile leaves it no \<open>branch\<close> tool. So the
  recursion of prompts and branch follow-ups ends, and the bound in \<open>prompt_internal\<close> cuts nothing off.\<close>

theorem branches_do_not_nest:
  "prompt_with env (nested_prompt (Suc depth) env) streaming json_mode text ag = prompt_internal env text streaming json_mode ag"
proof -
  have "execute_branch_followup env (nested_prompt (Suc depth) env) = execute_branch_followup env (nested_prompt 1 env)"
    by (rule followup_cong) (rule nested_on_worker)
  note same = run_turns_cong [OF execute_tool_calls_cong [OF finish_tool_call_cong [OF this]]]
  show ?thesis by (simp only: prompt_internal_def prompt_with_def run_and_compact_def run_loop_def same)
qed

end
