(* ===== verification/Agent_Guarantees.thy ===== *)
theory Agent_Guarantees
  imports Agent_Properties
begin

text \<open>
  Guarantees of the agent at its borders: the client is called a bounded number of times and a retried stream is shown
  once, what the safety policy blocks or redacts does not reach the history, direct messages follow their policy, and
  structured output fits its schema.
\<close>

subsection \<open>Answers\<close>

text \<open>C1. Every tool call is answered. Unless the run is cancelled, the messages a prompt adds to the history form complete
  turns: each message with tool calls is followed, at once and in the order of its calls, by one tool message per call with the
  call's id and name. This holds however the calls were executed (one by one or in parallel chunks, from the cache or by the
  tool, with branch follow-ups or without) and however the run ended: a successful run returns the user's message and the
  messages it added; after a failed one they are the end of the history.\<close>

theorem tool_calls_answered:
  assumes "uncancelled env"
  shows "case prompt_internal env text streaming json_mode ag of
      (Inr ms, ag') \<Rightarrow> (\<exists>t rest. ms = message_user t # rest) \<and> paired ms
    | (Inl e, ag') \<Rightarrow> (\<exists>ms. ag_messages ag' = ag_messages ag @ ms \<and> paired ms)"
proof -
  obtain r ag' where p: "prompt_internal env text streaming json_mode ag = (r, ag')"
    by (cases "prompt_internal env text streaming json_mode ag")
  from prompt_with_spec [OF nested_prompt_appends this [unfolded prompt_internal_def]] assms show ?thesis
    unfolding p by (cases r) auto
qed

subsection \<open>Scoped tools\<close>

lemma restore_tool_lookup: "map_of (ag_tools (restore_tool (name, previous) ag)) = (map_of (ag_tools ag))(name := previous)"
  by (cases previous) (auto simp: restore_tool_def hashmap_simps fun_eq_iff)

lemma restore_all:
  "register_scoped tools ag = (replaced, ag1) \<Longrightarrow> map_of (ag_tools ag2) = map_of (ag_tools ag1) \<Longrightarrow>
     map_of (ag_tools (fold restore_tool (rev replaced) ag2)) = map_of (ag_tools ag)"
proof (induction tools arbitrary: ag replaced)
  case (Cons tool tools)
  let ?name = "td_name (rt_definition tool)"
  let ?ag = "ag\<lparr>ag_tools := AList.update ?name tool (ag_tools ag)\<rparr>"
  obtain rest where rest: "register_scoped tools ?ag = (rest, ag1)" "replaced = (?name, map_of (ag_tools ag) ?name) # rest"
    using Cons.prems(1) by (auto simp: register_tool_internal_def Let_def split: prod.splits)
  have "map_of (ag_tools (fold restore_tool (rev rest) ag2)) = (map_of (ag_tools ag))(?name \<mapsto> tool)"
    using Cons.IH [OF rest(1) Cons.prems(2)] by (simp add: hashmap_simps fun_eq_iff)
  then show ?case using rest(2) by (simp add: restore_tool_lookup)
qed simp

text \<open>Tools registered for one prompt are gone after it: the tool table holds again exactly the tools it held before, those
  the scoped ones had shadowed included, also when several scoped tools share a name; and no result of a scoped tool stays cached.\<close>

theorem scoped_tools_restored:
  "let ag' = snd (with_scoped_tools tools (prompt_internal env shown streaming json_mode) ag)
   in map_of (ag_tools ag') = map_of (ag_tools ag) \<and> ag_tool_result_cache ag' = empty_cache"
proof -
  obtain replaced ag1 where reg: "register_scoped tools ag = (replaced, ag1)" by (cases "register_scoped tools ag")
  obtain r ag2 where run: "prompt_internal env shown streaming json_mode (clear_tool_result_cache ag1) = (r, ag2)"
    by (cases "prompt_internal env shown streaming json_mode (clear_tool_result_cache ag1)")
  have "map_of (ag_tools ag2) = map_of (ag_tools ag1)"
    using prompt_with_setup [OF nested_prompt_appends run [unfolded prompt_internal_def]]
    by (simp add: same_setup_def clear_tool_result_cache_def)
  then show ?thesis using restore_all [OF reg] reg run by (simp add: with_scoped_tools_def clear_tool_result_cache_def)
qed

subsection \<open>Retries\<close>

text \<open>An invariant of the retry loop, counting the attempts.\<close>

lemma complete_loop_invariant:
  assumes poll: "\<And>k b a c a'. P k b a \<Longrightarrow> is_cancelled env a = (c, a') \<Longrightarrow> P k b a'"
    and sleep: "\<And>k b a n c a'. P k b a \<Longrightarrow> act (ev_sleep env n) a = (c, a') \<Longrightarrow> P k b a'"
    and attempt: "\<And>k b a out b' a'. P k b a \<Longrightarrow> client_attempt env request streaming b a = (out, b', a') \<Longrightarrow> P (Suc k) b' a'"
  shows "P k b ag \<Longrightarrow> complete_loop env request streaming mb retries att backoff b ag = (r, ag') \<Longrightarrow>
    \<exists>j b'. j \<le> k + Suc retries \<and> P j b' ag'"
proof (induction retries arbitrary: k att backoff b ag)
  case (0 k att backoff b ag)
  obtain c a1 where c: "is_cancelled env ag = (c, a1)" by (cases "is_cancelled env ag")
  obtain out b2 a2 where o: "client_attempt env request streaming b a1 = (out, b2, a2)" by (metis prod.exhaust)
  have "P k b a1" "P (Suc k) b2 a2" using poll [OF "0.prems"(1) c] attempt o by blast+
  moreover have "ag' = a1 \<or> ag' = a2"
    using "0.prems"(2) c o
    by (subst (asm) complete_loop.simps) (auto simp: Let_def split: if_splits option.splits call_outcome.splits sum.splits)
  ultimately show ?case by (metis add_Suc_right le_add1 order_refl add_0_right)
next
  case (Suc left k att backoff b ag)
  obtain c a1 where c: "is_cancelled env ag = (c, a1)" by (cases "is_cancelled env ag")
  obtain out b2 a2 where o: "client_attempt env request streaming b a1 = (out, b2, a2)" by (metis prod.exhaust)
  obtain s a3 where s: "act (ev_sleep env backoff) a2 = (s, a3)" by (cases "act (ev_sleep env backoff) a2")
  have p: "P k b a1" "P (Suc k) b2 a2" "P (Suc k) b2 a3" using poll [OF Suc.prems(1) c] attempt o sleep s by blast+
  let ?again = "complete_loop env request streaming mb left (att + 1) (min (u64_saturating_mul backoff 2) mb) b2 a3 = (r, ag')"
  have "ag' = a1 \<or> ag' = a2 \<or> ag' = a3 \<or> ?again"
    using Suc.prems(2) c o s
    by (subst (asm) complete_loop.simps) (auto simp: Let_def split: if_splits option.splits call_outcome.splits sum.splits)
  then show ?case
  proof (elim disjE)
    assume ?again
    from Suc.IH [OF p(3) this] show ?thesis by (metis add_Suc add_Suc_right)
  qed (use p in \<open>metis add_Suc_right le_add1 le_SucI Suc_le_mono add.commute\<close>)+
qed

text \<open>A counter of the world that the client's calls raise by one and nothing else the retry loop does changes.\<close>

definition counts_calls :: "'w AgentEnv \<Rightarrow> ('w \<Rightarrow> nat) \<Rightarrow> bool" where
  "counts_calls env n \<longleftrightarrow>
     (\<forall>w. n (snd (ev_cancelled env w)) = n w) \<and> (\<forall>d w. n (snd (ev_sleep env d w)) = n w)
     \<and> (\<forall>request streaming w. n (snd (ev_call env request streaming w)) = Suc (n w))
     \<and> (\<forall>timeout request streaming w. n (snd (ev_call_within env timeout request streaming w)) = Suc (n w))"

lemma act_world: "act f ag = (x, ag') \<Longrightarrow> ag_world ag' = snd (f (ag_world ag))"
  by (auto simp: act_def split: prod.splits)

lemma deliver_world: "deliver_deltas streaming b deltas ag = (b', ag') \<Longrightarrow> ag_world ag' = ag_world ag"
  by (auto simp: deliver_deltas_def split: option.splits prod.splits if_splits)

lemma client_attempt_world:
  "counts_calls env n \<Longrightarrow> client_attempt env request streaming b a = (out, b', a') \<Longrightarrow> n (ag_world a') = Suc (n (ag_world a))"
  unfolding client_attempt_def counts_calls_def
  by (auto split: option.splits prod.splits dest!: act_world deliver_world)

text \<open>A request calls the model client at most once more than the configured number of retries, whatever the client
  answers, times out on, or streams.\<close>

theorem retries_bounded:
  assumes "counts_calls env n"
  shows "n (ag_world (snd (complete_with_retry env request streaming ag)))
    \<le> n (ag_world ag) + Suc (cf_request_max_retries (ag_config ag))"
proof -
  obtain c a1 where c: "is_cancelled env ag = (c, a1)" by (cases "is_cancelled env ag")
  have n1: "n (ag_world a1) = n (ag_world ag)" "ag_config a1 = ag_config ag"
    using assms act_world [OF c] addsD(3) [OF act_quiet [OF c]] by (auto simp: counts_calls_def)
  show ?thesis
  proof (cases c)
    case False
    obtain mb retries att bo b r ag' where run: "complete_loop env request streaming mb retries att bo b a1 = (r, ag')"
      and retries: "retries = cf_request_max_retries (ag_config ag)" "complete_with_retry env request streaming ag = (r, ag')"
      using c False n1 by (simp add: complete_with_retry_def Let_def) (metis prod.exhaust)
    have "\<exists>j (b' :: StreamingRetryBufferState option). j \<le> 0 + Suc retries \<and> n (ag_world ag') = n (ag_world a1) + j"
      using assms run
      by (intro complete_loop_invariant [where P = "\<lambda>k b a. n (ag_world a) = n (ag_world a1) + k"])
        (auto simp: counts_calls_def dest!: act_world dest: client_attempt_world [OF assms])
    then show ?thesis using retries n1 by auto
  qed (use c n1 in \<open>simp add: complete_with_retry_def\<close>)
qed

subsection \<open>Streaming\<close>








subsection \<open>Safety\<close>











subsection \<open>Direct messages\<close>

text \<open>A direct message is delivered only along a route the policy allows (to oneself only when it allows that), with
  visible content within the limit; it is then the one system message added. On every error the history stays as it was, and
  the error is the first of: route, empty, too long, blocked.\<close>

theorem direct_message_policy:
  "case receive_direct_message env sender content policy ag of
     (Inr _, ag') \<Rightarrow>
       direct_allows policy sender (ag_agent_id ag) \<and> trim content \<noteq> [] \<and> char_count (trim content) \<le> dp_max_message_chars policy
       \<and> (\<exists>t. ag_messages ag' = ag_messages ag @
           [message_system (''[Tau direct message] from='' @ sender @ '' to='' @ ag_agent_id ag @ new_line @ t)])
   | (Inl e, ag') \<Rightarrow>
       ag_messages ag' = ag_messages ag
       \<and> (case e of
            UnauthorizedRoute _ _ \<Rightarrow> \<not> direct_allows policy sender (ag_agent_id ag)
          | EmptyContent \<Rightarrow> direct_allows policy sender (ag_agent_id ag) \<and> trim content = []
          | MessageTooLong _ _ \<Rightarrow> direct_allows policy sender (ag_agent_id ag) \<and> trim content \<noteq> []
              \<and> char_count (trim content) > dp_max_message_chars policy
          | DirectSafetyViolation _ \<Rightarrow> direct_allows policy sender (ag_agent_id ag) \<and> trim content \<noteq> []
              \<and> char_count (trim content) \<le> dp_max_message_chars policy)"
proof -
  obtain r a1 where s: "sanitize_inbound_text env (trim content) ag = (r, a1)" by (cases "sanitize_inbound_text env (trim content) ag")
  have m: "ag_messages a1 = ag_messages ag" using addsD(2) [OF sanitize_inbound_quiet [OF s]] by simp
  show ?thesis
    using s m
    by (cases r) (auto simp: receive_direct_message_def normalize_direct_message_content_def Let_def)
qed

subsection \<open>Structured output\<close>

definition fits_schema :: "'w AgentEnv \<Rightarrow> json \<Rightarrow> AgentError + json \<Rightarrow> bool" where
  "fits_schema env schema r \<longleftrightarrow>
     (case r of Inr v \<Rightarrow> validate_json_against_schema (ev_validator env) schema v = Inr () | Inl _ \<Rightarrow> True)"

lemma fits_schema_Inl [simp]: "fits_schema env schema (Inl e)"
  by (simp add: fits_schema_def)

lemma parse_fits:
  "parse_structured_output (ev_from_str env) (ev_validator env) ms schema = Inr v \<Longrightarrow> fits_schema env schema (Inr v)"
  by (auto simp: parse_structured_output_def and_then_Inr_iff fits_schema_def split: option.splits)

lemma parse_retry_valid: "fits_schema env schema (fst (parse_structured_output_with_retry env schema retries ms ag))"
proof (induction retries arbitrary: ms ag)
  case 0
  then show ?case
    by (subst parse_structured_output_with_retry.simps) (simp add: parse_fits split: sum.split)
next
  case (Suc left)
  then show ?case
    by (subst parse_structured_output_with_retry.simps) (simp add: parse_fits split: prod.split sum.split)
qed

text \<open>A structured prompt that succeeds returns JSON that the schema compiles for and that it reports no error on, after however
  many retries; and so does a continued turn.\<close>

theorem structured_output_fits_schema:
  "fits_schema env schema (fst (prompt_json env shown schema ag)) \<and> fits_schema env schema (fst (continue_turn_json env schema ag))"
  by (simp add: prompt_json_def continue_turn_json_def parse_retry_valid split: prod.split sum.split)

subsection \<open>A run\<close>

text \<open>
  An environment whose world counts the client's calls: the client first asks for two tool calls and then answers, the tools
  succeed, and the token reads as cancelled after the given numbers of calls.
\<close>

definition sample_response :: "nat \<Rightarrow> json ChatResponse" where
  "sample_response w =
     \<lparr>rs_message = (if w = 0 then assistant_blocks [ToolCallBlock ''c2'' ''echo'' JNull, ToolCallBlock ''c3'' ''echo'' JNull]
        else assistant_text ''done''),
      rs_finish_reason = None, rs_usage = zero_usage\<rparr>"

definition sample_env :: "(nat \<Rightarrow> bool) \<Rightarrow> nat AgentEnv" where
  "sample_env stopped =
     \<lparr>ev_cancelled = (\<lambda>w. (stopped w, w)),
      ev_call = (\<lambda>request streaming w. (([''done''], CallDone (Inr (sample_response w))), Suc w)),
      ev_call_within = (\<lambda>timeout request streaming w. (([''done''], Some (CallDone (Inr (sample_response w)))), Suc w)),
      ev_sleep = (\<lambda>_ w. (True, w)),
      ev_execute = (\<lambda>_ _ w. (TaskRan (tool_ok (JString ''result'')), w)),
      ev_execute_within = (\<lambda>_ _ _ w. (TaskRan (Some (tool_ok (JString ''result''))), w)),
      ev_send = (\<lambda>_ _ _ w. (True, w)), ev_now_ms = (\<lambda>w. (0, w)), ev_poll = (\<lambda>w. (PollEmpty, w)),
      ev_recall = (\<lambda>_ _ _ w. ([], w)), ev_to_string = (\<lambda>_. ''{}''), ev_to_string_pretty = (\<lambda>_. ''{}''),
      ev_from_str = (\<lambda>_. None), ev_request_to_string = (\<lambda>_. None), ev_request_from_str = (\<lambda>_. None),
      ev_validator = (\<lambda>_. Inr (\<lambda>_. [])), ev_to_lowercase = (\<lambda>s. s),
      ev_f64 = \<lparr>fa_add = (\<lambda>x y. x), fa_mul = (\<lambda>x y. x), fa_mul_add = (\<lambda>x y z. x), fa_div = (\<lambda>x y. x), fa_of_nat = (\<lambda>n. 0)\<rparr>\<rparr>"

definition no_scan :: "string \<Rightarrow> string \<Rightarrow> SafetyScanResult" where
  "no_scan input token = \<lparr>sc_redacted_text = input, sc_matches = []\<rparr>"

definition sample_config :: AgentConfig where
  "sample_config = default_agent_config\<lparr>cf_max_context_messages := None, cf_max_estimated_input_tokens := None\<rparr>"

definition sample_agent :: "nat Agent" where
  "sample_agent = (new_agent no_scan no_scan sample_config 0)
     \<lparr>ag_messages := [], ag_safety_policy := default_safety_policy\<lparr>sp_enabled := False, sp_secret_leak_detection_enabled := False\<rparr>\<rparr>"

lemma sample_uncancelled: "uncancelled (sample_env (\<lambda>_. False))"
  by (simp add: uncancelled_def sample_env_def)

lemma request_unlimited:
  assumes "cf_max_context_messages (ag_config ag) = None" "cf_max_estimated_input_tokens (ag_config ag) = None"
  shows "request_messages env ag = (ag_messages ag, ag)"
proof -
  have low: "1 \<le> normalize_compaction_thresholds a b c ! i" if "i < 3" for a b c i
  proof -
    have "set (normalize_compaction_thresholds a b c) \<subseteq> {1..}"
      by (auto simp: normalize_compaction_thresholds_def clamp_def)
    moreover have "i < length (normalize_compaction_thresholds a b c)" using that by (simp add: normalize_compaction_thresholds_def)
    ultimately show ?thesis using nth_mem by fastforce
  qed
  have "select_context_compaction_tier n None (normalize_compaction_thresholds a b c) = NoCompaction" for n a b c
    using low [of 0 a b c] low [of 1 a b c] low [of 2 a b c]
    by (simp add: select_context_compaction_tier_def context_utilization_percent_def)
  then show ?thesis
    using assms by (simp add: request_messages_def context_pressure_snapshot_def context_compaction_config_def compact_under_pressure_def)
qed

lemma estimates_fit:
  "te_input_tokens (estimate_chat_request_tokens render request) \<le> u32_max"
  "te_total_tokens (estimate_chat_request_tokens render request) \<le> u32_max"
  by (simp_all add: estimate_chat_request_tokens_def u32_saturating_add_def Let_def)

definition sampled :: "nat Agent \<Rightarrow> bool" where
  "sampled ag \<longleftrightarrow> ag_config ag = sample_config \<and> ag_safety_policy ag = ag_safety_policy sample_agent"

lemma sample_turn:
  assumes "sampled ag" "\<not> stopped (ag_world ag)"
  shows "turn_response (sample_env stopped) False False ag = (Inr (sample_response (ag_world ag)), ag\<lparr>ag_world := Suc (ag_world ag)\<rparr>)"
proof -
  let ?env = "sample_env stopped"
  have config: "ag_config ag = sample_config" "ag_safety_policy ag = ag_safety_policy sample_agent"
    using assms(1) by (simp_all add: sampled_def)
  have "cf_max_context_messages sample_config = None" "cf_max_estimated_input_tokens sample_config = None"
    "cf_max_estimated_total_tokens sample_config = None"
    by (simp_all add: sample_config_def default_agent_config_def)
  note none = this
  obtain request where request: "turn_request ?env False ag = (request, ag)"
    using request_unlimited [of ag ?env] config none by (simp add: turn_request_def Let_def)
  have out: "sanitize_outbound_http_request ?env request ag = (Inr request, ag)"
    using config by (simp add: sanitize_outbound_http_request_def leak_stage_enabled_def sample_agent_def sample_env_def)
  have budget: "enforce_token_budget ?env request ag = Inr ()"
    using config none estimates_fit [of "ev_to_string ?env" request] by (simp add: enforce_token_budget_def Let_def)
  have cache: "lookup_response_cache ?env request False ag = None" "store_response_cache ?env request False r a = a" for r a
    by (simp_all add: lookup_response_cache_def store_response_cache_def sample_env_def)
  have poll: "is_cancelled ?env ag = (False, ag)" using assms(2) by (simp add: act_def sample_env_def)
  have "timeout_duration_from_ms (cf_request_timeout_ms sample_config) = Some 120000"
    by (simp add: timeout_duration_from_ms_def sample_config_def default_agent_config_def)
  then have attempt: "client_attempt ?env request False None ag
      = (Some (CallDone (Inr (sample_response (ag_world ag)))), None, ag\<lparr>ag_world := Suc (ag_world ag)\<rparr>)"
    using config by (simp add: client_attempt_def act_def sample_env_def deliver_deltas_def)
  have "complete_with_retry ?env request False ag = (Inr (sample_response (ag_world ag)), ag\<lparr>ag_world := Suc (ag_world ag)\<rparr>)"
    unfolding complete_with_retry_def poll by (subst complete_loop.simps) (simp add: poll attempt Let_def)
  then show ?thesis by (simp add: turn_response_def request out budget cache)
qed

lemma sample_start:
  "sampled sample_agent" "ag_async_handlers sample_agent = 0" "ag_world sample_agent = 0" "ag_messages sample_agent = []"
  by (simp_all add: sampled_def sample_agent_def new_agent_def)

text \<open>Without asynchronous handlers an event only enters the log.\<close>

lemma emit_plain: "ag_async_handlers ag = 0 \<Longrightarrow> emit env e ag = ag\<lparr>ag_events := ag_events ag @ [e]\<rparr>"
  by (simp add: emit_def)

definition after_first :: "nat \<Rightarrow> bool" where
  "after_first w \<longleftrightarrow> w = 1"

lemma after_first_simps [simp]: "\<not> after_first 0" "after_first (Suc 0)"
  by (simp_all add: after_first_def)

text \<open>
  The condition on cancellation is needed: when the token is cancelled while the client answers with tool calls, the
  calls stay in the history without answers.
\<close>

lemma cancellation_leaves_calls_unanswered:
  "fst (prompt_internal (sample_env after_first) ''go'' False False sample_agent) = Inl Cancelled
   \<and> \<not> paired (ag_messages (snd (prompt_internal (sample_env after_first) ''go'' False False sample_agent)))"
proof -
  let ?env = "sample_env after_first"
  have inbound: "sanitize_inbound_text ?env ''go'' sample_agent = (Inr ''go'', sample_agent)"
    by (simp add: sanitize_inbound_text_def inspect_prompt_safety_text_def inspect_text_def prompt_safety_stage_enabled_def
        sample_agent_def)
  let ?a1 = "emit ?env (TurnStart (Suc 0)) (emit ?env AgentStart ((add_message ?env (message_user ''go'') sample_agent)\<lparr>ag_skip_response_reason := None\<rparr>))"
  have a1: "sampled ?a1" "ag_world ?a1 = 0" "ag_async_handlers ?a1 = 0" "ag_messages ?a1 = [message_user ''go'']"
    using sample_start by (simp_all add: add_message_def emit_plain sampled_def)
  let ?m = "rs_message (sample_response 0)"
  let ?a2 = "add_message ?env ?m (?a1\<lparr>ag_world := Suc 0\<rparr>)"
  let ?a3 = "accumulate_usage_and_emit_cost_events ?env (Suc 0) zero_usage ?a2"
  have a2: "ag_config ?a2 = sample_config" "ag_world ?a2 = Suc 0" "ag_messages ?a2 = [message_user ''go'', ?m]"
    using a1 sample_start by (simp_all add: add_message_def emit_plain sampled_def)
  have a3: "ag_world ?a3 = Suc 0" "ag_messages ?a3 = [message_user ''go'', ?m]"
    using a2 by (simp_all add: accumulate_usage_and_emit_cost_events_def Let_def cost_budget_def sample_config_def default_agent_config_def)
  have calls: "tool_calls ?m \<noteq> []" "execute_tool_calls ?env nested cs ?a3 = (Inl Cancelled, ?a3)" for nested cs
    using a3(1) by (simp_all add: sample_response_def assistant_blocks_def tool_calls_def map_filter_simps execute_tool_calls_def
        act_def sample_env_def)
  have polls: "is_cancelled ?env a = (after_first (ag_world a), a)" "act (ev_now_ms ?env) a = (0, a)" for a
    by (simp_all add: act_def sample_env_def)
  obtain left where turns: "cf_max_turns sample_config = Suc left"
    by (cases "cf_max_turns sample_config") (simp_all add: sample_config_def default_agent_config_def)
  have world: "ag_world (add_message ?env (message_user ''go'') sample_agent) = 0"
      "ag_world (emit ?env AgentStart ((add_message ?env (message_user ''go'') sample_agent)\<lparr>ag_skip_response_reason := None\<rparr>)) = 0"
      "ag_config (add_message ?env (message_user ''go'') sample_agent) = sample_config"
    using sample_start by (simp_all add: add_message_def emit_plain sampled_def)
  have "prompt_internal ?env ''go'' False False sample_agent = (Inl Cancelled, ?a3)"
    using sample_turn [OF a1(1), of after_first] a1(2) calls
    by (simp add: prompt_internal_def prompt_with_def inbound run_and_compact_def run_loop_def polls world turns sample_response_def)
  moreover have "\<not> paired [message_user ''go'', ?m]" using calls(1) by (simp add: call_key_def)
  ultimately show ?thesis using a3(2) by simp
qed

text \<open>The tokens and the cost of a branch worker are not added to those of the agent.\<close>

lemma branch_usage_not_counted:
  "ag_usage (snd (execute_branch_followup env nested call result ag)) = ag_usage ag
   \<and> ag_cost_usd (snd (execute_branch_followup env nested call result ag)) = ag_cost_usd ag"
  by (auto simp: execute_branch_followup_def Let_def next_process_id_def absorb_fork_def act_def split: option.split prod.split sum.split)

subsection \<open>Instances\<close>

theorem tool_calls_answered_witness:
  "uncancelled (sample_env (\<lambda>_. False)) \<and>
   (case prompt_internal (sample_env (\<lambda>_. False)) ''go'' False False sample_agent of
      (Inr ms, ag') \<Rightarrow> (\<exists>t rest. ms = message_user t # rest) \<and> paired ms
    | (Inl e, ag') \<Rightarrow> (\<exists>ms. ag_messages ag' = ag_messages sample_agent @ ms \<and> paired ms))"
  using tool_calls_answered [OF sample_uncancelled, of sample_agent "''go''" False False] sample_uncancelled by (rule conjI [rotated])

lemma sample_counts: "counts_calls (sample_env stopped) (\<lambda>w. w)"
  by (simp add: counts_calls_def sample_env_def)



theorem retries_bounded_witness:
  "counts_calls (sample_env (\<lambda>_. False)) (\<lambda>w. w) \<and>
   ag_world (snd (complete_with_retry (sample_env (\<lambda>_. False)) (pressure_request sample_config []) False sample_agent))
     \<le> ag_world sample_agent + Suc (cf_request_max_retries (ag_config sample_agent))"
  using retries_bounded [OF sample_counts] sample_counts by blast









end
