(* ===== verification/Provider_Types.thy ===== *)
theory Provider_Types
  imports Ai_Types Json_Value "HOL-Library.Word"
begin

text \<open>
  Providers and model references (\<open>crates/tau-ai/src/provider.rs\<close>) and what the provider clients share for
  retrying requests (\<open>crates/tau-ai/src/retry.rs\<close>). The jitter counter is a 64-bit word: it wraps around.
\<close>

subsection \<open>Providers and model references\<close>

datatype Provider = OpenAi | OpenRouter | Anthropic | Google

fun provider_as_str :: "Provider \<Rightarrow> string" where
  "provider_as_str OpenAi = ''openai''"
| "provider_as_str OpenRouter = ''openrouter''"
| "provider_as_str Anthropic = ''anthropic''"
| "provider_as_str Google = ''google''"

datatype ModelRefParseError = MissingModel | UnsupportedProvider string

definition apostrophe :: string where "apostrophe = [CHR 0x27]"

fun display_parse_error :: "ModelRefParseError \<Rightarrow> string" where
  "display_parse_error MissingModel = ''missing model identifier''"
| "display_parse_error (UnsupportedProvider p) =
     ''unsupported provider '' @ apostrophe @ p @ apostrophe @ ''. Supported providers: openai, openrouter, deepseek (alias), groq (alias), xai (alias), mistral (alias), azure/azure-openai (alias), anthropic, google''"

definition provider_from_str :: "string \<Rightarrow> ModelRefParseError + Provider" where
  "provider_from_str v =
     (let normalized = to_ascii_lowercase (trim v) in
      if normalized \<in> {''openai'', ''deepseek'', ''groq'', ''xai'', ''mistral'', ''azure'', ''azure-openai''} then Inr OpenAi
      else if normalized = ''openrouter'' then Inr OpenRouter
      else if normalized = ''anthropic'' then Inr Anthropic
      else if normalized \<in> {''google'', ''gemini''} then Inr Google
      else Inl (UnsupportedProvider v))"

record ModelRef =
  mr_provider :: Provider
  mr_model :: string

definition parse_model_ref :: "string \<Rightarrow> ModelRefParseError + ModelRef" where
  "parse_model_ref input =
     (let trimmed = trim input in
      if trimmed = [] then Inl MissingModel
      else case split_once (CHR ''/'') trimmed of
        Some (provider, model) \<Rightarrow>
          (if trim model = [] then Inl MissingModel
           else and_then (provider_from_str provider) (\<lambda>p. Inr \<lparr>mr_provider = p, mr_model = trim model\<rparr>))
      | None \<Rightarrow> Inr \<lparr>mr_provider = OpenAi, mr_model = trimmed\<rparr>)"

subsection \<open>Retrying a request\<close>

abbreviation BASE_BACKOFF_MS :: nat where "BASE_BACKOFF_MS \<equiv> 200"

definition should_retry_status :: "nat \<Rightarrow> bool" where
  "should_retry_status status \<longleftrightarrow> status = 408 \<or> status = 409 \<or> status = 425 \<or> status = 429 \<or> status \<ge> 500"

definition next_backoff_ms :: "nat \<Rightarrow> nat" where
  "next_backoff_ms attempt = u64_saturating_mul BASE_BACKOFF_MS (2 ^ min attempt 6)"

text \<open>\<open>seed.wrapping_mul(0x9E37_79B9_7F4A_7C15).rotate_left(17) ^ 0xA24B_AED4_963E_E407\<close>.\<close>

definition mix_seed :: "64 word \<Rightarrow> 64 word" where
  "mix_seed seed = xor (word_rotl 17 (seed * 0x9E3779B97F4A7C15)) 0xA24BAED4963EE407"

text \<open>The counter is returned as the call leaves it: it moves only when jitter is drawn.\<close>

definition next_backoff_ms_with_jitter :: "nat \<Rightarrow> bool \<Rightarrow> 64 word \<Rightarrow> nat \<times> 64 word" where
  "next_backoff_ms_with_jitter attempt jitter_enabled counter =
     (let base = next_backoff_ms attempt in
      if \<not> jitter_enabled \<or> base \<le> 1 then (base, counter)
      else let low = base div 2; width = base - low;
               jitter = (if width = 0 then 0 else unat (mix_seed counter) mod u64_saturating_add width 1)
           in (u64_saturating_add low jitter, counter + 1))"

text \<open>
  The value of the header as text, if it has one, and the milliseconds from now to the date it names, if it is an
  RFC 2822 date.
\<close>

definition parse_retry_after_ms :: "(string \<Rightarrow> int option) \<Rightarrow> string option \<Rightarrow> nat option" where
  "parse_retry_after_ms ms_until header =
     (case header of
        None \<Rightarrow> None
      | Some v \<Rightarrow>
          (let raw = trim v in
           if raw = [] then None
           else case parse_u64 raw of
             Some seconds \<Rightarrow> Some (u64_saturating_mul seconds 1000)
           | None \<Rightarrow>
               (case ms_until raw of
                  None \<Rightarrow> None
                | Some delay_ms \<Rightarrow> if delay_ms \<le> 0 then Some 0 else Some (nat delay_ms))))"

definition provider_retry_delay_ms :: "nat \<Rightarrow> bool \<Rightarrow> nat option \<Rightarrow> 64 word \<Rightarrow> nat \<times> 64 word" where
  "provider_retry_delay_ms attempt jitter_enabled retry_after_ms counter =
     (case next_backoff_ms_with_jitter attempt jitter_enabled counter of (backoff_ms, counter) \<Rightarrow>
        (case retry_after_ms of Some ms \<Rightarrow> max backoff_ms ms | None \<Rightarrow> backoff_ms, counter))"

definition retry_budget_allows_delay :: "nat \<Rightarrow> nat \<Rightarrow> nat \<Rightarrow> bool" where
  "retry_budget_allows_delay elapsed_ms delay_ms retry_budget_ms \<longleftrightarrow>
     retry_budget_ms = 0 \<or> u64_saturating_add elapsed_ms delay_ms \<le> retry_budget_ms"

text \<open>A \<open>reqwest\<close> error as the code inspects it: timeout, connect, request, body.\<close>

type_synonym reqwest_error = "bool \<times> bool \<times> bool \<times> bool"

fun is_retryable_http_error :: "reqwest_error \<Rightarrow> bool" where
  "is_retryable_http_error (is_timeout, is_connect, is_request, is_body) \<longleftrightarrow> is_timeout \<or> is_connect \<or> is_request \<or> is_body"

fun http_error :: "reqwest_error \<Rightarrow> TauAiError" where
  "http_error (is_timeout, is_connect, is_request, is_body) = HttpError is_timeout is_connect is_request is_body"

subsection \<open>Properties\<close>

lemma provider_from_as_str: "provider_from_str (provider_as_str p) = Inr p"
proof (cases p)
  case OpenAi
  show ?thesis unfolding OpenAi by code_simp
next
  case OpenRouter
  show ?thesis unfolding OpenRouter by code_simp
next
  case Anthropic
  show ?thesis unfolding Anthropic by code_simp
next
  case Google
  show ?thesis unfolding Google by code_simp
qed

lemma provider_str_visible:
  "provider_as_str p \<noteq> []" "CHR ''/'' \<notin> set (provider_as_str p)" "(of_char (hd (provider_as_str p)) :: nat) \<in> {33..126}"
  by (cases p; simp)+

text \<open>A model reference printed as \<open>provider/model\<close> parses back to itself, whatever slashes the model's name has.\<close>

theorem model_ref_roundtrip:
  assumes "trim model = model" "model \<noteq> []"
  shows "parse_model_ref (provider_as_str p @ ''/'' @ model) = Inr \<lparr>mr_provider = p, mr_model = model\<rparr>"
proof -
  have "trim ((provider_as_str p @ ''/'') @ model) = (provider_as_str p @ ''/'') @ model"
    by (rule trim_label) (use assms provider_str_visible [of p] in simp_all)
  then show ?thesis
    using assms by (simp add: parse_model_ref_def split_once_append provider_str_visible provider_from_as_str and_then_def)
qed

theorem model_ref_roundtrip_witness:
  "parse_model_ref (provider_as_str OpenRouter @ ''/'' @ ''openai/gpt-4o'')
     = Inr \<lparr>mr_provider = OpenRouter, mr_model = ''openai/gpt-4o''\<rparr>"
  by (rule model_ref_roundtrip) code_simp+

lemma next_backoff_bounds: "BASE_BACKOFF_MS \<le> next_backoff_ms attempt" "next_backoff_ms attempt \<le> 12800"
proof -
  have p: "(1::nat) \<le> 2 ^ min attempt 6" "(2::nat) ^ min attempt 6 \<le> 2 ^ 6"
    by (simp, rule power_increasing) simp_all
  then have "200 * (2::nat) ^ min attempt 6 \<le> 12800" by simp
  with p(1) show "BASE_BACKOFF_MS \<le> next_backoff_ms attempt" "next_backoff_ms attempt \<le> 12800"
    by (simp_all add: next_backoff_ms_def u64_saturating_mul_def)
qed

lemma jitter_bounds:
  "next_backoff_ms attempt div 2 \<le> fst (next_backoff_ms_with_jitter attempt jitter counter)
   \<and> fst (next_backoff_ms_with_jitter attempt jitter counter) \<le> next_backoff_ms attempt"
proof -
  let ?b = "next_backoff_ms attempt"
  have b: "200 \<le> ?b" "?b \<le> 12800" using next_backoff_bounds by auto
  then have w: "\<not> ?b \<le> ?b div 2" by linarith
  define r where "r = unat (mix_seed counter) mod u64_saturating_add (?b - ?b div 2) 1"
  have "r \<le> ?b - ?b div 2"
    using b mod_less_divisor [of "?b - ?b div 2 + 1" "unat (mix_seed counter)"]
    by (simp add: r_def u64_saturating_add_def)
  then have "u64_saturating_add (?b div 2) r = ?b div 2 + r" "?b div 2 + r \<le> ?b"
    using b by (simp_all add: u64_saturating_add_def)
  then show ?thesis
    using b w by (simp add: next_backoff_ms_with_jitter_def Let_def r_def)
qed

text \<open>
  The delay before a retry is at least the one the server asked for, at least half of the exponential
  backoff (100 ms or more), and at most the larger of the server's and 12.8 s, whatever the state of the jitter counter.
\<close>

theorem retry_delay_bounds:
  "(case retry_after of Some ms \<Rightarrow> ms | None \<Rightarrow> 0) \<le> fst (provider_retry_delay_ms attempt jitter retry_after counter)
   \<and> next_backoff_ms attempt div 2 \<le> fst (provider_retry_delay_ms attempt jitter retry_after counter)
   \<and> 100 \<le> fst (provider_retry_delay_ms attempt jitter retry_after counter)
   \<and> fst (provider_retry_delay_ms attempt jitter retry_after counter)
       \<le> max (case retry_after of Some ms \<Rightarrow> ms | None \<Rightarrow> 0) 12800"
  using jitter_bounds [of attempt jitter counter] next_backoff_bounds [of attempt]
  by (cases "next_backoff_ms_with_jitter attempt jitter counter")
    (auto simp: provider_retry_delay_ms_def split: option.splits)

end
