(* ===== verification/Provider_Fallback.thy ===== *)
theory Provider_Fallback
  imports Provider_Types
begin

text \<open>
  The client that routes a request over several providers (\<open>crates/tau-provider/src/fallback.rs\<close>): the circuit
  breaker of every route, the loop over the routes, and how the routes are resolved from the configuration.

  A client answers with the deltas it streamed and its result, in a world of its own; the fallback client is a
  client over the world of its routes together with its circuits and the events it emitted. The lock on the circuits
  is held by one operation on them at a time, so calls that overlap interleave the operations of \<open>circuit_op\<close>.
\<close>

type_synonym 'w llm_client = "json ChatRequest \<Rightarrow> bool \<Rightarrow> 'w \<Rightarrow> (string list \<times> (TauAiError + json ChatResponse)) \<times> 'w"

subsection \<open>Data\<close>

record CircuitBreakerConfig =
  cb_enabled :: bool
  cb_failure_threshold :: nat
  cb_cooldown_ms :: nat

definition default_circuit_breaker :: CircuitBreakerConfig where
  "default_circuit_breaker = \<lparr>cb_enabled = True, cb_failure_threshold = 3, cb_cooldown_ms = 30000\<rparr>"

record RouteCircuitState =
  ci_consecutive_failures :: nat
  ci_open_until_unix_ms :: "nat option"

definition closed_circuit :: RouteCircuitState where
  "closed_circuit = \<lparr>ci_consecutive_failures = 0, ci_open_until_unix_ms = None\<rparr>"

record 'w ClientRoute =
  cl_provider :: Provider
  cl_model :: string
  cl_client :: "'w llm_client"

definition model_ref :: "'w ClientRoute \<Rightarrow> string" where
  "model_ref route = provider_as_str (cl_provider route) @ ''/'' @ cl_model route"

record 'w FallbackRoutingClient =
  fb_routes :: "'w ClientRoute list"
  fb_event_sink :: bool
  fb_circuit_breaker :: CircuitBreakerConfig
  fb_clock :: "'w \<Rightarrow> nat \<times> 'w"

record 'w FallbackState =
  fs_circuits :: "RouteCircuitState list"
  fs_events :: "json list"
  fs_world :: 'w

definition new_fallback_state :: "'w FallbackRoutingClient \<Rightarrow> 'w \<Rightarrow> 'w FallbackState" where
  "new_fallback_state fb w =
     \<lparr>fs_circuits = replicate (length (fb_routes fb)) closed_circuit, fs_events = [], fs_world = w\<rparr>"

subsection \<open>Errors\<close>

fun is_retryable_provider_error :: "TauAiError \<Rightarrow> bool" where
  "is_retryable_provider_error (HttpStatus status _) \<longleftrightarrow> should_retry_status status"
| "is_retryable_provider_error (HttpError is_timeout is_connect is_request is_body) \<longleftrightarrow> is_timeout \<or> is_connect \<or> is_request \<or> is_body"
| "is_retryable_provider_error MissingApiKey \<longleftrightarrow> False"
| "is_retryable_provider_error SerdeError \<longleftrightarrow> False"
| "is_retryable_provider_error (InvalidResponse _) \<longleftrightarrow> False"

fun fallback_error_metadata :: "TauAiError \<Rightarrow> string \<times> nat option" where
  "fallback_error_metadata (HttpStatus status _) = (''http_status'', Some status)"
| "fallback_error_metadata (HttpError is_timeout is_connect is_request is_body) =
     (if is_timeout then ''http_timeout'' else if is_connect then ''http_connect''
      else if is_request then ''http_request'' else if is_body then ''http_body'' else ''http_other'', None)"
| "fallback_error_metadata MissingApiKey = (''missing_api_key'', None)"
| "fallback_error_metadata SerdeError = (''serde'', None)"
| "fallback_error_metadata (InvalidResponse _) = (''invalid_response'', None)"

subsection \<open>Events\<close>

definition emit_json :: "'w FallbackRoutingClient \<Rightarrow> (string \<times> json) list \<Rightarrow> 'w FallbackState \<Rightarrow> 'w FallbackState" where
  "emit_json fb members st = (if fb_event_sink fb then st\<lparr>fs_events := fs_events st @ [json_object members]\<rparr> else st)"

abbreviation json_nat :: "nat \<Rightarrow> json" where "json_nat n \<equiv> JInt (int n)"

definition emit_fallback_event ::
  "'w FallbackRoutingClient \<Rightarrow> 'w ClientRoute \<Rightarrow> 'w ClientRoute \<Rightarrow> TauAiError \<Rightarrow> nat \<Rightarrow> 'w FallbackState \<Rightarrow> 'w FallbackState" where
  "emit_fallback_event fb from_route to_route error fallback_index =
     (case fallback_error_metadata error of (error_kind, status) \<Rightarrow>
      emit_json fb [(''type'', JString ''provider_fallback''), (''from_model'', JString (model_ref from_route)),
        (''to_model'', JString (model_ref to_route)), (''error_kind'', JString error_kind),
        (''status'', case status of Some s \<Rightarrow> json_nat s | None \<Rightarrow> JNull), (''fallback_index'', json_nat fallback_index)])"

definition emit_circuit_opened_event ::
  "'w FallbackRoutingClient \<Rightarrow> 'w ClientRoute \<Rightarrow> nat \<Rightarrow> nat \<Rightarrow> 'w FallbackState \<Rightarrow> 'w FallbackState" where
  "emit_circuit_opened_event fb route route_index opened_until =
     emit_json fb [(''type'', JString ''provider_circuit_opened''), (''model'', JString (model_ref route)),
       (''route_index'', json_nat route_index),
       (''failure_threshold'', json_nat (cb_failure_threshold (fb_circuit_breaker fb))),
       (''cooldown_ms'', json_nat (cb_cooldown_ms (fb_circuit_breaker fb))), (''open_until_unix_ms'', json_nat opened_until)]"

definition emit_circuit_skip_event ::
  "'w FallbackRoutingClient \<Rightarrow> 'w ClientRoute \<Rightarrow> nat \<Rightarrow> nat \<Rightarrow> 'w FallbackState \<Rightarrow> 'w FallbackState" where
  "emit_circuit_skip_event fb route route_index open_until =
     emit_json fb [(''type'', JString ''provider_circuit_skip''), (''model'', JString (model_ref route)),
       (''route_index'', json_nat route_index), (''open_until_unix_ms'', json_nat open_until)]"

subsection \<open>The circuit of a route\<close>

text \<open>Each operation locks the circuits, and answers with them as it leaves them.\<close>

definition route_open_until :: "CircuitBreakerConfig \<Rightarrow> nat \<Rightarrow> nat \<Rightarrow> RouteCircuitState list \<Rightarrow> nat option \<times> RouteCircuitState list" where
  "route_open_until cb route_index now_unix_ms circuits =
     (if \<not> cb_enabled cb then (None, circuits)
      else if \<not> route_index < length circuits then (None, circuits)
      else case ci_open_until_unix_ms (circuits ! route_index) of
        None \<Rightarrow> (None, circuits)
      | Some open_until \<Rightarrow>
          if now_unix_ms < open_until then (Some open_until, circuits)
          else (None, circuits[route_index := closed_circuit]))"

definition record_route_success :: "nat \<Rightarrow> RouteCircuitState list \<Rightarrow> RouteCircuitState list" where
  "record_route_success route_index circuits =
     (if \<not> route_index < length circuits then circuits else circuits[route_index := closed_circuit])"

definition record_retryable_route_failure ::
  "CircuitBreakerConfig \<Rightarrow> nat \<Rightarrow> nat \<Rightarrow> RouteCircuitState list \<Rightarrow> nat option \<times> RouteCircuitState list" where
  "record_retryable_route_failure cb route_index now_unix_ms circuits =
     (if \<not> cb_enabled cb then (None, circuits)
      else if \<not> route_index < length circuits then (None, circuits)
      else let route_state = circuits ! route_index;
               failures = u64_saturating_add (ci_consecutive_failures route_state) 1
           in if failures < max (cb_failure_threshold cb) 1 then
                (None, circuits[route_index := route_state\<lparr>ci_consecutive_failures := failures\<rparr>])
              else let open_until = u64_saturating_add now_unix_ms (cb_cooldown_ms cb)
                   in (Some open_until,
                       circuits[route_index := route_state\<lparr>ci_open_until_unix_ms := Some open_until, ci_consecutive_failures := 0\<rparr>]))"

subsection \<open>Routing a request\<close>

definition no_routes_error :: TauAiError where
  "no_routes_error = InvalidResponse ''no provider routes configured''"

definition all_open_error :: TauAiError where
  "all_open_error = InvalidResponse ''all provider routes are temporarily unavailable (circuit breaker open)''"

definition exhausted_error :: TauAiError where
  "exhausted_error = InvalidResponse ''provider fallback chain exhausted unexpectedly''"

text \<open>The loop over the routes that are left, the first of them at \<open>index\<close>.\<close>

fun route_loop ::
  "'w FallbackRoutingClient \<Rightarrow> json ChatRequest \<Rightarrow> bool \<Rightarrow> nat \<Rightarrow> 'w ClientRoute list \<Rightarrow> bool \<Rightarrow> 'w FallbackState
     \<Rightarrow> (string list \<times> (TauAiError + json ChatResponse)) \<times> 'w FallbackState" where
  "route_loop fb request streaming index [] attempted_route st =
     (([], Inl (if \<not> attempted_route then all_open_error else exhausted_error)), st)"
| "route_loop fb request streaming index (route # routes) attempted_route st =
     (case fb_clock fb (fs_world st) of (now_unix_ms, w) \<Rightarrow>
      case route_open_until (fb_circuit_breaker fb) index now_unix_ms (fs_circuits st) of
        (Some open_until, circuits) \<Rightarrow>
          route_loop fb request streaming (index + 1) routes attempted_route
            (emit_circuit_skip_event fb route index open_until (st\<lparr>fs_world := w, fs_circuits := circuits\<rparr>))
      | (None, circuits) \<Rightarrow>
          (case cl_client route (request\<lparr>rq_model := cl_model route\<rparr>) streaming w of ((deltas, response), w) \<Rightarrow>
           case response of
             Inr answer \<Rightarrow>
               ((deltas, Inr answer), st\<lparr>fs_world := w, fs_circuits := record_route_success index circuits\<rparr>)
           | Inl error \<Rightarrow>
               if is_retryable_provider_error error then
                 (case record_retryable_route_failure (fb_circuit_breaker fb) index now_unix_ms circuits of (opened, circuits) \<Rightarrow>
                  let st = st\<lparr>fs_world := w, fs_circuits := circuits\<rparr>;
                      st = (case opened of Some open_until \<Rightarrow> emit_circuit_opened_event fb route index open_until st | None \<Rightarrow> st)
                  in case routes of
                       next_route # _ \<Rightarrow>
                         (case route_loop fb request streaming (index + 1) routes True
                                 (emit_fallback_event fb route next_route error (index + 1) st) of
                            ((deltas', result), st) \<Rightarrow> ((deltas @ deltas', result), st))
                     | [] \<Rightarrow> ((deltas, Inl error), st))
               else ((deltas, Inl error), st\<lparr>fs_world := w, fs_circuits := circuits\<rparr>)))"

declare route_loop.simps(2) [simp del]

definition complete_inner :: "'w FallbackRoutingClient \<Rightarrow> 'w FallbackState llm_client" where
  "complete_inner fb request streaming st =
     (if fb_routes fb = [] then (([], Inl no_routes_error), st)
      else route_loop fb request streaming 0 (fb_routes fb) False st)"

subsection \<open>Building the routes\<close>

definition resolve_step :: "ModelRef \<Rightarrow> ModelRef list \<Rightarrow> string \<Rightarrow> string + ModelRef list" where
  "resolve_step primary resolved raw =
     (case parse_model_ref raw of
        Inl error \<Rightarrow> Inl (''failed to parse --fallback-model '' @ apostrophe @ raw @ apostrophe @ '': '' @ display_parse_error error)
      | Inr parsed \<Rightarrow>
          if mr_provider parsed = mr_provider primary \<and> mr_model parsed = mr_model primary then Inr resolved
          else if \<exists>existing\<in>set resolved. mr_provider existing = mr_provider parsed \<and> mr_model existing = mr_model parsed
          then Inr resolved
          else Inr (resolved @ [parsed]))"

definition resolve_fallback_models :: "string list \<Rightarrow> ModelRef \<Rightarrow> string + ModelRef list" where
  "resolve_fallback_models fallback_model primary = try_fold (resolve_step primary) [] fallback_model"

text \<open>
  \<open>build_provider_client\<close> is an argument: the client of a provider, or an error. An error with contexts is the list of its
  messages, the outermost first.
\<close>

fun fallback_routes ::
  "(Provider \<Rightarrow> string list + 'w llm_client) \<Rightarrow> (Provider \<times> 'w llm_client) list \<Rightarrow> ModelRef list \<Rightarrow> string list + 'w ClientRoute list" where
  "fallback_routes build provider_clients [] = Inr []"
| "fallback_routes build provider_clients (m # ms) =
     and_then
       (case map_of provider_clients (mr_provider m) of
          Some existing \<Rightarrow> Inr (existing, provider_clients)
        | None \<Rightarrow>
            (case build (mr_provider m) of
               Inl e \<Rightarrow> Inl ((''failed to create '' @ provider_as_str (mr_provider m) @ '' client for fallback model ''
                        @ apostrophe @ mr_model m @ apostrophe) # e)
             | Inr created \<Rightarrow> Inr (created, provider_clients @ [(mr_provider m, created)])))
       (\<lambda>(client, provider_clients).
          and_then (fallback_routes build provider_clients ms)
            (\<lambda>rest. Inr (\<lparr>cl_provider = mr_provider m, cl_model = mr_model m, cl_client = client\<rparr> # rest)))"

definition primary_route :: "ModelRef \<Rightarrow> 'w llm_client \<Rightarrow> 'w ClientRoute" where
  "primary_route primary client = \<lparr>cl_provider = mr_provider primary, cl_model = mr_model primary, cl_client = client\<rparr>"

text \<open>The primary client alone, or the routes of a fallback client.\<close>

definition build_client_with_fallbacks ::
  "(Provider \<Rightarrow> string list + 'w llm_client) \<Rightarrow> ('w \<Rightarrow> nat \<times> 'w) \<Rightarrow> bool \<Rightarrow> ModelRef \<Rightarrow> ModelRef list
     \<Rightarrow> string list + ('w llm_client + 'w FallbackRoutingClient)" where
  "build_client_with_fallbacks build clock json_events primary fallback_models =
     (case build (mr_provider primary) of
        Inl e \<Rightarrow> Inl ((''failed to create '' @ provider_as_str (mr_provider primary) @ '' client'') # e)
      | Inr primary_client \<Rightarrow>
          if fallback_models = [] then Inr (Inl primary_client)
          else and_then (fallback_routes build [(mr_provider primary, primary_client)] fallback_models)
            (\<lambda>routes. Inr (Inr \<lparr>fb_routes = primary_route primary primary_client # routes, fb_event_sink = json_events,
               fb_circuit_breaker = default_circuit_breaker, fb_clock = clock\<rparr>)))"

subsection \<open>Histories of a circuit\<close>

text \<open>What overlapping calls do to the circuits is a sequence of these.\<close>

datatype circuit_op = RouteChecked nat nat | RouteAnswered nat | RouteFailed nat nat

fun run_circuit_op :: "CircuitBreakerConfig \<Rightarrow> circuit_op \<Rightarrow> RouteCircuitState list \<Rightarrow> RouteCircuitState list" where
  "run_circuit_op cb (RouteChecked i now) cs = snd (route_open_until cb i now cs)"
| "run_circuit_op cb (RouteAnswered i) cs = record_route_success i cs"
| "run_circuit_op cb (RouteFailed i now) cs = snd (record_retryable_route_failure cb i now cs)"

text \<open>The outcomes of a route: an answer, or a retryable failure and when the attempt began. The streak is latest first.\<close>

fun outcome_of :: "nat \<Rightarrow> circuit_op \<Rightarrow> nat option option" where
  "outcome_of i (RouteChecked _ _) = None"
| "outcome_of i (RouteAnswered j) = (if i = j then Some None else None)"
| "outcome_of i (RouteFailed j t) = (if i = j then Some (Some t) else None)"

definition failure_streak :: "nat \<Rightarrow> circuit_op list \<Rightarrow> nat list" where
  "failure_streak i h = map the (takeWhile (\<lambda>x. x \<noteq> None) (rev (List.map_filter (outcome_of i) h)))"

abbreviation threshold_of :: "CircuitBreakerConfig \<Rightarrow> nat" where
  "threshold_of cb \<equiv> max (cb_failure_threshold cb) 1"

definition circuit_related :: "CircuitBreakerConfig \<Rightarrow> nat list \<Rightarrow> RouteCircuitState \<Rightarrow> bool" where
  "circuit_related cb streak c \<longleftrightarrow>
     ci_consecutive_failures c < threshold_of cb \<and> ci_consecutive_failures c \<le> length streak
     \<and> (\<forall>u. ci_open_until_unix_ms c = Some u \<longrightarrow>
          threshold_of cb + ci_consecutive_failures c \<le> length streak
          \<and> (\<exists>t\<in>set streak. u = u64_saturating_add t (cb_cooldown_ms cb)))"

definition circuits_related :: "CircuitBreakerConfig \<Rightarrow> nat \<Rightarrow> circuit_op list \<Rightarrow> RouteCircuitState list \<Rightarrow> bool" where
  "circuits_related cb n h cs \<longleftrightarrow> length cs = n \<and> (\<forall>i<n. circuit_related cb (failure_streak i h) (cs ! i))"

lemma failure_streak_simps [simp]:
  "failure_streak i [] = []"
  "failure_streak i (h @ [RouteChecked j t]) = failure_streak i h"
  "failure_streak i (h @ [RouteAnswered j]) = (if i = j then [] else failure_streak i h)"
  "failure_streak i (h @ [RouteFailed j t]) = (if i = j then t # failure_streak i h else failure_streak i h)"
  by (simp_all add: failure_streak_def List.map_filter_def)

lemma circuit_related_closed [simp]: "circuit_related cb streak closed_circuit"
  by (simp add: circuit_related_def closed_circuit_def)

lemma circuit_related_more: "circuit_related cb streak c \<Longrightarrow> circuit_related cb (t # streak) c"
  by (fastforce simp: circuit_related_def)

lemma saturating_Suc: "u64_saturating_add n 1 \<le> Suc n"
  by (simp add: u64_saturating_add_def)

lemma circuit_related_failed:
  assumes "circuit_related cb streak c"
  shows "u64_saturating_add (ci_consecutive_failures c) 1 < threshold_of cb \<Longrightarrow>
      circuit_related cb (t # streak) (c\<lparr>ci_consecutive_failures := u64_saturating_add (ci_consecutive_failures c) 1\<rparr>)"
    and "\<not> u64_saturating_add (ci_consecutive_failures c) 1 < threshold_of cb \<Longrightarrow>
      circuit_related cb (t # streak)
        (c\<lparr>ci_open_until_unix_ms := Some (u64_saturating_add t (cb_cooldown_ms cb)), ci_consecutive_failures := 0\<rparr>)"
  using assms saturating_Suc [of "ci_consecutive_failures c"] by (fastforce simp: circuit_related_def)+

lemma circuits_related_step: "circuits_related cb n h cs \<Longrightarrow> circuits_related cb n (h @ [x]) (run_circuit_op cb x cs)"
proof (cases x)
  case (RouteFailed i t)
  assume "circuits_related cb n h cs"
  then show ?thesis
    using circuit_related_failed [of cb "failure_streak i h" "cs ! i" t]
    by (auto simp: RouteFailed circuits_related_def record_retryable_route_failure_def Let_def nth_list_update
        intro: circuit_related_more)
qed (auto simp: circuits_related_def route_open_until_def record_route_success_def nth_list_update split: option.splits)

interpretation circuits: operation_history "run_circuit_op cb" "replicate n closed_circuit" "circuits_related cb n" for cb n
  by unfold_locales (simp_all add: circuits_related_step, simp add: circuits_related_def)



text \<open>Consecutive failures of a closed circuit, with no answer between them: it opens at the threshold and not before.\<close>

lemma fold_failures:
  assumes "cb_enabled cb" "i < length cs" "cs ! i = closed_circuit" "threshold_of cb \<le> u64_max" "length ts < threshold_of cb"
  shows "fold (\<lambda>t. run_circuit_op cb (RouteFailed i t)) ts cs = cs[i := closed_circuit\<lparr>ci_consecutive_failures := length ts\<rparr>]"
  using assms(5)
proof (induction ts rule: rev_induct)
  case Nil
  then show ?case using list_update_id [of cs i] assms(3) by (simp add: closed_circuit_def)
next
  case (snoc t ts)
  then have "u64_saturating_add (length ts) 1 = Suc (length ts)" "Suc (length ts) < threshold_of cb"
    using assms(4) by (simp_all add: u64_saturating_add_def)
  with snoc assms(1,2) show ?case
    by (simp add: record_retryable_route_failure_def Let_def closed_circuit_def)
qed

lemma circuit_opens_at_threshold:
  assumes "cb_enabled cb" "i < length cs" "cs ! i = closed_circuit" "threshold_of cb \<le> u64_max" "Suc (length ts) = threshold_of cb"
  shows "record_retryable_route_failure cb i now (fold (\<lambda>t. run_circuit_op cb (RouteFailed i t)) ts cs)
    = (Some (u64_saturating_add now (cb_cooldown_ms cb)),
       cs[i := closed_circuit\<lparr>ci_open_until_unix_ms := Some (u64_saturating_add now (cb_cooldown_ms cb))\<rparr>])"
proof -
  have "fold (\<lambda>t. run_circuit_op cb (RouteFailed i t)) ts cs = cs[i := closed_circuit\<lparr>ci_consecutive_failures := length ts\<rparr>]"
    by (rule fold_failures [OF assms(1-4)]) (use assms(5) in simp)
  moreover have "u64_saturating_add (length ts) 1 = threshold_of cb"
    using assms(4,5) by (simp add: u64_saturating_add_def)
  ultimately show ?thesis
    using assms(1,2) by (simp add: record_retryable_route_failure_def Let_def closed_circuit_def)
qed

subsection \<open>What a request does\<close>

lemma fs_circuits_emit [simp]:
  "fs_circuits (emit_circuit_skip_event fb r i u st) = fs_circuits st"
  "fs_circuits (emit_circuit_opened_event fb r i u st) = fs_circuits st"
  "fs_circuits (emit_fallback_event fb r r' e i st) = fs_circuits st"
  by (simp_all add: emit_circuit_skip_event_def emit_circuit_opened_event_def emit_fallback_event_def emit_json_def
      split: prod.split)


definition fell_back :: "nat \<times> string list \<times> (TauAiError + json ChatResponse) \<Rightarrow> bool" where
  "fell_back = (\<lambda>(i, ds, res). \<exists>e. res = Inl e \<and> is_retryable_provider_error e)"

text \<open>A route that was left out: its circuit was open when the loop read the clock.\<close>

definition skipped_open :: "'w FallbackRoutingClient \<Rightarrow> RouteCircuitState list \<Rightarrow> nat \<Rightarrow> bool" where
  "skipped_open fb circuits i \<longleftrightarrow> cb_enabled (fb_circuit_breaker fb)
     \<and> (\<exists>w w' now u. fb_clock fb w = (now, w') \<and> ci_open_until_unix_ms (circuits ! i) = Some u \<and> now < u)"







text \<open>The circuit operations of an attempt leave the circuits of the other routes alone.\<close>

lemma circuit_ops_local:
  assumes "j \<noteq> i"
  shows "snd (route_open_until cb i now cs) ! j = cs ! j" "record_route_success i cs ! j = cs ! j"
    "snd (record_retryable_route_failure cb i now cs) ! j = cs ! j"
  using assms by (auto simp: route_open_until_def record_route_success_def record_retryable_route_failure_def Let_def
      split: option.split)

lemma route_open_skipped:
  assumes "route_open_until (fb_circuit_breaker fb) i now cs = (Some u, cs')" "fb_clock fb w = (now, w')"
  shows "skipped_open fb cs i \<and> cs' = cs"
  using assms by (auto simp: route_open_until_def skipped_open_def split: if_splits option.splits)



text \<open>A request changes the circuits by operations of \<open>circuit_op\<close> only.\<close>

definition circuits_reach :: "CircuitBreakerConfig \<Rightarrow> RouteCircuitState list \<Rightarrow> RouteCircuitState list \<Rightarrow> bool" where
  "circuits_reach cb cs cs' \<longleftrightarrow> (\<exists>ops. cs' = fold (run_circuit_op cb) ops cs)"

lemma circuits_reach_ops: "circuits_reach cb cs (fold (run_circuit_op cb) ops cs)"
  by (auto simp: circuits_reach_def)

lemma circuits_reach_trans: "circuits_reach cb cs cs' \<Longrightarrow> circuits_reach cb cs' cs'' \<Longrightarrow> circuits_reach cb cs cs''"
  by (auto simp: circuits_reach_def) (metis comp_apply fold_append)

text \<open>One round of the loop: an open circuit, an attempt that ends the loop, an attempt that falls back.\<close>

lemma route_loop_round:
  obtains
    (skip) st\<^sub>1 where "skipped_open fb (fs_circuits st) index" "fs_circuits st\<^sub>1 = fs_circuits st"
      "route_loop fb request streaming index (route # routes) attempted st
         = route_loop fb request streaming (Suc index) routes attempted st\<^sub>1"
  | (stop) ds res w w' st\<^sub>1 where "cl_client route (request\<lparr>rq_model := cl_model route\<rparr>) streaming w = ((ds, res), w')"
      "\<not> fell_back (index, ds, res) \<or> routes = []" "circuits_reach (fb_circuit_breaker fb) (fs_circuits st) (fs_circuits st\<^sub>1)"
      "route_loop fb request streaming index (route # routes) attempted st = ((ds, res), st\<^sub>1)"
  | (fall_back) ds res w w' st\<^sub>1 where "cl_client route (request\<lparr>rq_model := cl_model route\<rparr>) streaming w = ((ds, res), w')"
      "fell_back (index, ds, res)" "routes \<noteq> []" "\<And>i. index < i \<Longrightarrow> fs_circuits st\<^sub>1 ! i = fs_circuits st ! i"
      "circuits_reach (fb_circuit_breaker fb) (fs_circuits st) (fs_circuits st\<^sub>1)"
      "route_loop fb request streaming index (route # routes) attempted st
         = map_prod (map_prod ((@) ds) id) id (route_loop fb request streaming (Suc index) routes True st\<^sub>1)"
proof -
  obtain now w where clock: "fb_clock fb (fs_world st) = (now, w)" by (cases "fb_clock fb (fs_world st)")
  obtain opened cs where checked: "route_open_until (fb_circuit_breaker fb) index now (fs_circuits st) = (opened, cs)"
    by (cases "route_open_until (fb_circuit_breaker fb) index now (fs_circuits st)")
  obtain ds res w' where call: "cl_client route (request\<lparr>rq_model := cl_model route\<rparr>) streaming w = ((ds, res), w')"
    by (metis surj_pair)
  obtain opened' cs' where failed: "record_retryable_route_failure (fb_circuit_breaker fb) index now cs = (opened', cs')"
    by (cases "record_retryable_route_failure (fb_circuit_breaker fb) index now cs")
  have reach: "circuits_reach (fb_circuit_breaker fb) (fs_circuits st) cs" "circuits_reach (fb_circuit_breaker fb) (fs_circuits st) cs'"
    "circuits_reach (fb_circuit_breaker fb) (fs_circuits st) (record_route_success index cs)"
    using circuits_reach_ops [of "fb_circuit_breaker fb" "fs_circuits st" "[RouteChecked index now]"]
      circuits_reach_ops [of "fb_circuit_breaker fb" "fs_circuits st" "[RouteChecked index now, RouteFailed index now]"]
      circuits_reach_ops [of "fb_circuit_breaker fb" "fs_circuits st" "[RouteChecked index now, RouteAnswered index]"]
    by (simp_all add: checked failed)
  note unfolded = route_loop.simps(2) clock checked call failed
  show thesis
  proof (cases opened)
    case (Some u)
    with route_open_skipped [OF checked [unfolded Some] clock] show thesis
      by (intro skip [of "emit_circuit_skip_event fb route index u (st\<lparr>fs_world := w, fs_circuits := cs\<rparr>)"])
        (simp_all add: unfolded)
  next
    case None
    have cs': "cs' ! j = fs_circuits st ! j" if "index < j" for j
      using circuit_ops_local [OF less_imp_neq [OF that, symmetric]] checked failed by (metis snd_conv)
    show thesis
    proof (cases "fell_back (index, ds, res) \<and> routes \<noteq> []")
      case True
      then obtain e r rs where e: "res = Inl e" "is_retryable_provider_error e" "routes = r # rs"
        by (cases routes) (auto simp: fell_back_def)
      define st\<^sub>1 where "st\<^sub>1 = emit_fallback_event fb route r e (Suc index)
        (case opened' of Some u \<Rightarrow> emit_circuit_opened_event fb route index u (st\<lparr>fs_world := w', fs_circuits := cs'\<rparr>)
         | None \<Rightarrow> st\<lparr>fs_world := w', fs_circuits := cs'\<rparr>)"
      have "fs_circuits st\<^sub>1 = cs'" by (simp add: st\<^sub>1_def split: option.split)
      moreover have "route_loop fb request streaming index (route # routes) attempted st
          = map_prod (map_prod ((@) ds) id) id (route_loop fb request streaming (Suc index) routes True st\<^sub>1)"
        by (subst route_loop.simps(2))
          (simp add: clock checked call failed None e st\<^sub>1_def Let_def map_prod_def id_def case_prod_beta)
      ultimately show thesis using True cs' reach(2) by (intro fall_back [OF call]) auto
    next
      case False
      then have "\<exists>st\<^sub>1. route_loop fb request streaming index (route # routes) attempted st = ((ds, res), st\<^sub>1)
          \<and> circuits_reach (fb_circuit_breaker fb) (fs_circuits st) (fs_circuits st\<^sub>1)"
        using reach by (cases res; cases routes; cases opened') (simp_all add: unfolded None fell_back_def Let_def)
      with False show thesis using stop [OF call] by blast
    qed
  qed
qed




definition sample_client :: "string \<Rightarrow> TauAiError + json ChatResponse \<Rightarrow> unit llm_client" where
  "sample_client delta res request streaming w = ((if streaming then [delta] else [], res), w)"

definition sample_answer :: "json ChatResponse" where
  "sample_answer = \<lparr>rs_message = assistant_text ''hello'', rs_finish_reason = None,
     rs_usage = \<lparr>cu_input_tokens = 0, cu_output_tokens = 0, cu_total_tokens = 0, cu_cached_input_tokens = 0\<rparr>\<rparr>"

definition sample_fallback :: "(TauAiError + json ChatResponse) list \<Rightarrow> unit FallbackRoutingClient" where
  "sample_fallback rs =
     \<lparr>fb_routes = map (\<lambda>r. \<lparr>cl_provider = OpenAi, cl_model = ''m'', cl_client = sample_client ''hel'' r\<rparr>) rs, fb_event_sink = False,
      fb_circuit_breaker = default_circuit_breaker, fb_clock = (\<lambda>w. (5, w))\<rparr>"

definition sample_request :: "json ChatRequest" where
  "sample_request = \<lparr>rq_model = ''m'', rq_messages = [message_user ''hi''], rq_tools = [], rq_tool_choice = None, rq_json_mode = False,
     rq_max_tokens = None, rq_temperature = None,
     rq_prompt_cache = \<lparr>pcc_enabled = False, pcc_cache_key = None, pcc_retention = None, pcc_google_cached_content = None\<rparr>\<rparr>"

lemmas sample_defs = sample_client_def sample_answer_def sample_fallback_def sample_request_def new_fallback_state_def
  complete_inner_def route_loop.simps route_open_until_def record_route_success_def record_retryable_route_failure_def
  default_circuit_breaker_def closed_circuit_def should_retry_status_def emit_fallback_event_def emit_json_def
  u64_saturating_add_def Let_def

abbreviation busy_error :: TauAiError where "busy_error \<equiv> HttpStatus 503 ''overloaded''"

abbreviation "sample_pair \<equiv> sample_fallback [Inl busy_error, Inr sample_answer]"

lemma sample_pair_run:
  "complete_inner sample_pair sample_request True (new_fallback_state sample_pair ())
     = (([''hel'', ''hel''], Inr sample_answer), new_fallback_state sample_pair ()\<lparr>fs_circuits := [\<lparr>ci_consecutive_failures = 1, ci_open_until_unix_ms = None\<rparr>, closed_circuit]\<rparr>)"
  by (simp add: sample_defs)


text \<open>
  The provider that answered streamed one delta; the one that failed before it had streamed one too, and both reach the
  reader. And a retryable failure is replaced by an error that is not retryable when the routes after it are open.
\<close>

lemma fallback_streams_both_attempts:
  "fst (fst (complete_inner sample_pair sample_request True (new_fallback_state sample_pair ()))) = [''hel'', ''hel'']"
  by (simp add: sample_pair_run)

lemma fallback_masks_retryable_error:
  "is_retryable_provider_error busy_error"
  "snd (fst (complete_inner sample_pair sample_request False (new_fallback_state sample_pair ()
     \<lparr>fs_circuits := [closed_circuit, \<lparr>ci_consecutive_failures = 0, ci_open_until_unix_ms = Some 10\<rparr>]\<rparr>))) = Inl exhausted_error"
  "\<not> is_retryable_provider_error exhausted_error"
  by (simp_all add: sample_defs emit_circuit_skip_event_def exhausted_error_def)

lemma route_loop_circuit_ops:
  "circuits_reach (fb_circuit_breaker fb) (fs_circuits st) (fs_circuits (snd (route_loop fb request streaming index routes attempted st)))"
proof (induction routes arbitrary: index attempted st)
  case Nil
  show ?case using circuits_reach_ops [of _ _ "[]"] by simp
next
  case (Cons route routes)
  from route_loop_round [of fb st index request streaming route routes attempted] show ?case
  proof cases
    case (skip st\<^sub>1)
    with Cons.IH [of st\<^sub>1 "Suc index" attempted] show ?thesis by simp
  next
    case (fall_back ds res w w' st\<^sub>1)
    with Cons.IH [of st\<^sub>1 "Suc index" True] show ?thesis by (auto intro: circuits_reach_trans)
  qed simp
qed

lemma model_ref_eq_iff: "mr_provider a = mr_provider b \<and> mr_model a = mr_model b \<longleftrightarrow> a = b" for a b :: ModelRef
  by (auto intro: ModelRef.equality)

lemma resolve_step_ok:
  "parse_model_ref raw = Inr m \<Longrightarrow> resolve_step primary ms raw = Inr (if m = primary \<or> m \<in> set ms then ms else ms @ [m])"
  by (simp add: resolve_step_def model_ref_eq_iff)

definition parsed_models :: "string list \<Rightarrow> ModelRef list" where
  "parsed_models raws = map (\<lambda>raw. projr (parse_model_ref raw)) raws"

lemma resolve_fallback_models_ok:
  "list_all (\<lambda>raw. is_ok (parse_model_ref raw)) raws \<Longrightarrow>
     resolve_fallback_models raws primary = Inr (rev (remdups (rev (filter (\<lambda>m. m \<noteq> primary) (parsed_models raws)))))"
proof (induction raws rule: rev_induct)
  case (snoc raw raws)
  then obtain m where "parse_model_ref raw = Inr m" by (auto simp: is_ok_def split: sum.splits)
  with snoc show ?case
    by (simp add: resolve_fallback_models_def try_fold_append resolve_step_ok parsed_models_def and_then_def)
qed (simp add: resolve_fallback_models_def parsed_models_def)

lemma resolve_fallback_models_error:
  "\<not> list_all (\<lambda>raw. is_ok (parse_model_ref raw)) raws \<Longrightarrow> \<exists>e. resolve_fallback_models raws primary = Inl e"
  unfolding resolve_fallback_models_def
proof (induction raws rule: rev_induct)
  case (snoc raw raws)
  show ?case
  proof (cases "try_fold (resolve_step primary) [] raws")
    case (Inr ms)
    with snoc.IH have "\<not> is_ok (parse_model_ref raw)" using snoc.prems by auto
    then show ?thesis by (auto simp: try_fold_append Inr and_then_def resolve_step_def is_ok_def split: sum.splits)
  qed (simp add: try_fold_append and_then_def)
qed simp

text \<open>
  Resolving the configured fallback models gives each of them once, in the order of first appearance, and never the
  primary one; it fails exactly where one of them does not parse.
\<close>

theorem resolved_fallback_models:
  "if list_all (\<lambda>raw. is_ok (parse_model_ref raw)) raws
   then resolve_fallback_models raws primary = Inr (rev (remdups (rev (filter (\<lambda>m. m \<noteq> primary) (parsed_models raws)))))
   else \<exists>e. resolve_fallback_models raws primary = Inl e"
  by (simp add: resolve_fallback_models_ok resolve_fallback_models_error)

end
