(* ===== verification/Provider_Anthropic.thy ===== *)
theory Provider_Anthropic
  imports Provider_Types
begin

text \<open>
  The Anthropic client (\<open>crates/tau-ai/src/anthropic.rs\<close>): the body of a request, the response read whole, and the
  response read as a stream of server-sent events. \<open>serde_json\<close> is an argument (\<open>from_str\<close> for values, \<open>from_response\<close>
  for the typed response), as are the texts of the errors of other libraries. A stream is the list of its chunks,
  each bytes or a transport error. An index in a stream that would exhaust memory aborts the process; the model has no such limit.
\<close>

subsection \<open>The body of a request\<close>

definition default_max_tokens_for_model :: "string \<Rightarrow> nat" where
  "default_max_tokens_for_model model =
     (if model = ''claude-opus-4-6'' then 128000
      else if model \<in> {''claude-opus-4-5-20251101'', ''claude-haiku-4-5-20251001'', ''claude-sonnet-4-5-20250929'',
        ''claude-sonnet-4-20250514'', ''claude-3-7-sonnet-20250219''} then 64000
      else if model \<in> {''claude-opus-4-1-20250805'', ''claude-opus-4-20250514''} then 32000
      else 4096)"

fun to_anthropic_tool_choice :: "ToolChoice \<Rightarrow> json option" where
  "to_anthropic_tool_choice AutoTool = Some (json_object [(''type'', JString ''auto'')])"
| "to_anthropic_tool_choice NoTool = None"
| "to_anthropic_tool_choice RequiredTool = Some (json_object [(''type'', JString ''any'')])"
| "to_anthropic_tool_choice (NamedTool name) = Some (json_object [(''type'', JString ''tool''), (''name'', JString name)])"

abbreviation blank_line :: string where "blank_line \<equiv> [CHR 0x0A, CHR 0x0A]"

definition extract_system_text :: "json Message list \<Rightarrow> string" where
  "extract_system_text messages =
     join blank_line (filter (\<lambda>t. trim t \<noteq> []) (map text_content (filter (\<lambda>m. msg_role m = System) messages)))"

definition to_anthropic_tools :: "json ToolDefinition list \<Rightarrow> json" where
  "to_anthropic_tools tools =
     JArray (map (\<lambda>t. json_object [(''name'', JString (td_name t)), (''description'', JString (td_description t)),
       (''input_schema'', td_parameters t)]) tools)"

fun media_source_descriptor :: "MediaSource \<Rightarrow> string" where
  "media_source_descriptor (Url url) = ''url:'' @ url"
| "media_source_descriptor (Base64 mime_type data) = ''base64:'' @ mime_type @ '':'' @ show_nat (length data) @ ''bytes''"

definition text_part :: "string \<Rightarrow> json" where
  "text_part t = json_object [(''type'', JString ''text''), (''text'', JString t)]"

fun to_anthropic_content_part :: "bool \<Rightarrow> json ContentBlock \<Rightarrow> json option" where
  "to_anthropic_content_part allow_tool_calls (TextBlock t) = (if trim t \<noteq> [] then Some (text_part t) else None)"
| "to_anthropic_content_part allow_tool_calls (ToolCallBlock i name arguments) =
     (if allow_tool_calls then
        Some (json_object [(''type'', JString ''tool_use''), (''id'', JString i), (''name'', JString name), (''input'', arguments)])
      else None)"
| "to_anthropic_content_part allow_tool_calls (ImageBlock (Url url)) = Some (text_part (''[tau-image:url:'' @ url @ '']''))"
| "to_anthropic_content_part allow_tool_calls (ImageBlock (Base64 mime_type data)) =
     Some (json_object [(''type'', JString ''image''),
       (''source'', json_object [(''type'', JString ''base64''), (''media_type'', JString mime_type), (''data'', JString data)])])"
| "to_anthropic_content_part allow_tool_calls (AudioBlock source) =
     Some (text_part (''[tau-audio:'' @ media_source_descriptor source @ '']''))"

definition to_anthropic_content_parts :: "json Message \<Rightarrow> bool \<Rightarrow> json list" where
  "to_anthropic_content_parts message allow_tool_calls =
     List.map_filter (to_anthropic_content_part allow_tool_calls) (msg_content message)"

definition role_message :: "string \<Rightarrow> json list \<Rightarrow> json" where
  "role_message role parts = json_object [(''role'', JString role), (''content'', JArray parts)]"

definition to_anthropic_message :: "json Message \<Rightarrow> json option" where
  "to_anthropic_message message =
     (case msg_role message of
        System \<Rightarrow> None
      | User \<Rightarrow>
          (let parts = to_anthropic_content_parts message False in
           if parts = [] then None else Some (role_message ''user'' parts))
      | Assistant \<Rightarrow>
          (let parts = to_anthropic_content_parts message True in
           if parts = [] then None else Some (role_message ''assistant'' parts))
      | Tool \<Rightarrow>
          (case msg_tool_call_id message of
             Some tool_call_id \<Rightarrow>
               Some (role_message ''user'' [json_object [(''type'', JString ''tool_result''), (''tool_use_id'', JString tool_call_id),
                 (''content'', JString (text_content message)), (''is_error'', JBool (msg_is_error message))]])
           | None \<Rightarrow> Some (role_message ''user'' [text_part ''invalid tool result message: missing tool_call_id''])))"

definition to_anthropic_messages :: "json Message list \<Rightarrow> json" where
  "to_anthropic_messages messages = JArray (List.map_filter to_anthropic_message messages)"

definition set_anthropic_system_prompt :: "(string \<times> json) list \<Rightarrow> string \<Rightarrow> PromptCacheConfig \<Rightarrow> (string \<times> json) list" where
  "set_anthropic_system_prompt body system_prompt prompt_cache =
     (if \<not> pcc_enabled prompt_cache then json_insert ''system'' (JString system_prompt) body
      else let cache_control = (case pcc_retention prompt_cache of
                 Some retention \<Rightarrow> if trim retention \<noteq> [] then [(''type'', JString ''ephemeral''), (''ttl'', JString retention)]
                   else [(''type'', JString ''ephemeral'')]
               | None \<Rightarrow> [(''type'', JString ''ephemeral'')])
           in json_insert ''system'' (JArray [json_object [(''type'', JString ''text''), (''text'', JString system_prompt),
                (''cache_control'', json_object cache_control)]]) body)"

definition with_system_prompt :: "json ChatRequest \<Rightarrow> (string \<times> json) list \<Rightarrow> (string \<times> json) list" where
  "with_system_prompt request body =
     (let system = extract_system_text (rq_messages request) in
      if rq_json_mode request then
        set_anthropic_system_prompt body
          (join blank_line (''Respond with valid JSON only. Do not include markdown code fences or commentary.''
            # (if system \<noteq> [] then [system] else []))) (rq_prompt_cache request)
      else if system \<noteq> [] then set_anthropic_system_prompt body system (rq_prompt_cache request)
      else body)"

definition with_tools :: "json ChatRequest \<Rightarrow> (string \<times> json) list \<Rightarrow> (string \<times> json) list" where
  "with_tools request body =
     (if rq_tools request \<noteq> [] then
        (let body = json_insert ''tools'' (to_anthropic_tools (rq_tools request)) body in
         case Option.bind (rq_tool_choice request) to_anthropic_tool_choice of
           Some tool_choice \<Rightarrow> json_insert ''tool_choice'' tool_choice body
         | None \<Rightarrow> body)
      else body)"

text \<open>\<open>f32_json\<close> is the number a 32-bit float becomes.\<close>

definition with_temperature :: "(nat \<Rightarrow> json) \<Rightarrow> json ChatRequest \<Rightarrow> (string \<times> json) list \<Rightarrow> (string \<times> json) list" where
  "with_temperature f32_json request body =
     (case rq_temperature request of
        Some temperature \<Rightarrow> json_insert ''temperature'' (f32_json temperature) body
      | None \<Rightarrow> body)"

definition build_messages_request_body :: "(nat \<Rightarrow> json) \<Rightarrow> json ChatRequest \<Rightarrow> (string \<times> json) list" where
  "build_messages_request_body f32_json request =
     with_temperature f32_json request (with_tools request (with_system_prompt request
       (json_insert ''max_tokens'' (JInt (int (case rq_max_tokens request of
            Some n \<Rightarrow> n | None \<Rightarrow> default_max_tokens_for_model (rq_model request))))
          (json_insert ''messages'' (to_anthropic_messages (rq_messages request))
            (json_insert ''model'' (JString (rq_model request)) [])))))"

subsection \<open>A response read whole\<close>

datatype AnthropicMediaSource = AnthropicBase64 string string | AnthropicUrl string | AnthropicOtherSource

datatype AnthropicContent =
    AnthropicText string
  | AnthropicToolUse string string json
  | AnthropicImage AnthropicMediaSource
  | AnthropicAudio AnthropicMediaSource
  | AnthropicOther

record AnthropicUsage =
  au_input_tokens :: nat
  au_output_tokens :: nat
  au_cache_read_input_tokens :: "nat option"

record AnthropicMessageResponse =
  am_content :: "AnthropicContent list"
  am_stop_reason :: "string option"
  am_usage :: "AnthropicUsage option"

fun anthropic_block :: "AnthropicContent \<Rightarrow> json ContentBlock option" where
  "anthropic_block (AnthropicText t) = (if trim t \<noteq> [] then Some (TextBlock t) else None)"
| "anthropic_block (AnthropicToolUse i name input) = Some (ToolCallBlock i name input)"
| "anthropic_block (AnthropicImage (AnthropicBase64 media_type data)) = Some (ImageBlock (Base64 media_type data))"
| "anthropic_block (AnthropicImage (AnthropicUrl url)) = Some (ImageBlock (Url url))"
| "anthropic_block (AnthropicImage AnthropicOtherSource) = None"
| "anthropic_block (AnthropicAudio (AnthropicBase64 media_type data)) = Some (AudioBlock (Base64 media_type data))"
| "anthropic_block (AnthropicAudio (AnthropicUrl url)) = Some (AudioBlock (Url url))"
| "anthropic_block (AnthropicAudio AnthropicOtherSource) = None"
| "anthropic_block AnthropicOther = None"

definition no_usage :: ChatUsage where
  "no_usage = \<lparr>cu_input_tokens = 0, cu_output_tokens = 0, cu_total_tokens = 0, cu_cached_input_tokens = 0\<rparr>"

definition parse_messages_response :: "(string \<Rightarrow> AnthropicMessageResponse option) \<Rightarrow> string \<Rightarrow> TauAiError + json ChatResponse" where
  "parse_messages_response from_response raw =
     (case from_response raw of
        None \<Rightarrow> Inl SerdeError
      | Some parsed \<Rightarrow>
          Inr \<lparr>rs_message = assistant_blocks (List.map_filter anthropic_block (am_content parsed)),
               rs_finish_reason = am_stop_reason parsed,
               rs_usage = (case am_usage parsed of
                 Some usage \<Rightarrow> \<lparr>cu_input_tokens = au_input_tokens usage, cu_output_tokens = au_output_tokens usage,
                   cu_total_tokens = u64_add (au_input_tokens usage) (au_output_tokens usage),
                   cu_cached_input_tokens = (case au_cache_read_input_tokens usage of Some n \<Rightarrow> n | None \<Rightarrow> 0)\<rparr>
               | None \<Rightarrow> no_usage)\<rparr>)"

subsection \<open>A response read as a stream\<close>

record AnthropicToolUseAccumulator =
  ta_id :: string
  ta_name :: string
  ta_input :: "json option"
  ta_partial_json :: string

definition empty_tool_use :: AnthropicToolUseAccumulator where
  "empty_tool_use = \<lparr>ta_id = [], ta_name = [], ta_input = None, ta_partial_json = []\<rparr>"

text \<open>What the events accumulate, and the deltas handed to the handler.\<close>

record AnthropicStream =
  st_text :: string
  st_tool_calls :: "AnthropicToolUseAccumulator list"
  st_finish_reason :: "string option"
  st_usage :: ChatUsage
  st_deltas :: "string list"

definition new_stream :: AnthropicStream where
  "new_stream = \<lparr>st_text = [], st_tool_calls = [], st_finish_reason = None, st_usage = no_usage, st_deltas = []\<rparr>"

text \<open>\<open>value.get(key)\<close>.\<close>

definition json_get :: "string \<Rightarrow> json \<Rightarrow> json option" where
  "json_get key v = Option.bind (as_object v) (\<lambda>members. map_of members key)"

definition object_at :: "string \<Rightarrow> json \<Rightarrow> (string \<times> json) list option" where
  "object_at key v = Option.bind (json_get key v) as_object"

definition str_at :: "string \<Rightarrow> json \<Rightarrow> string option" where
  "str_at key v = Option.bind (json_get key v) as_str"

definition u64_at :: "string \<Rightarrow> json \<Rightarrow> nat option" where
  "u64_at key v = Option.bind (json_get key v) as_u64"

definition resize_to :: "nat \<Rightarrow> AnthropicToolUseAccumulator list \<Rightarrow> AnthropicToolUseAccumulator list" where
  "resize_to index calls =
     (if length calls \<le> index then calls @ replicate (index + 1 - length calls) empty_tool_use else calls)"

definition update_opt :: "('a \<Rightarrow> 's \<Rightarrow> 's) \<Rightarrow> 'a option \<Rightarrow> 's \<Rightarrow> 's" where
  "update_opt f v s = (case v of Some x \<Rightarrow> f x s | None \<Rightarrow> s)"

definition apply_message_start :: "json \<Rightarrow> AnthropicStream \<Rightarrow> AnthropicStream" where
  "apply_message_start payload st =
     (let usage_object = Option.bind (object_at ''message'' payload) (\<lambda>message. get_as as_object ''usage'' message);
          st = update_opt (\<lambda>input_tokens st. st\<lparr>st_usage := (st_usage st)\<lparr>cu_input_tokens := input_tokens,
                  cu_total_tokens := u64_add input_tokens (cu_output_tokens (st_usage st))\<rparr>\<rparr>)
                 (Option.bind usage_object (get_as as_u64 ''input_tokens'')) st
      in update_opt (\<lambda>cached st. st\<lparr>st_usage := (st_usage st)\<lparr>cu_cached_input_tokens := cached\<rparr>\<rparr>)
           (Option.bind usage_object (get_as as_u64 ''cache_read_input_tokens'')) st)"

definition apply_content_block_start :: "json \<Rightarrow> AnthropicStream \<Rightarrow> AnthropicStream" where
  "apply_content_block_start payload st =
     (case u64_at ''index'' payload of
        None \<Rightarrow> st
      | Some index \<Rightarrow>
          (let tool_calls = resize_to index (st_tool_calls st);
               block = (case object_at ''content_block'' payload of Some b \<Rightarrow> b | None \<Rightarrow> []);
               tool_call = tool_calls ! index;
               tool_call = update_opt (\<lambda>i a. a\<lparr>ta_id := i\<rparr>) (get_as as_str ''id'' block) tool_call;
               tool_call = update_opt (\<lambda>n a. a\<lparr>ta_name := n\<rparr>) (get_as as_str ''name'' block) tool_call;
               tool_call = update_opt (\<lambda>v a. a\<lparr>ta_input := Some v\<rparr>) (map_of block ''input'') tool_call
           in st\<lparr>st_tool_calls :=
                if get_as as_str ''type'' block = Some ''tool_use'' then tool_calls[index := tool_call] else tool_calls\<rparr>))"

definition apply_content_block_delta :: "json \<Rightarrow> AnthropicStream \<Rightarrow> AnthropicStream" where
  "apply_content_block_delta payload st =
     (let index = (case u64_at ''index'' payload of Some i \<Rightarrow> i | None \<Rightarrow> 0);
          tool_calls = resize_to index (st_tool_calls st);
          st = st\<lparr>st_tool_calls := tool_calls\<rparr>;
          delta = (case object_at ''delta'' payload of Some d \<Rightarrow> d | None \<Rightarrow> []);
          delta_type = (case get_as as_str ''type'' delta of Some t \<Rightarrow> t | None \<Rightarrow> [])
      in if delta_type = ''text_delta'' then
           update_opt (\<lambda>delta_text st. if delta_text \<noteq> [] then
               st\<lparr>st_text := st_text st @ delta_text, st_deltas := st_deltas st @ [delta_text]\<rparr> else st)
             (get_as as_str ''text'' delta) st
         else if delta_type = ''input_json_delta'' then
           update_opt (\<lambda>partial st. st\<lparr>st_tool_calls :=
               tool_calls[index := (tool_calls ! index)\<lparr>ta_partial_json := ta_partial_json (tool_calls ! index) @ partial\<rparr>]\<rparr>)
             (get_as as_str ''partial_json'' delta) st
         else st)"

definition apply_message_delta :: "json \<Rightarrow> AnthropicStream \<Rightarrow> AnthropicStream" where
  "apply_message_delta payload st =
     (let st = update_opt (\<lambda>reason st. st\<lparr>st_finish_reason := Some reason\<rparr>)
            (Option.bind (object_at ''delta'' payload) (get_as as_str ''stop_reason'')) st;
          usage_object = object_at ''usage'' payload;
          st = update_opt (\<lambda>output_tokens st. st\<lparr>st_usage := (st_usage st)\<lparr>cu_output_tokens := output_tokens,
                  cu_total_tokens := u64_add (cu_input_tokens (st_usage st)) output_tokens\<rparr>\<rparr>)
                 (Option.bind usage_object (get_as as_u64 ''output_tokens'')) st
      in update_opt (\<lambda>cached st. st\<lparr>st_usage := (st_usage st)\<lparr>cu_cached_input_tokens := cached\<rparr>\<rparr>)
           (Option.bind usage_object (get_as as_u64 ''cache_read_input_tokens'')) st)"

text \<open>A payload that parsed: an error, or what the event leaves.\<close>

definition apply_anthropic_payload :: "string option \<Rightarrow> json \<Rightarrow> AnthropicStream \<Rightarrow> TauAiError + AnthropicStream" where
  "apply_anthropic_payload event payload st =
     (let payload_type = (case str_at ''type'' payload of Some t \<Rightarrow> t | None \<Rightarrow> []);
          event_type = (case event of Some e \<Rightarrow> e | None \<Rightarrow> [])
      in if payload_type = ''error'' \<or> event_type = ''error'' then
           Inl (InvalidResponse (case Option.bind (object_at ''error'' payload) (get_as as_str ''message'') of
             Some message \<Rightarrow> message | None \<Rightarrow> ''anthropic stream returned error event''))
         else if payload_type = ''message_start'' then Inr (apply_message_start payload st)
         else if payload_type = ''content_block_start'' then Inr (apply_content_block_start payload st)
         else if payload_type = ''content_block_delta'' then Inr (apply_content_block_delta payload st)
         else if payload_type = ''message_delta'' then Inr (apply_message_delta payload st)
         else Inr st)"

definition apply_anthropic_stream_event ::
  "(string \<Rightarrow> string + json) \<Rightarrow> string option \<Rightarrow> string \<Rightarrow> AnthropicStream \<Rightarrow> TauAiError + AnthropicStream" where
  "apply_anthropic_stream_event from_str event data st =
     (if data = [] then Inr st
      else case from_str data of
        Inl error \<Rightarrow> Inl (InvalidResponse (''failed to parse Anthropic stream chunk: '' @ error))
      | Inr payload \<Rightarrow> apply_anthropic_payload event payload st)"

definition tool_use_block :: "(string \<Rightarrow> string + json) \<Rightarrow> nat \<times> AnthropicToolUseAccumulator \<Rightarrow> json ContentBlock option" where
  "tool_use_block from_str = (\<lambda>(index, tool_call).
     if trim (ta_name tool_call) = [] then None
     else Some (ToolCallBlock
       (if trim (ta_id tool_call) = [] then ''anthropic_tool_'' @ show_nat (index + 1) else ta_id tool_call)
       (ta_name tool_call)
       (case ta_input tool_call of
          Some input \<Rightarrow> input
        | None \<Rightarrow>
            if trim (ta_partial_json tool_call) \<noteq> [] then
              (case from_str (ta_partial_json tool_call) of Inr v \<Rightarrow> v | Inl _ \<Rightarrow> JString (ta_partial_json tool_call))
            else JObject [])))"

definition finalize_anthropic_stream_response :: "(string \<Rightarrow> string + json) \<Rightarrow> AnthropicStream \<Rightarrow> json ChatResponse" where
  "finalize_anthropic_stream_response from_str st =
     \<lparr>rs_message = assistant_blocks ((if trim (st_text st) \<noteq> [] then [TextBlock (st_text st)] else [])
        @ List.map_filter (tool_use_block from_str) (enumerate 0 (st_tool_calls st))),
      rs_finish_reason = st_finish_reason st, rs_usage = st_usage st\<rparr>"

subsection \<open>The lines of a stream\<close>

text \<open>The event and the data of the lines since the last empty one, with what the events before accumulated.\<close>

record AnthropicLines =
  li_event :: "string option"
  li_data :: string
  li_stream :: AnthropicStream

definition new_lines :: AnthropicLines where
  "new_lines = \<lparr>li_event = None, li_data = [], li_stream = new_stream\<rparr>"

definition dispatch_event ::
  "(string \<Rightarrow> string + json) \<Rightarrow> AnthropicLines \<Rightarrow> (TauAiError + unit) \<times> AnthropicLines" where
  "dispatch_event from_str ls =
     (case apply_anthropic_stream_event from_str (li_event ls) (trim (li_data ls)) (li_stream ls) of
        Inl e \<Rightarrow> (Inl e, ls\<lparr>li_event := None\<rparr>)
      | Inr stream \<Rightarrow> (Inr (), ls\<lparr>li_event := None, li_stream := stream\<rparr>))"

definition handle_line ::
  "(string \<Rightarrow> string + json) \<Rightarrow> string \<Rightarrow> AnthropicLines \<Rightarrow> (TauAiError + unit) \<times> AnthropicLines" where
  "handle_line from_str line ls =
     (if line = [] then
        (case dispatch_event from_str ls of
           (Inl e, ls) \<Rightarrow> (Inl e, ls)
         | (Inr _, ls) \<Rightarrow> (Inr (), ls\<lparr>li_data := []\<rparr>))
      else case strip_prefix ''event:'' line of
        Some event \<Rightarrow> (Inr (), ls\<lparr>li_event := Some (trim event)\<rparr>)
      | None \<Rightarrow>
          (case strip_prefix ''data:'' line of
             Some data \<Rightarrow>
               (Inr (), ls\<lparr>li_data := (if li_data ls \<noteq> [] then li_data ls @ [CHR 0x0A] else li_data ls) @ trim data\<rparr>)
           | None \<Rightarrow> (Inr (), ls)))"

text \<open>The complete lines of the buffer; what is left of it, or an error.\<close>

function drain_lines ::
  "(string \<Rightarrow> string + json) \<Rightarrow> string \<Rightarrow> AnthropicLines \<Rightarrow> (TauAiError + string) \<times> AnthropicLines" where
  "drain_lines from_str line_buffer ls =
     (case split_once (CHR 0x0A) line_buffer of
        None \<Rightarrow> (Inr line_buffer, ls)
      | Some (raw_line, rest) \<Rightarrow>
          (case handle_line from_str (trim_end_matches (CHR 0x0D) raw_line) ls of
             (Inl e, ls) \<Rightarrow> (Inl e, ls)
           | (Inr _, ls) \<Rightarrow> drain_lines from_str rest ls))"
  by pat_completeness auto
termination
  by (relation "measure (\<lambda>(from_str, line_buffer, ls). length line_buffer)") (auto simp: split_once_Some)

declare drain_lines.simps [simp del]

fun read_chunks ::
  "(string \<Rightarrow> string + json) \<Rightarrow> (string \<Rightarrow> string) \<Rightarrow> (reqwest_error + string) list \<Rightarrow> string \<Rightarrow> AnthropicLines
     \<Rightarrow> (TauAiError + unit) \<times> AnthropicLines" where
  "read_chunks from_str utf8_error [] line_buffer ls = (Inr (), ls)"
| "read_chunks from_str utf8_error (Inl error # chunks) line_buffer ls = (Inl (http_error error), ls)"
| "read_chunks from_str utf8_error (Inr fragment # chunks) line_buffer ls =
     (if \<not> valid_utf8 fragment then
        (Inl (InvalidResponse (''invalid UTF-8 in Anthropic streaming response: '' @ utf8_error fragment)), ls)
      else case drain_lines from_str (line_buffer @ fragment) ls of
        (Inl e, ls) \<Rightarrow> (Inl e, ls)
      | (Inr rest, ls) \<Rightarrow> read_chunks from_str utf8_error chunks rest ls)"

definition parse_messages_stream_response ::
  "(string \<Rightarrow> string + json) \<Rightarrow> (string \<Rightarrow> string) \<Rightarrow> (reqwest_error + string) list
     \<Rightarrow> string list \<times> (TauAiError + json ChatResponse)" where
  "parse_messages_stream_response from_str utf8_error chunks =
     (case (case read_chunks from_str utf8_error chunks [] new_lines of
              (Inl e, ls) \<Rightarrow> (Inl e, ls)
            | (Inr _, ls) \<Rightarrow> if trim (li_data ls) \<noteq> [] then dispatch_event from_str ls else (Inr (), ls))
      of (Inl e, ls) \<Rightarrow> (st_deltas (li_stream ls), Inl e)
       | (Inr _, ls) \<Rightarrow> (st_deltas (li_stream ls), Inr (finalize_anthropic_stream_response from_str (li_stream ls))))"

subsection \<open>How the bytes are cut into chunks does not matter\<close>

lemma split_once_append_Some: "split_once c a = Some (x, y) \<Longrightarrow> split_once c (a @ b) = Some (x, y @ b)"
  by (auto simp: split_once_Some)

lemma drain_lines_append:
  "drain_lines from_str (a @ b) ls =
     (case drain_lines from_str a ls of (Inl e, ls) \<Rightarrow> (Inl e, ls) | (Inr rest, ls) \<Rightarrow> drain_lines from_str (rest @ b) ls)"
proof (induction from_str a ls rule: drain_lines.induct)
  case (1 from_str a ls)
  show ?case
  proof (cases "split_once (CHR 0x0A) a")
    case None
    then show ?thesis by (simp add: drain_lines.simps [of from_str a])
  next
    case (Some p)
    then obtain line rest where p: "split_once (CHR 0x0A) a = Some (line, rest)" by (cases p) auto
    obtain r ls' where h: "handle_line from_str (trim_end_matches (CHR 0x0D) line) ls = (r, ls')" by fastforce
    show ?thesis
      using 1 [OF p refl h [symmetric]]
      by (cases r) (simp_all add: drain_lines.simps [of from_str a] drain_lines.simps [of from_str "a @ b"]
          p split_once_append_Some h)
  qed
qed

lemma drain_lines_rest: "drain_lines from_str a ls = (Inr rest, ls') \<Longrightarrow> CHR 0x0A \<notin> set rest"
proof (induction from_str a ls rule: drain_lines.induct)
  case (1 from_str a ls)
  show ?case
  proof (cases "split_once (CHR 0x0A) a")
    case None
    with 1 show ?thesis by (simp add: drain_lines.simps [of from_str a] split_once_None)
  next
    case (Some p)
    with 1 show ?thesis by (auto simp: drain_lines.simps [of from_str a] split: prod.splits sum.splits)
  qed
qed

lemma read_chunks_drain:
  assumes "list_all valid_utf8 fragments" "CHR 0x0A \<notin> set line_buffer"
  shows "read_chunks from_str utf8_error (map Inr fragments) line_buffer ls =
    (case drain_lines from_str (line_buffer @ concat fragments) ls of (Inl e, ls) \<Rightarrow> (Inl e, ls) | (Inr _, ls) \<Rightarrow> (Inr (), ls))"
  using assms
proof (induction fragments arbitrary: line_buffer ls)
  case Nil
  then show ?case by (simp add: drain_lines.simps split_once_None [THEN iffD2])
next
  case (Cons f fragments)
  show ?case
  proof (cases "drain_lines from_str (line_buffer @ f) ls")
    case (Pair r ls')
    have "drain_lines from_str (line_buffer @ concat (f # fragments)) ls
        = (case r of Inl e \<Rightarrow> (Inl e, ls') | Inr rest \<Rightarrow> drain_lines from_str (rest @ concat fragments) ls')"
      using drain_lines_append [of from_str "line_buffer @ f" "concat fragments" ls] Pair by (simp split: sum.split)
    with Cons Pair drain_lines_rest [of from_str "line_buffer @ f" ls _ ls'] show ?thesis by (cases r) simp_all
  qed
qed

text \<open>
  C15. A streamed response does not depend on how its bytes were cut into chunks, as long as no cut is inside a character:
  the deltas shown and the result, error or response, are those of the whole read as one chunk.
\<close>

theorem stream_chunking_irrelevant:
  assumes "list_all valid_utf8 fragments"
  shows "parse_messages_stream_response from_str utf8_error (map Inr fragments)
    = parse_messages_stream_response from_str utf8_error [Inr (concat fragments)]"
proof -
  have "valid_utf8 (concat fragments)"
    using assms by (induction fragments) (simp_all add: valid_utf8_append)
  then have "read_chunks from_str utf8_error (map Inr fragments) [] new_lines
      = read_chunks from_str utf8_error (map Inr [concat fragments]) [] new_lines"
    using assms read_chunks_drain [of fragments "[]"] read_chunks_drain [of "[concat fragments]" "[]"] by (simp del: read_chunks.simps)
  then show ?thesis by (simp add: parse_messages_stream_response_def)
qed

theorem stream_chunking_irrelevant_witness:
  "parse_messages_stream_response (\<lambda>_. Inr JNull) (\<lambda>_. []) (map Inr [''data'', '': 1'', [CHR 0x0A, CHR 0x0A], [CHR 0xC3, CHR 0xA9]])
    = parse_messages_stream_response (\<lambda>_. Inr JNull) (\<lambda>_. []) [Inr (concat [''data'', '': 1'', [CHR 0x0A, CHR 0x0A], [CHR 0xC3, CHR 0xA9]])]"
  by (rule stream_chunking_irrelevant) (simp add: continuation_def)

text \<open>A cut inside a character is an error, though the bytes as a whole are valid.\<close>

lemma stream_cut_inside_character:
  "valid_utf8 (concat [[CHR 0xC3], [CHR 0xA9]])"
  "snd (parse_messages_stream_response from_str utf8_error (map Inr [[CHR 0xC3], [CHR 0xA9]]))
     = Inl (InvalidResponse (''invalid UTF-8 in Anthropic streaming response: '' @ utf8_error [CHR 0xC3]))"
  "is_ok (snd (parse_messages_stream_response from_str utf8_error [Inr [CHR 0xC3, CHR 0xA9]]))"
  by (simp_all add: parse_messages_stream_response_def continuation_def drain_lines.simps new_lines_def)

subsection \<open>What was shown is what is recorded\<close>

definition stream_faithful :: "AnthropicStream \<Rightarrow> bool" where
  "stream_faithful st \<longleftrightarrow> concat (st_deltas st) = st_text st"

lemma apply_events_faithful:
  assumes "stream_faithful st"
  shows "stream_faithful (apply_message_start payload st)" "stream_faithful (apply_content_block_start payload st)"
    "stream_faithful (apply_content_block_delta payload st)" "stream_faithful (apply_message_delta payload st)"
proof -
  show "stream_faithful (apply_message_start payload st)"
    using assms by (simp add: apply_message_start_def update_opt_def Let_def stream_faithful_def split: option.split)
  show "stream_faithful (apply_content_block_start payload st)"
    using assms by (simp add: apply_content_block_start_def Let_def stream_faithful_def split: option.split)
  show "stream_faithful (apply_content_block_delta payload st)"
    using assms by (simp add: apply_content_block_delta_def update_opt_def Let_def stream_faithful_def split: option.split)
  show "stream_faithful (apply_message_delta payload st)"
    using assms by (simp add: apply_message_delta_def update_opt_def Let_def stream_faithful_def split: option.split)
qed

lemma apply_payload_faithful: "stream_faithful st \<Longrightarrow> apply_anthropic_payload event payload st = Inr st' \<Longrightarrow> stream_faithful st'"
  unfolding apply_anthropic_payload_def Let_def by (auto simp: apply_events_faithful split: if_splits)

lemma dispatch_faithful:
  "stream_faithful (li_stream ls) \<Longrightarrow> stream_faithful (li_stream (snd (dispatch_event from_str ls)))"
  by (auto simp: dispatch_event_def apply_anthropic_stream_event_def split: sum.split if_splits dest: apply_payload_faithful)

lemma handle_line_faithful:
  "stream_faithful (li_stream ls) \<Longrightarrow> stream_faithful (li_stream (snd (handle_line from_str line ls)))"
  using dispatch_faithful [of ls from_str] by (auto simp: handle_line_def split: option.split prod.splits sum.splits)

lemma drain_lines_faithful:
  "stream_faithful (li_stream ls) \<Longrightarrow> stream_faithful (li_stream (snd (drain_lines from_str a ls)))"
proof (induction from_str a ls rule: drain_lines.induct)
  case (1 from_str a ls)
  show ?case
  proof (cases "split_once (CHR 0x0A) a")
    case None
    with 1 show ?thesis by (simp add: drain_lines.simps)
  next
    case (Some p)
    then obtain line rest where p: "split_once (CHR 0x0A) a = Some (line, rest)" by (cases p) auto
    obtain r ls' where h: "handle_line from_str (trim_end_matches (CHR 0x0D) line) ls = (r, ls')" by fastforce
    have "stream_faithful (li_stream ls')"
      using handle_line_faithful [OF 1(2), of from_str "trim_end_matches (CHR 0x0D) line"] h by simp
    with 1(1) [OF p refl h [symmetric]] show ?thesis
      by (cases r) (simp_all add: drain_lines.simps [of from_str a] p h)
  qed
qed

lemma read_chunks_faithful:
  "stream_faithful (li_stream ls) \<Longrightarrow> stream_faithful (li_stream (snd (read_chunks from_str utf8_error chunks buffer ls)))"
proof (induction from_str utf8_error chunks buffer ls rule: read_chunks.induct)
  case (3 from_str utf8_error fragment chunks buffer ls)
  then show ?case
    using drain_lines_faithful [of ls from_str "buffer @ fragment"] by (auto split: prod.splits sum.splits)
qed simp_all

lemma tool_use_block_text: "tool_use_block from_str x = Some b \<Longrightarrow> block_text b = None"
  by (auto simp: tool_use_block_def split: prod.splits if_splits)

lemma finalized_text:
  "text_content (rs_message (finalize_anthropic_stream_response from_str st)) = (if trim (st_text st) \<noteq> [] then st_text st else [])"
proof -
  have "List.map_filter block_text (List.map_filter (tool_use_block from_str) xs) = []" for xs
    by (induction xs) (auto simp: map_filter_simps tool_use_block_text split: option.splits)
  then show ?thesis
    by (simp add: finalize_anthropic_stream_response_def text_content_def assistant_blocks_def map_filter_simps)
qed

lemma parsed_stream:
  assumes "parse_messages_stream_response from_str utf8_error chunks = (deltas, Inr response)"
  obtains ls :: AnthropicLines where "stream_faithful (li_stream ls)" "deltas = st_deltas (li_stream ls)"
    "response = finalize_anthropic_stream_response from_str (li_stream ls)"
proof -
  obtain r ls where ls: "read_chunks from_str utf8_error chunks [] new_lines = (r, ls)" by fastforce
  have f: "stream_faithful (li_stream ls)"
    using read_chunks_faithful [of new_lines from_str utf8_error chunks "[]"] ls
    by (simp add: new_lines_def new_stream_def stream_faithful_def)
  show thesis
    using assms dispatch_faithful [OF f, of from_str] f
    by (intro that [of "if trim (li_data ls) \<noteq> [] then snd (dispatch_event from_str ls) else ls"])
      (auto simp: parse_messages_stream_response_def ls split: sum.splits prod.splits if_splits)
qed

text \<open>
  C30. Whatever events a provider streams, the text of the recorded answer is the deltas that were shown, put together
  (or empty, if they are only white space).
\<close>

theorem streamed_text_is_recorded:
  assumes "parse_messages_stream_response from_str utf8_error chunks = (deltas, Inr response)"
  shows "text_content (rs_message response) = (if trim (concat deltas) \<noteq> [] then concat deltas else [])"
proof -
  obtain ls :: AnthropicLines where "stream_faithful (li_stream ls)" "deltas = st_deltas (li_stream ls)"
    "response = finalize_anthropic_stream_response from_str (li_stream ls)"
    by (rule parsed_stream [OF assms])
  then show ?thesis by (simp add: finalized_text stream_faithful_def)
qed

text \<open>A stream of two text deltas, as the two payloads a parser finds in it.\<close>

definition text_delta_payload :: "string \<Rightarrow> json" where
  "text_delta_payload t = JObject [(''type'', JString ''content_block_delta''),
     (''delta'', JObject [(''type'', JString ''text_delta''), (''text'', JString t)])]"

definition sample_from_str :: "string \<Rightarrow> string + json" where
  "sample_from_str s = (if s = ''1'' then Inr (text_delta_payload ''hel'') else if s = ''2'' then Inr (text_delta_payload ''lo'') else Inl ''no'')"

abbreviation line_feed :: string where "line_feed \<equiv> [CHR 0x0A]"

lemmas payload_defs = apply_anthropic_payload_def apply_content_block_start_def apply_content_block_delta_def resize_to_def
  json_get_def object_at_def str_at_def u64_at_def get_as_def update_opt_def Let_def

lemma sample_line_trims: "trim '' 1'' = ''1''" "trim '' 2'' = ''2''" "trim ''1'' = ''1''" "trim ''2'' = ''2''" "trim ''hello'' = ''hello''"
  by code_simp+

theorem streamed_text_is_recorded_witness:
  "\<exists>response. parse_messages_stream_response sample_from_str (\<lambda>_. [])
       [Inr (''data: 1'' @ line_feed @ line_feed), Inr (''data: 2'' @ line_feed)] = ([''hel'', ''lo''], Inr response)
     \<and> text_content (rs_message response) = (if trim (concat [''hel'', ''lo'']) \<noteq> [] then concat [''hel'', ''lo''] else [])"
proof -
  let ?r = "parse_messages_stream_response sample_from_str (\<lambda>_. []) [Inr (''data: 1'' @ line_feed @ line_feed), Inr (''data: 2'' @ line_feed)]"
  have "\<exists>response. ?r = ([''hel'', ''lo''], Inr response)"
    by (simp add: parse_messages_stream_response_def drain_lines.simps handle_line_def dispatch_event_def
        apply_anthropic_stream_event_def strip_prefix_def trim_end_matches_def new_lines_def new_stream_def
        sample_from_str_def text_delta_payload_def payload_defs sample_line_trims)
  then obtain response where r: "?r = ([''hel'', ''lo''], Inr response)" by blast
  from r streamed_text_is_recorded [OF r] show ?thesis by blast
qed

subsection \<open>Tool calls in a stream\<close>

text \<open>
  The input a block starts with wins over the input streamed after it. The provider starts a tool call with the empty
  object and streams the arguments, so they are lost.
\<close>

definition tool_start_payload :: "string \<Rightarrow> string \<Rightarrow> json \<Rightarrow> json" where
  "tool_start_payload i name input = JObject [(''type'', JString ''content_block_start''), (''index'', JInt 0),
     (''content_block'', JObject [(''type'', JString ''tool_use''), (''id'', JString i), (''name'', JString name), (''input'', input)])]"

definition input_delta_payload :: "string \<Rightarrow> json" where
  "input_delta_payload partial = JObject [(''type'', JString ''content_block_delta''), (''index'', JInt 0),
     (''delta'', JObject [(''type'', JString ''input_json_delta''), (''partial_json'', JString partial)])]"

lemma streamed_tool_arguments_lost:
  assumes "trim i \<noteq> []" "trim name \<noteq> []"
  shows "\<exists>st st'. apply_anthropic_payload None (tool_start_payload i name (JObject [])) new_stream = Inr st
     \<and> apply_anthropic_payload None (input_delta_payload partial) st = Inr st'
     \<and> ta_partial_json (st_tool_calls st' ! 0) = partial
     \<and> tool_calls (rs_message (finalize_anthropic_stream_response from_str st'))
         = [\<lparr>tc_id = i, tc_name = name, tc_arguments = JObject []\<rparr>]"
  using assms
  by (simp add: payload_defs tool_start_payload_def input_delta_payload_def new_stream_def empty_tool_use_def
      finalize_anthropic_stream_response_def tool_calls_def assistant_blocks_def map_filter_simps tool_use_block_def)

subsection \<open>The errors of a stream\<close>

text \<open>Reading a response fails with an error of the transport or of the format, never with a status.\<close>

fun format_error :: "TauAiError \<Rightarrow> bool" where
  "format_error (HttpStatus _ _) \<longleftrightarrow> False"
| "format_error _ \<longleftrightarrow> True"

lemma format_error_http [simp]: "format_error (http_error e)"
  by (cases e) simp

lemma dispatch_error: "dispatch_event from_str ls = (Inl e, ls') \<Longrightarrow> format_error e"
  by (auto simp: dispatch_event_def apply_anthropic_stream_event_def apply_anthropic_payload_def Let_def
      split: sum.splits if_splits)

lemma handle_line_error: "handle_line from_str line ls = (Inl e, ls') \<Longrightarrow> format_error e"
  by (auto simp: handle_line_def dest: dispatch_error split: if_splits option.splits prod.splits sum.splits)

lemma drain_lines_error: "drain_lines from_str a ls = (Inl e, ls') \<Longrightarrow> format_error e"
proof (induction from_str a ls rule: drain_lines.induct)
  case (1 from_str a ls)
  from 1(2) 1(1) show ?case
    unfolding drain_lines.simps [of from_str a] by (auto dest: handle_line_error split: option.splits prod.splits sum.splits)
qed

lemma read_chunks_error: "read_chunks from_str utf8_error chunks buffer ls = (Inl e, ls') \<Longrightarrow> format_error e"
  by (induction from_str utf8_error chunks buffer ls rule: read_chunks.induct)
    (auto dest: drain_lines_error split: if_splits prod.splits sum.splits)

lemma parse_stream_error: "snd (parse_messages_stream_response from_str utf8_error chunks) = Inl e \<Longrightarrow> format_error e"
  by (auto simp: parse_messages_stream_response_def dest: read_chunks_error dispatch_error split: if_splits prod.splits sum.splits)

lemma parse_response_error: "parse_messages_response from_response raw = Inl e \<Longrightarrow> format_error e"
  by (auto simp: parse_messages_response_def split: option.splits)

end
