(* ===== verification/Provider_Client.thy ===== *)
theory Provider_Client
  imports Provider_Anthropic Provider_Fallback
begin

text \<open>
  The Anthropic client as a client of the fallback router: the loop that sends a request, waits and sends it again
  (\<open>crates/tau-ai/src/anthropic.rs\<close>), over an environment that stands for the HTTP library, the clocks and the sleep. Then
  what the body of a request says of the conversation.
\<close>

subsection \<open>The environment and the client\<close>

record HttpResponse =
  hr_status :: nat
  hr_retry_after :: "string option"
  hr_content_type :: "string option"
  hr_text :: "reqwest_error + string"
  hr_chunks :: "(reqwest_error + string) list"

record 'w HttpEnv =
  he_send :: "string \<Rightarrow> (string \<times> string) list \<Rightarrow> json \<Rightarrow> 'w \<Rightarrow> (reqwest_error + HttpResponse) \<times> 'w"
  he_instant_ms :: "'w \<Rightarrow> nat \<times> 'w"
  he_unix_ms :: "'w \<Rightarrow> nat \<times> 'w"
  he_ms_until :: "'w \<Rightarrow> string \<Rightarrow> int option"
  he_sleep_ms :: "nat \<Rightarrow> 'w \<Rightarrow> 'w"
  he_from_str :: "string \<Rightarrow> string + json"
  he_from_response :: "string \<Rightarrow> AnthropicMessageResponse option"
  he_utf8_error :: "string \<Rightarrow> string"
  he_f32_json :: "nat \<Rightarrow> json"

text \<open>The process-wide counters of \<open>retry.rs\<close> and the world of the environment.\<close>

record 'w ProviderWorld =
  pw_request_counter :: "64 word"
  pw_jitter_counter :: "64 word"
  pw_world :: 'w

record AnthropicConfig =
  ac_api_base :: string
  ac_api_key :: string
  ac_request_timeout_ms :: nat
  ac_max_retries :: nat
  ac_retry_budget_ms :: nat
  ac_retry_jitter :: bool

text \<open>
  The client's default headers and timeout, given to the HTTP library's builder; \<open>header_error\<close> is the text of the
  error of a value that no header can have.
\<close>

definition new_anthropic_client ::
  "(string \<Rightarrow> string option) \<Rightarrow> ((string \<times> string) list \<Rightarrow> nat \<Rightarrow> reqwest_error + unit) \<Rightarrow> AnthropicConfig
     \<Rightarrow> TauAiError + AnthropicConfig" where
  "new_anthropic_client header_error builder config =
     (if trim (ac_api_key config) = [] then Inl MissingApiKey
      else case header_error (trim (ac_api_key config)) of
        Some e \<Rightarrow> Inl (InvalidResponse (''invalid API key header: '' @ e))
      | None \<Rightarrow>
          (case builder [(''content-type'', ''application/json''), (''x-api-key'', trim (ac_api_key config)),
                         (''anthropic-version'', ''2023-06-01'')] (max (ac_request_timeout_ms config) 1) of
             Inl e \<Rightarrow> Inl (http_error e)
           | Inr _ \<Rightarrow> Inr config))"

definition messages_url :: "AnthropicConfig \<Rightarrow> string" where
  "messages_url config =
     (let base = trim_end_matches (CHR ''/'') (ac_api_base config) in
      if suffix ''/messages'' base then base else base @ ''/messages'')"

definition new_request_id :: "'w HttpEnv \<Rightarrow> 'w ProviderWorld \<Rightarrow> string \<times> 'w ProviderWorld" where
  "new_request_id env pw =
     (case he_unix_ms env (pw_world pw) of (millis, w) \<Rightarrow>
        (''tau-rs-'' @ show_nat millis @ ''-'' @ show_nat (unat (pw_request_counter pw)),
         pw\<lparr>pw_world := w, pw_request_counter := pw_request_counter pw + 1\<rparr>))"

subsection \<open>Sending a request\<close>

definition read_text :: "HttpResponse \<Rightarrow> TauAiError + string" where
  "read_text response = (case hr_text response of Inl e \<Rightarrow> Inl (http_error e) | Inr raw \<Rightarrow> Inr raw)"

definition is_event_stream :: "HttpResponse \<Rightarrow> bool" where
  "is_event_stream response \<longleftrightarrow>
     (case hr_content_type response of Some v \<Rightarrow> contains (to_ascii_lowercase v) ''text/event-stream'' | None \<Rightarrow> False)"

definition read_success :: "'w HttpEnv \<Rightarrow> bool \<Rightarrow> HttpResponse \<Rightarrow> string list \<times> (TauAiError + json ChatResponse)" where
  "read_success env streaming response =
     (if streaming then
        (if is_event_stream response then parse_messages_stream_response (he_from_str env) (he_utf8_error env) (hr_chunks response)
         else case and_then (read_text response) (parse_messages_response (he_from_response env)) of
           Inl e \<Rightarrow> ([], Inl e)
         | Inr parsed \<Rightarrow>
             (let t = text_content (rs_message parsed) in (if t \<noteq> [] then [t] else [], Inr parsed)))
      else ([], and_then (read_text response) (parse_messages_response (he_from_response env))))"

text \<open>The wait before another attempt: whether the budget allows it, and the sleep if it does.\<close>

definition back_off ::
  "'w HttpEnv \<Rightarrow> AnthropicConfig \<Rightarrow> nat \<Rightarrow> nat \<Rightarrow> nat option \<Rightarrow> 'w ProviderWorld \<Rightarrow> bool \<times> 'w ProviderWorld" where
  "back_off env config started attempt retry_after_ms pw =
     (case provider_retry_delay_ms attempt (ac_retry_jitter config) retry_after_ms (pw_jitter_counter pw) of (backoff_ms, jitter) \<Rightarrow>
      case he_instant_ms env (pw_world pw) of (now, w) \<Rightarrow>
        (let pw = pw\<lparr>pw_jitter_counter := jitter, pw_world := w\<rparr> in
         if retry_budget_allows_delay ((now - started) mod 2 ^ 64) backoff_ms (ac_retry_budget_ms config)
         then (True, pw\<lparr>pw_world := he_sleep_ms env backoff_ms w\<rparr>) else (False, pw)))"

text \<open>
  What became of an attempt: the result of the request, or a failure, whether it is worth another attempt, and the delay
  the server asked for.
\<close>

definition attempt_outcome ::
  "'w HttpEnv \<Rightarrow> bool \<Rightarrow> 'w \<Rightarrow> reqwest_error + HttpResponse
     \<Rightarrow> (string list \<times> (TauAiError + json ChatResponse)) + (bool \<times> nat option \<times> TauAiError)" where
  "attempt_outcome env streaming w sent =
     (case sent of
        Inr response \<Rightarrow>
          if 200 \<le> hr_status response \<and> hr_status response < 300 then Inl (read_success env streaming response)
          else let retry_after_ms = parse_retry_after_ms (he_ms_until env w) (hr_retry_after response) in
            (case read_text response of
               Inl e \<Rightarrow> Inl ([], Inl e)
             | Inr raw \<Rightarrow> Inr (should_retry_status (hr_status response), retry_after_ms, HttpStatus (hr_status response) raw))
      | Inl error \<Rightarrow> Inr (is_retryable_http_error error, None, http_error error))"

text \<open>\<open>left\<close> is \<open>max_retries - attempt\<close>; the answer is what is left after the wait, if there is another attempt.\<close>

definition wait_to_retry ::
  "'w HttpEnv \<Rightarrow> AnthropicConfig \<Rightarrow> nat \<Rightarrow> nat \<Rightarrow> nat \<Rightarrow> bool \<Rightarrow> nat option \<Rightarrow> 'w ProviderWorld \<Rightarrow> nat option \<times> 'w ProviderWorld" where
  "wait_to_retry env config started left attempt retryable retry_after_ms pw =
     (case left of
        Suc left' \<Rightarrow>
          if retryable then
            (case back_off env config started attempt retry_after_ms pw of (waited, pw) \<Rightarrow> (if waited then Some left' else None, pw))
          else (None, pw)
      | 0 \<Rightarrow> (None, pw))"

lemma wait_to_retry_less: "wait_to_retry env config started left attempt retryable ra pw = (Some left', pw') \<Longrightarrow> left = Suc left'"
  by (auto simp: wait_to_retry_def split: nat.splits if_splits prod.splits)

function send_loop ::
  "'w HttpEnv \<Rightarrow> AnthropicConfig \<Rightarrow> string \<Rightarrow> json \<Rightarrow> bool \<Rightarrow> nat \<Rightarrow> nat \<Rightarrow> nat \<Rightarrow> 'w ProviderWorld
     \<Rightarrow> (string list \<times> (TauAiError + json ChatResponse)) \<times> 'w ProviderWorld" where
  "send_loop env config url body streaming started left attempt pw =
     (case new_request_id env pw of (request_id, pw) \<Rightarrow>
      case he_send env url [(''x-tau-request-id'', request_id), (''x-tau-retry-attempt'', show_nat attempt)] body (pw_world pw) of
        (sent, w) \<Rightarrow>
          (case attempt_outcome env streaming w sent of
             Inl answer \<Rightarrow> (answer, pw\<lparr>pw_world := w\<rparr>)
           | Inr (retryable, retry_after_ms, error) \<Rightarrow>
               (case wait_to_retry env config started left attempt retryable retry_after_ms (pw\<lparr>pw_world := w\<rparr>) of
                  (Some left', pw) \<Rightarrow> send_loop env config url body streaming started left' (attempt + 1) pw
                | (None, pw) \<Rightarrow> (([], Inl error), pw))))"
  by pat_completeness auto
termination
  by (relation "measure (\<lambda>(env, config, url, body, streaming, started, left, attempt, pw). left)")
    (auto dest: wait_to_retry_less [OF sym])

declare send_loop.simps [simp del]

definition anthropic_complete_with_mode :: "'w HttpEnv \<Rightarrow> AnthropicConfig \<Rightarrow> 'w ProviderWorld llm_client" where
  "anthropic_complete_with_mode env config request streaming pw =
     (let body = build_messages_request_body (he_f32_json env) request;
          body = (if streaming then json_insert ''stream'' (JBool True) body else body)
      in case he_instant_ms env (pw_world pw) of (started, w) \<Rightarrow>
           send_loop env config (messages_url config) (JObject body) streaming started (ac_max_retries config) 0 (pw\<lparr>pw_world := w\<rparr>))"

subsection \<open>How often a request is sent\<close>

lemma back_off_counter [simp]: "back_off env config started attempt ra pw = (waited, pw') \<Longrightarrow> pw_request_counter pw' = pw_request_counter pw"
  by (auto simp: back_off_def Let_def split: prod.splits if_splits)

lemma back_off_unlimited: "ac_retry_budget_ms config = 0 \<Longrightarrow> fst (back_off env config started attempt ra pw)"
  by (simp add: back_off_def retry_budget_allows_delay_def Let_def split: prod.split)

lemma new_request_id_counter: "new_request_id env pw = (i, pw') \<Longrightarrow> pw_request_counter pw' = pw_request_counter pw + 1"
  by (auto simp: new_request_id_def split: prod.splits)

lemma read_success_error: "snd (read_success env streaming response) = Inl e \<Longrightarrow> format_error e"
  by (auto simp: read_success_def read_text_def result_simps Let_def
      dest: parse_stream_error parse_response_error split: if_splits sum.splits)

lemma wait_to_retry_counter:
  "wait_to_retry env config started left attempt retryable ra pw = (r, pw') \<Longrightarrow> pw_request_counter pw' = pw_request_counter pw"
  by (auto simp: wait_to_retry_def dest: back_off_counter split: nat.splits if_splits prod.splits)

lemma wait_to_retry_unlimited:
  "wait_to_retry env config started left attempt True ra pw = (None, pw') \<Longrightarrow> ac_retry_budget_ms config = 0 \<Longrightarrow> left = 0"
  using back_off_unlimited [of config env started attempt ra pw]
  by (auto simp: wait_to_retry_def split: nat.splits if_splits prod.splits)

lemma attempt_outcome_final: "attempt_outcome env streaming w sent = Inl (ds, Inl e) \<Longrightarrow> format_error e"
  using read_success_error [of env streaming]
  by (auto simp: attempt_outcome_def read_text_def Let_def split: sum.splits if_splits) (metis snd_conv)+

lemma attempt_outcome_retryable:
  "attempt_outcome env streaming w sent = Inr (retryable, ra, HttpStatus status raw) \<Longrightarrow> retryable \<longleftrightarrow> should_retry_status status"
  by (cases sent) (auto simp: attempt_outcome_def Let_def split: sum.splits if_splits)

lemma send_loop_requests:
  "\<exists>k. 1 \<le> k \<and> k \<le> Suc left
     \<and> pw_request_counter (snd (send_loop env config url body streaming started left attempt pw)) = pw_request_counter pw + of_nat k
     \<and> (\<forall>status raw. snd (fst (send_loop env config url body streaming started left attempt pw)) = Inl (HttpStatus status raw)
          \<and> should_retry_status status \<and> ac_retry_budget_ms config = 0 \<longrightarrow> k = Suc left)"
proof (induction env config url body streaming started left attempt pw rule: send_loop.induct)
  case (1 env config url body streaming started left attempt pw)
  obtain i pw\<^sub>1 where i: "new_request_id env pw = (i, pw\<^sub>1)" by fastforce
  obtain sent w where r: "he_send env url [(''x-tau-request-id'', i), (''x-tau-retry-attempt'', show_nat attempt)] body (pw_world pw\<^sub>1) = (sent, w)"
    by fastforce
  note c = new_request_id_counter [OF i]
  show ?case
  proof (cases "attempt_outcome env streaming w sent")
    case (Inl answer)
    obtain ds res where answer: "answer = (ds, res)" by fastforce
    have "res \<noteq> Inl (HttpStatus status raw)" for status raw
      using attempt_outcome_final [of env streaming w sent ds "HttpStatus status raw"] Inl answer by auto
    with c Inl answer show ?thesis
      by (intro exI [of _ 1]) (simp add: send_loop.simps [of env] i r)
  next
    case (Inr failure)
    then obtain retryable ra error where o: "attempt_outcome env streaming w sent = Inr (retryable, ra, error)" by (cases failure) auto
    obtain after pw\<^sub>2 where n: "wait_to_retry env config started left attempt retryable ra (pw\<^sub>1\<lparr>pw_world := w\<rparr>) = (after, pw\<^sub>2)"
      by fastforce
    note c' = wait_to_retry_counter [OF n]
    show ?thesis
    proof (cases after)
      case None
      have "left = 0" if "error = HttpStatus status raw" "should_retry_status status" "ac_retry_budget_ms config = 0" for status raw
        using that o n None attempt_outcome_retryable [of env streaming w sent retryable ra status raw]
          wait_to_retry_unlimited [of env config started left attempt ra "pw\<^sub>1\<lparr>pw_world := w\<rparr>" pw\<^sub>2] by simp
      with c c' o n None show ?thesis by (intro exI [of _ 1]) (simp add: send_loop.simps [of env] i r)
    next
      case (Some left')
      have loop: "send_loop env config url body streaming started left attempt pw
          = send_loop env config url body streaming started left' (attempt + 1) pw\<^sub>2"
        using o n Some by (simp add: send_loop.simps [of env config url body streaming started left attempt pw] i r)
      from 1 [OF i [symmetric] r [symmetric] o refl refl n [symmetric] Some] obtain k where
        "1 \<le> k" "k \<le> Suc left'" "pw_request_counter (snd (send_loop env config url body streaming started left' (attempt + 1) pw\<^sub>2)) = pw_request_counter pw\<^sub>2 + of_nat k"
        "\<forall>status raw. snd (fst (send_loop env config url body streaming started left' (attempt + 1) pw\<^sub>2)) = Inl (HttpStatus status raw)
          \<and> should_retry_status status \<and> ac_retry_budget_ms config = 0 \<longrightarrow> k = Suc left'"
        by blast
      with loop c c' wait_to_retry_less [OF n [unfolded Some]] show ?thesis
        by (intro exI [of _ "Suc k"]) (simp add: algebra_simps)
    qed
  qed
qed

fun retryable_status :: "TauAiError + json ChatResponse \<Rightarrow> bool" where
  "retryable_status (Inl (HttpStatus status _)) \<longleftrightarrow> should_retry_status status"
| "retryable_status _ \<longleftrightarrow> False"

lemma retryable_status_iff:
  "retryable_status r \<longleftrightarrow> (\<exists>status raw. r = Inl (HttpStatus status raw) \<and> should_retry_status status)"
  by (cases r rule: retryable_status.cases) auto

text \<open>
  C39. A request is sent at least once and at most once more than the number of retries; each time takes one number of
  the request counter. Without a budget, a status worth a retry is reported only when all the attempts were made.
\<close>

theorem requests_sent_bounded:
  "\<exists>k. pw_request_counter (snd (anthropic_complete_with_mode env config request streaming pw)) = pw_request_counter pw + of_nat k
     \<and> (if retryable_status (snd (fst (anthropic_complete_with_mode env config request streaming pw))) \<and> ac_retry_budget_ms config = 0
        then k = Suc (ac_max_retries config) else 1 \<le> k \<and> k \<le> Suc (ac_max_retries config))"
proof -
  obtain started w where "he_instant_ms env (pw_world pw) = (started, w)" by fastforce
  then obtain body where "anthropic_complete_with_mode env config request streaming pw
      = send_loop env config (messages_url config) body streaming started (ac_max_retries config) 0 (pw\<lparr>pw_world := w\<rparr>)"
    by (simp add: anthropic_complete_with_mode_def Let_def)
  with send_loop_requests [of "ac_max_retries config" env config "messages_url config" body streaming started 0 "pw\<lparr>pw_world := w\<rparr>"]
  show ?thesis by (auto simp: retryable_status_iff)
qed

subsection \<open>What a request says of the tool calls\<close>

datatype traffic = Called string | Answered string

definition message_traffic :: "json Message \<Rightarrow> traffic list" where
  "message_traffic m =
     (case msg_role m of
        Assistant \<Rightarrow> map (\<lambda>c. Called (tc_id c)) (tool_calls m)
      | Tool \<Rightarrow> (case msg_tool_call_id m of Some i \<Rightarrow> [Answered i] | None \<Rightarrow> [])
      | System \<Rightarrow> [] | User \<Rightarrow> [])"

definition part_traffic :: "json \<Rightarrow> traffic list" where
  "part_traffic part =
     (if str_at ''type'' part = Some ''tool_use'' then (case str_at ''id'' part of Some i \<Rightarrow> [Called i] | None \<Rightarrow> [])
      else if str_at ''type'' part = Some ''tool_result'' then (case str_at ''tool_use_id'' part of Some i \<Rightarrow> [Answered i] | None \<Rightarrow> [])
      else [])"

definition json_message_traffic :: "json \<Rightarrow> traffic list" where
  "json_message_traffic m =
     (case Option.bind (json_get ''content'' m) as_array of Some parts \<Rightarrow> concat (map part_traffic parts) | None \<Rightarrow> [])"

definition body_traffic :: "(string \<times> json) list \<Rightarrow> traffic list" where
  "body_traffic body =
     (case get_as as_array ''messages'' body of
        None \<Rightarrow> []
      | Some messages \<Rightarrow>
          concat (map json_message_traffic messages))"

lemma json_get_object: "json_get key (json_object members) = map_of (rev members) key"
  using map_of_json_object [of members] by (auto simp: json_get_def json_object_def)

lemma traffic_parts [simp]:
  "part_traffic (text_part t) = []"
  "part_traffic (json_object [(''type'', JString ''tool_use''), (''id'', JString i), (''name'', JString n), (''input'', a)]) = [Called i]"
  "part_traffic (json_object [(''type'', JString ''image''), (''source'', v)]) = []"
  "part_traffic (json_object [(''type'', JString ''tool_result''), (''tool_use_id'', JString i), (''content'', c), (''is_error'', e)]) = [Answered i]"
  by (simp_all add: part_traffic_def text_part_def str_at_def json_get_object)

lemma content_part_traffic:
  "(case to_anthropic_content_part allow b of Some p \<Rightarrow> part_traffic p | None \<Rightarrow> [])
     = (if allow then (case block_tool_call b of Some c \<Rightarrow> [Called (tc_id c)] | None \<Rightarrow> []) else [])"
  by (cases "(allow, b)" rule: to_anthropic_content_part.cases) simp_all

lemma concat_map_filter: "concat (map f (List.map_filter g xs)) = concat (map (\<lambda>x. case g x of Some y \<Rightarrow> f y | None \<Rightarrow> []) xs)"
  by (induction xs) (auto simp: map_filter_simps split: option.split)

lemma map_map_filter: "map f (List.map_filter g xs) = concat (map (\<lambda>x. case g x of Some y \<Rightarrow> [f y] | None \<Rightarrow> []) xs)"
  by (induction xs) (auto simp: map_filter_simps split: option.split)

lemma content_parts_traffic:
  "concat (map part_traffic (to_anthropic_content_parts m allow))
     = (if allow then map (\<lambda>c. Called (tc_id c)) (tool_calls m) else [])"
  unfolding to_anthropic_content_parts_def concat_map_filter content_part_traffic tool_calls_def
  by (cases allow) (simp_all add: map_map_filter)

lemma role_message_traffic [simp]: "json_message_traffic (role_message role parts) = concat (map part_traffic parts)"
  by (simp add: json_message_traffic_def role_message_def json_get_object)

lemma to_message_traffic:
  "(case to_anthropic_message m of Some j \<Rightarrow> json_message_traffic j | None \<Rightarrow> []) = message_traffic m"
  using content_parts_traffic [of m False] content_parts_traffic [of m True]
  by (auto simp: to_anthropic_message_def message_traffic_def Let_def split: MessageRole.split option.split)

lemma request_body_steps:
  "map_of (with_system_prompt request body) ''messages'' = map_of body ''messages''"
  "map_of (with_tools request body) ''messages'' = map_of body ''messages''"
  "map_of (with_temperature f32_json request body) ''messages'' = map_of body ''messages''"
  by (simp_all add: with_system_prompt_def set_anthropic_system_prompt_def with_tools_def with_temperature_def Let_def split: option.split)

lemma body_messages:
  "map_of (build_messages_request_body f32_json request) ''messages'' = Some (to_anthropic_messages (rq_messages request))"
  by (simp add: build_messages_request_body_def request_body_steps)

text \<open>
  C31. The body of a request shows the provider the tool calls of the conversation and the answers to them, each with its
  identifier, all of them and in the order of the messages.
\<close>

theorem request_keeps_tool_traffic:
  "body_traffic (build_messages_request_body f32_json request) = concat (map message_traffic (rq_messages request))"
  by (simp add: body_traffic_def get_as_def body_messages to_anthropic_messages_def concat_map_filter to_message_traffic)

text \<open>A request that forbids tools has the same body as one that leaves the choice to the model.\<close>

lemma no_tool_choice_not_sent:
  "build_messages_request_body f32_json (request\<lparr>rq_tool_choice := Some NoTool\<rparr>)
     = build_messages_request_body f32_json (request\<lparr>rq_tool_choice := None\<rparr>)"
proof -
  have "with_temperature f32_json (request\<lparr>rq_tool_choice := c\<rparr>) = with_temperature f32_json request"
    "with_system_prompt (request\<lparr>rq_tool_choice := c\<rparr>) = with_system_prompt request" for c
    by (simp_all add: with_temperature_def with_system_prompt_def fun_eq_iff Let_def split: option.split)
  then show ?thesis
    by (simp add: build_messages_request_body_def with_tools_def split: option.split)
qed

end
