(* ===== verification/Event_Types.thy ===== *)
theory Event_Types
  imports Json_File Json_Value
begin

text \<open>
  Scheduled events (\<open>crates/tau-events/src/lib.rs\<close>): definitions, the state of the runner, the files they are in, and
  when an event is due. The cron and time zone libraries are the argument \<open>CronLib\<close>; deserializing a definition is an argument.
  An error is its outermost message. Counters of elements of a list are not long enough to saturate and are written with \<open>+\<close>.
\<close>

subsection \<open>Data\<close>

abbreviation EVENT_RUNNER_STATE_SCHEMA_VERSION :: nat where "EVENT_RUNNER_STATE_SCHEMA_VERSION \<equiv> 1"
abbreviation EVENT_EXECUTION_HISTORY_LIMIT :: nat where "EVENT_EXECUTION_HISTORY_LIMIT \<equiv> 256"

datatype EventSchedule = Immediate | At nat | Periodic string string

record EventDefinition =
  ed_id :: string
  ed_channel :: string
  ed_prompt :: string
  ed_schedule :: EventSchedule
  ed_enabled :: bool
  ed_created_unix_ms :: "nat option"

record EventRecord =
  er_path :: string
  er_definition :: EventDefinition

record EventExecutionRecord =
  ex_timestamp_unix_ms :: nat
  ex_event_id :: string
  ex_channel :: string
  ex_schedule :: string
  ex_outcome :: string
  ex_reason_code :: string

record EventRunnerState =
  es_schema_version :: nat
  es_periodic_last_run :: "(string, nat) hash_map"
  es_debounce_last_seen :: "(string, nat) hash_map"
  es_signature_replay_last_seen :: "(string, nat) hash_map"
  es_recent_executions :: "EventExecutionRecord list"

definition default_runner_state :: EventRunnerState where
  "default_runner_state = \<lparr>es_schema_version = EVENT_RUNNER_STATE_SCHEMA_VERSION, es_periodic_last_run = [],
     es_debounce_last_seen = [], es_signature_replay_last_seen = [], es_recent_executions = []\<rparr>"

datatype DueDecision = RunNow | NotDue | SkipStaleRemove

fun schedule_name :: "EventSchedule \<Rightarrow> string" where
  "schedule_name Immediate = ''immediate''"
| "schedule_name (At _) = ''at''"
| "schedule_name (Periodic _ _) = ''periodic''"

definition sanitize_error_message :: "string \<Rightarrow> string" where
  "sanitize_error_message raw = join '' '' (split_whitespace raw)"

definition quote :: "string \<Rightarrow> string" where
  "quote s = [CHR 0x27] @ s @ [CHR 0x27]"

subsection \<open>The runner's state file\<close>

definition load_runner_state :: "EventRunnerState json_file \<Rightarrow> string \<Rightarrow> string + EventRunnerState" where
  "load_runner_state state_file path =
     (case state_file of
        NoFile \<Rightarrow> Inr default_runner_state
      | OtherFile \<Rightarrow> Inl (''failed to parse '' @ path)
      | JsonFile state \<Rightarrow>
          if es_schema_version state \<noteq> EVENT_RUNNER_STATE_SCHEMA_VERSION then
            Inl (''unsupported event runner state schema: expected '' @ show_nat EVENT_RUNNER_STATE_SCHEMA_VERSION
              @ '', found '' @ show_nat (es_schema_version state))
          else Inr state)"

definition save_runner_state ::
  "bool \<Rightarrow> string \<Rightarrow> EventRunnerState \<Rightarrow> EventRunnerState json_file \<Rightarrow> (string + unit) \<times> EventRunnerState json_file" where
  "save_runner_state written path state state_file = save_json written (''failed to write '' @ path) state state_file"

definition append_execution_record :: "EventExecutionRecord \<Rightarrow> EventRunnerState \<Rightarrow> EventRunnerState" where
  "append_execution_record entry state =
     (let executions = es_recent_executions state @ [entry] in
      state\<lparr>es_recent_executions :=
        if length executions > EVENT_EXECUTION_HISTORY_LIMIT
        then drop (length executions - EVENT_EXECUTION_HISTORY_LIMIT) executions else executions\<rparr>)"

definition execution_record :: "nat \<Rightarrow> EventDefinition \<Rightarrow> string \<Rightarrow> string \<Rightarrow> EventExecutionRecord" where
  "execution_record now event result reason =
     \<lparr>ex_timestamp_unix_ms = now, ex_event_id = ed_id event, ex_channel = ed_channel event,
      ex_schedule = schedule_name (ed_schedule event), ex_outcome = result, ex_reason_code = reason\<rparr>"

subsection \<open>When an event is due\<close>

text \<open>
  The libraries: a cron expression, a time zone, the moment of a number of milliseconds in a zone (if it is one), and the
  milliseconds of the first occurrence after a moment.
\<close>

record ('c, 'z, 't) CronLib =
  cr_schedule :: "string \<Rightarrow> 'c option"
  cr_timezone :: "string \<Rightarrow> 'z option"
  cr_timestamp :: "'z \<Rightarrow> nat \<Rightarrow> 't option"
  cr_after :: "'c \<Rightarrow> 't \<Rightarrow> int option"

definition next_periodic_due_unix_ms :: "('c, 'z, 't) CronLib \<Rightarrow> string \<Rightarrow> string \<Rightarrow> nat \<Rightarrow> string + nat" where
  "next_periodic_due_unix_ms lib cron timezone from_unix_ms =
     and_then (ok_or (cr_schedule lib cron) (''invalid cron expression '' @ quote cron)) (\<lambda>schedule.
     and_then (ok_or (cr_timezone lib timezone) (''invalid timezone '' @ quote timezone)) (\<lambda>tz.
     and_then (ok_or (cr_timestamp lib tz (if from_unix_ms \<le> i64_max then from_unix_ms else i64_max))
                 ''invalid from timestamp for periodic schedule'') (\<lambda>from_time.
     and_then (ok_or (cr_after lib schedule from_time) (''cron expression '' @ quote cron @ '' has no future occurrence'')) (\<lambda>next_ms.
     Inr (if next_ms < 0 then u64_max else nat next_ms)))))"

definition last_run_or_recent :: "EventRunnerState \<Rightarrow> EventDefinition \<Rightarrow> nat \<Rightarrow> nat" where
  "last_run_or_recent state event now_unix_ms =
     (case map_of (es_periodic_last_run state) (ed_id event) of Some t \<Rightarrow> t | None \<Rightarrow> now_unix_ms - 60000)"

definition due_decision ::
  "('c, 'z, 't) CronLib \<Rightarrow> EventDefinition \<Rightarrow> EventRunnerState \<Rightarrow> nat \<Rightarrow> nat \<Rightarrow> string + DueDecision" where
  "due_decision lib event state now_unix_ms stale_immediate_max_age_seconds =
     (if \<not> ed_enabled event then Inr NotDue
      else case ed_schedule event of
        Immediate \<Rightarrow>
          if stale_immediate_max_age_seconds = 0 then Inr RunNow
          else let created = (case ed_created_unix_ms event of Some c \<Rightarrow> c | None \<Rightarrow> now_unix_ms);
                   max_age_ms = u64_saturating_mul stale_immediate_max_age_seconds 1000
               in if now_unix_ms - created > max_age_ms then Inr SkipStaleRemove else Inr RunNow
      | At at_unix_ms \<Rightarrow> if now_unix_ms \<ge> at_unix_ms then Inr RunNow else Inr NotDue
      | Periodic cron timezone \<Rightarrow>
          and_then (next_periodic_due_unix_ms lib cron timezone (last_run_or_recent state event now_unix_ms)) (\<lambda>next_due.
            if next_due \<le> now_unix_ms then Inr RunNow else Inr NotDue))"

subsection \<open>The directory of event definitions\<close>

text \<open>A file: what reading it gives (the text of the error, or its text) and when it was modified, if the system says.\<close>

record EventFile =
  ef_path :: string
  ef_name :: string
  ef_raw :: "string + string"
  ef_modified :: "nat option"

text \<open>Listing the directory may fail, and so may each entry of it.\<close>

datatype events_dir = DirMissing | DirNotDirectory | DirUnreadable | DirEntries "EventFile option list"

text \<open>\<open>Path::extension\<close> of a file name.\<close>

definition extension :: "string \<Rightarrow> string option" where
  "extension name =
     (let after = takeWhile (\<lambda>c. c \<noteq> CHR ''.'') (rev name); stem = drop (Suc (length after)) (rev name) in
      if CHR ''.'' \<notin> set name \<or> stem = [] then None else Some (rev after))"

definition is_json_file :: "EventFile \<Rightarrow> bool" where
  "is_json_file f \<longleftrightarrow> extension (ef_name f) = Some ''json''"

fun dir_files :: "string \<Rightarrow> EventFile option list \<Rightarrow> string + EventFile list" where
  "dir_files dir [] = Inr []"
| "dir_files dir (None # entries) = Inl (''failed to read entry in '' @ dir)"
| "dir_files dir (Some f # entries) = and_then (dir_files dir entries) (\<lambda>fs. Inr (f # fs))"

text \<open>
  A record from a file: a definition that does not say when it was created takes the time the file was modified, or
  the current time. \<open>None\<close> is a malformed file.
\<close>

definition event_record :: "(string \<Rightarrow> string + EventDefinition) \<Rightarrow> nat \<Rightarrow> EventFile \<Rightarrow> EventRecord option" where
  "event_record parse current f =
     (case ef_raw f of
        Inl _ \<Rightarrow> None
      | Inr raw \<Rightarrow>
          (case parse raw of
             Inl _ \<Rightarrow> None
           | Inr definition \<Rightarrow>
               Some \<lparr>er_path = ef_path f,
                 er_definition = (if ed_created_unix_ms definition = None
                   then definition\<lparr>ed_created_unix_ms := Some (case ef_modified f of Some t \<Rightarrow> t | None \<Rightarrow> current)\<rparr>
                   else definition)\<rparr>))"

definition load_event_records ::
  "(string \<Rightarrow> string + EventDefinition) \<Rightarrow> nat \<Rightarrow> string \<Rightarrow> events_dir \<Rightarrow> string + (EventRecord list \<times> nat)" where
  "load_event_records parse current dir listing =
     (case listing of
        DirMissing \<Rightarrow> Inr ([], 0)
      | DirNotDirectory \<Rightarrow> Inl (''failed to read '' @ dir)
      | DirUnreadable \<Rightarrow> Inl (''failed to read '' @ dir)
      | DirEntries entries \<Rightarrow>
          and_then (dir_files dir entries) (\<lambda>files.
            let json_files = filter is_json_file files in
            Inr (sort_key (\<lambda>r. ed_id (er_definition r)) (List.map_filter (event_record parse current) json_files),
                 length (filter (\<lambda>f. event_record parse current f = None) json_files))))"

text \<open>The paths of \<open>collect_event_definition_paths\<close>, with their files.\<close>

definition collect_event_definition_files :: "string \<Rightarrow> events_dir \<Rightarrow> string + EventFile list" where
  "collect_event_definition_files dir listing =
     (case listing of
        DirMissing \<Rightarrow> Inr []
      | DirNotDirectory \<Rightarrow> Inl (''events dir is not a directory: '' @ dir)
      | DirUnreadable \<Rightarrow> Inl (''failed to read '' @ dir)
      | DirEntries entries \<Rightarrow>
          and_then (dir_files dir entries) (\<lambda>files. Inr (sort_key ef_path (filter is_json_file files))))"

subsection \<open>Channel references\<close>

record ChannelRef =
  ch_transport :: string
  ch_channel_id :: string

definition parse_channel_ref :: "string \<Rightarrow> string + ChannelRef" where
  "parse_channel_ref raw =
     (let failure = ''invalid channel ref '' @ quote raw @ '', expected transport/channel_id'' in
      case split_once (CHR ''/'') (trim raw) of
        None \<Rightarrow> Inl failure
      | Some (transport, channel_id) \<Rightarrow>
          if trim transport = [] \<or> trim channel_id = [] then Inl failure
          else Inr \<lparr>ch_transport = trim transport, ch_channel_id = trim channel_id\<rparr>)"

end
