(* ===== verification/Event_Webhook.thy ===== *)
theory Event_Webhook
  imports Event_Types Rust_Net
begin

text \<open>
  Webhooks as immediate events (\<open>ingest_webhook_immediate_event\<close> of \<open>crates/tau-events/src/lib.rs\<close>): the signature of the
  payload, the guard against replays, debouncing, and the definition that is written. HMAC-SHA256 and SHA-256 are arguments.
  Strings are their bytes.
\<close>

subsection \<open>Signatures\<close>

datatype WebhookSignatureAlgorithm = GithubSha256 | SlackV0

text \<open>\<open>u8::from_str_radix(hex, 16)\<close> of two bytes: a sign is allowed before a digit.\<close>

definition hex_byte :: "char \<Rightarrow> char \<Rightarrow> nat option" where
  "hex_byte a b =
     (if a = CHR ''+'' then to_digit 16 b
      else case (to_digit 16 a, to_digit 16 b) of (Some h, Some l) \<Rightarrow> Some (16 * h + l) | _ \<Rightarrow> None)"

fun hex_bytes :: "string \<Rightarrow> string + nat list" where
  "hex_bytes [] = Inr []"
| "hex_bytes [a] = Inl ''invalid utf-8 in digest''"
| "hex_bytes (a # b # rest) =
     (if \<not> valid_utf8 [a, b] then Inl ''invalid utf-8 in digest''
      else case hex_byte a b of
        None \<Rightarrow> Inl (''invalid hex byte '' @ quote [a, b] @ '' in signature digest'')
      | Some n \<Rightarrow> and_then (hex_bytes rest) (\<lambda>ns. Inr (n # ns)))"

definition decode_hex :: "string \<Rightarrow> string + nat list" where
  "decode_hex v =
     (let trimmed = trim v in
      if trimmed = [] then Inl ''signature digest cannot be empty''
      else if odd (length trimmed) then Inl ''signature digest must have an even number of hex characters''
      else hex_bytes trimmed)"

text \<open>\<open>hmac secret message\<close> is the code of a message.\<close>

type_synonym hmac = "string \<Rightarrow> string \<Rightarrow> nat list"

definition verify_github_sha256_signature :: "hmac \<Rightarrow> string \<Rightarrow> string \<Rightarrow> string \<Rightarrow> string + unit" where
  "verify_github_sha256_signature hmac payload signature secret =
     (case strip_prefix ''sha256='' signature of
        None \<Rightarrow> Inl ''github webhook signature must use sha256=<hex> format''
      | Some digest_hex \<Rightarrow>
          and_then (decode_hex digest_hex) (\<lambda>signature_bytes.
            if hmac secret payload = signature_bytes then Inr () else Inl ''webhook signature verification failed''))"

definition verify_slack_v0_signature :: "hmac \<Rightarrow> string \<Rightarrow> string \<Rightarrow> string \<Rightarrow> string \<Rightarrow> string + unit" where
  "verify_slack_v0_signature hmac payload signature timestamp secret =
     (case strip_prefix ''v0='' signature of
        None \<Rightarrow> Inl ''slack webhook signature must use v0=<hex> format''
      | Some digest_hex \<Rightarrow>
          and_then (decode_hex digest_hex) (\<lambda>signature_bytes.
            if hmac secret (''v0:'' @ timestamp @ '':'' @ payload) = signature_bytes then Inr ()
            else Inl ''webhook signature verification failed''))"

definition abs_diff :: "nat \<Rightarrow> nat \<Rightarrow> nat" where
  "abs_diff a b = (if a \<le> b then b - a else a - b)"

definition validate_timestamp_skew :: "string \<Rightarrow> nat \<Rightarrow> nat \<Rightarrow> string + unit" where
  "validate_timestamp_skew timestamp now_unix_ms max_skew_seconds =
     (if max_skew_seconds = 0 then Inr ()
      else case parse_u64 (trim timestamp) of
        None \<Rightarrow> Inl (''invalid webhook timestamp '' @ quote timestamp)
      | Some timestamp_seconds \<Rightarrow>
          (let skew = abs_diff (now_unix_ms div 1000) timestamp_seconds in
           if skew > max_skew_seconds then
             Inl (''webhook timestamp skew '' @ show_nat skew @ ''s exceeds max '' @ show_nat max_skew_seconds @ ''s'')
           else Inr ()))"

definition verify_webhook_signature ::
  "hmac \<Rightarrow> string \<Rightarrow> string option \<Rightarrow> string option \<Rightarrow> string option \<Rightarrow> WebhookSignatureAlgorithm option \<Rightarrow> nat \<Rightarrow> nat
     \<Rightarrow> string + string option" where
  "verify_webhook_signature hmac payload_raw signature timestamp secret algorithm now_unix_ms max_skew_seconds =
     (if signature = None \<and> timestamp = None \<and> secret = None \<and> algorithm = None then Inr None
      else
        and_then (ok_or (trimmed_text signature) ''--event-webhook-signature is required when webhook signing is configured'') (\<lambda>signature.
        and_then (ok_or (trimmed_text secret) ''--event-webhook-secret is required when webhook signing is configured'') (\<lambda>secret.
        and_then (ok_or algorithm ''--event-webhook-signature-algorithm is required when webhook signing is configured'') (\<lambda>algorithm.
        and_then
          (case algorithm of
             GithubSha256 \<Rightarrow>
               and_then (verify_github_sha256_signature hmac payload_raw signature secret) (\<lambda>_.
               and_then (case timestamp of Some v \<Rightarrow> validate_timestamp_skew v now_unix_ms max_skew_seconds | None \<Rightarrow> Inr ()) (\<lambda>_.
               Inr (''github_sha256:'' @ (case timestamp of Some v \<Rightarrow> v | None \<Rightarrow> []) @ '':'' @ signature)))
           | SlackV0 \<Rightarrow>
               and_then (ok_or (trimmed_text timestamp) ''--event-webhook-timestamp is required for slack-v0 signatures'') (\<lambda>timestamp.
               and_then (verify_slack_v0_signature hmac payload_raw signature timestamp secret) (\<lambda>_.
               and_then (validate_timestamp_skew timestamp now_unix_ms max_skew_seconds) (\<lambda>_.
               Inr (''slack_v0:'' @ timestamp @ '':'' @ signature)))))
          (\<lambda>replay_key. Inr (Some (to_ascii_lowercase replay_key)))))))"

subsection \<open>Replays\<close>

definition enforce_signature_replay_guard ::
  "string \<Rightarrow> nat \<Rightarrow> nat \<Rightarrow> EventRunnerState \<Rightarrow> string + EventRunnerState" where
  "enforce_signature_replay_guard replay_key now_unix_ms max_skew_seconds state =
     (let window_ms = u64_saturating_mul (max max_skew_seconds 1) 1000;
          retain_window_ms = u64_saturating_mul window_ms 3;
          retained = filter (\<lambda>(_, seen). now_unix_ms - seen \<le> retain_window_ms) (es_signature_replay_last_seen state)
      in if (case map_of retained replay_key of Some last_seen \<Rightarrow> now_unix_ms - last_seen \<le> window_ms | None \<Rightarrow> False)
         then Inl (''webhook signature replay detected for key '' @ quote replay_key)
         else Inr (state\<lparr>es_signature_replay_last_seen := AList.update replay_key now_unix_ms retained\<rparr>))"

subsection \<open>Ingesting a webhook\<close>

record EventWebhookIngestConfig =
  wc_events_dir :: string
  wc_state_path :: string
  wc_channel_ref :: string
  wc_payload_file :: string
  wc_prompt_prefix :: string
  wc_debounce_key :: "string option"
  wc_debounce_window_seconds :: nat
  wc_signature :: "string option"
  wc_timestamp :: "string option"
  wc_secret :: "string option"
  wc_signature_algorithm :: "WebhookSignatureAlgorithm option"
  wc_signature_max_skew_seconds :: nat

definition short_hash :: "(string \<Rightarrow> nat list) \<Rightarrow> string \<Rightarrow> string" where
  "short_hash sha256 bytes = concat (map (\<lambda>b. [hex_digits ! (b div 16), hex_digits ! (b mod 16)]) (take 6 (sha256 bytes)))"

text \<open>
  A character that is not ASCII is several bytes: it becomes one underscore, the bytes that continue it none.
\<close>

definition sanitize_char :: "char \<Rightarrow> string" where
  "sanitize_char ch =
     (if is_ascii_alphanumeric ch \<or> ch \<in> {CHR ''-'', CHR ''_'', CHR ''.''} then [ch]
      else if leading_byte ch then ''_'' else [])"

definition trim_underscores :: "string \<Rightarrow> string" where
  "trim_underscores s = rev (dropWhile (\<lambda>c. c = CHR ''_'') (rev (dropWhile (\<lambda>c. c = CHR ''_'') s)))"

definition sanitize_for_path :: "string \<Rightarrow> string" where
  "sanitize_for_path raw =
     (let trimmed = trim_underscores (concat (map sanitize_char raw)) in if trimmed = [] then ''event'' else trimmed)"

definition debounced :: "EventWebhookIngestConfig \<Rightarrow> nat \<Rightarrow> EventRunnerState \<Rightarrow> bool" where
  "debounced config now_unix_ms state \<longleftrightarrow>
     (case wc_debounce_key config of
        None \<Rightarrow> False
      | Some key \<Rightarrow>
          (case map_of (es_debounce_last_seen state) key of
             Some last_seen \<Rightarrow> now_unix_ms - last_seen < u64_saturating_mul (wc_debounce_window_seconds config) 1000
           | None \<Rightarrow> False))"

definition webhook_event :: "(string \<Rightarrow> nat list) \<Rightarrow> EventWebhookIngestConfig \<Rightarrow> nat \<Rightarrow> string \<Rightarrow> EventDefinition" where
  "webhook_event sha256 config now_unix_ms payload =
     \<lparr>ed_id = ''webhook-'' @ show_nat now_unix_ms @ ''-'' @ short_hash sha256 payload, ed_channel = wc_channel_ref config,
      ed_prompt = wc_prompt_prefix config @ [CHR 0x0A, CHR 0x0A] @ ''Webhook payload:'' @ [CHR 0x0A] @ payload,
      ed_schedule = Immediate, ed_enabled = True, ed_created_unix_ms = Some now_unix_ms\<rparr>"

definition record_debounce :: "EventWebhookIngestConfig \<Rightarrow> nat \<Rightarrow> EventRunnerState \<Rightarrow> EventRunnerState" where
  "record_debounce config now_unix_ms state =
     (case wc_debounce_key config of
        Some key \<Rightarrow> state\<lparr>es_debounce_last_seen := AList.update key now_unix_ms (es_debounce_last_seen state)\<rparr>
      | None \<Rightarrow> state)"

text \<open>The state with the signature verified and recorded.\<close>

definition admit_webhook ::
  "hmac \<Rightarrow> EventWebhookIngestConfig \<Rightarrow> nat \<Rightarrow> string \<Rightarrow> EventRunnerState json_file \<Rightarrow> string + EventRunnerState" where
  "admit_webhook hmac config now_unix_ms payload_raw state_file =
     and_then (load_runner_state state_file (wc_state_path config)) (\<lambda>state.
     and_then (verify_webhook_signature hmac payload_raw (wc_signature config) (wc_timestamp config) (wc_secret config)
       (wc_signature_algorithm config) now_unix_ms (wc_signature_max_skew_seconds config)) (\<lambda>replay_key.
     case replay_key of
       Some key \<Rightarrow> enforce_signature_replay_guard key now_unix_ms (wc_signature_max_skew_seconds config) state
     | None \<Rightarrow> Inr state))"

text \<open>
  The payload file as read (its text, or that reading failed); whether the directory is there or could be made, and
  whether the writes of the event and of the state succeed.
  The answer: an error, or the path and definition of the event that was written, or nothing when it was debounced; and the
  state file afterwards.
\<close>

definition ingest_webhook_immediate_event ::
  "hmac \<Rightarrow> (string \<Rightarrow> nat list) \<Rightarrow> bool \<Rightarrow> bool \<Rightarrow> bool \<Rightarrow> EventWebhookIngestConfig \<Rightarrow> nat \<Rightarrow> string option \<Rightarrow> EventRunnerState json_file
     \<Rightarrow> (string + unit) \<times> (string \<times> EventDefinition) option \<times> EventRunnerState json_file" where
  "ingest_webhook_immediate_event hmac sha256 dir_created event_written state_written config now_unix_ms payload_file state_file =
     (if \<not> dir_created then (Inl (''failed to create '' @ wc_events_dir config), None, state_file)
      else case payload_file of
        None \<Rightarrow> (Inl (''failed to read '' @ wc_payload_file config), None, state_file)
      | Some payload_raw \<Rightarrow>
          if trim payload_raw = [] then (Inl (''webhook payload file is empty: '' @ wc_payload_file config), None, state_file)
          else case admit_webhook hmac config now_unix_ms payload_raw state_file of
            Inl e \<Rightarrow> (Inl e, None, state_file)
          | Inr state \<Rightarrow>
              if debounced config now_unix_ms state then (Inr (), None, state_file)
              else let state = record_debounce config now_unix_ms state;
                       event = webhook_event sha256 config now_unix_ms (trim payload_raw);
                       path = wc_events_dir config @ ''/'' @ sanitize_for_path (ed_id event) @ ''.json''
                   in if \<not> event_written then (Inl (''failed to write '' @ path), None, state_file)
                      else case save_runner_state state_written (wc_state_path config) state state_file of
                        (result, state_file) \<Rightarrow> (result, Some (path, event), state_file))"

subsection \<open>A webhook is not accepted twice\<close>




text \<open>What the guard sees of a webhook.\<close>

definition signature_replay_key ::
  "hmac \<Rightarrow> EventWebhookIngestConfig \<Rightarrow> nat \<Rightarrow> string \<Rightarrow> string + string option" where
  "signature_replay_key hmac config now payload =
     verify_webhook_signature hmac payload (wc_signature config) (wc_timestamp config) (wc_secret config)
       (wc_signature_algorithm config) now (wc_signature_max_skew_seconds config)"

definition signed_key :: "EventWebhookIngestConfig \<Rightarrow> string option" where
  "signed_key config =
     (case (trimmed_text (wc_signature config), wc_signature_algorithm config) of
        (Some signature, Some GithubSha256) \<Rightarrow>
          Some (to_ascii_lowercase (''github_sha256:'' @ (case wc_timestamp config of Some v \<Rightarrow> v | None \<Rightarrow> []) @ '':'' @ signature))
      | (Some signature, Some SlackV0) \<Rightarrow>
          map_option (\<lambda>t. to_ascii_lowercase (''slack_v0:'' @ t @ '':'' @ signature)) (trimmed_text (wc_timestamp config))
      | _ \<Rightarrow> None)"

lemma signature_replay_key_signed:
  assumes "signature_replay_key hmac config now payload = Inr key" "wc_signature config \<noteq> None"
  shows "key \<noteq> None \<and> key = signed_key config"
proof (cases "wc_signature_algorithm config")
  case None
  with assms show ?thesis by (auto simp: signature_replay_key_def verify_webhook_signature_def result_simps)
next
  case (Some algorithm)
  with assms show ?thesis
    by (cases algorithm) (auto simp: signature_replay_key_def verify_webhook_signature_def signed_key_def result_simps)
qed


lemma record_debounce_simps [simp]:
  "es_schema_version (record_debounce config now state) = es_schema_version state"
  "es_signature_replay_last_seen (record_debounce config now state) = es_signature_replay_last_seen state"
  by (simp_all add: record_debounce_def split: option.split)




subsection \<open>Sample webhooks\<close>

definition sample_webhook :: "string option \<Rightarrow> EventWebhookIngestConfig" where
  "sample_webhook timestamp = \<lparr>wc_events_dir = ''events'', wc_state_path = ''state.json'', wc_channel_ref = ''github/r'', wc_payload_file = ''p'',
     wc_prompt_prefix = ''x'', wc_debounce_key = None, wc_debounce_window_seconds = 0, wc_signature = Some ''sha256=ab'',
     wc_timestamp = timestamp, wc_secret = Some ''k'', wc_signature_algorithm = Some GithubSha256, wc_signature_max_skew_seconds = 0\<rparr>"

definition sample_hmac :: hmac where "sample_hmac secret message = (if secret = ''k'' \<and> message = ''hello'' then [0xAB] else [])"

definition sample_sha256 :: "string \<Rightarrow> nat list" where "sample_sha256 _ = [1, 2, 3, 4, 5, 6, 7]"

abbreviation "sample_ingest timestamp \<equiv>
  ingest_webhook_immediate_event sample_hmac sample_sha256 True True True (sample_webhook timestamp)"

lemma sample_webhook_trims: "trim ''sha256=ab'' = ''sha256=ab''" "trim ''k'' = ''k''" "trim ''ab'' = ''ab''" "trim ''hello'' = ''hello''"
  by code_simp+

lemma sample_verified:
  "signature_replay_key sample_hmac (sample_webhook timestamp) now ''hello''
     = Inr (Some (to_ascii_lowercase (''github_sha256:'' @ (case timestamp of Some v \<Rightarrow> v | None \<Rightarrow> []) @ '':'' @ ''sha256=ab'')))"
proof -
  have "verify_github_sha256_signature sample_hmac ''hello'' ''sha256=ab'' ''k'' = Inr ()"
    by (simp add: verify_github_sha256_signature_def strip_prefix_def decode_hex_def sample_webhook_trims hex_byte_def to_digit_def
        hex_digits_def ascii_lower_def sample_hmac_def)
  then show ?thesis
    by (simp add: signature_replay_key_def sample_webhook_def verify_webhook_signature_def trimmed_text_def sample_webhook_trims
        validate_timestamp_skew_def split: option.split)
qed

lemma sample_accepted:
  assumes "load_runner_state state_file ''state.json'' = Inr state"
    "map_of (es_signature_replay_last_seen state) (the (signed_key (sample_webhook timestamp))) = None"
  shows "\<exists>event state'. sample_ingest timestamp now (Some ''hello'') state_file = (Inr (), Some event, JsonFile state')
    \<and> es_schema_version state' = es_schema_version state
    \<and> fst ` set (es_signature_replay_last_seen state') \<subseteq> insert (the (signed_key (sample_webhook timestamp))) (fst ` set (es_signature_replay_last_seen state))"
proof -
  have sk: "signature_replay_key sample_hmac (sample_webhook timestamp) now ''hello'' = Inr (Some (the (signed_key (sample_webhook timestamp))))"
    using signature_replay_key_signed [OF sample_verified [of timestamp now]] sample_verified [of timestamp now]
    by (metis option.sel sample_webhook_def EventWebhookIngestConfig.select_convs(8) option.distinct(1))
  have none: "map_of (filter P m) key = None" if "map_of m key = None" for P m and key :: string
    using that by (auto simp: map_of_eq_None_iff)
  have "admit_webhook sample_hmac (sample_webhook timestamp) now ''hello'' state_file
      = enforce_signature_replay_guard (the (signed_key (sample_webhook timestamp))) now (wc_signature_max_skew_seconds (sample_webhook timestamp)) state"
    using assms(1) sk by (simp add: admit_webhook_def signature_replay_key_def) (simp add: sample_webhook_def)
  with none [OF assms(2)] show ?thesis
    by (simp add: ingest_webhook_immediate_event_def save_runner_state_def enforce_signature_replay_guard_def Let_def sample_webhook_trims)
      (auto simp: sample_webhook_def debounced_def record_debounce_def dom_update)
qed

text \<open>
  The key of a GitHub webhook has the time stamp, which its signature does not cover: the same payload with the same
  signature and another time stamp is accepted again at once.
\<close>

lemma github_replay_with_other_time_stamp:
  "\<exists>event event' file file'. sample_ingest (Some ''1'') 5000 (Some ''hello'') NoFile = (Inr (), Some event, file)
     \<and> sample_ingest (Some ''2'') 5000 (Some ''hello'') file = (Inr (), Some event', file')"
proof -
  have "load_runner_state NoFile ''state.json'' = Inr default_runner_state" by (simp add: load_runner_state_def)
  from sample_accepted [OF this, of "Some ''1''" 5000] obtain event state where
    first: "sample_ingest (Some ''1'') 5000 (Some ''hello'') NoFile = (Inr (), Some event, JsonFile state)"
    "es_schema_version state = EVENT_RUNNER_STATE_SCHEMA_VERSION"
    "fst ` set (es_signature_replay_last_seen state) \<subseteq> {the (signed_key (sample_webhook (Some ''1'')))}"
    by (auto simp: default_runner_state_def)
  have "the (signed_key (sample_webhook (Some ''2''))) \<noteq> the (signed_key (sample_webhook (Some ''1'')))"
    by (simp add: signed_key_def sample_webhook_def trimmed_text_def sample_webhook_trims to_ascii_lowercase_def ascii_lower_def)
  with first(3) have "map_of (es_signature_replay_last_seen state) (the (signed_key (sample_webhook (Some ''2'')))) = None"
    by (auto simp: map_of_eq_None_iff)
  moreover have "load_runner_state (JsonFile state) ''state.json'' = Inr state" by (simp add: load_runner_state_def first(2))
  ultimately have "\<exists>event' state'. sample_ingest (Some ''2'') 5000 (Some ''hello'') (JsonFile state) = (Inr (), Some event', JsonFile state')"
    using sample_accepted [of "JsonFile state" state "Some ''2''" 5000] by blast
  with first(1) show ?thesis by blast
qed


end
