(* ===== verification/Event_Scheduler.thy ===== *)
theory Event_Scheduler
  imports Event_Types
begin

text \<open>
  A poll of the scheduler (\<open>EventSchedulerRuntime\<close> of \<open>crates/tau-events/src/lib.rs\<close>): the due events are selected up to the
  limit of the queue, stale ones removed, the selected ones executed, and the state saved. Opening a channel store, appending to
  its log and the runner are arguments that act on a world of their own; the directory changes only by the scheduler's removals.
  The loop \<open>run\<close> polls for ever; what it does is a sequence of polls.
\<close>

subsection \<open>The runtime\<close>

record ChannelLogEntry =
  le_timestamp_unix_ms :: nat
  le_direction :: string
  le_event_key :: "string option"
  le_source :: string
  le_payload :: json

record ('c, 'z, 't, 's, 'w) EventEnv =
  ev_cron :: "('c, 'z, 't) CronLib"
  ev_parse :: "string \<Rightarrow> string + EventDefinition"
  ev_schedule_json :: "EventSchedule \<Rightarrow> json"
  ev_open_store :: "string \<Rightarrow> string \<Rightarrow> 'w \<Rightarrow> (string + 's) \<times> 'w"
  ev_append_log :: "'s \<Rightarrow> ChannelLogEntry \<Rightarrow> 'w \<Rightarrow> (string + unit) \<times> 'w"
  ev_run_event :: "EventDefinition \<Rightarrow> nat \<Rightarrow> 's \<Rightarrow> 'w \<Rightarrow> (string + unit) \<times> 'w"
  ev_removable :: "string \<Rightarrow> bool"
  ev_clock :: "'w \<Rightarrow> nat"
  ev_saved :: "'w \<Rightarrow> bool"

record EventSchedulerConfig =
  sc_events_dir :: string
  sc_state_path :: string
  sc_queue_limit :: nat
  sc_stale_immediate_max_age_seconds :: nat

record 'w EventSchedulerRuntime =
  rt_state :: EventRunnerState
  rt_dir :: events_dir
  rt_state_file :: "EventRunnerState json_file"
  rt_world :: 'w

record EventPollReport =
  pr_discovered :: nat
  pr_queued :: nat
  pr_executed :: nat
  pr_stale_skipped :: nat
  pr_malformed_skipped :: nat
  pr_failed :: nat

definition new_scheduler :: "bool \<Rightarrow> EventSchedulerConfig \<Rightarrow> events_dir \<Rightarrow> EventRunnerState json_file \<Rightarrow> 'w \<Rightarrow> string + 'w EventSchedulerRuntime" where
  "new_scheduler created config listing state_file w =
     (if \<not> created then Inl (''failed to create '' @ sc_events_dir config)
      else and_then (load_runner_state state_file (sc_state_path config)) (\<lambda>state.
        Inr \<lparr>rt_state = state, rt_dir = (case listing of DirMissing \<Rightarrow> DirEntries [] | other \<Rightarrow> other), rt_state_file = state_file, rt_world = w\<rparr>))"

definition remove_from_dir :: "string \<Rightarrow> events_dir \<Rightarrow> events_dir" where
  "remove_from_dir path listing =
     (case listing of
        DirEntries entries \<Rightarrow> DirEntries (filter (\<lambda>e. case e of Some f \<Rightarrow> ef_path f \<noteq> path | None \<Rightarrow> True) entries)
      | other \<Rightarrow> other)"

text \<open>\<open>let _ = std::fs::remove_file(&record.path)\<close>.\<close>

definition remove_file :: "('c, 'z, 't, 's, 'w) EventEnv \<Rightarrow> string \<Rightarrow> 'w EventSchedulerRuntime \<Rightarrow> 'w EventSchedulerRuntime" where
  "remove_file env path rt = (if ev_removable env path then rt\<lparr>rt_dir := remove_from_dir path (rt_dir rt)\<rparr> else rt)"

definition log_execution :: "nat \<Rightarrow> EventDefinition \<Rightarrow> string \<Rightarrow> string \<Rightarrow> 'w EventSchedulerRuntime \<Rightarrow> 'w EventSchedulerRuntime" where
  "log_execution now event result reason rt =
     rt\<lparr>rt_state := append_execution_record (execution_record now event result reason) (rt_state rt)\<rparr>"

subsection \<open>Selecting the events that are due\<close>

definition queue_size :: "EventSchedulerConfig \<Rightarrow> nat" where
  "queue_size config = max (sc_queue_limit config) 1"

text \<open>The queue so far and the number of stale events are arguments.\<close>

fun select_due ::
  "('c, 'z, 't, 's, 'w) EventEnv \<Rightarrow> EventSchedulerConfig \<Rightarrow> nat \<Rightarrow> EventRecord list \<Rightarrow> EventRecord list \<Rightarrow> nat \<Rightarrow> 'w EventSchedulerRuntime
     \<Rightarrow> (string + (EventRecord list \<times> nat)) \<times> 'w EventSchedulerRuntime" where
  "select_due env config now [] queued stale rt = (Inr (queued, stale), rt)"
| "select_due env config now (r # rs) queued stale rt =
     (case due_decision (ev_cron env) (er_definition r) (rt_state rt) now (sc_stale_immediate_max_age_seconds config) of
        Inl e \<Rightarrow> (Inl e, rt)
      | Inr RunNow \<Rightarrow>
          if length (queued @ [r]) \<ge> queue_size config then (Inr (queued @ [r], stale), rt)
          else select_due env config now rs (queued @ [r]) stale rt
      | Inr SkipStaleRemove \<Rightarrow>
          select_due env config now rs queued (stale + 1)
            (remove_file env (er_path r) (log_execution now (er_definition r) ''skipped'' ''stale_immediate'' rt))
      | Inr NotDue \<Rightarrow> select_due env config now rs queued stale rt)"

subsection \<open>Executing an event\<close>

definition inbound_entry :: "('c, 'z, 't, 's, 'w) EventEnv \<Rightarrow> EventDefinition \<Rightarrow> nat \<Rightarrow> ChannelLogEntry" where
  "inbound_entry env event now =
     \<lparr>le_timestamp_unix_ms = now, le_direction = ''inbound'', le_event_key = Some (ed_id event), le_source = ''events'',
      le_payload = json_object [(''event_id'', JString (ed_id event)), (''channel'', JString (ed_channel event)),
        (''prompt'', JString (ed_prompt event)), (''schedule'', ev_schedule_json env (ed_schedule event))]\<rparr>"

definition execute_event :: "('c, 'z, 't, 's, 'w) EventEnv \<Rightarrow> EventDefinition \<Rightarrow> nat \<Rightarrow> 'w \<Rightarrow> (string + unit) \<times> 'w" where
  "execute_event env event now w =
     (case parse_channel_ref (ed_channel event) of
        Inl e \<Rightarrow> (Inl e, w)
      | Inr channel_ref \<Rightarrow>
          (case ev_open_store env (ch_transport channel_ref) (ch_channel_id channel_ref) w of
             (Inl e, w) \<Rightarrow> (Inl e, w)
           | (Inr store, w) \<Rightarrow>
               (case ev_append_log env store (inbound_entry env event now) w of
                  (Inl e, w) \<Rightarrow> (Inl e, w)
                | (Inr _, w) \<Rightarrow> ev_run_event env event now store w)))"

definition run_record ::
  "('c, 'z, 't, 's, 'w) EventEnv \<Rightarrow> nat \<Rightarrow> EventRecord \<Rightarrow> 'w EventSchedulerRuntime \<Rightarrow> bool \<times> 'w EventSchedulerRuntime" where
  "run_record env now r rt =
     (let event = er_definition r in
      case execute_event env event now (rt_world rt) of
        (Inr _, w) \<Rightarrow>
          (let rt = log_execution now event ''executed'' ''event_executed'' (rt\<lparr>rt_world := w\<rparr>) in
           (True, case ed_schedule event of
              Immediate \<Rightarrow> remove_file env (er_path r) rt
            | At _ \<Rightarrow> remove_file env (er_path r) rt
            | Periodic _ _ \<Rightarrow>
                rt\<lparr>rt_state := (rt_state rt)\<lparr>es_periodic_last_run := AList.update (ed_id event) now (es_periodic_last_run (rt_state rt))\<rparr>\<rparr>))
      | (Inl _, w) \<Rightarrow> (False, log_execution now event ''failed'' ''runner_error'' (rt\<lparr>rt_world := w\<rparr>)))"

text \<open>How many were executed and how many failed.\<close>

fun run_queue ::
  "('c, 'z, 't, 's, 'w) EventEnv \<Rightarrow> nat \<Rightarrow> EventRecord list \<Rightarrow> nat \<times> nat \<Rightarrow> 'w EventSchedulerRuntime \<Rightarrow> (nat \<times> nat) \<times> 'w EventSchedulerRuntime" where
  "run_queue env now [] counts rt = (counts, rt)"
| "run_queue env now (r # rs) (executed, failed) rt =
     (case run_record env now r rt of (ok, rt) \<Rightarrow>
        run_queue env now rs (if ok then (executed + 1, failed) else (executed, failed + 1)) rt)"

subsection \<open>A poll\<close>

definition poll_once ::
  "('c, 'z, 't, 's, 'w) EventEnv \<Rightarrow> EventSchedulerConfig \<Rightarrow> nat \<Rightarrow> 'w EventSchedulerRuntime
     \<Rightarrow> (string + EventPollReport) \<times> 'w EventSchedulerRuntime" where
  "poll_once env config now rt =
     (case load_event_records (ev_parse env) (ev_clock env (rt_world rt)) (sc_events_dir config) (rt_dir rt) of
        Inl e \<Rightarrow> (Inl e, rt)
      | Inr (records, malformed) \<Rightarrow>
          (case select_due env config now records [] 0 rt of
             (Inl e, rt) \<Rightarrow> (Inl e, rt)
           | (Inr (queued, stale), rt) \<Rightarrow>
               (case run_queue env now queued (0, 0) rt of ((executed, failed), rt) \<Rightarrow>
                case save_runner_state (ev_saved env (rt_world rt)) (sc_state_path config) (rt_state rt) (rt_state_file rt) of
                  (Inl e, state_file) \<Rightarrow> (Inl e, rt\<lparr>rt_state_file := state_file\<rparr>)
                | (Inr _, state_file) \<Rightarrow>
                    (Inr \<lparr>pr_discovered = length records, pr_queued = length queued, pr_executed = executed,
                       pr_stale_skipped = stale, pr_malformed_skipped = malformed, pr_failed = failed\<rparr>,
                     rt\<lparr>rt_state_file := state_file\<rparr>))))"

subsection \<open>What is selected\<close>

definition decision ::
  "('c, 'z, 't, 's, 'w) EventEnv \<Rightarrow> EventSchedulerConfig \<Rightarrow> nat \<Rightarrow> EventRunnerState \<Rightarrow> EventRecord \<Rightarrow> string + DueDecision" where
  "decision env config now state r =
     due_decision (ev_cron env) (er_definition r) state now (sc_stale_immediate_max_age_seconds config)"

definition due_records ::
  "('c, 'z, 't, 's, 'w) EventEnv \<Rightarrow> EventSchedulerConfig \<Rightarrow> nat \<Rightarrow> EventRunnerState \<Rightarrow> EventRecord list \<Rightarrow> EventRecord list" where
  "due_records env config now state rs = filter (\<lambda>r. decision env config now state r = Inr RunNow) rs"

lemma due_decision_cong:
  "es_periodic_last_run state = es_periodic_last_run state' \<Longrightarrow> due_decision lib event state = due_decision lib event state'"
  by (simp add: due_decision_def last_run_or_recent_def fun_eq_iff cong: EventSchedule.case_cong)

lemma log_execution_simps [simp]:
  "rt_dir (log_execution now event result reason rt) = rt_dir rt"
  "rt_world (log_execution now event result reason rt) = rt_world rt"
  "rt_state_file (log_execution now event result reason rt) = rt_state_file rt"
  "es_periodic_last_run (rt_state (log_execution now event result reason rt)) = es_periodic_last_run (rt_state rt)"
  by (simp_all add: log_execution_def append_execution_record_def Let_def)

lemma remove_file_simps [simp]:
  "rt_state (remove_file env path rt) = rt_state rt" "rt_world (remove_file env path rt) = rt_world rt"
  "rt_state_file (remove_file env path rt) = rt_state_file rt"
  by (simp_all add: remove_file_def)

lemma decision_log [simp]:
  "decision env config now (rt_state (log_execution now event result reason rt)) = decision env config now (rt_state rt)"
proof -
  have "due_decision (ev_cron env) e (rt_state (log_execution now event result reason rt)) = due_decision (ev_cron env) e (rt_state rt)" for e
    by (rule due_decision_cong) simp
  then show ?thesis by (simp add: decision_def fun_eq_iff)
qed

lemma select_due_step:
  "select_due env config now (r # rs) queued stale rt =
     (case decision env config now (rt_state rt) r of
        Inl e \<Rightarrow> (Inl e, rt)
      | Inr RunNow \<Rightarrow>
          if length (queued @ [r]) \<ge> queue_size config then (Inr (queued @ [r], stale), rt)
          else select_due env config now rs (queued @ [r]) stale rt
      | Inr SkipStaleRemove \<Rightarrow>
          select_due env config now rs queued (stale + 1)
            (remove_file env (er_path r) (log_execution now (er_definition r) ''skipped'' ''stale_immediate'' rt))
      | Inr NotDue \<Rightarrow> select_due env config now rs queued stale rt)"
  by (simp add: decision_def)

declare select_due.simps(2) [simp del]

lemma queue_size_pos [simp]: "0 < queue_size config"
  by (simp add: queue_size_def)

lemma select_due_queue:
  assumes "select_due env config now rs queued stale rt = (Inr (q, n), rt')" "length queued < queue_size config"
  shows "q = queued @ take (queue_size config - length queued) (due_records env config now (rt_state rt) rs)"
  using assms
proof (induction rs arbitrary: queued stale rt)
  case (Cons r rs)
  show ?case
  proof (cases "decision env config now (rt_state rt) r")
    case (Inr d)
    show ?thesis
    proof (cases d)
      case RunNow
      with Cons.IH [of "queued @ [r]" stale rt] Cons.prems Inr show ?thesis
        by (cases "length (queued @ [r]) \<ge> queue_size config")
          (simp_all add: select_due_step due_records_def not_le take_Cons')
    next
      case NotDue
      with Cons Inr show ?thesis by (simp add: select_due_step due_records_def)
    next
      case SkipStaleRemove
      with Cons.IH [of queued "stale + 1" "remove_file env (er_path r) (log_execution now (er_definition r) ''skipped'' ''stale_immediate'' rt)"] Cons.prems Inr
      show ?thesis by (simp add: select_due_step due_records_def)
    qed
  qed (use Cons in \<open>simp add: select_due_step\<close>)
qed (simp add: due_records_def)

lemma select_due_world: "rt_world (snd (select_due env config now rs queued stale rt)) = rt_world rt"
  "es_periodic_last_run (rt_state (snd (select_due env config now rs queued stale rt))) = es_periodic_last_run (rt_state rt)"
  by (induction rs arbitrary: queued stale rt) (simp_all add: select_due_step split: sum.split DueDecision.split)

subsection \<open>What is executed\<close>






subsection \<open>The history of executions\<close>

definition history_bounded :: "EventRunnerState \<Rightarrow> bool" where
  "history_bounded state \<longleftrightarrow> length (es_recent_executions state) \<le> EVENT_EXECUTION_HISTORY_LIMIT"

lemma append_bounded [simp]: "history_bounded (append_execution_record entry state)"
  by (simp add: history_bounded_def append_execution_record_def Let_def)

lemma append_keeps_latest: "last (es_recent_executions (append_execution_record entry state)) = entry"
  by (simp add: append_execution_record_def Let_def)

lemma log_bounded [simp]: "history_bounded (rt_state (log_execution now event result reason rt))"
  by (simp add: log_execution_def)

lemma select_due_bounded:
  "history_bounded (rt_state rt) \<Longrightarrow> history_bounded (rt_state (snd (select_due env config now rs queued stale rt)))"
  by (induction rs arbitrary: queued stale rt) (simp_all add: select_due_step split: sum.split DueDecision.split)

lemma run_record_bounded: "history_bounded (rt_state (snd (run_record env now r rt)))"
  unfolding history_bounded_def
  by (simp add: run_record_def Let_def log_bounded [unfolded history_bounded_def] split: prod.split sum.split EventSchedule.split)

lemma run_queue_bounded:
  "history_bounded (rt_state rt) \<Longrightarrow> history_bounded (rt_state (snd (run_queue env now rs counts rt)))"
proof (induction rs arbitrary: counts rt)
  case (Cons r rs)
  then show ?case
    using run_record_bounded [of env now r rt] by (cases counts; cases "run_record env now r rt") simp
qed simp

text \<open>The stages of a poll.\<close>

lemma poll_cases:
  obtains (unread) e where "poll_once env config now rt = (Inl e, rt)"
      "load_event_records (ev_parse env) (ev_clock env (rt_world rt)) (sc_events_dir config) (rt_dir rt) = Inl e"
  | (stopped) records malformed e rt\<^sub>1 where
      "load_event_records (ev_parse env) (ev_clock env (rt_world rt)) (sc_events_dir config) (rt_dir rt) = Inr (records, malformed)"
      "select_due env config now records [] 0 rt = (Inl e, rt\<^sub>1)" "poll_once env config now rt = (Inl e, rt\<^sub>1)"
  | (ran) records malformed q n rt\<^sub>1 x y rt\<^sub>2 state_file where
      "load_event_records (ev_parse env) (ev_clock env (rt_world rt)) (sc_events_dir config) (rt_dir rt) = Inr (records, malformed)"
      "select_due env config now records [] 0 rt = (Inr (q, n), rt\<^sub>1)" "run_queue env now q (0, 0) rt\<^sub>1 = ((x, y), rt\<^sub>2)"
      "snd (poll_once env config now rt) = rt\<^sub>2\<lparr>rt_state_file := state_file\<rparr>"
      "\<And>report. fst (poll_once env config now rt) = Inr report \<Longrightarrow> pr_failed report = y"
proof (cases "load_event_records (ev_parse env) (ev_clock env (rt_world rt)) (sc_events_dir config) (rt_dir rt)")
  case (Inl e)
  with unread show thesis by (simp add: poll_once_def)
next
  case (Inr p)
  then obtain records malformed where l: "load_event_records (ev_parse env) (ev_clock env (rt_world rt)) (sc_events_dir config) (rt_dir rt) = Inr (records, malformed)"
    by (cases p) simp
  show thesis
  proof (cases "select_due env config now records [] 0 rt")
    case (Pair res rt\<^sub>1)
    show thesis
    proof (cases res)
      case (Inl e)
      with Pair l stopped show thesis by (simp add: poll_once_def)
    next
      case (Inr qn)
      then obtain q n where qn: "res = Inr (q, n)" by (cases qn) simp
      obtain x y rt\<^sub>2 where run: "run_queue env now q (0, 0) rt\<^sub>1 = ((x, y), rt\<^sub>2)" by (metis surj_pair)
      have "snd (poll_once env config now rt) = rt\<^sub>2\<lparr>rt_state_file := rt_state_file (snd (poll_once env config now rt))\<rparr>"
        by (cases "ev_saved env (rt_world rt\<^sub>2)") (simp_all add: poll_once_def l Pair qn run save_runner_state_def)
      moreover have "pr_failed report = y" if "fst (poll_once env config now rt) = Inr report" for report
        using that by (cases "ev_saved env (rt_world rt\<^sub>2)") (auto simp: poll_once_def l Pair qn run save_runner_state_def)
      ultimately show thesis by (rule ran [OF l Pair [unfolded qn] run])
    qed
  qed
qed

text \<open>The history of executions never grows past its limit, whatever a poll meets.\<close>

theorem poll_history_bounded:
  assumes "length (es_recent_executions (rt_state rt)) \<le> EVENT_EXECUTION_HISTORY_LIMIT"
  shows "length (es_recent_executions (rt_state (snd (poll_once env config now rt)))) \<le> EVENT_EXECUTION_HISTORY_LIMIT"
proof -
  have b: "history_bounded (rt_state rt)" using assms by (simp add: history_bounded_def)
  from poll_cases [of env config now rt] have "history_bounded (rt_state (snd (poll_once env config now rt)))"
  proof cases
    case (stopped records malformed e rt\<^sub>1)
    with select_due_bounded [OF b, of env config now records "[]" 0] show ?thesis by simp
  next
    case (ran records malformed q n rt\<^sub>1 x y rt\<^sub>2 state_file)
    with run_queue_bounded [of rt\<^sub>1 env now q "(0, 0)"] select_due_bounded [OF b, of env config now records "[]" 0] show ?thesis by simp
  qed (use b in simp)
  then show ?thesis by (simp add: history_bounded_def)
qed

subsection \<open>The files of the events\<close>

definition present :: "EventFile \<Rightarrow> events_dir \<Rightarrow> bool" where
  "present f listing \<longleftrightarrow> (case listing of DirEntries entries \<Rightarrow> Some f \<in> set entries | _ \<Rightarrow> False)"

fun one_shot :: "EventSchedule \<Rightarrow> bool" where
  "one_shot Immediate \<longleftrightarrow> True" | "one_shot (At _) \<longleftrightarrow> True" | "one_shot (Periodic _ _) \<longleftrightarrow> False"

lemma present_remove [simp]: "present f (remove_from_dir path listing) \<longleftrightarrow> present f listing \<and> ef_path f \<noteq> path"
  by (auto simp: present_def remove_from_dir_def split: events_dir.split)

lemma present_remove_file:
  "present f (rt_dir (remove_file env path rt)) \<longleftrightarrow> present f (rt_dir rt) \<and> (ev_removable env path \<longrightarrow> ef_path f \<noteq> path)"
  by (auto simp: remove_file_def)

lemma select_due_adds_none: "present f (rt_dir (snd (select_due env config now rs queued stale rt))) \<Longrightarrow> present f (rt_dir rt)"
proof (induction rs arbitrary: queued stale rt)
  case (Cons r rs)
  show ?case
  proof (cases "decision env config now (rt_state rt) r")
    case (Inr d)
    with Cons.prems show ?thesis
      by (cases d) (auto simp: select_due_step present_remove_file split: if_splits dest: Cons.IH)
  qed (use Cons.prems in \<open>simp add: select_due_step\<close>)
qed simp

lemma select_due_keeps:
  assumes "present f (rt_dir rt)" "\<not> present f (rt_dir (snd (select_due env config now rs queued stale rt)))"
  shows "\<exists>r\<in>set rs. er_path r = ef_path f \<and> decision env config now (rt_state rt) r = Inr SkipStaleRemove"
  using assms
proof (induction rs arbitrary: queued stale rt)
  case (Cons r rs)
  let ?rt = "remove_file env (er_path r) (log_execution now (er_definition r) ''skipped'' ''stale_immediate'' rt)"
  show ?case
  proof (cases "decision env config now (rt_state rt) r = Inr SkipStaleRemove")
    case True
    with Cons.prems Cons.IH [of ?rt queued "stale + 1"] show ?thesis
      by (cases "ef_path f = er_path r") (auto simp: select_due_step present_remove_file)
  next
    case False
    with Cons show ?thesis by (auto simp: select_due_step split: sum.splits DueDecision.splits if_splits)
  qed
qed simp

text \<open>An event that went through: the runner said so, in the world it met.\<close>

definition went_through :: "('c, 'z, 't, 's, 'w) EventEnv \<Rightarrow> nat \<Rightarrow> EventRecord \<Rightarrow> bool" where
  "went_through env now r \<longleftrightarrow> (\<exists>w. is_ok (fst (execute_event env (er_definition r) now w)))"

lemma run_record_present:
  "present f (rt_dir (snd (run_record env now r rt))) \<longleftrightarrow>
     present f (rt_dir rt) \<and> \<not> (fst (run_record env now r rt) \<and> one_shot (ed_schedule (er_definition r)) \<and> ev_removable env (er_path r)
       \<and> ef_path f = er_path r)"
  by (auto simp: run_record_def Let_def present_remove_file split: prod.split sum.split EventSchedule.split)

lemma run_record_ok: "fst (run_record env now r rt) \<Longrightarrow> went_through env now r"
  unfolding went_through_def
  by (intro exI [of _ "rt_world rt"], cases "execute_event env (er_definition r) now (rt_world rt)")
    (auto simp: run_record_def Let_def split: sum.splits)

lemma run_queue_adds_none: "present f (rt_dir (snd (run_queue env now rs counts rt))) \<Longrightarrow> present f (rt_dir rt)"
proof (induction rs arbitrary: counts rt)
  case (Cons r rs)
  obtain ok rt' where rr: "run_record env now r rt = (ok, rt')" by fastforce
  obtain c where "run_queue env now (r # rs) counts rt = run_queue env now rs c rt'" using rr by (cases counts) simp
  with Cons.IH [of c rt'] Cons.prems run_record_present [of f env now r rt] rr show ?case by simp
qed simp

lemma run_queue_keeps:
  assumes "present f (rt_dir rt)" "\<not> present f (rt_dir (snd (run_queue env now rs counts rt)))"
  shows "\<exists>r\<in>set rs. er_path r = ef_path f \<and> one_shot (ed_schedule (er_definition r)) \<and> went_through env now r"
  using assms
proof (induction rs arbitrary: counts rt)
  case (Cons r rs)
  obtain ok rt' where rr: "run_record env now r rt = (ok, rt')" by fastforce
  show ?case
  proof (cases "present f (rt_dir rt')")
    case True
    obtain c where "run_queue env now (r # rs) counts rt = run_queue env now rs c rt'" using rr by (cases counts) simp
    with Cons.IH [OF True, of c] Cons.prems(2) show ?thesis by simp
  next
    case False
    with Cons.prems(1) rr run_record_present [of f env now r rt] run_record_ok [of env now r rt] show ?thesis by auto
  qed
qed simp

lemma run_queue_clears:
  assumes "fst (run_queue env now rs (x, y) rt) = (x', y)" "r \<in> set rs" "one_shot (ed_schedule (er_definition r))"
    "ev_removable env (er_path r)" "present f (rt_dir (snd (run_queue env now rs (x, y) rt)))"
  shows "ef_path f \<noteq> er_path r"
  using assms
proof (induction rs arbitrary: x rt)
  case (Cons a rs)
  obtain ok rt' where rr: "run_record env now a rt = (ok, rt')" by fastforce
  have y: "y \<le> snd (fst (run_queue env now rs (b, y) s))" for b y s
  proof (induction rs arbitrary: b y s)
    case (Cons c cs)
    then show ?case by (cases "run_record env now c s") (auto intro: Suc_leD)
  qed simp
  have ok: ok using Cons.prems(1) rr y [of "y + 1" x rt'] by (cases ok) auto
  show ?case
  proof (cases "r = a")
    case True
    with run_queue_adds_none [of f env now rs "(x + 1, y)" rt'] Cons.prems(3-5) rr ok run_record_present [of f env now a rt]
    show ?thesis by auto
  next
    case False
    with Cons.IH [of "x + 1" rt'] Cons.prems rr ok show ?thesis by simp
  qed
qed simp

text \<open>
  C22. A poll loses no event: it adds no file, and the only files it removes are those of immediate events that were
  stale and of one-shot events that were due and went through.
\<close>

theorem poll_loses_no_event:
  assumes "present f (rt_dir rt)" "\<not> present f (rt_dir (snd (poll_once env config now rt)))"
    "load_event_records (ev_parse env) (ev_clock env (rt_world rt)) (sc_events_dir config) (rt_dir rt) = Inr (records, malformed)"
  shows "\<exists>r\<in>set records. er_path r = ef_path f
    \<and> (decision env config now (rt_state rt) r = Inr SkipStaleRemove
       \<or> decision env config now (rt_state rt) r = Inr RunNow \<and> one_shot (ed_schedule (er_definition r)) \<and> went_through env now r)"
  using poll_cases [of env config now rt]
proof cases
  case (unread e)
  with assms show ?thesis by simp
next
  case (stopped records' malformed' e rt\<^sub>1)
  with assms select_due_keeps [of f rt env config now records "[]" 0] show ?thesis by auto
next
  case (ran records' malformed' q n rt\<^sub>1 x y rt\<^sub>2 state_file)
  have q: "set q \<subseteq> set (due_records env config now (rt_state rt) records)"
    using select_due_queue [OF ran(2)] ran(1) assms(3) by (auto dest: in_set_takeD)
  show ?thesis
  proof (cases "present f (rt_dir rt\<^sub>1)")
    case True
    with ran assms run_queue_keeps [of f rt\<^sub>1 env now q "(0, 0)"] q show ?thesis by (force simp: due_records_def)
  next
    case False
    with ran assms select_due_keeps [of f rt env config now records "[]" 0] show ?thesis by auto
  qed
qed

text \<open>
  A one-shot event that went through does not run again: after a poll without failures, no file of the events it
  queued is left, where the system let the files be removed.
\<close>

theorem one_shot_events_cleared:
  assumes "fst (poll_once env config now rt) = Inr report" "pr_failed report = 0"
    "load_event_records (ev_parse env) (ev_clock env (rt_world rt)) (sc_events_dir config) (rt_dir rt) = Inr (records, malformed)"
    "r \<in> set (take (queue_size config) (due_records env config now (rt_state rt) records))"
    "one_shot (ed_schedule (er_definition r))" "ev_removable env (er_path r)"
    "present f (rt_dir (snd (poll_once env config now rt)))"
  shows "ef_path f \<noteq> er_path r"
  using poll_cases [of env config now rt]
proof cases
  case (ran records' malformed' q n rt\<^sub>1 x y rt\<^sub>2 state_file)
  have "q = take (queue_size config) (due_records env config now (rt_state rt) records)"
    using select_due_queue [OF ran(2)] ran(1) assms(3) by simp
  with run_queue_clears [of env now q 0 0 rt\<^sub>1 x r f] ran assms show ?thesis by simp
qed (use assms in simp_all)

subsection \<open>Periodic events\<close>

text \<open>What the cron library promises: an occurrence after a moment is later than it.\<close>

definition cron_moves_on :: "('c, 'z, 't) CronLib \<Rightarrow> bool" where
  "cron_moves_on lib \<longleftrightarrow> (\<forall>c z ms t n. cr_timestamp lib z ms = Some t \<longrightarrow> cr_after lib c t = Some n \<longrightarrow> int ms < n)"

lemma next_periodic_later:
  "cron_moves_on lib \<Longrightarrow> t \<le> i64_max \<Longrightarrow> next_periodic_due_unix_ms lib cron timezone t = Inr n \<Longrightarrow> t < n"
  by (fastforce simp: next_periodic_due_unix_ms_def cron_moves_on_def result_simps split: if_splits)

text \<open>
  C35. A periodic event that went through is due again from the next occurrence of its schedule on, which is later than
  the poll it ran in: it runs once per occurrence, and polling again at once does not run it.
\<close>

theorem periodic_event_waits_for_next:
  assumes "fst (run_record env now r rt)" "ed_schedule (er_definition r) = Periodic cron timezone" "ed_enabled (er_definition r)"
    "cron_moves_on (ev_cron env)" "now \<le> i64_max" "next_periodic_due_unix_ms (ev_cron env) cron timezone now = Inr n"
  shows "now < n \<and> due_decision (ev_cron env) (er_definition r) (rt_state (snd (run_record env now r rt))) t max_age
    = Inr (if n \<le> t then RunNow else NotDue)"
proof -
  have "map_of (es_periodic_last_run (rt_state (snd (run_record env now r rt)))) (ed_id (er_definition r)) = Some now"
    using assms(1,2) by (auto simp: run_record_def Let_def update_conv' split: prod.splits sum.splits)
  with assms show ?thesis
    by (simp add: due_decision_def last_run_or_recent_def next_periodic_later)
qed

subsection \<open>A schedule that cannot be read\<close>

text \<open>
  A periodic event whose schedule is invalid ends the selection, and the poll with it: of the events that are due,
  none is executed, as long as the file is there.
\<close>

lemma select_due_stops:
  assumes "list_all (\<lambda>p. is_ok (decision env config now (rt_state rt) p)) pre" "decision env config now (rt_state rt) r = Inl e"
    "length queued + length (due_records env config now (rt_state rt) pre) < queue_size config"
  shows "fst (select_due env config now (pre @ r # post) queued stale rt) = Inl e"
  using assms
proof (induction pre arbitrary: queued stale rt)
  case Nil
  then show ?case by (simp add: select_due_step)
next
  case (Cons p pre)
  then obtain d where d: "decision env config now (rt_state rt) p = Inr d" by (auto simp: is_ok_iff)
  show ?case
  proof (cases d)
    case RunNow
    with Cons d show ?thesis by (simp add: select_due_step due_records_def)
  next
    case NotDue
    with Cons d show ?thesis by (simp add: select_due_step due_records_def)
  next
    case SkipStaleRemove
    with Cons.IH [of "remove_file env (er_path p) (log_execution now (er_definition p) ''skipped'' ''stale_immediate'' rt)" queued "stale + 1"] Cons.prems d
    show ?thesis by (simp add: select_due_step due_records_def)
  qed
qed

lemma bad_schedule_stops_poll:
  assumes "load_event_records (ev_parse env) (ev_clock env (rt_world rt)) (sc_events_dir config) (rt_dir rt) = Inr (pre @ r # post, malformed)"
    "list_all (\<lambda>p. is_ok (decision env config now (rt_state rt) p)) pre" "decision env config now (rt_state rt) r = Inl e"
    "length (due_records env config now (rt_state rt) pre) < queue_size config"
  shows "fst (poll_once env config now rt) = Inl e \<and> rt_world (snd (poll_once env config now rt)) = rt_world rt"
proof -
  obtain rt\<^sub>1 where sel: "select_due env config now (pre @ r # post) [] 0 rt = (Inl e, rt\<^sub>1)"
    using select_due_stops [OF assms(2,3), of "[]" post 0] assms(4) by (cases "select_due env config now (pre @ r # post) [] 0 rt") auto
  then have "rt_world rt\<^sub>1 = rt_world rt" using select_due_world(1) [of env config now "pre @ r # post" "[]" 0 rt] by simp
  with sel assms(1) show ?thesis by (simp add: poll_once_def)
qed

subsection \<open>A sample poll\<close>

text \<open>One immediate event and one periodic one; the runner records the identifiers it is given.\<close>

definition sample_cron :: "(unit, unit, nat) CronLib" where
  "sample_cron = \<lparr>cr_schedule = (\<lambda>_. Some ()), cr_timezone = (\<lambda>_. Some ()), cr_timestamp = (\<lambda>_ ms. Some ms),
     cr_after = (\<lambda>_ t. Some (int t + 1))\<rparr>"

definition sample_event :: "string \<Rightarrow> EventSchedule \<Rightarrow> EventDefinition" where
  "sample_event i schedule = \<lparr>ed_id = i, ed_channel = ''slack/C1'', ed_prompt = ''hi'', ed_schedule = schedule, ed_enabled = True,
     ed_created_unix_ms = Some 0\<rparr>"

definition sample_event_env :: "(unit, unit, nat, unit, string list) EventEnv" where
  "sample_event_env = \<lparr>ev_cron = sample_cron,
     ev_parse = (\<lambda>raw. if raw = ''a'' then Inr (sample_event raw Immediate) else if raw = ''p'' then Inr (sample_event raw (Periodic ''* * * * * *'' ''UTC'')) else Inl ''bad''),
     ev_schedule_json = (\<lambda>_. JNull), ev_open_store = (\<lambda>_ _ w. (Inr (), w)), ev_append_log = (\<lambda>_ _ w. (Inr (), w)),
     ev_run_event = (\<lambda>event _ _ w. (Inr (), w @ [ed_id event])), ev_removable = (\<lambda>_. True), ev_clock = (\<lambda>_. 0), ev_saved = (\<lambda>_. True)\<rparr>"

definition sample_file :: "string \<Rightarrow> EventFile" where
  "sample_file i = \<lparr>ef_path = ''events/'' @ i @ ''.json'', ef_name = i @ ''.json'', ef_raw = Inr i, ef_modified = None\<rparr>"

definition sample_scheduler_config :: EventSchedulerConfig where
  "sample_scheduler_config = \<lparr>sc_events_dir = ''events'', sc_state_path = ''state.json'', sc_queue_limit = 8, sc_stale_immediate_max_age_seconds = 0\<rparr>"

definition sample_scheduler :: "string list EventSchedulerRuntime" where
  "sample_scheduler = \<lparr>rt_state = default_runner_state, rt_dir = DirEntries [Some (sample_file ''p''), Some (sample_file ''a'')],
     rt_state_file = NoFile, rt_world = []\<rparr>"

definition sample_record :: "string \<Rightarrow> EventSchedule \<Rightarrow> EventRecord" where
  "sample_record i schedule = \<lparr>er_path = ''events/'' @ i @ ''.json'', er_definition = sample_event i schedule\<rparr>"

abbreviation every_second :: EventSchedule where "every_second \<equiv> Periodic ''* * * * * *'' ''UTC''"

lemmas sample_event_defs = sample_cron_def sample_event_def sample_event_env_def sample_file_def sample_scheduler_config_def sample_scheduler_def
  sample_record_def default_runner_state_def

lemma sample_trim: "trim ''slack/C1'' = ''slack/C1''" "trim ''slack'' = ''slack''" "trim ''C1'' = ''C1''"
  by code_simp+

lemma sample_load:
  "load_event_records (ev_parse sample_event_env) (ev_clock sample_event_env (rt_world sample_scheduler)) (sc_events_dir sample_scheduler_config) (rt_dir sample_scheduler)
     = Inr ([sample_record ''a'' Immediate, sample_record ''p'' every_second], 0)"
  by (simp add: load_event_records_def sample_event_defs is_json_file_def extension_def event_record_def map_filter_simps Let_def)

lemma sample_due:
  "due_records sample_event_env sample_scheduler_config 70000 (rt_state sample_scheduler) [sample_record ''a'' Immediate, sample_record ''p'' every_second]
     = [sample_record ''a'' Immediate, sample_record ''p'' every_second]"
  by (simp add: due_records_def decision_def due_decision_def sample_event_defs next_periodic_due_unix_ms_def last_run_or_recent_def)

abbreviation "sample_a \<equiv> sample_record ''a'' Immediate"
abbreviation "sample_p \<equiv> sample_record ''p'' every_second"

lemma sample_decisions:
  "decision sample_event_env sample_scheduler_config 70000 (rt_state sample_scheduler) sample_a = Inr RunNow"
  "decision sample_event_env sample_scheduler_config 70000 (rt_state sample_scheduler) sample_p = Inr RunNow"
  by (simp_all add: decision_def due_decision_def sample_event_defs next_periodic_due_unix_ms_def last_run_or_recent_def)

lemma sample_select:
  "select_due sample_event_env sample_scheduler_config 70000 [sample_a, sample_p] [] 0 sample_scheduler = (Inr ([sample_a, sample_p], 0), sample_scheduler)"
  by (simp add: select_due_step sample_decisions queue_size_def) (simp add: sample_scheduler_config_def)

lemma sample_execute: "execute_event sample_event_env (sample_event i schedule) now w = (Inr (), w @ [i])"
  by (simp add: execute_event_def parse_channel_ref_def sample_event_env_def sample_event_def sample_trim)

lemma sample_polled:
  "\<exists>rt'. run_queue sample_event_env 70000 [sample_a, sample_p] (0, 0) sample_scheduler = ((2, 0), rt')
     \<and> rt_world rt' = [''a'', ''p''] \<and> rt_dir rt' = DirEntries [Some (sample_file ''p'')]"
proof -
  define rt\<^sub>1 where "rt\<^sub>1 = remove_file sample_event_env (er_path sample_a)
    (log_execution 70000 (sample_event ''a'' Immediate) ''executed'' ''event_executed'' (sample_scheduler\<lparr>rt_world := [''a'']\<rparr>))"
  have a: "run_record sample_event_env 70000 sample_a sample_scheduler = (True, rt\<^sub>1)"
    by (simp add: run_record_def sample_record_def sample_execute Let_def rt\<^sub>1_def) (simp add: sample_event_def sample_scheduler_def)
  have d: "rt_dir rt\<^sub>1 = DirEntries [Some (sample_file ''p'')]" "rt_world rt\<^sub>1 = [''a'']"
    by (simp_all add: rt\<^sub>1_def remove_file_def sample_event_env_def remove_from_dir_def sample_scheduler_def sample_record_def sample_file_def)
  obtain rt\<^sub>2 where p: "run_record sample_event_env 70000 sample_p rt\<^sub>1 = (True, rt\<^sub>2)" "rt_world rt\<^sub>2 = rt_world rt\<^sub>1 @ [''p'']" "rt_dir rt\<^sub>2 = rt_dir rt\<^sub>1"
    by (simp add: run_record_def sample_record_def sample_execute Let_def) (simp add: sample_event_def)
  show ?thesis by (rule exI [of _ rt\<^sub>2]) (simp add: a p d)
qed

lemma sample_poll:
  "\<exists>report rt'. poll_once sample_event_env sample_scheduler_config 70000 sample_scheduler = (Inr report, rt') \<and> pr_failed report = 0
     \<and> rt_world rt' = [''a'', ''p''] \<and> rt_dir rt' = DirEntries [Some (sample_file ''p'')]"
proof -
  obtain rt' where "run_queue sample_event_env 70000 [sample_a, sample_p] (0, 0) sample_scheduler = ((2, 0), rt')"
     "rt_world rt' = [''a'', ''p'']" "rt_dir rt' = DirEntries [Some (sample_file ''p'')]"
    using sample_polled by blast
  then show ?thesis
    by (simp add: poll_once_def sample_load sample_select save_runner_state_def) (simp add: sample_event_env_def)
qed


theorem poll_history_bounded_witness:
  "length (es_recent_executions (rt_state (snd (poll_once sample_event_env sample_scheduler_config 70000 sample_scheduler)))) \<le> EVENT_EXECUTION_HISTORY_LIMIT"
  by (rule poll_history_bounded) (simp add: sample_scheduler_def default_runner_state_def)

theorem poll_loses_no_event_witness:
  "\<exists>r\<in>set [sample_a, sample_p]. er_path r = ef_path (sample_file ''a'')
    \<and> (decision sample_event_env sample_scheduler_config 70000 (rt_state sample_scheduler) r = Inr SkipStaleRemove
       \<or> decision sample_event_env sample_scheduler_config 70000 (rt_state sample_scheduler) r = Inr RunNow
         \<and> one_shot (ed_schedule (er_definition r)) \<and> went_through sample_event_env 70000 r)"
proof (rule poll_loses_no_event [OF _ _ sample_load])
  show "present (sample_file ''a'') (rt_dir sample_scheduler)" by (simp add: present_def sample_scheduler_def)
  have "sample_file ''a'' \<noteq> sample_file ''p''" by (simp add: sample_file_def)
  then show "\<not> present (sample_file ''a'') (rt_dir (snd (poll_once sample_event_env sample_scheduler_config 70000 sample_scheduler)))"
    using sample_poll by (auto simp: present_def)
qed

theorem one_shot_events_cleared_witness: "ef_path (sample_file ''p'') \<noteq> er_path sample_a"
proof -
  obtain report rt' where p: "poll_once sample_event_env sample_scheduler_config 70000 sample_scheduler = (Inr report, rt')" "pr_failed report = 0"
     "rt_dir rt' = DirEntries [Some (sample_file ''p'')]"
    using sample_poll by blast
  show ?thesis
  proof (rule one_shot_events_cleared [OF _ p(2) sample_load])
    show "sample_a \<in> set (take (queue_size sample_scheduler_config) (due_records sample_event_env sample_scheduler_config 70000 (rt_state sample_scheduler) [sample_a, sample_p]))"
      unfolding sample_due by (simp add: queue_size_def sample_scheduler_config_def)
  qed (simp_all add: p present_def, simp_all add: sample_event_defs)
qed

theorem periodic_event_waits_for_next_witness:
  "70000 < (70001::nat) \<and> due_decision (ev_cron sample_event_env) (er_definition sample_p)
     (rt_state (snd (run_record sample_event_env 70000 sample_p sample_scheduler))) 70001 0 = Inr (if (70001::nat) \<le> 70001 then RunNow else NotDue)"
proof (rule periodic_event_waits_for_next)
  show "fst (run_record sample_event_env 70000 sample_p sample_scheduler)"
    by (simp add: run_record_def sample_record_def sample_execute Let_def)
  show "cron_moves_on (ev_cron sample_event_env)" by (simp add: cron_moves_on_def sample_event_defs)
qed (simp_all add: sample_event_defs next_periodic_due_unix_ms_def)

end
