(* ===== verification/Event_Reports.thy ===== *)
theory Event_Reports
  imports Event_Scheduler "HOL-Library.Product_Lexorder"
begin

text \<open>
  The reports on scheduled events (\<open>crates/tau-events/src/lib.rs\<close>): inspecting what a poll would find, validating the
  definitions, simulating a span of time, the dry run and its gate; and how inspection and dry run relate to a poll.
  The fields of a report that copy the configuration are left out.
\<close>

subsection \<open>Inspection\<close>

record EventsInspectReport =
  ir_discovered_events :: nat
  ir_malformed_events :: nat
  ir_enabled_events :: nat
  ir_disabled_events :: nat
  ir_schedule_immediate_events :: nat
  ir_schedule_at_events :: nat
  ir_schedule_periodic_events :: nat
  ir_due_now_events :: nat
  ir_queued_now_events :: nat
  ir_not_due_events :: nat
  ir_stale_immediate_events :: nat
  ir_due_eval_failed_events :: nat
  ir_periodic_with_last_run_state :: nat
  ir_periodic_missing_last_run_state :: nat
  ir_execution_history_entries :: nat
  ir_executed_history_entries :: nat
  ir_failed_history_entries :: nat
  ir_skipped_history_entries :: nat
  ir_last_execution_unix_ms :: "nat option"
  ir_last_execution_reason_code :: "string option"

definition count_if :: "('a \<Rightarrow> bool) \<Rightarrow> 'a list \<Rightarrow> nat" where
  "count_if P xs = length (filter P xs)"

definition last_opt :: "'a list \<Rightarrow> 'a option" where
  "last_opt xs = (if xs = [] then None else Some (last xs))"

definition inspect_events ::
  "('c, 'z, 't) CronLib \<Rightarrow> (string \<Rightarrow> string + EventDefinition) \<Rightarrow> nat \<Rightarrow> EventSchedulerConfig \<Rightarrow> events_dir \<Rightarrow> EventRunnerState json_file \<Rightarrow> nat
     \<Rightarrow> string + EventsInspectReport" where
  "inspect_events lib parse current config listing state_file now =
     and_then (load_event_records parse current (sc_events_dir config) listing) (\<lambda>(records, malformed).
     and_then (load_runner_state state_file (sc_state_path config)) (\<lambda>state.
       let events = map er_definition records; history = es_recent_executions state;
           decided = (\<lambda>e. due_decision lib e state now (sc_stale_immediate_max_age_seconds config));
           due = count_if (\<lambda>e. decided e = Inr RunNow) events;
           periodic = (\<lambda>e. case ed_schedule e of Periodic _ _ \<Rightarrow> True | _ \<Rightarrow> False);
           known = (\<lambda>e. hm_contains (es_periodic_last_run state) (ed_id e))
       in Inr \<lparr>ir_discovered_events = length records, ir_malformed_events = malformed,
         ir_enabled_events = count_if ed_enabled events, ir_disabled_events = count_if (\<lambda>e. \<not> ed_enabled e) events,
         ir_schedule_immediate_events = count_if (\<lambda>e. ed_schedule e = Immediate) events,
         ir_schedule_at_events = count_if (\<lambda>e. case ed_schedule e of At _ \<Rightarrow> True | _ \<Rightarrow> False) events,
         ir_schedule_periodic_events = count_if periodic events,
         ir_due_now_events = due, ir_queued_now_events = min due (queue_size config),
         ir_not_due_events = count_if (\<lambda>e. decided e = Inr NotDue) events,
         ir_stale_immediate_events = count_if (\<lambda>e. decided e = Inr SkipStaleRemove) events,
         ir_due_eval_failed_events = count_if (\<lambda>e. \<not> is_ok (decided e)) events,
         ir_periodic_with_last_run_state = count_if (\<lambda>e. periodic e \<and> known e) events,
         ir_periodic_missing_last_run_state = count_if (\<lambda>e. periodic e \<and> \<not> known e) events,
         ir_execution_history_entries = length history,
         ir_executed_history_entries = count_if (\<lambda>x. ex_outcome x = ''executed'') history,
         ir_failed_history_entries = count_if (\<lambda>x. ex_outcome x = ''failed'') history,
         ir_skipped_history_entries = count_if (\<lambda>x. ex_outcome x = ''skipped'') history,
         ir_last_execution_unix_ms = map_option ex_timestamp_unix_ms (last_opt history),
         ir_last_execution_reason_code = map_option ex_reason_code (last_opt history)\<rparr>))"

subsection \<open>Validation\<close>

record EventsValidateDiagnostic =
  dg_path :: string
  dg_event_id :: "string option"
  dg_reason_code :: string
  dg_message :: string

record EventsValidateReport =
  vr_total_files :: nat
  vr_valid_files :: nat
  vr_invalid_files :: nat
  vr_malformed_files :: nat
  vr_failed_files :: nat
  vr_disabled_files :: nat
  vr_diagnostics :: "EventsValidateDiagnostic list"

definition diagnostic :: "EventFile \<Rightarrow> string option \<Rightarrow> string \<Rightarrow> string \<Rightarrow> EventsValidateDiagnostic" where
  "diagnostic f event_id reason error =
     \<lparr>dg_path = ef_path f, dg_event_id = event_id, dg_reason_code = reason, dg_message = sanitize_error_message error\<rparr>"

text \<open>Reading and parsing a file: the definition, or the reason it is malformed and the message.\<close>

definition read_definition :: "(string \<Rightarrow> string + EventDefinition) \<Rightarrow> EventFile \<Rightarrow> (string \<times> string) + EventDefinition" where
  "read_definition parse f =
     (case ef_raw f of
        Inl error \<Rightarrow> Inl (''read_error'', error)
      | Inr raw \<Rightarrow> (case parse raw of Inl error \<Rightarrow> Inl (''json_parse'', error) | Inr definition \<Rightarrow> Inr definition))"

definition validate_event_schedule :: "('c, 'z, 't) CronLib \<Rightarrow> EventDefinition \<Rightarrow> EventRunnerState \<Rightarrow> nat \<Rightarrow> string + unit" where
  "validate_event_schedule lib event state now =
     (case ed_schedule event of
        Immediate \<Rightarrow> Inr ()
      | At _ \<Rightarrow> Inr ()
      | Periodic cron timezone \<Rightarrow>
          and_then (next_periodic_due_unix_ms lib cron timezone (last_run_or_recent state event now)) (\<lambda>_. Inr ()))"

definition definition_diagnostics ::
  "('c, 'z, 't) CronLib \<Rightarrow> EventRunnerState \<Rightarrow> nat \<Rightarrow> EventFile \<Rightarrow> EventDefinition \<Rightarrow> EventsValidateDiagnostic list" where
  "definition_diagnostics lib state now f definition =
     (case parse_channel_ref (ed_channel definition) of
        Inl error \<Rightarrow> [diagnostic f (Some (ed_id definition)) ''channel_ref_invalid'' error] | Inr _ \<Rightarrow> [])
     @ (case validate_event_schedule lib definition state now of
        Inl error \<Rightarrow> [diagnostic f (Some (ed_id definition)) ''schedule_invalid'' error] | Inr _ \<Rightarrow> [])"

definition validate_events_definitions ::
  "('c, 'z, 't) CronLib \<Rightarrow> (string \<Rightarrow> string + EventDefinition) \<Rightarrow> EventSchedulerConfig \<Rightarrow> events_dir \<Rightarrow> EventRunnerState json_file \<Rightarrow> nat
     \<Rightarrow> string + EventsValidateReport" where
  "validate_events_definitions lib parse config listing state_file now =
     and_then (load_runner_state state_file (sc_state_path config)) (\<lambda>state.
     and_then (collect_event_definition_files (sc_events_dir config) listing) (\<lambda>files.
       let diagnose = (\<lambda>f. case read_definition parse f of
             Inl (reason, error) \<Rightarrow> [diagnostic f None reason error]
           | Inr definition \<Rightarrow> definition_diagnostics lib state now f definition);
           malformed = count_if (\<lambda>f. \<not> is_ok (read_definition parse f)) files;
           invalid = count_if (\<lambda>f. is_ok (read_definition parse f) \<and> diagnose f \<noteq> []) files
       in Inr \<lparr>vr_total_files = length files, vr_valid_files = count_if (\<lambda>f. diagnose f = []) files,
         vr_invalid_files = invalid, vr_malformed_files = malformed, vr_failed_files = invalid + malformed,
         vr_disabled_files = count_if (\<lambda>f. case read_definition parse f of Inr d \<Rightarrow> \<not> ed_enabled d | Inl _ \<Rightarrow> False) files,
         vr_diagnostics = concat (map diagnose files)\<rparr>))"

subsection \<open>Simulation\<close>

record EventsSimulateRow =
  sr_path :: string
  sr_event_id :: string
  sr_channel :: string
  sr_schedule :: string
  sr_enabled :: bool
  sr_next_due_unix_ms :: "nat option"
  sr_due_now :: bool
  sr_within_horizon :: bool
  sr_last_run_unix_ms :: "nat option"

record EventsSimulateReport =
  sp_total_files :: nat
  sp_simulated_rows :: nat
  sp_malformed_files :: nat
  sp_invalid_rows :: nat
  sp_due_now_rows :: nat
  sp_within_horizon_rows :: nat
  sp_rows :: "EventsSimulateRow list"
  sp_diagnostics :: "EventsValidateDiagnostic list"

text \<open>When the event is due next, if ever; the error of a schedule that cannot be read.\<close>

definition simulated_due ::
  "('c, 'z, 't) CronLib \<Rightarrow> EventRunnerState \<Rightarrow> nat \<Rightarrow> nat \<Rightarrow> EventDefinition \<Rightarrow> string + nat option" where
  "simulated_due lib state now max_age definition =
     (case ed_schedule definition of
        Immediate \<Rightarrow>
          if ed_enabled definition then
            and_then (due_decision lib definition state now max_age) (\<lambda>d. Inr (if d = RunNow then Some now else None))
          else Inr None
      | At at_unix_ms \<Rightarrow> Inr (Some at_unix_ms)
      | Periodic cron timezone \<Rightarrow>
          and_then (next_periodic_due_unix_ms lib cron timezone (last_run_or_recent state definition now)) (\<lambda>n. Inr (Some n)))"

definition simulate_row ::
  "EventRunnerState \<Rightarrow> nat \<Rightarrow> nat \<Rightarrow> EventFile \<Rightarrow> EventDefinition \<Rightarrow> nat option \<Rightarrow> EventsSimulateRow" where
  "simulate_row state now horizon f definition next_due =
     \<lparr>sr_path = ef_path f, sr_event_id = ed_id definition, sr_channel = ed_channel definition,
      sr_schedule = schedule_name (ed_schedule definition), sr_enabled = ed_enabled definition, sr_next_due_unix_ms = next_due,
      sr_due_now = (ed_enabled definition \<and> (case next_due of Some v \<Rightarrow> v \<le> now | None \<Rightarrow> False)),
      sr_within_horizon = (ed_enabled definition \<and> (case next_due of Some v \<Rightarrow> v \<le> horizon | None \<Rightarrow> False)),
      sr_last_run_unix_ms = map_of (es_periodic_last_run state) (ed_id definition)\<rparr>"

definition simulate_file ::
  "('c, 'z, 't) CronLib \<Rightarrow> (string \<Rightarrow> string + EventDefinition) \<Rightarrow> EventRunnerState \<Rightarrow> nat \<Rightarrow> nat \<Rightarrow> nat \<Rightarrow> EventFile
     \<Rightarrow> EventsValidateDiagnostic + EventsSimulateRow" where
  "simulate_file lib parse state now max_age horizon f =
     (case read_definition parse f of
        Inl (reason, error) \<Rightarrow> Inl (diagnostic f None reason error)
      | Inr definition \<Rightarrow>
          (case parse_channel_ref (ed_channel definition) of
             Inl error \<Rightarrow> Inl (diagnostic f (Some (ed_id definition)) ''channel_ref_invalid'' error)
           | Inr _ \<Rightarrow>
               (case simulated_due lib state now max_age definition of
                  Inl error \<Rightarrow> Inl (diagnostic f (Some (ed_id definition)) ''schedule_invalid'' error)
                | Inr next_due \<Rightarrow> Inr (simulate_row state now horizon f definition next_due))))"

definition lefts :: "('a + 'b) list \<Rightarrow> 'a list" where
  "lefts xs = List.map_filter (\<lambda>x. case x of Inl a \<Rightarrow> Some a | Inr _ \<Rightarrow> None) xs"

definition rights :: "('a + 'b) list \<Rightarrow> 'b list" where
  "rights xs = List.map_filter (\<lambda>x. case x of Inr b \<Rightarrow> Some b | Inl _ \<Rightarrow> None) xs"

definition simulate_events ::
  "('c, 'z, 't) CronLib \<Rightarrow> (string \<Rightarrow> string + EventDefinition) \<Rightarrow> EventSchedulerConfig \<Rightarrow> nat \<Rightarrow> events_dir \<Rightarrow> EventRunnerState json_file \<Rightarrow> nat
     \<Rightarrow> string + EventsSimulateReport" where
  "simulate_events lib parse config horizon_seconds listing state_file now =
     and_then (load_runner_state state_file (sc_state_path config)) (\<lambda>state.
     and_then (collect_event_definition_files (sc_events_dir config) listing) (\<lambda>files.
       let horizon = u64_saturating_add now (u64_saturating_mul horizon_seconds 1000);
           results = map (simulate_file lib parse state now (sc_stale_immediate_max_age_seconds config) horizon) files;
           rows = sort_key (\<lambda>r. (sr_event_id r, sr_path r)) (rights results);
           malformed = count_if (\<lambda>f. \<not> is_ok (read_definition parse f)) files
       in Inr \<lparr>sp_total_files = length files, sp_simulated_rows = length rows, sp_malformed_files = malformed,
         sp_invalid_rows = length (lefts results) - malformed, sp_due_now_rows = count_if sr_due_now rows,
         sp_within_horizon_rows = count_if sr_within_horizon rows, sp_rows = rows, sp_diagnostics = lefts results\<rparr>))"

subsection \<open>The dry run\<close>

record EventsDryRunRow =
  dr_path :: string
  dr_event_id :: "string option"
  dr_channel :: "string option"
  dr_schedule :: "string option"
  dr_enabled :: "bool option"
  dr_decision :: string
  dr_reason_code :: string
  dr_queue_position :: "nat option"
  dr_last_run_unix_ms :: "nat option"
  dr_message :: "string option"

record EventsDryRunReport =
  dp_queue_limit :: nat
  dp_total_files :: nat
  dp_evaluated_rows :: nat
  dp_execute_rows :: nat
  dp_skipped_rows :: nat
  dp_error_rows :: nat
  dp_malformed_files :: nat
  dp_rows :: "EventsDryRunRow list"







subsection \<open>The gate\<close>

record EventsDryRunGateConfig =
  gc_max_error_rows :: "nat option"
  gc_max_execute_rows :: "nat option"

definition gate_reason_codes :: "EventsDryRunReport \<Rightarrow> EventsDryRunGateConfig \<Rightarrow> string list" where
  "gate_reason_codes report config =
     (case gc_max_error_rows config of
        Some m \<Rightarrow> if dp_error_rows report > m then [''max_error_rows_exceeded''] else [] | None \<Rightarrow> [])
     @ (case gc_max_execute_rows config of
        Some m \<Rightarrow> if dp_execute_rows report > m then [''max_execute_rows_exceeded''] else [] | None \<Rightarrow> [])"

definition gate_status :: "EventsDryRunReport \<Rightarrow> EventsDryRunGateConfig \<Rightarrow> string" where
  "gate_status report config = (if gate_reason_codes report config = [] then ''pass'' else ''fail'')"

definition show_limit :: "nat option \<Rightarrow> string" where
  "show_limit v = (case v of Some n \<Rightarrow> show_nat n | None \<Rightarrow> ''none'')"

definition render_events_dry_run_gate_summary :: "EventsDryRunReport \<Rightarrow> EventsDryRunGateConfig \<Rightarrow> string" where
  "render_events_dry_run_gate_summary report config =
     ''events dry run gate: status='' @ gate_status report config @ '' reason_codes=''
     @ (if gate_reason_codes report config = [] then ''none'' else join '','' (gate_reason_codes report config))
     @ '' execute_rows='' @ show_nat (dp_execute_rows report) @ '' skipped_rows='' @ show_nat (dp_skipped_rows report)
     @ '' error_rows='' @ show_nat (dp_error_rows report) @ '' max_error_rows='' @ show_limit (gc_max_error_rows config)
     @ '' max_execute_rows='' @ show_limit (gc_max_execute_rows config)"

definition enforce_events_dry_run_gate :: "EventsDryRunReport \<Rightarrow> EventsDryRunGateConfig \<Rightarrow> string + unit" where
  "enforce_events_dry_run_gate report config =
     (if gate_status report config = ''fail'' then Inl (render_events_dry_run_gate_summary report config) else Inr ())"

subsection \<open>Inspection predicts a poll\<close>

lemma decision_records:
  "count_if (\<lambda>e. due_decision (ev_cron env) e state now (sc_stale_immediate_max_age_seconds config) = Inr d) (map er_definition records)
     = length (filter (\<lambda>r. decision env config now state r = Inr d) records)"
  by (simp add: count_if_def filter_map comp_def decision_def)

text \<open>
  Inspecting the events says how many a poll at the same moment would queue: where both report, the numbers are
  the same, and so are those of the files found and of the malformed ones.
\<close>

theorem inspection_predicts_poll:
  assumes "poll_once env config now rt = (Inr report, rt')" "load_runner_state state_file (sc_state_path config) = Inr (rt_state rt)"
    "inspect_events (ev_cron env) (ev_parse env) (ev_clock env (rt_world rt)) config (rt_dir rt) state_file now = Inr inspected"
  shows "ir_queued_now_events inspected = pr_queued report \<and> ir_discovered_events inspected = pr_discovered report
    \<and> ir_malformed_events inspected = pr_malformed_skipped report"
proof -
  obtain records malformed where l:
    "load_event_records (ev_parse env) (ev_clock env (rt_world rt)) (sc_events_dir config) (rt_dir rt) = Inr (records, malformed)"
    using assms(1) by (auto simp: poll_once_def split: sum.splits prod.splits)
  obtain q n rt\<^sub>1 where sel: "select_due env config now records [] 0 rt = (Inr (q, n), rt\<^sub>1)"
    using assms(1) l by (auto simp: poll_once_def split: prod.splits sum.splits)
  have "pr_queued report = length q" "pr_discovered report = length records" "pr_malformed_skipped report = malformed"
    using assms(1) l sel by (auto simp: poll_once_def split: prod.splits sum.splits)
  moreover have "length q = min (length (due_records env config now (rt_state rt) records)) (queue_size config)"
    using select_due_queue [OF sel] by (simp add: min.commute)
  moreover have "ir_queued_now_events inspected = min (length (due_records env config now (rt_state rt) records)) (queue_size config)"
    "ir_discovered_events inspected = length records" "ir_malformed_events inspected = malformed"
    using assms(3) l assms(2) decision_records [of env "rt_state rt" now config RunNow records]
    by (auto simp: inspect_events_def Let_def due_records_def)
  ultimately show ?thesis by simp
qed

subsection \<open>The dry run predicts a poll\<close>







lemma dir_files_Some [simp]: "dir_files dir (map Some files) = Inr files"
  by (induction files) simp_all







lemma sample_state: "load_runner_state NoFile (sc_state_path sample_scheduler_config) = Inr (rt_state sample_scheduler)"
  by (simp add: load_runner_state_def sample_scheduler_def)

theorem inspection_predicts_poll_witness:
  "\<exists>report rt' inspected. poll_once sample_event_env sample_scheduler_config 70000 sample_scheduler = (Inr report, rt')
     \<and> inspect_events (ev_cron sample_event_env) (ev_parse sample_event_env) (ev_clock sample_event_env (rt_world sample_scheduler))
         sample_scheduler_config (rt_dir sample_scheduler) NoFile 70000 = Inr inspected
     \<and> ir_queued_now_events inspected = pr_queued report"
proof -
  obtain report rt' where p: "poll_once sample_event_env sample_scheduler_config 70000 sample_scheduler = (Inr report, rt')" using sample_poll by blast
  obtain inspected where i: "inspect_events (ev_cron sample_event_env) (ev_parse sample_event_env)
      (ev_clock sample_event_env (rt_world sample_scheduler)) sample_scheduler_config (rt_dir sample_scheduler) NoFile 70000 = Inr inspected"
    by (simp add: inspect_events_def sample_load sample_state Let_def)
  from p i inspection_predicts_poll [OF p sample_state i] show ?thesis by blast
qed



text \<open>
  Without a creation time the two differ: the dry run takes the event as created now, a poll takes the age of the file,
  and removes as stale what the dry run announced.
\<close>

lemma dry_run_ignores_file_age:
  assumes "read_definition parse f = Inr d" "ed_schedule d = Immediate" "ed_enabled d" "ed_created_unix_ms d = None"
    "ef_modified f = Some t" "0 < max_age" "u64_saturating_mul max_age 1000 < now - t"
  shows "due_decision lib d state now max_age = Inr RunNow"
    and "\<exists>r. event_record parse current f = Some r \<and> due_decision lib (er_definition r) state now max_age = Inr SkipStaleRemove"
proof -
  have "event_record parse current f = Some \<lparr>er_path = ef_path f, er_definition = d\<lparr>ed_created_unix_ms := Some t\<rparr>\<rparr>"
    using assms by (auto simp: event_record_def read_definition_def split: sum.splits)
  with assms show "\<exists>r. event_record parse current f = Some r \<and> due_decision lib (er_definition r) state now max_age = Inr SkipStaleRemove"
    by (simp add: due_decision_def Let_def)
qed (use assms in \<open>simp add: due_decision_def Let_def\<close>)

end
