(* ===== verification/Spec2Isabelle.thy ===== *)
theory Spec2Isabelle
  imports Session_Navigation Session_Lock Training_Properties Training_Payloads Access_Rbac
    Net_Ssrf Access_Approvals Channel_Cycle Agent_Guarantees Provider_Fallback Provider_Client
    Event_Webhook Event_Reports
begin

text \<open>
  A verification library for the Tau agent runtime (the Rust workspace under \<open>src/crates\<close>).

  \<^bold>\<open>The program.\<close> Tau runs language-model agents. A conversation is a \<^emph>\<open>session\<close>: a tree of
  messages with parent links, kept by \<open>tau-session\<close> in a JSONL file or a SQL table, changed by
  append, import, merge, repair and compaction under a lock file, and navigated with undo and redo.
  Training runs are driven by a \<^emph>\<open>training store\<close> (\<open>tau-training-store\<close> with the types of
  \<open>tau-training-types\<close>): runners dequeue rollouts, report attempts and spans and send heartbeats, and
  timed-out rollouts are queued again. Commands and tools are guarded by \<open>tau-access\<close>: \<^emph>\<open>roles\<close>,
  \<^emph>\<open>approvals\<close>, \<^emph>\<open>pairing\<close> of actors with channels, \<^emph>\<open>trust roots\<close> and \<^emph>\<open>signed envelopes\<close>; outbound
  requests pass the guard of \<open>tau-runtime\<close>. Chat services feed the \<^emph>\<open>multi-channel runtime\<close>
  (\<open>tau-multi-channel\<close>), which coalesces queued events, decides whether their actor may speak, and runs
  them with retries. The conversation itself is run by the \<^emph>\<open>agent core\<close> (\<open>tau-agent-core\<close>): it shapes
  the request under context pressure, calls the model client with retries, executes the tool calls of
  the answer, and passes every text that enters or leaves through the scanners of \<open>tau-safety\<close>. The model
  client is a \<^emph>\<open>provider\<close>: the client of one model service (\<open>tau-ai\<close>) or a router over several of them with a
  circuit breaker per route (\<open>tau-provider\<close>). Prompts also come from \<^emph>\<open>scheduled events\<close> (\<open>tau-events\<close>): files that a
  scheduler polls, some of them written for signed webhooks.

  \<^bold>\<open>Conventions.\<close> A struct is a record whose fields carry a short prefix, an enum a datatype, a
  fallible function returns an error sum, a handler that may change state before it fails returns its
  result and its state. \<open>HashMap\<close> and \<open>BTreeMap\<close> are association lists; iteration order that can be
  observed is an argument. \<open>u64\<close> and \<open>u32\<close> are natural numbers with the wrap-around or saturation of
  the operation written out, \<open>f64\<close> is its 64 bits. Strings are UTF-8 bytes. Clock readings, environment
  variables, file contents as \<open>serde_json\<close> parses them, SQL statements, cryptography, regular
  expressions and floating-point arithmetic are arguments. The agent threads a world of any type through
  its environment (client, tools, timers, cancellation), so that a theorem holds for every schedule.

  \<^bold>\<open>Theories.\<close>
  \<^item> \<open>Prelude\<close>, \<open>Rust_Text\<close>, \<open>Rust_Float\<close>, \<open>Rust_Net\<close>, \<open>Json_Value\<close>, \<open>Json_File\<close>: results, hash maps,
    integers, strings, float bits, IP addresses, JSON values and JSON state files.
  \<^item> \<open>Ai_Types\<close>: messages, requests, responses and client errors (\<open>tau-ai/src/types.rs\<close>).
  \<^item> \<open>Session_Graph\<close>: entries, validation and lineage walks (\<open>session_integrity.rs\<close>,
    \<open>session_store_runtime.rs\<close>). The abstract view is the parent relation; the validator decides
    well-formedness and the three walks agree.
  \<^item> \<open>Session_Ops\<close>, \<open>Session_Repair\<close>, \<open>Session_Merge\<close>: append, import with id remapping,
    compaction, repair and branch merging on the list of entries; each keeps well-formedness and has
    its effect on the lineages stated.
  \<^item> \<open>Session_Storage\<close>, \<open>Session_Usage\<close>: backends (\<open>session_storage.rs\<close>), crash safety of the JSONL
    writer, round trips of the SQL writers for every table that satisfies \<open>table_laws\<close>, usage totals.
  \<^item> \<open>Session_Store\<close>: the handlers of \<open>SessionStore\<close> over the storage contract \<open>entry_storage\<close>,
    which the JSONL backend provides by interpretation and the SQL backends under \<open>table_laws\<close>;
    every run of handlers keeps the stored session well formed.
  \<^item> \<open>Session_Lock\<close>: the lock file as an interleaving of processes (\<open>session_locking.rs\<close>).
  \<^item> \<open>Session_Navigation\<close>: undo and redo of head changes (\<open>session_navigation_commands.rs\<close>).
  \<^item> \<open>Training_Types\<close>, \<open>Training_Payloads\<close>: status machines, payload validation, checkpoint lineage.
  \<^item> \<open>Training_Store\<close>, \<open>Training_Invariants\<close>, \<open>Training_Properties\<close>: the in-memory store, its state
    invariant, the queue contract \<open>rollout_fifo\<close> it provides, and its properties.
  \<^item> \<open>Access_Rbac\<close>: policies, principals and decisions (\<open>rbac.rs\<close>): deny overrides, errors fail closed.
  \<^item> \<open>Access_Approvals\<close>: the approval gate and the decisions of operators (\<open>approvals.rs\<close>): an approval
    is used at most once, requests follow their status machine.
  \<^item> \<open>Access_Identity\<close>, \<open>Access_Trust\<close>, \<open>Access_Pairing\<close>, \<open>Access_Envelope\<close>: DIDs, trust roots, pairing
    and signed envelopes: exact decisions, revocation, and replay protection within the window.
  \<^item> \<open>Net_Ssrf\<close>: the guard of outbound requests (\<open>ssrf_guard.rs\<close>).
  \<^item> \<open>Channel_Policy\<close>, \<open>Channel_Access\<close>, \<open>Channel_Cycle\<close>: the event contract and channel policy, the access
    decision as the composition of policy, envelope and pairing (over the contract \<open>pairing_evaluator\<close>),
    and one cycle of the runtime: partition into batches, duplicate suppression, bounded state, accounting.
  \<^item> \<open>Safety_Scan\<close>: rules, scans and redaction (\<open>tau-safety\<close>): the specification \<open>redact_runs\<close> replaces each
    maximal run of matched bytes, and the merging of ranges implements it.
  \<^item> \<open>Agent_Context\<close>: token estimates, context pressure, compaction, structured output, the stream
    buffer and the caches (contract \<open>limited_cache\<close>) of \<open>runtime_turn_loop.rs\<close> and \<open>runtime_startup.rs\<close>.
  \<^item> \<open>Agent_Process\<close>: the supervisor of \<open>process_types.rs\<close> as a step relation.
  \<^item> \<open>Agent_Types\<close>, \<open>Agent_State\<close>, \<open>Agent_Request\<close>, \<open>Agent_Turn\<close>: the agent of
    \<open>tau-agent-core/src/lib.rs\<close>: data; state, tools, safety gates, caches and cost; requests and client
    retries; tool execution, branch follow-ups and the turn loop.
  \<^item> \<open>Agent_Properties\<close>, \<open>Agent_Guarantees\<close>: what each operation adds to the history, that every tool call
    is answered, that branches do not nest, and the guarantees on retries, streams, safety and schemas.

  \<^item> \<open>Provider_Types\<close>: providers, model references and retry delays (\<open>provider.rs\<close>, \<open>retry.rs\<close>): references
    round-trip, delays are bounded below and above whatever the jitter.
  \<^item> \<open>Provider_Fallback\<close>: the router of \<open>fallback.rs\<close>. The operations on the circuits refine a count of failures in
    a row along every interleaving (an interpretation of \<open>operation_history\<close>); the outcome of a request is stated over the
    attempts it made and the routes it skipped.
  \<^item> \<open>Provider_Anthropic\<close>, \<open>Provider_Client\<close>: the client of \<open>anthropic.rs\<close>: request bodies, responses, the stream as
    a fold over chunks, lines and events, and the request loop. A stream does not depend on its chunks, its text is what was
    shown, a body keeps the tool traffic, the number of requests is bounded.
  \<^item> \<open>Event_Types\<close>, \<open>Event_Scheduler\<close>: definitions, due decisions and a poll of \<open>tau-events/src/lib.rs\<close>: which events
    run, which files are removed, when a periodic event runs again.
  \<^item> \<open>Event_Webhook\<close>, \<open>Event_Reports\<close>: signed webhooks and their replay guard; inspection, validation, simulation and
    dry run, and that inspection and dry run predict the poll.

  \<^bold>\<open>Loops and bounds.\<close> Every loop of the modelled code is a total function: the graph walks end
  because each step visits a new key, the pruning loop of repair because the map shrinks, the others
  are structural. No fuel is used, with one exception: the agent's prompt and its branch workers call
  each other, and \<open>nested_prompt\<close> bounds the depth; \<open>branches_do_not_nest\<close> shows that the bound of
  \<open>prompt_internal\<close> cuts nothing off. Where an id counter could wrap, the property names the bound; the
  attempt counter of a rollout is assumed below \<open>u32::MAX\<close> in \<open>counts_ok\<close>.

  \<^bold>\<open>Not modelled.\<close> Rendering of command output, networking, the SQL engines, floating-point
  algorithms (memory ranking, policy optimisation) and the user interfaces. Open for a later version: branch aliases
  and session commands, the SQLite training store as a second provider of the queue contract, the OpenAI and Google
  clients on the interface the Anthropic client has, credential storage, and the gateway protocol.
\<close>

end
